(* ===== verification/Mesi_Prelude.thy ===== *)
theory Mesi_Prelude
  imports Main "HOL-Library.Sublist"
begin

text \<open>
  Shared vocabulary of the development.

  A C string (\<open>const char *\<close>) is the list of its bytes before the terminating NUL, so
  \<open>*p == '\0'\<close> reads as "the rest of the list is empty" and a moving pointer is the
  remaining list; a pointer that may be NULL is a \<open>string option\<close>.  Scanning loops
  \<open>while (P(*p)) p++\<close> are \<open>dropWhile P\<close> and the bytes they pass are
  \<open>takeWhile P\<close>.  \<open>byte c\<close> is the \<open>unsigned char\<close> value of a byte.
\<close>

named_theorems cfg_defs \<open>definitions of directive handlers, unfolded by their proofs\<close>
named_theorems char_simps \<open>byte classes of literal characters\<close>

subsection \<open>Bytes and byte classes\<close>

abbreviation byte :: "char \<Rightarrow> nat" where
  "byte c \<equiv> of_char c"

definition is_blank :: "char \<Rightarrow> bool" where
  "is_blank c \<longleftrightarrow> c = CHR '' '' \<or> c = CHR 0x09"

definition is_digit :: "char \<Rightarrow> bool" where
  "is_digit c \<longleftrightarrow> 48 \<le> byte c \<and> byte c \<le> 57"

definition digit_val :: "char \<Rightarrow> nat" where
  "digit_val c = byte c - 48"

definition digit_char :: "nat \<Rightarrow> char" where
  "digit_char d = char_of (48 + d)"

text \<open>\<open>tolower\<close> in the C locale, the folding of \<open>strcasecmp\<close>.\<close>

definition lower :: "char \<Rightarrow> char" where
  "lower c = (if 65 \<le> byte c \<and> byte c \<le> 90 then char_of (byte c + 32) else c)"

definition strcaseeq :: "string \<Rightarrow> string \<Rightarrow> bool" where
  "strcaseeq s t \<longleftrightarrow> map lower s = map lower t"

lemma strcaseeq_length: "strcaseeq s t \<Longrightarrow> length s = length t"
  unfolding strcaseeq_def by (metis length_map)

text \<open>\<open>strncasecmp (s, t, n) == 0\<close>: NUL ends the comparison as the end of the lists does.\<close>

definition strncaseeq :: "string \<Rightarrow> string \<Rightarrow> nat \<Rightarrow> bool" where
  "strncaseeq s t n \<longleftrightarrow> strcaseeq (take n s) (take n t)"

text \<open>\<open>strstr (s, t) != NULL\<close>.\<close>

fun contains :: "string \<Rightarrow> string \<Rightarrow> bool" where
  "contains [] t = (t = [])"
| "contains (c # cs) t = (prefix t (c # cs) \<or> contains cs t)"

lemma contains_iff: "contains s t \<longleftrightarrow> (\<exists>u v. s = u @ t @ v)"
proof -
  have "contains s t = sublist t s"
    by (induction s) (auto simp: sublist_Cons_right)
  then show ?thesis by (simp add: sublist_def)
qed

lemma blank_not_digit: "is_digit c \<Longrightarrow> \<not> is_blank c"
  by (auto simp: is_blank_def is_digit_def)

lemma digit_char_is_digit [simp]: "d < 10 \<Longrightarrow> is_digit (digit_char d)"
  by (simp add: is_digit_def digit_char_def)

lemma digit_val_char [simp]: "d < 10 \<Longrightarrow> digit_val (digit_char d) = d"
  by (simp add: digit_val_def digit_char_def)

lemma digit_val_bound: "is_digit c \<Longrightarrow> digit_val c < 10"
  by (auto simp: digit_val_def is_digit_def)

subsection \<open>Decimal numerals: printf's %d and the digit loops\<close>

fun show_nat :: "nat \<Rightarrow> string" where
  "show_nat n = (if n < 10 then [digit_char n] else show_nat (n div 10) @ [digit_char (n mod 10)])"

declare show_nat.simps [simp del]

definition show_int :: "int \<Rightarrow> string" where
  "show_int i = (if i < 0 then CHR ''-'' # show_nat (nat (- i)) else show_nat (nat i))"

text \<open>The value of a digit string: what every digit loop of the code should compute.\<close>

definition digits_val :: "string \<Rightarrow> nat" where
  "digits_val ds = foldl (\<lambda>v c. v * 10 + digit_val c) 0 ds"

lemma digits_val_Nil [simp]: "digits_val [] = 0"
  by (simp add: digits_val_def)

lemma digits_val_snoc [simp]: "digits_val (ds @ [c]) = digits_val ds * 10 + digit_val c"
  by (simp add: digits_val_def)

lemma show_nat_digits: "\<forall>c \<in> set (show_nat n). is_digit c"
proof (induction n rule: show_nat.induct)
  case (1 n)
  then show ?case by (subst show_nat.simps) auto
qed

lemma show_nat_Nil [simp]: "show_nat n \<noteq> []"
  by (subst show_nat.simps) simp

lemma digits_val_show_nat [simp]: "digits_val (show_nat n) = n"
proof (induction n rule: show_nat.induct)
  case (1 n)
  show ?case
  proof (cases "n < 10")
    case True
    then show ?thesis by (subst show_nat.simps) (simp add: digits_val_def)
  next
    case False
    with 1 show ?thesis by (subst show_nat.simps) simp
  qed
qed

lemma show_nat_no_leading_zero: "0 < n \<Longrightarrow> hd (show_nat n) \<noteq> CHR ''0''"
proof (induction n rule: show_nat.induct)
  case (1 n)
  show ?case
  proof (cases "n < 10")
    case True
    have "digit_char n \<noteq> CHR ''0''"
    proof
      assume "digit_char n = CHR ''0''"
      then have "digit_val (digit_char n) = digit_val CHR ''0''" by simp
      with True 1(2) show False by (simp add: digit_val_def digit_char_def)
    qed
    with True show ?thesis by (subst show_nat.simps) simp
  next
    case False
    then have "0 < n div 10" by simp
    with False 1(1) show ?thesis by (subst show_nat.simps) simp
  qed
qed

lemma show_nat_zero [simp]: "show_nat 0 = ''0''"
  by (subst show_nat.simps) (simp add: digit_char_def char_of_def bit_iff_odd)

lemma digits_val_bound: "\<forall>c \<in> set ds. is_digit c \<Longrightarrow> digits_val ds < 10 ^ length ds"
proof (induction ds rule: rev_induct)
  case Nil
  then show ?case by simp
next
  case (snoc c ds)
  then have "digits_val ds < 10 ^ length ds" and "digit_val c < 10"
    by (auto intro: digit_val_bound)
  then show ?case by simp
qed

lemma length_show_nat_le: "n < 10 ^ k \<Longrightarrow> 0 < k \<Longrightarrow> length (show_nat n) \<le> k"
proof (induction k arbitrary: n)
  case 0
  then show ?case by simp
next
  case (Suc k)
  show ?case
  proof (cases "n < 10")
    case True
    then show ?thesis by (subst show_nat.simps) simp
  next
    case False
    with Suc.prems have "n div 10 < 10 ^ k" and "0 < k"
      by (auto simp: less_mult_imp_div_less mult.commute intro: Suc_leI gr0I)
    then have "length (show_nat (n div 10)) \<le> k" by (rule Suc.IH)
    with False show ?thesis by (subst show_nat.simps) simp
  qed
qed

subsection \<open>Machine integers written on int\<close>

text \<open>
  Signed C integers are carried as \<open>int\<close>; where an expression could leave its type the
  model applies the two's complement reduction, so an overflow would be visible as a wrong
  value (in C it would be undefined).
\<close>

definition s32 :: "int \<Rightarrow> int" where
  "s32 x = (x + 2 ^ 31) mod 2 ^ 32 - 2 ^ 31"

definition s64 :: "int \<Rightarrow> int" where
  "s64 x = (x + 2 ^ 63) mod 2 ^ 64 - 2 ^ 63"

lemma s32_id [simp]: "- (2 ^ 31) \<le> x \<Longrightarrow> x < 2 ^ 31 \<Longrightarrow> s32 x = x"
  by (simp add: s32_def)

lemma s64_id [simp]: "- (2 ^ 63) \<le> x \<Longrightarrow> x < 2 ^ 63 \<Longrightarrow> s64 x = x"
  by (simp add: s64_def)

text \<open>C's division truncates towards zero.\<close>

definition c_div :: "int \<Rightarrow> int \<Rightarrow> int" where
  "c_div a b = sgn a * sgn b * (\<bar>a\<bar> div \<bar>b\<bar>)"

lemma c_div_nonneg [simp]: "0 \<le> a \<Longrightarrow> 0 < b \<Longrightarrow> c_div a b = a div b"
  by (cases "a = 0") (simp_all add: c_div_def)

subsection \<open>Scanning\<close>

lemma append_single [simp]: "(@) [c] = (#) c"
  by auto

lemma dropWhile_split: "xs = takeWhile P xs @ dropWhile P xs"
  by simp

lemma dropWhile_hd: "dropWhile P xs = x # ys \<Longrightarrow> \<not> P x"
  by (metis hd_dropWhile list.distinct(1) list.sel(1))

lemma dropWhile_skip: "\<forall>x \<in> set ps. P x \<Longrightarrow> (ds = [] \<or> \<not> P (hd ds)) \<Longrightarrow> dropWhile P (ps @ ds) = ds"
  by (induction ps) (auto intro: dropWhile_eq_self_iff [THEN iffD2])

subsection \<open>UTF-8\<close>

text \<open>The encoding of a code point of the Basic Multilingual Plane.\<close>

definition utf8 :: "nat \<Rightarrow> string" where
  "utf8 n =
     (if n < 128 then [char_of n]
      else if n < 2048 then [char_of (192 + n div 64), char_of (128 + n mod 64)]
      else [char_of (224 + n div 4096), char_of (128 + n div 64 mod 64), char_of (128 + n mod 64)])"

subsection \<open>The interface: a decimal parser\<close>

text \<open>
  A directive argument of type \<open>'a\<close> is read as a number in \<open>[lo, hi]\<close>:
  \<open>token\<close> gives its digits when it has the parser's grammar, \<open>fits\<close> is the extra
  restriction a parser puts on the digit string, \<open>bounds\<close> the ranges it is used with.
\<close>

locale decimal_parser =
  fixes parse :: "int \<Rightarrow> int \<Rightarrow> 'a \<Rightarrow> 'e + int"
    and token :: "'a \<Rightarrow> string option"
    and arg_of :: "string \<Rightarrow> 'a"
    and fits :: "string \<Rightarrow> bool"
    and bounds :: "int \<Rightarrow> int \<Rightarrow> bool"
  assumes parse_iff: "bounds lo hi \<Longrightarrow>
    parse lo hi arg = Inr v \<longleftrightarrow>
      (\<exists>ds. token arg = Some ds \<and> fits ds \<and> v = int (digits_val ds) \<and> lo \<le> v \<and> v \<le> hi)"
    and fits_short: "length ds \<le> 9 \<Longrightarrow> fits ds"
    and token_show: "token (arg_of (show_nat n)) = Some (show_nat n)"
begin

lemma parse_range: "bounds lo hi \<Longrightarrow> parse lo hi arg = Inr v \<Longrightarrow> lo \<le> v \<and> v \<le> hi \<and> 0 \<le> v"
  by (auto simp: parse_iff)

lemma parse_show:
  assumes "bounds lo hi" and "lo \<le> int n" and "int n \<le> hi" and "n < 10 ^ 9"
  shows "parse lo hi (arg_of (show_nat n)) = Inr (int n)"
proof -
  have "fits (show_nat n)" using assms(4) by (intro fits_short length_show_nat_le) auto
  with assms show ?thesis by (auto simp: parse_iff token_show)
qed

lemma parse_no_token:
  assumes "bounds lo hi" and "token arg = None"
  shows "\<exists>e. parse lo hi arg = Inl e"
proof -
  have "\<nexists>v. parse lo hi arg = Inr v" using assms by (auto simp: parse_iff)
  then show ?thesis by (cases "parse lo hi arg") auto
qed

end

end
