(* ===== verification/Mesi_Json.thy ===== *)
theory Mesi_Json
  imports Mesi_Prelude
begin

text \<open>
  The JSON side of the contract with libgomesi, as the specification of every blob
  the modules render.  \<open>json_read\<close> is a reader for compact JSON texts (strings with
  all RFC 8259 escapes but surrogate pairs, integers without leading zeros, booleans, arrays,
  objects); \<open>render quote\<close> writes a value, with the string quoter as a parameter.  The locale
  \<open>json_quoter\<close> is the interface a C escaping routine has to meet; its lemma
  \<open>json_read_render\<close> says that a text rendered through such a routine reads back as
  exactly the value rendered, whatever bytes the strings hold.
\<close>

datatype json =
    JStr string
  | JInt int
  | JBool bool
  | JArr "json list"
  | JObj "(string \<times> json) list"

subsection \<open>Reading string literals\<close>

definition hex_val :: "char \<Rightarrow> nat option" where
  "hex_val c = (if is_digit c then Some (byte c - 48)
                else if 97 \<le> byte c \<and> byte c \<le> 102 then Some (byte c - 87)
                else if 65 \<le> byte c \<and> byte c \<le> 70 then Some (byte c - 55)
                else None)"

definition hex4 :: "char \<Rightarrow> char \<Rightarrow> char \<Rightarrow> char \<Rightarrow> nat option" where
  "hex4 a b c d =
     (case (hex_val a, hex_val b, hex_val c, hex_val d) of
        (Some w, Some x, Some y, Some z) \<Rightarrow> Some (((w * 16 + x) * 16 + y) * 16 + z)
      | _ \<Rightarrow> None)"

definition simple_escape :: "char \<Rightarrow> char option" where
  "simple_escape c = map_of
     [(CHR 0x22, CHR 0x22), (CHR 0x5C, CHR 0x5C), (CHR ''/'', CHR ''/''), (CHR ''b'', CHR 0x08),
      (CHR ''f'', CHR 0x0C), (CHR ''n'', CHR 0x0A), (CHR ''r'', CHR 0x0D), (CHR ''t'', CHR 0x09)] c"

text \<open>Reads up to the closing quote: the decoded bytes and what follows the quote.\<close>

fun read_str :: "string \<Rightarrow> (string \<times> string) option" where
  "read_str [] = None"
| "read_str (c # cs) =
     (if c = CHR 0x22 then Some ([], cs)
      else if c = CHR 0x5C then
        (case cs of
           [] \<Rightarrow> None
         | e # es \<Rightarrow>
             (if e = CHR ''u'' then
                (case es of
                   h1 # h2 # h3 # h4 # rest \<Rightarrow>
                     (case hex4 h1 h2 h3 h4 of
                        None \<Rightarrow> None
                      | Some n \<Rightarrow>
                          (if 55296 \<le> n \<and> n < 57344 then None
                           else map_option (map_prod (append (utf8 n)) id) (read_str rest)))
                 | _ \<Rightarrow> None)
              else
                (case simple_escape e of
                   None \<Rightarrow> None
                 | Some x \<Rightarrow> map_option (map_prod (Cons x) id) (read_str es))))
      else if byte c < 32 then None
      else map_option (map_prod (Cons c) id) (read_str cs))"

subsection \<open>Reading values\<close>

definition read_int :: "string \<Rightarrow> (json \<times> string) option" where
  "read_int s =
     (let neg = (s \<noteq> [] \<and> hd s = CHR ''-'');
          t = (if neg then tl s else s);
          ds = takeWhile is_digit t
      in if ds = [] \<or> (1 < length ds \<and> hd ds = CHR ''0'') then None
         else Some (JInt (if neg then - int (digits_val ds) else int (digits_val ds)),
                    dropWhile is_digit t))"

fun read_value :: "nat \<Rightarrow> string \<Rightarrow> (json \<times> string) option"
and read_items :: "nat \<Rightarrow> string \<Rightarrow> (json list \<times> string) option"
and read_members :: "nat \<Rightarrow> string \<Rightarrow> ((string \<times> json) list \<times> string) option" where
  "read_value 0 s = None"
| "read_value (Suc n) s =
     (case s of
        [] \<Rightarrow> None
      | c # cs \<Rightarrow>
          (if c = CHR 0x22 then map_option (map_prod JStr id) (read_str cs)
           else if c = CHR ''['' then
             (if cs \<noteq> [] \<and> hd cs = CHR '']'' then Some (JArr [], tl cs)
              else map_option (map_prod JArr id) (read_items n cs))
           else if c = CHR ''{'' then
             (if cs \<noteq> [] \<and> hd cs = CHR ''}'' then Some (JObj [], tl cs)
              else map_option (map_prod JObj id) (read_members n cs))
           else if prefix ''true'' s then Some (JBool True, drop 4 s)
           else if prefix ''false'' s then Some (JBool False, drop 5 s)
           else read_int s))"
| "read_items 0 s = None"
| "read_items (Suc n) s =
     (case read_value n s of
        Some (v, c # r) \<Rightarrow>
          (if c = CHR '','' then map_option (map_prod (Cons v) id) (read_items n r)
           else if c = CHR '']'' then Some ([v], r)
           else None)
      | _ \<Rightarrow> None)"
| "read_members 0 s = None"
| "read_members (Suc n) s =
     (case s of
        [] \<Rightarrow> None
      | q # cs \<Rightarrow>
          (if q = CHR 0x22 then
             (case read_str cs of
                Some (k, colon # r) \<Rightarrow>
                  (if colon = CHR '':'' then
                     (case read_value n r of
                        Some (v, c # r') \<Rightarrow>
                          (if c = CHR '','' then map_option (map_prod (Cons (k, v)) id) (read_members n r')
                           else if c = CHR ''}'' then Some ([(k, v)], r')
                           else None)
                      | _ \<Rightarrow> None)
                   else None)
              | _ \<Rightarrow> None)
           else None))"

text \<open>A whole text: a value and nothing after it; the fuel is the length of the text.\<close>

definition json_read :: "string \<Rightarrow> json option" where
  "json_read s = (case read_value (length s) s of Some (v, []) \<Rightarrow> Some v | _ \<Rightarrow> None)"

subsection \<open>Rendering\<close>

fun commas :: "string list \<Rightarrow> string" where
  "commas [] = []"
| "commas [x] = x"
| "commas (x # y # zs) = x @ '','' @ commas (y # zs)"

fun render :: "(string \<Rightarrow> string) \<Rightarrow> json \<Rightarrow> string" where
  "render q (JStr s) = q s"
| "render q (JInt i) = show_int i"
| "render q (JBool b) = (if b then ''true'' else ''false'')"
| "render q (JArr js) = ''['' @ commas (map (render q) js) @ '']''"
| "render q (JObj ms) = ''{'' @ commas (map (\<lambda>(k, v). q k @ '':'' @ render q v) ms) @ ''}''"

fun all_strings :: "(string \<Rightarrow> bool) \<Rightarrow> json \<Rightarrow> bool" where
  "all_strings P (JStr s) = P s"
| "all_strings P (JInt i) = True"
| "all_strings P (JBool b) = True"
| "all_strings P (JArr js) = (\<forall>j \<in> set js. all_strings P j)"
| "all_strings P (JObj ms) = (\<forall>(k, v) \<in> set ms. P k \<and> all_strings P v)"

text \<open>Fuel a value needs; never more than the length of its rendering.\<close>

fun need :: "json \<Rightarrow> nat" where
  "need (JArr js) = Suc (sum_list (map (\<lambda>j. Suc (need j)) js))"
| "need (JObj ms) = Suc (sum_list (map (\<lambda>(k, v). Suc (need v)) ms))"
| "need _ = 1"

subsection \<open>Reading a rendered value back\<close>

lemma takeWhile_digits_append:
  assumes "\<forall>c \<in> set ds. is_digit c" and "rest = [] \<or> \<not> is_digit (hd rest)"
  shows "takeWhile is_digit (ds @ rest) = ds" and "dropWhile is_digit (ds @ rest) = rest"
  using assms by (cases rest; induction ds; auto)+

lemma hd_show_nat: "hd (show_nat n) \<noteq> CHR ''-''"
proof -
  have "is_digit (hd (show_nat n))" using show_nat_digits [of n] by simp
  then show ?thesis by (auto simp: is_digit_def)
qed

lemma show_nat_zero_only: "Suc 0 < length (show_nat n) \<Longrightarrow> hd (show_nat n) \<noteq> CHR ''0''"
  by (cases "n = 0") (simp_all add: show_nat_no_leading_zero)

lemma read_int_show:
  assumes "rest = [] \<or> \<not> is_digit (hd rest)"
  shows "read_int (show_int i @ rest) = Some (JInt i, rest)"
proof -
  have tw: "takeWhile is_digit (show_nat m @ rest) = show_nat m"
    and dw: "dropWhile is_digit (show_nat m @ rest) = rest" for m
    using takeWhile_digits_append [OF _ assms] show_nat_digits by auto
  show ?thesis
  proof (cases "i < 0")
    case True
    then show ?thesis
      by (auto simp: read_int_def show_int_def tw dw Let_def dest: show_nat_zero_only)
  next
    case False
    then show ?thesis
      using hd_show_nat [of "nat i"]
      by (auto simp: read_int_def show_int_def tw dw Let_def dest: show_nat_zero_only)
  qed
qed

lemma show_int_cons: "\<exists>c cs. show_int i = c # cs \<and> (is_digit c \<or> c = CHR ''-'')"
proof (cases "i < 0")
  case False
  obtain c cs where "show_nat (nat i) = c # cs" by (cases "show_nat (nat i)") auto
  with show_nat_digits [of "nat i"] False show ?thesis by (auto simp: show_int_def)
qed (auto simp: show_int_def)

lemma read_value_int:
  assumes "rest = [] \<or> \<not> is_digit (hd rest)"
  shows "read_value (Suc n) (show_int i @ rest) = Some (JInt i, rest)"
proof -
  obtain c cs where c: "show_int i = c # cs" "is_digit c \<or> c = CHR ''-''"
    using show_int_cons by blast
  then have "c \<noteq> CHR 0x22" "c \<noteq> CHR ''[''" "c \<noteq> CHR ''{''" "c \<noteq> CHR ''t''" "c \<noteq> CHR ''f''"
    by (auto simp: is_digit_def)
  with c read_int_show [OF assms, of i] show ?thesis by simp
qed

lemma read_value_bool:
  "read_value (Suc n) (render q (JBool b) @ rest) = Some (JBool b, rest)"
  by simp

locale json_quoter =
  fixes quote :: "string \<Rightarrow> string"
    and legal :: "string \<Rightarrow> bool"
  assumes quote_opens: "\<exists>body. quote s = CHR 0x22 # body"
    and read_quote: "legal s \<Longrightarrow> read_str (tl (quote s) @ rest) = Some (s, rest)"
begin

lemma read_value_str:
  assumes "legal s"
  shows "read_value (Suc n) (quote s @ rest) = Some (JStr s, rest)"
proof -
  obtain body where "quote s = CHR 0x22 # body" using quote_opens by blast
  with read_quote [OF assms, of rest] show ?thesis by simp
qed

lemma render_first: "\<exists>c cs. render quote j = c # cs \<and> c \<noteq> CHR '']'' \<and> c \<noteq> CHR ''}''"
proof (cases j)
  case (JStr s)
  then show ?thesis using quote_opens [of s] by auto
next
  case (JInt i)
  then show ?thesis using show_int_cons [of i] by (auto simp: is_digit_def)
qed auto

lemma read_items_render:
  assumes "js \<noteq> []"
    and "\<And>j n r. j \<in> set js \<Longrightarrow> need j \<le> n \<Longrightarrow> r = [] \<or> \<not> is_digit (hd r) \<Longrightarrow>
           read_value n (render quote j @ r) = Some (j, r)"
    and "sum_list (map (\<lambda>j. Suc (need j)) js) \<le> n"
  shows "read_items n (commas (map (render quote) js) @ CHR '']'' # rest) = Some (js, rest)"
  using assms
proof (induction js arbitrary: n)
  case Nil
  then show ?case by simp
next
  case (Cons j js)
  then obtain m where n: "n = Suc m" by (cases n) auto
  show ?case
  proof (cases js)
    case Nil
    with Cons.prems(2) [of j m "CHR '']'' # rest"] Cons.prems(3) show ?thesis
      by (simp add: n is_digit_def)
  next
    case (Cons j' js')
    have v: "read_value m (render quote j @ CHR '','' # t) = Some (j, CHR '','' # t)" for t
      using Cons.prems(2) [of j m "CHR '','' # t"] Cons.prems(3) by (simp add: n is_digit_def)
    have "read_items m (commas (map (render quote) js) @ CHR '']'' # rest) = Some (js, rest)"
      using Cons Cons.prems by (intro Cons.IH) (auto simp: n)
    with Cons v show ?thesis by (simp add: n)
  qed
qed

lemma read_members_render:
  assumes "ms \<noteq> []" and "\<forall>(k, v) \<in> set ms. legal k"
    and "\<And>k v n r. (k, v) \<in> set ms \<Longrightarrow> need v \<le> n \<Longrightarrow> r = [] \<or> \<not> is_digit (hd r) \<Longrightarrow>
           read_value n (render quote v @ r) = Some (v, r)"
    and "sum_list (map (\<lambda>(k, v). Suc (need v)) ms) \<le> n"
  shows "read_members n
           (commas (map (\<lambda>(k, v). quote k @ '':'' @ render quote v) ms) @ CHR ''}'' # rest) = Some (ms, rest)"
  using assms
proof (induction ms arbitrary: n)
  case Nil
  then show ?case by simp
next
  case (Cons m ms)
  obtain k v where m: "m = (k, v)" by (cases m)
  obtain body where q: "quote k = CHR 0x22 # body" using quote_opens by blast
  have k: "read_str (body @ t) = Some (k, t)" for t
    using read_quote [of k t] Cons.prems(2) m q by auto
  from Cons.prems(4) obtain l where n: "n = Suc l" by (cases n) (auto simp: m)
  have v: "read_value l (render quote v @ c # t) = Some (v, c # t)" if "\<not> is_digit c" for c t
    using Cons.prems(3) [of k v l "c # t"] Cons.prems(4) that by (simp add: n m)
  show ?case
  proof (cases ms)
    case Nil
    with v [of "CHR ''}''" rest] show ?thesis by (simp add: n m q k is_digit_def)
  next
    case (Cons m' ms')
    have "read_members l
            (commas (map (\<lambda>(k, v). quote k @ '':'' @ render quote v) ms) @ CHR ''}'' # rest) = Some (ms, rest)"
      using Cons Cons.prems by (intro Cons.IH) (auto simp: n m)
    with Cons v [of "CHR '',''"] show ?thesis by (simp add: n m q k is_digit_def split_def)
  qed
qed

lemma read_value_render:
  "all_strings legal j \<Longrightarrow> need j \<le> n \<Longrightarrow> rest = [] \<or> \<not> is_digit (hd rest) \<Longrightarrow>
    read_value n (render quote j @ rest) = Some (j, rest)"
proof (induction j arbitrary: n rest)
  case (JStr s)
  then show ?case by (cases n) (simp_all add: read_value_str del: read_value.simps)
next
  case (JInt i)
  then show ?case by (cases n) (simp_all add: read_value_int del: read_value.simps)
next
  case (JBool b)
  then show ?case by (cases n) auto
next
  case (JArr js)
  then obtain m where n: "n = Suc m" by (cases n) auto
  show ?case
  proof (cases js)
    case Nil
    then show ?thesis by (simp add: n)
  next
    case (Cons j js')
    have "read_items m (commas (map (render quote) js) @ CHR '']'' # rest) = Some (js, rest)"
      using JArr Cons by (intro read_items_render) (auto simp: n)
    moreover obtain c cs where "commas (map (render quote) js) = c # cs" "c \<noteq> CHR '']''"
      using render_first [of j] Cons by (cases js') auto
    ultimately show ?thesis by (simp add: n)
  qed
next
  case (JObj ms)
  then obtain m where n: "n = Suc m" by (cases n) auto
  show ?case
  proof (cases ms)
    case Nil
    then show ?thesis by (simp add: n)
  next
    case (Cons x ms')
    obtain k v where x: "x = (k, v)" by (cases x)
    have "read_members m
            (commas (map (\<lambda>(k, v). quote k @ '':'' @ render quote v) ms) @ CHR ''}'' # rest) = Some (ms, rest)"
      using JObj Cons by (intro read_members_render) (fastforce simp: n)+
    moreover obtain cs where "commas (map (\<lambda>(k, v). quote k @ '':'' @ render quote v) ms) = CHR 0x22 # cs"
      using quote_opens [of k] Cons x by (cases ms') auto
    ultimately show ?thesis by (simp add: n)
  qed
qed

lemma quote_nonempty: "1 \<le> length (quote s)"
  using quote_opens [of s] by auto

lemma commas_length: "sum_list (map length xs) + length xs \<le> Suc (length (commas xs))"
  by (induction xs rule: commas.induct) auto

lemma need_le_length: "need j \<le> length (render quote j)"
proof (induction j)
  case (JStr s)
  then show ?case using quote_nonempty [of s] by simp
next
  case (JInt i)
  then show ?case using show_int_cons [of i] by auto
next
  case (JArr js)
  have "sum_list (map (\<lambda>j. Suc (need j)) js) \<le> sum_list (map (\<lambda>j. Suc (length (render quote j))) js)"
    using JArr by (intro sum_list_mono) auto
  also have "\<dots> \<le> Suc (length (commas (map (render quote) js)))"
    using commas_length [of "map (render quote) js"] by (simp add: sum_list_Suc comp_def)
  finally show ?case by simp
next
  case (JObj ms)
  have "need v \<le> length (quote k @ '':'' @ render quote v)" if "(k, v) \<in> set ms" for k v
    using JObj that by fastforce
  then have "sum_list (map (\<lambda>(k, v). Suc (need v)) ms)
      \<le> sum_list (map (\<lambda>(k, v). Suc (length (quote k @ '':'' @ render quote v))) ms)"
    by (intro sum_list_mono) auto
  also have "\<dots> \<le> Suc (length (commas (map (\<lambda>(k, v). quote k @ '':'' @ render quote v) ms)))"
    using commas_length [of "map (\<lambda>(k, v). quote k @ '':'' @ render quote v) ms"]
    by (simp add: sum_list_Suc comp_def split_def)
  finally show ?case by simp
qed auto

lemma json_read_render:
  assumes "all_strings legal j"
  shows "json_read (render quote j) = Some j"
  using read_value_render [OF assms need_le_length, of "[]"] by (simp add: json_read_def)

end

end
