(* ===== verification/Apache_Blob.thy ===== *)
theory Apache_Blob
  imports Mesi_Json
begin

text \<open>
  \<open>servers/apache/parse_json_config.h\<close>: the JSON blob that \<open>mod_mesi\<close> hands to
  libgomesi's \<open>ParseJson\<close>.  \<open>mesi_json_string\<close> is an instance of the quoter
  interface, and the blob reads back as the object \<open>blob_members\<close> lists: no value can
  break out of its string, no configured key is dropped, no unset one is rendered.
\<close>

named_theorems key_quotes \<open>the quoted form of the literal keys\<close>

text \<open>\<open>mesi_parse_json_config\<close>; integers of C type \<open>int\<close> and
  \<open>apr_off_t\<close> are \<open>int\<close>, flags compared with \<open>!= 0\<close> too.\<close>

record parse_json_config =
  pj_depth :: int
  pj_base_url :: "string option"
  pj_allowed_hosts :: "string option"
  pj_block_private_ips :: int
  pj_allow_private_for_allowed :: int
  pj_request_ctx_json :: "string option"
  pj_timeout_seconds :: int
  pj_max_response_size :: int
  pj_max_concurrent_requests :: int
  pj_max_workers :: int
  pj_debug :: int
  pj_parse_on_header :: int
  pj_include_error_marker :: "string option"
  pj_cache_key_template :: "string option"

subsection \<open>String escaping\<close>

definition hex_digits :: string where
  "hex_digits = ''0123456789abcdef''"

definition escape_byte :: "char \<Rightarrow> string" where
  "escape_byte c =
     (if c = CHR 0x22 then [CHR 0x5C, CHR 0x22]
      else if c = CHR 0x5C then [CHR 0x5C, CHR 0x5C]
      else if byte c < 32 then
        [CHR 0x5C, CHR ''u'', CHR ''0'', CHR ''0'',
         hex_digits ! (byte c div 16 mod 16), hex_digits ! (byte c mod 16)]
      else [c])"

definition mesi_json_string :: "string option \<Rightarrow> string" where
  "mesi_json_string s =
     (let s' = (case s of None \<Rightarrow> [] | Some t \<Rightarrow> t)
      in CHR 0x22 # concat (map escape_byte s') @ [CHR 0x22])"

text \<open>\<open>apr_palloc (pool, len * 6 + 3)\<close>\<close>

definition mesi_json_string_alloc :: "string \<Rightarrow> nat" where
  "mesi_json_string_alloc s = length s * 6 + 3"

lemma hex_digit_value:
  assumes "k < 16"
  shows "hex_val (hex_digits ! k) = Some k"
proof -
  have "map hex_val hex_digits = map Some [0..<16]" by code_simp
  then have "map hex_val hex_digits ! k = map Some [0..<16] ! k" by simp
  moreover have "length hex_digits = 16" by (simp add: hex_digits_def)
  ultimately show ?thesis using assms nth_map [of k hex_digits hex_val] by (simp del: list.map upt_rec_numeral)
qed

lemma hex4_control: "n < 32 \<Longrightarrow>
  hex4 CHR ''0'' CHR ''0'' (hex_digits ! (n div 16)) (hex_digits ! (n mod 16)) = Some n"
  using hex_digit_value [of "n div 16"] hex_digit_value [of "n mod 16"] hex_digit_value [of 0]
  by (simp add: hex4_def hex_digits_def div_less_iff_less_mult)

lemma read_str_escape_byte:
  "read_str (escape_byte c @ rest) = map_option (map_prod (Cons c) id) (read_str rest)"
proof -
  have "(@) [c] = (#) c" by auto
  then show ?thesis by (auto simp: escape_byte_def hex4_control utf8_def simple_escape_def)
qed

lemma read_str_escaped: "read_str (concat (map escape_byte s) @ CHR 0x22 # rest) = Some (s, rest)"
  by (induction s) (simp_all add: read_str_escape_byte)

abbreviation quote_full :: "string \<Rightarrow> string" where
  "quote_full s \<equiv> mesi_json_string (Some s)"

interpretation apq: json_quoter quote_full "\<lambda>_. True"
  by unfold_locales (simp_all add: mesi_json_string_def read_str_escaped)

lemma all_strings_True [simp]: "all_strings (\<lambda>_. True) j"
  by (induction j) auto

lemma length_escape_byte: "length (escape_byte c) \<le> 6"
  by (simp add: escape_byte_def)

lemma length_escaped: "length (concat (map escape_byte s)) \<le> length s * 6"
proof (induction s)
  case (Cons c s)
  then show ?case using length_escape_byte [of c] by simp
qed simp

subsection \<open>The blob\<close>

definition c_bool :: "int \<Rightarrow> string" where
  "c_bool b = (if b \<noteq> 0 then ''true'' else ''false'')"

definition nonempty :: "string option \<Rightarrow> bool" where
  "nonempty s \<longleftrightarrow> (case s of None \<Rightarrow> False | Some t \<Rightarrow> t \<noteq> [])"

definition mesi_build_parse_json_config :: "parse_json_config \<Rightarrow> string" where
  "mesi_build_parse_json_config cfg =
    (let timeout_part =
           (if pj_timeout_seconds cfg \<noteq> -1
            then '',\"timeoutSeconds\":'' @ show_int (pj_timeout_seconds cfg) else []);
         mrs_part =
           (if pj_max_response_size cfg \<noteq> -1
            then '',\"maxResponseSize\":'' @ show_int (pj_max_response_size cfg) else []);
         maxcr_part =
           (if pj_max_concurrent_requests cfg \<noteq> -1
            then '',\"maxConcurrentRequests\":'' @ show_int (pj_max_concurrent_requests cfg) else []);
         maxw_part =
           (if pj_max_workers cfg \<noteq> -1
            then '',\"maxWorkers\":'' @ show_int (pj_max_workers cfg) else []);
         debug_part =
           (if pj_debug cfg \<noteq> -1 then '',\"debug\":'' @ c_bool (pj_debug cfg) else []);
         poh_part =
           (if pj_parse_on_header cfg \<noteq> -1
            then '',\"parseOnHeader\":'' @ c_bool (pj_parse_on_header cfg) else []);
         marker_part =
           (if nonempty (pj_include_error_marker cfg)
            then '',\"includeErrorMarker\":'' @ mesi_json_string (pj_include_error_marker cfg) else []);
         tmpl_part =
           (if nonempty (pj_cache_key_template cfg)
            then '',\"cacheKeyTemplate\":'' @ mesi_json_string (pj_cache_key_template cfg) else []);
         ctx_part =
           (if nonempty (pj_cache_key_template cfg) \<and> nonempty (pj_request_ctx_json cfg)
            then '',\"requestCtx\":'' @ the (pj_request_ctx_json cfg) else [])
     in ''{\"maxDepth\":'' @ show_int (pj_depth cfg)
        @ '',\"defaultUrl\":'' @ mesi_json_string (pj_base_url cfg)
        @ '',\"allowedHosts\":'' @ mesi_json_string (pj_allowed_hosts cfg)
        @ '',\"blockPrivateIPs\":'' @ c_bool (pj_block_private_ips cfg)
        @ '',\"allowPrivateIPsForAllowedHosts\":'' @ c_bool (pj_allow_private_for_allowed cfg)
        @ timeout_part @ mrs_part @ maxcr_part @ maxw_part @ debug_part @ poh_part
        @ marker_part @ tmpl_part @ ctx_part @ ''}'')"

text \<open>What the blob has to say, as an object: the specification.\<close>

definition str_of :: "string option \<Rightarrow> string" where
  "str_of s = (case s of None \<Rightarrow> [] | Some t \<Rightarrow> t)"

definition opt_member :: "bool \<Rightarrow> string \<Rightarrow> json \<Rightarrow> (string \<times> json) list" where
  "opt_member b k v = (if b then [(k, v)] else [])"

definition blob_members :: "parse_json_config \<Rightarrow> json option \<Rightarrow> (string \<times> json) list" where
  "blob_members cfg ctx =
     [(''maxDepth'', JInt (pj_depth cfg)),
      (''defaultUrl'', JStr (str_of (pj_base_url cfg))),
      (''allowedHosts'', JStr (str_of (pj_allowed_hosts cfg))),
      (''blockPrivateIPs'', JBool (pj_block_private_ips cfg \<noteq> 0)),
      (''allowPrivateIPsForAllowedHosts'', JBool (pj_allow_private_for_allowed cfg \<noteq> 0))]
     @ opt_member (pj_timeout_seconds cfg \<noteq> -1) ''timeoutSeconds'' (JInt (pj_timeout_seconds cfg))
     @ opt_member (pj_max_response_size cfg \<noteq> -1) ''maxResponseSize'' (JInt (pj_max_response_size cfg))
     @ opt_member (pj_max_concurrent_requests cfg \<noteq> -1) ''maxConcurrentRequests''
         (JInt (pj_max_concurrent_requests cfg))
     @ opt_member (pj_max_workers cfg \<noteq> -1) ''maxWorkers'' (JInt (pj_max_workers cfg))
     @ opt_member (pj_debug cfg \<noteq> -1) ''debug'' (JBool (pj_debug cfg \<noteq> 0))
     @ opt_member (pj_parse_on_header cfg \<noteq> -1) ''parseOnHeader'' (JBool (pj_parse_on_header cfg \<noteq> 0))
     @ opt_member (nonempty (pj_include_error_marker cfg)) ''includeErrorMarker''
         (JStr (str_of (pj_include_error_marker cfg)))
     @ opt_member (nonempty (pj_cache_key_template cfg)) ''cacheKeyTemplate''
         (JStr (str_of (pj_cache_key_template cfg)))
     @ (case ctx of None \<Rightarrow> [] | Some j \<Rightarrow>
          opt_member (nonempty (pj_cache_key_template cfg)) ''requestCtx'' j)"

text \<open>The request context is JSON text made elsewhere: absent, empty, or the rendering of a value.\<close>

definition ctx_text :: "string option \<Rightarrow> json option \<Rightarrow> bool" where
  "ctx_text s ctx = (case ctx of None \<Rightarrow> \<not> nonempty s | Some j \<Rightarrow> s = Some (render quote_full j))"

lemma quoted_keys [key_quotes]:
  "quote_full ''maxDepth'' = ''\"maxDepth\"''"
  "quote_full ''defaultUrl'' = ''\"defaultUrl\"''"
  "quote_full ''allowedHosts'' = ''\"allowedHosts\"''"
  "quote_full ''blockPrivateIPs'' = ''\"blockPrivateIPs\"''"
  "quote_full ''allowPrivateIPsForAllowedHosts'' = ''\"allowPrivateIPsForAllowedHosts\"''"
  "quote_full ''timeoutSeconds'' = ''\"timeoutSeconds\"''"
  "quote_full ''maxResponseSize'' = ''\"maxResponseSize\"''"
  "quote_full ''maxConcurrentRequests'' = ''\"maxConcurrentRequests\"''"
  "quote_full ''maxWorkers'' = ''\"maxWorkers\"''"
  "quote_full ''debug'' = ''\"debug\"''"
  "quote_full ''parseOnHeader'' = ''\"parseOnHeader\"''"
  "quote_full ''includeErrorMarker'' = ''\"includeErrorMarker\"''"
  "quote_full ''cacheKeyTemplate'' = ''\"cacheKeyTemplate\"''"
  "quote_full ''requestCtx'' = ''\"requestCtx\"''"
  by code_simp+

lemma commas_Cons: "commas (x # xs) = x @ concat (map (\<lambda>y. '','' @ y) xs)"
  by (induction xs arbitrary: x) simp_all

lemma nonempty_render: "nonempty (Some (render quote_full j))"
  using apq.render_first [of j] by (auto simp: nonempty_def)

lemma c_bool_render: "render q (JBool (b \<noteq> 0)) = c_bool b"
  by (simp add: c_bool_def)

lemma quote_str_of: "quote_full (str_of s) = mesi_json_string s"
  by (cases s) (simp_all add: mesi_json_string_def str_of_def)

lemma concat_opt_member:
  "concat (map f (opt_member b k v)) = (if b then f (k, v) else [])"
  by (simp add: opt_member_def)

lemma blob_is_render:
  assumes "ctx_text (pj_request_ctx_json cfg) ctx"
  shows "mesi_build_parse_json_config cfg = render quote_full (JObj (blob_members cfg ctx))"
proof (cases ctx)
  case None
  with assms have "\<not> nonempty (pj_request_ctx_json cfg)" by (simp add: ctx_text_def)
  with None show ?thesis
    by (simp only: mesi_build_parse_json_config_def blob_members_def Let_def render.simps
          append_Cons append_Nil list.map map_append commas_Cons concat_append concat_opt_member
          key_quotes quote_str_of c_bool_render prod.case option.case concat.simps append_assoc
          append_Nil2 if_False simp_thms)
       (simp add: concat_opt_member key_quotes quote_str_of c_bool_def opt_member_def)
next
  case (Some j)
  with assms have "pj_request_ctx_json cfg = Some (render quote_full j)" by (simp add: ctx_text_def)
  with Some nonempty_render [of j] show ?thesis
    by (simp add: mesi_build_parse_json_config_def blob_members_def commas_Cons opt_member_def
          key_quotes quote_str_of c_bool_def)
qed

subsection \<open>Properties\<close>

text \<open>C12: the configuration blob that \<open>mesi_build_parse_json_config\<close> writes is
  JSON, and a reader gets back exactly the configuration: every resolved value, the optional
  keys only when their directive is set, and strings byte for byte whatever they hold.\<close>

theorem parse_blob_reads_back:
  assumes "ctx_text (pj_request_ctx_json cfg) ctx"
  shows "json_read (mesi_build_parse_json_config cfg) = Some (JObj (blob_members cfg ctx))"
  by (simp add: blob_is_render [OF assms] apq.json_read_render del: render.simps)

theorem parse_blob_reads_back_witness:
  "let cfg = \<lparr> pj_depth = 3, pj_base_url = Some ''http://a/'', pj_allowed_hosts = Some ''x \"y\"'',
       pj_block_private_ips = 1, pj_allow_private_for_allowed = 0, pj_request_ctx_json = None,
       pj_timeout_seconds = 5, pj_max_response_size = -1, pj_max_concurrent_requests = -1,
       pj_max_workers = -1, pj_debug = 0, pj_parse_on_header = -1,
       pj_include_error_marker = None, pj_cache_key_template = None \<rparr>
   in json_read (mesi_build_parse_json_config cfg) = Some (JObj (blob_members cfg None))"
  unfolding Let_def by (rule parse_blob_reads_back) (simp add: ctx_text_def nonempty_def)

text \<open>The escaped string always fits the \<open>6 * n + 3\<close> bytes allocated for it, with
  its closing NUL, and a JSON reader decodes it to the original bytes.\<close>

theorem json_string_fits_and_decodes:
  "length (mesi_json_string s) + 1 \<le> mesi_json_string_alloc (str_of s)
   \<and> json_read (mesi_json_string s) = Some (JStr (str_of s))"
proof
  show "length (mesi_json_string s) + 1 \<le> mesi_json_string_alloc (str_of s)"
    using length_escaped [of "str_of s"]
    by (cases s) (auto simp: mesi_json_string_def mesi_json_string_alloc_def str_of_def)
  have "mesi_json_string s = render quote_full (JStr (str_of s))"
    by (simp add: quote_str_of)
  then show "json_read (mesi_json_string s) = Some (JStr (str_of s))"
    by (simp only: apq.json_read_render all_strings_True)
qed

end
