(* ===== verification/Go_Json.thy ===== *)
theory Go_Json
  imports Apache_Blob
begin

text \<open>
  \<open>encoding/json\<close>, as far as libgomesi uses it: the texts that \<open>json.Unmarshal\<close> accepts and
  the values it sees in them.  Unlike the reader of \<open>Mesi_Json\<close>, which is the specification of
  what the C modules write, this one accepts every JSON text: white space, fractions, \<open>null\<close>,
  surrogate pairs, at most 10000 nested arrays and objects; a byte that is not UTF-8 becomes U+FFFD.
  A number keeps its text, a member the text of its value (a \<open>json.RawMessage\<close>).  The lemmas say
  what the decoder gets from a text that the C modules render.
\<close>

subsection \<open>Runes\<close>

text \<open>\<open>utf8.DecodeRune\<close>: the number of bytes of the rune at the start of a text, 0 when the first
  byte starts none.\<close>

fun tail_bytes :: "nat \<Rightarrow> nat \<Rightarrow> nat \<Rightarrow> string \<Rightarrow> bool" where
  "tail_bytes 0 lo hi cs = True"
| "tail_bytes (Suc k) lo hi [] = False"
| "tail_bytes (Suc k) lo hi (c # cs) = (lo \<le> byte c \<and> byte c \<le> hi \<and> tail_bytes k 128 191 cs)"

definition rune_tail :: "nat \<Rightarrow> (nat \<times> nat \<times> nat) option" where
  "rune_tail b =
    (if 194 \<le> b \<and> b \<le> 223 then Some (1, 128, 191)
     else if b = 224 then Some (2, 160, 191)
     else if b = 237 then Some (2, 128, 159)
     else if 225 \<le> b \<and> b \<le> 239 then Some (2, 128, 191)
     else if b = 240 then Some (3, 144, 191)
     else if 241 \<le> b \<and> b \<le> 243 then Some (3, 128, 191)
     else if b = 244 then Some (3, 128, 143)
     else None)"

definition rune_len :: "char \<Rightarrow> string \<Rightarrow> nat" where
  "rune_len c cs =
    (if byte c < 128 then 1
     else case rune_tail (byte c) of
            None \<Rightarrow> 0
          | Some (k, lo, hi) \<Rightarrow> if tail_bytes k lo hi cs then Suc k else 0)"

definition rune_error :: string where
  "rune_error = utf8 65533"

text \<open>Every byte that is part of no rune replaced; the first argument counts the bytes of the
  current rune that are still to come.\<close>

fun coerce_from :: "nat \<Rightarrow> string \<Rightarrow> string" where
  "coerce_from k [] = []"
| "coerce_from (Suc k) (c # cs) = c # coerce_from k cs"
| "coerce_from 0 (c # cs) =
     (case rune_len c cs of 0 \<Rightarrow> rune_error @ coerce_from 0 cs | Suc k \<Rightarrow> c # coerce_from k cs)"

definition go_utf8 :: "string \<Rightarrow> string" where
  "go_utf8 s = coerce_from 0 s"

definition utf8_valid :: "string \<Rightarrow> bool" where
  "utf8_valid s \<longleftrightarrow> go_utf8 s = s"

lemma ascii_coerce: "\<forall>c \<in> set s. byte c < 128 \<Longrightarrow> coerce_from 0 s = s"
  by (induction s) (simp_all add: rune_len_def)

lemma ascii_valid: "\<forall>c \<in> set s. byte c < 128 \<Longrightarrow> utf8_valid s"
  by (simp add: utf8_valid_def go_utf8_def ascii_coerce)

lemma go_utf8_Nil [simp]: "go_utf8 [] = []"
  by (simp add: go_utf8_def)

lemma go_utf8_valid: "utf8_valid s \<Longrightarrow> go_utf8 s = s"
  by (simp add: utf8_valid_def)

subsection \<open>String literals\<close>

text \<open>A code point beyond the Basic Multilingual Plane.\<close>

definition utf8_supp :: "nat \<Rightarrow> string" where
  "utf8_supp n = [char_of (240 + n div 262144), char_of (128 + n div 4096 mod 64),
                  char_of (128 + n div 64 mod 64), char_of (128 + n mod 64)]"

text \<open>The low half that follows a high surrogate: its value and what comes after it.\<close>

definition low_surrogate :: "string \<Rightarrow> (nat \<times> string) option" where
  "low_surrogate s =
    (case s of
       b # u # h1 # h2 # h3 # h4 # rest \<Rightarrow>
         (if b = CHR 0x5C \<and> u = CHR ''u'' then
            (case hex4 h1 h2 h3 h4 of
               Some m \<Rightarrow> if 56320 \<le> m \<and> m < 57344 then Some (m, rest) else None
             | None \<Rightarrow> None)
          else None)
     | _ \<Rightarrow> None)"

lemma low_surrogate_shorter: "low_surrogate s = Some (m, r) \<Longrightarrow> length r < length s"
  by (auto simp: low_surrogate_def split: list.splits if_splits option.splits)

function go_str :: "nat \<Rightarrow> string \<Rightarrow> (string \<times> string) option" where
  "go_str k [] = None"
| "go_str (Suc k) (c # cs) = map_option (map_prod (Cons c) id) (go_str k cs)"
| "go_str 0 (c # cs) =
     (if c = CHR 0x22 then Some ([], cs)
      else if c = CHR 0x5C then
        (case cs of
           [] \<Rightarrow> None
         | e # es \<Rightarrow>
             (if e = CHR ''u'' then
                (case es of
                   h1 # h2 # h3 # h4 # rest \<Rightarrow>
                     (case hex4 h1 h2 h3 h4 of
                        None \<Rightarrow> None
                      | Some n \<Rightarrow>
                          (if 55296 \<le> n \<and> n < 57344 then
                             (case (if n < 56320 then low_surrogate rest else None) of
                                Some (m, rest') \<Rightarrow>
                                  map_option (map_prod (append
                                    (utf8_supp (65536 + (n - 55296) * 1024 + (m - 56320)))) id) (go_str 0 rest')
                              | None \<Rightarrow> map_option (map_prod (append rune_error) id) (go_str 0 rest))
                           else map_option (map_prod (append (utf8 n)) id) (go_str 0 rest)))
                 | _ \<Rightarrow> None)
              else
                (case simple_escape e of
                   None \<Rightarrow> None
                 | Some x \<Rightarrow> map_option (map_prod (Cons x) id) (go_str 0 es))))
      else if byte c < 32 then None
      else
        (case rune_len c cs of
           0 \<Rightarrow> map_option (map_prod (append rune_error) id) (go_str 0 cs)
         | Suc k \<Rightarrow> map_option (map_prod (Cons c) id) (go_str k cs)))"
  by pat_completeness auto
termination
  by (relation "measure (\<lambda>(k, s). length s)") (auto dest!: low_surrogate_shorter split: if_splits)

subsection \<open>Values\<close>

datatype gjson =
    GNull
  | GBool bool
  | GNum string
  | GStr string
  | GArr "gjson list"
  | GObj "(string \<times> string \<times> gjson) list"

definition json_space :: "char \<Rightarrow> bool" where
  "json_space c \<longleftrightarrow> c = CHR '' '' \<or> c = CHR 0x09 \<or> c = CHR 0x0A \<or> c = CHR 0x0D"

definition skip_ws :: "string \<Rightarrow> string" where
  "skip_ws s = dropWhile json_space s"

text \<open>A part of a number: nothing, or the mark and the digits it calls for.\<close>

definition go_digits :: "string \<Rightarrow> string \<Rightarrow> (string \<times> string) option" where
  "go_digits mark s =
    (let ds = takeWhile is_digit s
     in if ds = [] then None else Some (mark @ ds, dropWhile is_digit s))"

definition go_fraction :: "string \<Rightarrow> (string \<times> string) option" where
  "go_fraction s =
    (case s of
       c # cs \<Rightarrow> if c = CHR ''.'' then go_digits ''.'' cs else Some ([], s)
     | [] \<Rightarrow> Some ([], s))"

definition go_exponent :: "string \<Rightarrow> (string \<times> string) option" where
  "go_exponent s =
    (case s of
       c # cs \<Rightarrow>
         if c = CHR ''e'' \<or> c = CHR ''E'' then
           (case cs of
              g # gs \<Rightarrow> if g = CHR ''+'' \<or> g = CHR ''-'' then go_digits [c, g] gs else go_digits [c] cs
            | [] \<Rightarrow> None)
         else Some ([], s)
     | [] \<Rightarrow> Some ([], s))"

definition go_number :: "string \<Rightarrow> (string \<times> string) option" where
  "go_number s =
    (let neg = (s \<noteq> [] \<and> hd s = CHR ''-'');
         t = (if neg then tl s else s);
         ds = takeWhile is_digit t
     in if ds = [] \<or> (1 < length ds \<and> hd ds = CHR ''0'') then None
        else case go_fraction (dropWhile is_digit t) of
               None \<Rightarrow> None
             | Some (f, r) \<Rightarrow>
                 (case go_exponent r of
                    None \<Rightarrow> None
                  | Some (e, r') \<Rightarrow> Some ((if neg then ''-'' else []) @ ds @ f @ e, r')))"

text \<open>
  The first argument is fuel, the second the nesting that is still allowed.  A member is its key,
  the text of its value and the value.
\<close>

fun go_value :: "nat \<Rightarrow> nat \<Rightarrow> string \<Rightarrow> (gjson \<times> string) option"
and go_items :: "nat \<Rightarrow> nat \<Rightarrow> string \<Rightarrow> (gjson list \<times> string) option"
and go_members :: "nat \<Rightarrow> nat \<Rightarrow> string \<Rightarrow> ((string \<times> string \<times> gjson) list \<times> string) option" where
  "go_value 0 d s = None"
| "go_value (Suc n) d s =
     (case skip_ws s of
        [] \<Rightarrow> None
      | c # cs \<Rightarrow>
          (if c = CHR 0x22 then map_option (map_prod GStr id) (go_str 0 cs)
           else if c = CHR ''['' then
             (case d of
                0 \<Rightarrow> None
              | Suc d' \<Rightarrow>
                  (if skip_ws cs \<noteq> [] \<and> hd (skip_ws cs) = CHR '']'' then Some (GArr [], tl (skip_ws cs))
                   else map_option (map_prod GArr id) (go_items n d' cs)))
           else if c = CHR ''{'' then
             (case d of
                0 \<Rightarrow> None
              | Suc d' \<Rightarrow>
                  (if skip_ws cs \<noteq> [] \<and> hd (skip_ws cs) = CHR ''}'' then Some (GObj [], tl (skip_ws cs))
                   else map_option (map_prod GObj id) (go_members n d' cs)))
           else if prefix ''true'' (c # cs) then Some (GBool True, drop 4 (c # cs))
           else if prefix ''false'' (c # cs) then Some (GBool False, drop 5 (c # cs))
           else if prefix ''null'' (c # cs) then Some (GNull, drop 4 (c # cs))
           else map_option (map_prod GNum id) (go_number (c # cs))))"
| "go_items 0 d s = None"
| "go_items (Suc n) d s =
     (case go_value n d s of
        None \<Rightarrow> None
      | Some (v, r) \<Rightarrow>
          (case skip_ws r of
             [] \<Rightarrow> None
           | c # r' \<Rightarrow>
               (if c = CHR '','' then map_option (map_prod (Cons v) id) (go_items n d r')
                else if c = CHR '']'' then Some ([v], r')
                else None)))"
| "go_members 0 d s = None"
| "go_members (Suc n) d s =
     (case skip_ws s of
        [] \<Rightarrow> None
      | q # cs \<Rightarrow>
          (if q = CHR 0x22 then
             (case go_str 0 cs of
                None \<Rightarrow> None
              | Some (k, r) \<Rightarrow>
                  (case skip_ws r of
                     [] \<Rightarrow> None
                   | colon # r1 \<Rightarrow>
                       (if colon = CHR '':'' then
                          (case go_value n d r1 of
                             None \<Rightarrow> None
                           | Some (v, r2) \<Rightarrow>
                               (let w = skip_ws r1; raw = take (length w - length r2) w
                                in case skip_ws r2 of
                                     [] \<Rightarrow> None
                                   | c # r' \<Rightarrow>
                                       (if c = CHR '','' then
                                          map_option (map_prod (Cons (k, raw, v)) id) (go_members n d r')
                                        else if c = CHR ''}'' then Some ([(k, raw, v)], r')
                                        else None)))
                        else None)))
           else None))"

text \<open>\<open>json.Unmarshal\<close>: a value and nothing but white space after it.\<close>

definition go_read :: "string \<Rightarrow> gjson option" where
  "go_read s =
    (case go_value (2 * length s + 2) 10000 s of
       None \<Rightarrow> None
     | Some (v, r) \<Rightarrow> if skip_ws r = [] then Some v else None)"

subsection \<open>What the decoder sees in a rendered text\<close>

fun lift :: "json \<Rightarrow> gjson" where
  "lift (JStr s) = GStr (go_utf8 s)"
| "lift (JInt i) = GNum (show_int i)"
| "lift (JBool b) = GBool b"
| "lift (JArr js) = GArr (map lift js)"
| "lift (JObj ms) = GObj (map (\<lambda>(k, v). (go_utf8 k, render quote_full v, lift v)) ms)"

text \<open>A value nested at most so deep.\<close>

fun shallow :: "nat \<Rightarrow> json \<Rightarrow> bool" where
  "shallow d (JArr js) = (0 < d \<and> (\<forall>j \<in> set js. shallow (d - 1) j))"
| "shallow d (JObj ms) = (0 < d \<and> (\<forall>(k, v) \<in> set ms. shallow (d - 1) v))"
| "shallow d j = True"

lemma tail_bytes_escaped:
  "128 \<le> lo \<Longrightarrow> tail_bytes k lo hi (concat (map escape_byte s) @ CHR 0x22 # rest) = tail_bytes k lo hi s"
proof (induction k lo hi s rule: tail_bytes.induct)
  case (3 k lo hi c cs)
  show ?case
  proof (cases "lo \<le> byte c")
    case True
    with 3 have "escape_byte c = [c]" by (auto simp: escape_byte_def)
    with 3 show ?thesis by simp
  next
    case False
    then have "\<exists>d ds. escape_byte c = d # ds \<and> \<not> lo \<le> byte d" using 3 by (auto simp: escape_byte_def)
    with False show ?thesis by auto
  qed
qed (auto)

lemma rune_len_escaped:
  "rune_len c (concat (map escape_byte s) @ CHR 0x22 # rest) = rune_len c s"
proof (cases "rune_tail (byte c)")
  case (Some t)
  then obtain k lo hi where t: "t = (k, lo, hi)" "128 \<le> lo"
    by (cases t) (auto simp: rune_tail_def split: if_splits)
  with Some tail_bytes_escaped [of lo k hi s rest] show ?thesis by (simp add: rune_len_def)
qed (simp add: rune_len_def)

lemma tail_bytes_high:
  "tail_bytes k lo hi s \<Longrightarrow> 128 \<le> lo \<Longrightarrow> k \<le> length s \<and> (\<forall>c \<in> set (take k s). 128 \<le> byte c)"
  by (induction k lo hi s rule: tail_bytes.induct) auto

lemma rune_len_high:
  assumes "rune_len c s = Suc k" and "128 \<le> byte c"
  shows "k \<le> length s \<and> (\<forall>c \<in> set (take k s). 128 \<le> byte c)"
proof -
  obtain lo hi where "rune_tail (byte c) = Some (k, lo, hi)" "tail_bytes k lo hi s"
    using assms by (auto simp: rune_len_def split: option.splits if_splits)
  moreover from this have "128 \<le> lo" by (auto simp: rune_tail_def split: if_splits)
  ultimately show ?thesis using tail_bytes_high by blast
qed

lemma escape_high: "128 \<le> byte c \<Longrightarrow> escape_byte c = [c]"
  by (auto simp: escape_byte_def)

lemma rune_len_low: "byte c < 128 \<Longrightarrow> rune_len c s = Suc 0"
  by (simp add: rune_len_def)

lemma map_prod_Cons: "map_prod ((@) [c]) id = map_prod (Cons c) id"
  by (intro ext) (simp add: map_prod_def split: prod.split)

lemma go_str_escape_low:
  assumes "byte c < 128"
  shows "go_str 0 (escape_byte c @ r) = map_option (map_prod (Cons c) id) (go_str 0 r)"
  using assms
  by (auto simp: escape_byte_def hex4_control utf8_def simple_escape_def rune_len_low map_prod_Cons)

lemma go_str_escaped:
  "k \<le> length s \<Longrightarrow> \<forall>c \<in> set (take k s). 128 \<le> byte c \<Longrightarrow>
     go_str k (concat (map escape_byte s) @ CHR 0x22 # rest) = Some (coerce_from k s, rest)"
proof (induction s arbitrary: k)
  case Nil
  then show ?case by simp
next
  case (Cons c s)
  show ?case
  proof (cases k)
    case (Suc k')
    with Cons.prems have "escape_byte c = [c]" by (intro escape_high) simp
    with Cons Suc show ?thesis by simp
  next
    case 0
    have nil: "go_str 0 (concat (map escape_byte s) @ CHR 0x22 # rest) = Some (coerce_from 0 s, rest)"
      using Cons.IH [of 0] by simp
    show ?thesis
    proof (cases "byte c < 128")
      case True
      with nil show ?thesis by (simp add: 0 go_str_escape_low rune_len_low)
    next
      case False
      then have e: "escape_byte c = [c]" and q: "c \<noteq> CHR 0x22" "c \<noteq> CHR 0x5C" by (auto simp: escape_high)
      show ?thesis
      proof (cases "rune_len c s")
        case 0
        with nil e q False \<open>k = 0\<close> show ?thesis by (simp add: rune_len_escaped)
      next
        case (Suc k')
        with rune_len_high [OF Suc] False Cons.IH [of k'] e q \<open>k = 0\<close> show ?thesis
          by (simp add: rune_len_escaped)
      qed
    qed
  qed
qed

lemma go_str_quoted:
  "\<exists>body. quote_full s = CHR 0x22 # body \<and> go_str 0 (body @ rest) = Some (go_utf8 s, rest)"
  using go_str_escaped [of 0 s rest] by (simp add: mesi_json_string_def go_utf8_def)

text \<open>What may follow a number.\<close>

definition num_end :: "string \<Rightarrow> bool" where
  "num_end r \<longleftrightarrow> r = [] \<or> hd r \<in> {CHR '','', CHR '']'', CHR ''}''}"

lemma num_end_simps [simp]: "num_end []" "num_end (CHR '','' # r)" "num_end (CHR '']'' # r)" "num_end (CHR ''}'' # r)"
  by (simp_all add: num_end_def)

lemma num_end_parts:
  "num_end r \<Longrightarrow> go_fraction r = Some ([], r)" "num_end r \<Longrightarrow> go_exponent r = Some ([], r)"
  "num_end r \<Longrightarrow> r = [] \<or> \<not> is_digit (hd r)"
  by (cases r; auto simp: num_end_def go_fraction_def go_exponent_def is_digit_def)+

lemma go_number_show: "num_end rest \<Longrightarrow> go_number (show_int i @ rest) = Some (show_int i, rest)"
proof -
  assume r: "num_end rest"
  have tw: "takeWhile is_digit (show_nat m @ rest) = show_nat m"
    and dw: "dropWhile is_digit (show_nat m @ rest) = rest" for m
    using takeWhile_digits_append [OF _ num_end_parts(3) [OF r]] show_nat_digits by auto
  show ?thesis
  proof (cases "i < 0")
    case True
    then show ?thesis
      by (auto simp: go_number_def show_int_def tw dw Let_def num_end_parts [OF r] dest: show_nat_zero_only)
  next
    case False
    then show ?thesis
      using hd_show_nat [of "nat i"]
      by (auto simp: go_number_def show_int_def tw dw Let_def num_end_parts [OF r] dest: show_nat_zero_only)
  qed
qed

lemma skip_ws_id: "s \<noteq> [] \<Longrightarrow> \<not> json_space (hd s) \<Longrightarrow> skip_ws s = s"
  by (cases s) (simp_all add: skip_ws_def)

lemma skip_ws_simps [simp]:
  "skip_ws [] = []" "skip_ws (CHR '','' # r) = CHR '','' # r" "skip_ws (CHR '']'' # r) = CHR '']'' # r"
  "skip_ws (CHR ''}'' # r) = CHR ''}'' # r" "skip_ws (CHR '':'' # r) = CHR '':'' # r"
  "skip_ws (CHR 0x22 # r) = CHR 0x22 # r"
  by (simp_all add: skip_ws_def json_space_def)

lemma render_start:
  "\<exists>c cs. render quote_full j = c # cs \<and> \<not> json_space c \<and> c \<noteq> CHR '']'' \<and> c \<noteq> CHR ''}''"
proof (cases j)
  case (JStr s)
  then show ?thesis by (simp add: mesi_json_string_def json_space_def)
next
  case (JInt i)
  then show ?thesis using show_int_cons [of i] by (auto simp: is_digit_def json_space_def)
qed (auto simp: json_space_def)

lemma skip_ws_render: "skip_ws (render quote_full j @ r) = render quote_full j @ r"
  using render_start [of j] by (auto intro!: skip_ws_id)

lemma go_value_str: "go_value (Suc n) d (quote_full s @ rest) = Some (GStr (go_utf8 s), rest)"
  using go_str_quoted [of s rest] by auto

lemma go_value_int: "num_end rest \<Longrightarrow> go_value (Suc n) d (show_int i @ rest) = Some (GNum (show_int i), rest)"
proof -
  assume r: "num_end rest"
  obtain c cs where c: "show_int i = c # cs" "is_digit c \<or> c = CHR ''-''"
    using show_int_cons by blast
  then have "c \<noteq> CHR 0x22" "c \<noteq> CHR ''[''" "c \<noteq> CHR ''{''" "c \<noteq> CHR ''t''" "c \<noteq> CHR ''f''" "c \<noteq> CHR ''n''"
    "\<not> json_space c"
    by (auto simp: is_digit_def json_space_def)
  with c go_number_show [OF r, of i] show ?thesis by (simp add: skip_ws_id)
qed

lemma go_items_render:
  assumes "js \<noteq> []"
    and "\<And>j n r. j \<in> set js \<Longrightarrow> need j \<le> n \<Longrightarrow> num_end r \<Longrightarrow>
           go_value n d (render quote_full j @ r) = Some (lift j, r)"
    and "sum_list (map (\<lambda>j. Suc (need j)) js) \<le> n"
  shows "go_items n d (commas (map (render quote_full) js) @ CHR '']'' # rest) = Some (map lift js, rest)"
  using assms
proof (induction js arbitrary: n)
  case Nil
  then show ?case by simp
next
  case (Cons j js)
  then obtain m where n: "n = Suc m" by (cases n) auto
  show ?case
  proof (cases js)
    case Nil
    with Cons.prems(2) [of j m "CHR '']'' # rest"] Cons.prems(3) show ?thesis by (simp add: n)
  next
    case (Cons j' js')
    have v: "go_value m d (render quote_full j @ CHR '','' # t) = Some (lift j, CHR '','' # t)" for t
      using Cons.prems(2) [of j m "CHR '','' # t"] Cons.prems(3) by (simp add: n)
    have "go_items m d (commas (map (render quote_full) js) @ CHR '']'' # rest) = Some (map lift js, rest)"
      using Cons Cons.prems by (intro Cons.IH) (auto simp: n)
    with Cons v show ?thesis by (simp add: n)
  qed
qed

lemma go_members_render:
  assumes "ms \<noteq> []"
    and "\<And>k v n r. (k, v) \<in> set ms \<Longrightarrow> need v \<le> n \<Longrightarrow> num_end r \<Longrightarrow>
           go_value n d (render quote_full v @ r) = Some (lift v, r)"
    and "sum_list (map (\<lambda>(k, v). Suc (need v)) ms) \<le> n"
  shows "go_members n d
           (commas (map (\<lambda>(k, v). quote_full k @ '':'' @ render quote_full v) ms) @ CHR ''}'' # rest)
         = Some (map (\<lambda>(k, v). (go_utf8 k, render quote_full v, lift v)) ms, rest)"
  using assms
proof (induction ms arbitrary: n)
  case Nil
  then show ?case by simp
next
  case (Cons m ms)
  obtain k v where m: "m = (k, v)" by (cases m)
  from Cons.prems(3) obtain l where n: "n = Suc l" by (cases n) (auto simp: m)
  have v: "go_value l d (render quote_full v @ r) = Some (lift v, r)" if "num_end r" for r
    using Cons.prems(2) [of k v l r] Cons.prems(3) that by (simp add: n m)
  have step: "go_members n d (quote_full k @ '':'' @ render quote_full v @ c # t) =
      (if c = CHR '','' then map_option (map_prod (Cons (go_utf8 k, render quote_full v, lift v)) id) (go_members l d t)
       else if c = CHR ''}'' then Some ([(go_utf8 k, render quote_full v, lift v)], t) else None)"
    if "c \<in> {CHR '','', CHR ''}''}" for c t
  proof -
    obtain body where q: "quote_full k = CHR 0x22 # body"
      and k: "go_str 0 (body @ '':'' @ render quote_full v @ c # t)
        = Some (go_utf8 k, '':'' @ render quote_full v @ c # t)"
      using go_str_quoted by blast
    have "num_end (c # t)" using that by (auto simp: num_end_def)
    with v [of "c # t"] k that show ?thesis by (auto simp: n q skip_ws_render)
  qed
  show ?case
  proof (cases ms)
    case Nil
    with step [of "CHR ''}''" rest] show ?thesis by (simp add: m)
  next
    case (Cons m' ms')
    have "go_members l d
            (commas (map (\<lambda>(k, v). quote_full k @ '':'' @ render quote_full v) ms) @ CHR ''}'' # rest)
          = Some (map (\<lambda>(k, v). (go_utf8 k, render quote_full v, lift v)) ms, rest)"
      using Cons Cons.prems by (intro Cons.IH) (auto simp: n m)
    with Cons step [of "CHR '',''"] show ?thesis by (simp add: m split_def)
  qed
qed

lemma go_value_render:
  "shallow d j \<Longrightarrow> need j \<le> n \<Longrightarrow> num_end rest \<Longrightarrow>
    go_value n d (render quote_full j @ rest) = Some (lift j, rest)"
proof (induction j arbitrary: n d rest)
  case (JStr s)
  then show ?case by (cases n) (simp_all add: go_value_str del: go_value.simps)
next
  case (JInt i)
  then show ?case by (cases n) (simp_all add: go_value_int del: go_value.simps)
next
  case (JBool b)
  then show ?case by (cases n) (auto simp: skip_ws_def json_space_def)
next
  case (JArr js)
  then obtain m d' where n: "n = Suc m" "d = Suc d'" by (cases n; cases d) auto
  show ?case
  proof (cases js)
    case Nil
    then show ?thesis by (simp add: n skip_ws_def json_space_def)
  next
    case (Cons j js')
    have "go_items m d' (commas (map (render quote_full) js) @ CHR '']'' # rest) = Some (map lift js, rest)"
      using JArr Cons by (intro go_items_render) (auto simp: n)
    moreover obtain c cs where "commas (map (render quote_full) js) = c # cs" "c \<noteq> CHR '']''" "\<not> json_space c"
      using render_start [of j] Cons by (cases js') auto
    ultimately show ?thesis by (simp add: n skip_ws_def json_space_def)
  qed
next
  case (JObj ms)
  then obtain m d' where n: "n = Suc m" "d = Suc d'" by (cases n; cases d) auto
  show ?case
  proof (cases ms)
    case Nil
    then show ?thesis by (simp add: n skip_ws_def json_space_def)
  next
    case (Cons p ms')
    have "go_members m d' (commas (map (\<lambda>(k, v). quote_full k @ '':'' @ render quote_full v) ms) @ CHR ''}'' # rest)
        = Some (map (\<lambda>(k, v). (go_utf8 k, render quote_full v, lift v)) ms, rest)"
    proof (rule go_members_render)
      show "ms \<noteq> []" using Cons by simp
      show "sum_list (map (\<lambda>(k, v). Suc (need v)) ms) \<le> m" using JObj.prems(2) by (simp add: n)
      fix k v n' r
      assume "(k, v) \<in> set ms" "need v \<le> n'" "num_end r"
      with JObj.prems(1) JObj.IH [of "(k, v)" v d' n' r] show
        "go_value n' d' (render quote_full v @ r) = Some (lift v, r)" by (auto simp: n)
    qed
    moreover obtain k v where p: "p = (k, v)" by (cases p)
    moreover have "\<exists>cs. commas (map (\<lambda>(k, v). quote_full k @ '':'' @ render quote_full v) ms) = CHR 0x22 # cs"
      using Cons p by (cases ms') (auto simp: mesi_json_string_def)
    ultimately show ?thesis by (auto simp: n skip_ws_def json_space_def)
  qed
qed

lemma go_read_render:
  assumes "shallow 10000 j"
  shows "go_read (render quote_full j) = Some (lift j)"
proof -
  have "need j \<le> 2 * length (render quote_full j) + 2"
    using apq.need_le_length [of j] by simp
  from go_value_render [OF assms this, of "[]"] show ?thesis by (simp add: go_read_def del: go_value.simps)
qed

subsection \<open>The fuel is enough for every text\<close>

lemma skip_ws_shorter: "length (skip_ws s) \<le> length s"
  by (simp add: skip_ws_def length_dropWhile_le)

lemma skip_ws_Cons: "skip_ws s = c # cs \<Longrightarrow> length cs < length s"
  using skip_ws_shorter [of s] by simp

lemma go_str_shorter: "go_str k s = Some (t, r) \<Longrightarrow> length r < length s"
proof (induction "length s" arbitrary: k s t r rule: less_induct)
  case less
  have IH: "length r < n" if "go_str k s' = Some (t, r)" "length s' < length s" "length s' \<le> n" for k s' t n
    using less.hyps [OF that(2,1)] that(3) by simp
  obtain c cs where s: "s = c # cs" using less.prems by (cases s) auto
  show ?case
  proof (cases k)
    case (Suc k')
    with less.prems IH [of k' cs _ "length s"] show ?thesis by (auto simp: s)
  next
    case 0
    note eq = less.prems [unfolded 0 s go_str.simps]
    consider (quote) "c = CHR 0x22" | (esc) "c = CHR 0x5C" | (plain) "c \<noteq> CHR 0x22" "c \<noteq> CHR 0x5C" by blast
    then show ?thesis
    proof cases
      case quote
      with eq show ?thesis by (simp add: s)
    next
      case plain
      with eq show ?thesis
        by (auto simp: s split: if_splits nat.splits intro: IH)
    next
      case esc
      then obtain e es where cs: "cs = e # es" using eq by (cases cs) auto
      show ?thesis
      proof (cases "e = CHR ''u''")
        case False
        with eq esc show ?thesis by (auto simp: s cs split: option.splits intro: IH)
      next
        case True
        then obtain h1 h2 h3 h4 rest n where es: "es = h1 # h2 # h3 # h4 # rest" "hex4 h1 h2 h3 h4 = Some n"
          using eq esc by (auto simp: cs split: list.splits option.splits)
        obtain k' s' t' where "go_str k' s' = Some (t', r)" "length s' \<le> length rest"
          using eq esc True es(2)
          by (auto simp: cs es(1) split: if_splits option.splits dest!: low_surrogate_shorter)
        then show ?thesis using IH [of k' s' t' "length s"] by (simp add: s cs es(1))
      qed
    qed
  qed
qed

lemma go_digits_shorter: "go_digits m s = Some (t, r) \<Longrightarrow> length r \<le> length s"
  by (auto simp: go_digits_def Let_def length_dropWhile_le split: if_splits)

lemma go_fraction_shorter: "go_fraction s = Some (t, r) \<Longrightarrow> length r \<le> length s"
  by (auto simp: go_fraction_def split: list.splits if_splits dest!: go_digits_shorter)

lemma go_exponent_shorter: "go_exponent s = Some (t, r) \<Longrightarrow> length r \<le> length s"
  by (auto simp: go_exponent_def split: list.splits if_splits dest!: go_digits_shorter)

lemma go_number_shorter:
  assumes "go_number s = Some (t, r)"
  shows "length r < length s"
proof -
  let ?t = "if s \<noteq> [] \<and> hd s = CHR ''-'' then tl s else s"
  have ds: "takeWhile is_digit ?t \<noteq> []" using assms by (auto simp: go_number_def Let_def split: if_splits)
  have "length (takeWhile is_digit ?t) + length (dropWhile is_digit ?t) = length ?t"
    by (metis length_append takeWhile_dropWhile_id)
  with ds have "length (dropWhile is_digit ?t) < length ?t" by (cases "takeWhile is_digit ?t") auto
  moreover have "length ?t \<le> length s" by simp
  moreover obtain f r1 where "go_fraction (dropWhile is_digit ?t) = Some (f, r1)"
    and "\<exists>e. go_exponent r1 = Some (e, r)"
    using assms by (auto simp: go_number_def Let_def split: if_splits option.splits)
  ultimately show ?thesis using go_fraction_shorter go_exponent_shorter by (meson le_less_trans less_le_trans)
qed

lemma go_shorter:
  "(go_value n d s = Some (v, r) \<longrightarrow> length r < length s)
   \<and> (go_items n d s = Some (vs, r) \<longrightarrow> length r < length s)
   \<and> (go_members n d s = Some (ms, r) \<longrightarrow> length r < length s)"
proof (induction n arbitrary: d s v vs ms r)
  case (Suc n)
  have v: "go_value n d s = Some (v, r) \<Longrightarrow> length r < length s" for d s v r using Suc.IH by blast
  have i: "go_items n d s = Some (vs, r) \<Longrightarrow> length r < length s" for d s vs r using Suc.IH by blast
  have m: "go_members n d s = Some (ms, r) \<Longrightarrow> length r < length s" for d s ms r using Suc.IH by blast
  have tl: "length (tl (skip_ws cs)) \<le> length cs" for cs using skip_ws_shorter [of cs] by simp
  have 1: "length r < length s" if eq: "go_value (Suc n) d s = Some (v, r)" for d s v r
  proof -
    obtain c cs where c: "skip_ws s = c # cs" using eq by (cases "skip_ws s") auto
    note len = skip_ws_Cons [OF c] and eq = eq [unfolded go_value.simps c list.case]
    consider (s) "c = CHR 0x22" | (a) "c = CHR ''[''" | (ob) "c = CHR ''{''"
      | (n) "c \<noteq> CHR 0x22" "c \<noteq> CHR ''[''" "c \<noteq> CHR ''{''" by blast
    then show ?thesis
    proof cases
      case s
      with eq have "\<exists>t. go_str 0 cs = Some (t, r)" by auto
      with go_str_shorter len show ?thesis by fastforce
    next
      case a
      with eq have "r = tl (skip_ws cs) \<or> (\<exists>d' vs. go_items n d' cs = Some (vs, r))"
        by (auto split: nat.splits if_splits)
      with i tl [of cs] len show ?thesis by fastforce
    next
      case ob
      with eq have "r = tl (skip_ws cs) \<or> (\<exists>d' ms. go_members n d' cs = Some (ms, r))"
        by (auto split: nat.splits if_splits)
      with m tl [of cs] len show ?thesis by fastforce
    next
      case n
      from eq have "r = drop 4 (c # cs) \<or> r = drop 5 (c # cs) \<or> (\<exists>t. go_number (c # cs) = Some (t, r))"
        unfolding n [THEN eq_False [THEN iffD2]] if_False
        by (auto simp del: Cons_prefix_Cons drop_Suc_Cons split: if_split_asm)
      moreover have "length (drop 4 (c # cs)) < Suc (length cs)" "length (drop 5 (c # cs)) < Suc (length cs)"
        by simp_all
      ultimately show ?thesis using go_number_shorter [of "c # cs"] len by fastforce
    qed
  qed
  have 2: "length r < length s" if "go_items (Suc n) d s = Some (vs, r)" for d s vs r
    using that by (auto split: if_splits option.splits list.splits dest!: skip_ws_Cons v i)
  have 3: "length r < length s" if "go_members (Suc n) d s = Some (ms, r)" for d s ms r
    using that
    by (auto simp: Let_def split: if_splits option.splits list.splits dest!: skip_ws_Cons v m go_str_shorter)
  from 1 2 3 show ?case by blast
qed simp

lemma go_fuel:
  "(2 * length s + 1 \<le> n \<longrightarrow> n \<le> m \<longrightarrow> go_value n d s = go_value m d s)
   \<and> (2 * length s + 2 \<le> n \<longrightarrow> n \<le> m \<longrightarrow> go_items n d s = go_items m d s)
   \<and> (2 * length s + 2 \<le> n \<longrightarrow> n \<le> m \<longrightarrow> go_members n d s = go_members m d s)"
proof (induction n arbitrary: m d s)
  case (Suc n)
  have v: "2 * length s + 1 \<le> n \<Longrightarrow> n \<le> m \<Longrightarrow> go_value n d s = go_value m d s" for m d s
    using Suc.IH by blast
  have i: "2 * length s + 2 \<le> n \<Longrightarrow> n \<le> m \<Longrightarrow> go_items n d s = go_items m d s" for m d s
    using Suc.IH by blast
  have k: "2 * length s + 2 \<le> n \<Longrightarrow> n \<le> m \<Longrightarrow> go_members n d s = go_members m d s" for m d s
    using Suc.IH by blast
  have 1: "go_value (Suc n) d s = go_value m d s" if l: "2 * length s + 1 \<le> Suc n" and l2: "Suc n \<le> m"
  proof -
    obtain m' where m: "m = Suc m'" using l2 by (cases m) auto
    have "2 * length cs + 2 \<le> n" if "skip_ws s = c # cs" for c cs
      using skip_ws_Cons [OF that] l by simp
    then have "skip_ws s = c # cs \<Longrightarrow> go_items n d' cs = go_items m' d' cs"
      "skip_ws s = c # cs \<Longrightarrow> go_members n d' cs = go_members m' d' cs" for c cs d'
      using i k l2 m by auto
    then show ?thesis unfolding m go_value.simps by (auto split: list.split nat.split)
  qed
  have 2: "go_items (Suc n) d s = go_items m d s" if l: "2 * length s + 2 \<le> Suc n" and l2: "Suc n \<le> m"
  proof -
    obtain m' where m: "m = Suc m'" using l2 by (cases m) auto
    have e: "go_value n d s = go_value m' d s" using v [of s m' d] l l2 m by simp
    have "go_items n d r' = go_items m' d r'" if "go_value m' d s = Some (u, r)" "skip_ws r = c # r'" for u r c r'
    proof -
      have "length r < length s" using go_shorter that(1) by blast
      then show ?thesis using i [of r' m' d] skip_ws_Cons [OF that(2)] l l2 m by simp
    qed
    then show ?thesis unfolding m go_items.simps e by (auto split: list.split option.split)
  qed
  have 3: "go_members (Suc n) d s = go_members m d s" if l: "2 * length s + 2 \<le> Suc n" and l2: "Suc n \<le> m"
  proof -
    obtain m' where m: "m = Suc m'" using l2 by (cases m) auto
    have e: "go_value n d r1 = go_value m' d r1"
      if "skip_ws s = q # cs" "go_str 0 cs = Some (y, r)" "skip_ws r = z # r1" for q cs y r z r1
      using v [of r1 m' d] skip_ws_Cons [OF that(1)] go_str_shorter [OF that(2)] skip_ws_Cons [OF that(3)]
        l l2 m by simp
    have f: "go_members n d r' = go_members m' d r'"
      if "skip_ws s = q # cs" "go_str 0 cs = Some (y, r)" "skip_ws r = z # r1"
        "go_value m' d r1 = Some (u, r2)" "skip_ws r2 = c # r'" for q cs y r z r1 u r2 c r'
    proof -
      have "length r2 < length r1" using go_shorter that(4) by blast
      then show ?thesis
        using k [of r' m' d] skip_ws_Cons [OF that(1)] go_str_shorter [OF that(2)] skip_ws_Cons [OF that(3)]
          skip_ws_Cons [OF that(5)] l l2 m by simp
    qed
    show ?thesis unfolding m go_members.simps Let_def using e f by (auto split: list.split option.split)
  qed
  from 1 2 3 show ?case by blast
qed simp

lemma go_read_fuel: "2 * length s + 2 \<le> n \<Longrightarrow> go_value n d s = go_value (2 * length s + 2) d s"
  using go_fuel [of s "2 * length s + 2" n d] by simp

end
