(* ===== verification/Apache_Num.thy ===== *)
theory Apache_Num
  imports Apache_Blob
begin

text \<open>
  The strict decimal parsers of \<open>mod_mesi.c\<close> (\<open>parse_nonneg_int\<close>,
  \<open>parse_nonneg_off\<close>, \<open>parse_nonneg_int_bounded\<close>) and the interface they share,
  the locale \<open>strict_decimal\<close>: a parser that accepts exactly optional blanks and decimal
  digits whose value lies in a range.  Arithmetic on \<open>long\<close> and \<open>apr_off_t\<close> is
  written with the 64-bit reduction \<open>s64\<close> at every step, so the correctness lemmas also
  say that no intermediate value wraps.
\<close>

subsection \<open>Error values\<close>

text \<open>One constructor per error text; \<open>cfg_error_text\<close> is the text the code returns.\<close>

datatype cfg_error =
    RequiresInt string
  | NotAnInt string string
  | NoDigit string string
  | TooLong string string int
  | OutOfRange string string int int
  | BNotAnInt string string
  | BNoDigit string
  | BTooLong string int
  | BOutOfRange string int int
  | HostsEmpty
  | HostsQuote
  | MarkerMissing
  | MarkerExtra
  | BadOversize string
  | BackendMissing
  | BadBackend string
  | RedisAddrMissing
  | RedisAddrChar nat string
  | RedisAddrForm string
  | RedisAddrPort string
  | RedisPasswordChar nat
  | MemcachedMissing
  | MemcachedQuote string
  | MemcachedChar string
  | MemcachedForm string
  | MemcachedPort string
  | MemcachedTooMany
  | MemcachedNone
  | TemplateMissing
  | TemplateTooLong nat
  | TemplateControl nat
  | TemplateDel
  | TemplateMangled string

definition hex2 :: "nat \<Rightarrow> string" where
  "hex2 n = [hex_digits ! (n div 16 mod 16), hex_digits ! (n mod 16)]"

primrec cfg_error_text :: "cfg_error \<Rightarrow> string" where
  "cfg_error_text (RequiresInt d) = d @ '' requires a non-negative integer argument''"
| "cfg_error_text (NotAnInt d a) = d @ '' must be a non-negative integer (got: '' @ a @ '')''"
| "cfg_error_text (NoDigit d a) = d @ '' must contain at least one digit (got: '' @ a @ '')''"
| "cfg_error_text (TooLong d a m) =
     d @ '' value '' @ a @ '' exceeds maximum allowed ('' @ show_int m @ '')''"
| "cfg_error_text (OutOfRange d a l h) =
     d @ '' value '' @ a @ '' out of range ['' @ show_int l @ '', '' @ show_int h @ '']''"
| "cfg_error_text (BNotAnInt d a) = d @ '' must be a non-negative integer (got: '' @ a @ '')''"
| "cfg_error_text (BNoDigit d) = d @ '' must contain at least one digit''"
| "cfg_error_text (BTooLong d m) = d @ '' value exceeds maximum allowed ('' @ show_int m @ '')''"
| "cfg_error_text (BOutOfRange d l h) =
     d @ '' value out of range ['' @ show_int l @ '', '' @ show_int h @ '']''"
| "cfg_error_text HostsEmpty = ''MesiAllowedHosts must contain at least one hostname''"
| "cfg_error_text HostsQuote =
     ''MesiAllowedHosts: quote characters are not allowed in host names; ''
     @ ''write the hosts unquoted, separated by spaces''"
| "cfg_error_text MarkerMissing =
     ''MesiIncludeErrorMarker requires exactly one argument ''
     @ ''(quote a marker containing spaces; use \"\" for explicit silent)''"
| "cfg_error_text MarkerExtra =
     ''MesiIncludeErrorMarker takes exactly one argument ''
     @ ''(quote a marker containing spaces; use \"\" for explicit silent)''"
| "cfg_error_text (BadOversize a) =
     ''MesiOnOversize must be '' @ [CHR 0x27] @ ''pass'' @ [CHR 0x27] @ '' or ''
     @ [CHR 0x27] @ ''error'' @ [CHR 0x27] @ '' (got: '' @ a @ '')''"
| "cfg_error_text BackendMissing =
     ''MesiCacheBackend requires an argument (use empty string to disable)''"
| "cfg_error_text (BadBackend a) =
     ''MesiCacheBackend: unknown backend '' @ a
     @ '' (supported: \"memory\", \"redis\", \"memcached\", or empty)''"
| "cfg_error_text RedisAddrMissing = ''MesiCacheRedisAddr requires a host:port argument''"
| "cfg_error_text (RedisAddrChar c a) =
     ''MesiCacheRedisAddr: invalid character '' @ show_nat c @ '' in '' @ a"
| "cfg_error_text (RedisAddrForm a) = ''MesiCacheRedisAddr: must be host:port (got: '' @ a @ '')''"
| "cfg_error_text (RedisAddrPort a) = ''MesiCacheRedisAddr: port invalid: '' @ a"
| "cfg_error_text (RedisPasswordChar c) =
     ''MesiCacheRedisPassword: invalid control character 0x'' @ hex2 c @ '' in value''"
| "cfg_error_text MemcachedMissing =
     ''MesiCacheMemcachedServers requires space-separated host:port entries''"
| "cfg_error_text (MemcachedQuote t) =
     ''MesiCacheMemcachedServers: quote characters are not allowed in entries; ''
     @ ''write the host:port entries unquoted, separated by spaces (got: '' @ t @ '')''"
| "cfg_error_text (MemcachedChar t) = ''MesiCacheMemcachedServers: invalid character in entry '' @ t"
| "cfg_error_text (MemcachedForm t) =
     ''MesiCacheMemcachedServers: entry must be host:port (got: '' @ t @ '')''"
| "cfg_error_text (MemcachedPort t) = ''MesiCacheMemcachedServers: port invalid in '' @ t"
| "cfg_error_text MemcachedTooMany = ''MesiCacheMemcachedServers: too many entries (max 64)''"
| "cfg_error_text MemcachedNone =
     ''MesiCacheMemcachedServers requires at least one host:port entry''"
| "cfg_error_text TemplateMissing = ''MesiCacheKeyTemplate requires an argument''"
| "cfg_error_text (TemplateTooLong n) =
     ''MesiCacheKeyTemplate exceeds maximum length 4096 (got '' @ show_nat n @ '')''"
| "cfg_error_text (TemplateControl c) =
     ''MesiCacheKeyTemplate contains control character 0x'' @ hex2 c"
| "cfg_error_text TemplateDel = ''MesiCacheKeyTemplate contains DEL character''"
| "cfg_error_text (TemplateMangled a) =
     ''MesiCacheKeyTemplate: Apache config interpolation replaced ${url} (AH00111); ''
     @ ''escape the dollar sign as $${url} in httpd.conf (got: '' @ a @ '')''"

subsection \<open>The three parsers\<close>

text \<open>\<open>val = val * 10 + (digits[i] - '0')\<close> in a \<open>long\<close>.\<close>

definition digit_step :: "int \<Rightarrow> char \<Rightarrow> int" where
  "digit_step v c = s64 (s64 (v * 10) + int (digit_val c))"

definition parse_nonneg_int :: "string \<Rightarrow> int \<Rightarrow> int \<Rightarrow> string option \<Rightarrow> cfg_error + int" where
  "parse_nonneg_int directive lo hi arg =
    (let p = dropWhile is_blank (str_of arg)
     in if p = [] then Inl (RequiresInt directive)
        else let digits = takeWhile is_digit p; p' = dropWhile is_digit p
             in if p' \<noteq> [] then Inl (NotAnInt directive (str_of arg))
                else if digits = [] then Inl (NoDigit directive (str_of arg))
                else if length digits > 9 then Inl (TooLong directive (str_of arg) hi)
                else let val = foldl digit_step 0 digits
                     in if val < lo \<or> val > hi then Inl (OutOfRange directive (str_of arg) lo hi)
                        else Inr (s32 val))"

text \<open>The digit loop of \<open>parse_nonneg_off\<close>: \<open>None\<close> is its "exceeds maximum" return.\<close>

fun off_loop :: "int \<Rightarrow> string \<Rightarrow> int \<Rightarrow> int option" where
  "off_loop hi [] val = Some val"
| "off_loop hi (q # qs) val =
     (let d = int (digit_val q)
      in if val > c_div (s64 (hi - d)) 10 then None
         else off_loop hi qs (s64 (s64 (val * 10) + d)))"

definition parse_nonneg_off :: "string \<Rightarrow> int \<Rightarrow> int \<Rightarrow> string option \<Rightarrow> cfg_error + int" where
  "parse_nonneg_off directive lo hi arg =
    (let p = dropWhile is_blank (str_of arg)
     in if p = [] then Inl (RequiresInt directive)
        else let digits = takeWhile is_digit p; p' = dropWhile is_digit p
             in if p' \<noteq> [] then Inl (NotAnInt directive (str_of arg))
                else if digits = [] then Inl (NoDigit directive (str_of arg))
                else case off_loop hi digits 0 of
                       None \<Rightarrow> Inl (TooLong directive (str_of arg) hi)
                     | Some val \<Rightarrow>
                         if val < lo \<or> val > hi then Inl (OutOfRange directive (str_of arg) lo hi)
                         else Inr val)"

text \<open>
  \<open>[arg, end)\<close> is a list of bytes; a NULL or empty range is refused first.
\<close>

definition parse_nonneg_int_bounded :: "string \<Rightarrow> int \<Rightarrow> int \<Rightarrow> string option \<Rightarrow> cfg_error + int" where
  "parse_nonneg_int_bounded directive lo hi arg =
    (if arg = None \<or> arg = Some [] then Inl (RequiresInt directive)
     else let p = dropWhile is_blank (str_of arg)
     in if p = [] then Inl (RequiresInt directive)
        else let digits = takeWhile is_digit p; p' = dropWhile is_digit p
             in if p' \<noteq> [] then Inl (BNotAnInt directive (str_of arg))
                else if digits = [] then Inl (BNoDigit directive)
                else if length digits > 9 then Inl (BTooLong directive hi)
                else let val = foldl digit_step 0 digits
                     in if val < lo \<or> val > hi then Inl (BOutOfRange directive lo hi)
                        else Inr (s32 val))"

subsection \<open>The digits of an argument\<close>

text \<open>Specification: blanks, then one or more digits, then the end.\<close>

definition decimal_arg :: "string option \<Rightarrow> string option" where
  "decimal_arg arg =
     (let p = dropWhile is_blank (str_of arg)
      in if p \<noteq> [] \<and> (\<forall>c \<in> set p. is_digit c) then Some p else None)"

lemma decimal_arg_digits: "decimal_arg arg = Some ds \<Longrightarrow> ds \<noteq> [] \<and> (\<forall>c \<in> set ds. is_digit c)"
  by (auto simp: decimal_arg_def Let_def split: if_splits)

lemma dropWhile_Nil_iff: "dropWhile P xs = [] \<longleftrightarrow> (\<forall>x \<in> set xs. P x)"
  by simp

lemma decimal_arg_iff:
  "decimal_arg arg = Some ds \<longleftrightarrow>
     (\<exists>bs. str_of arg = bs @ ds \<and> (\<forall>c \<in> set bs. is_blank c)) \<and> ds \<noteq> [] \<and> (\<forall>c \<in> set ds. is_digit c)"
proof
  assume "decimal_arg arg = Some ds"
  then have "ds = dropWhile is_blank (str_of arg)" and "ds \<noteq> []" and "\<forall>c \<in> set ds. is_digit c"
    by (auto simp: decimal_arg_def Let_def split: if_splits)
  then show "(\<exists>bs. str_of arg = bs @ ds \<and> (\<forall>c \<in> set bs. is_blank c)) \<and> ds \<noteq> [] \<and> (\<forall>c \<in> set ds. is_digit c)"
    by (metis set_takeWhileD takeWhile_dropWhile_id)
next
  assume "(\<exists>bs. str_of arg = bs @ ds \<and> (\<forall>c \<in> set bs. is_blank c)) \<and> ds \<noteq> [] \<and> (\<forall>c \<in> set ds. is_digit c)"
  then obtain bs where bs: "str_of arg = bs @ ds" "\<forall>c \<in> set bs. is_blank c"
    and ds: "ds \<noteq> []" "\<forall>c \<in> set ds. is_digit c" by blast
  have "\<not> is_blank (hd ds)" using ds by (simp add: blank_not_digit)
  then have "dropWhile is_blank (bs @ ds) = ds" using bs by (intro dropWhile_skip) auto
  with bs ds show "decimal_arg arg = Some ds" by (simp add: decimal_arg_def)
qed

lemma digit_fold_exact:
  assumes "\<forall>c \<in> set ds. is_digit c" and "length ds \<le> 18"
  shows "foldl digit_step 0 ds = int (digits_val ds)"
  using assms
proof (induction ds rule: rev_induct)
  case Nil
  then show ?case by simp
next
  case (snoc c ds)
  have "digits_val ds < 10 ^ length ds" using snoc.prems by (intro digits_val_bound) simp
  also have "(10::nat) ^ length ds \<le> 10 ^ 17" using snoc.prems by (intro power_increasing) auto
  finally have "digits_val ds < 10 ^ 17" .
  moreover have "digit_val c < 10" using snoc.prems by (simp add: digit_val_bound)
  ultimately show ?case using snoc by (simp add: digit_step_def)
qed

subsection \<open>The interface: a strict decimal parser\<close>

text \<open>
  The grammar of this module's parsers.  \<open>fits ds\<close> is at most nine
  digits for the \<open>int\<close> parsers, and no restriction for the 64-bit one.
\<close>

lemma decimal_arg_show: "decimal_arg (Some (show_nat n)) = Some (show_nat n)"
  using show_nat_digits [of n] by (subst decimal_arg_iff) (auto simp: str_of_def)

locale strict_decimal = decimal_parser parse decimal_arg Some fits bounds
  for parse :: "int \<Rightarrow> int \<Rightarrow> string option \<Rightarrow> 'e + int"
    and fits :: "string \<Rightarrow> bool"
    and bounds :: "int \<Rightarrow> int \<Rightarrow> bool"
begin

lemma parse_reject:
  assumes "bounds lo hi" and "c \<in> set (dropWhile is_blank (str_of arg))" and "\<not> is_digit c"
  shows "\<exists>e. parse lo hi arg = Inl e"
  using assms by (intro parse_no_token) (auto simp: decimal_arg_def Let_def)

lemma parse_reject_empty:
  assumes "bounds lo hi" and "\<forall>c \<in> set (str_of arg). is_blank c"
  shows "\<exists>e. parse lo hi arg = Inl e"
  using assms by (intro parse_no_token) (auto simp: decimal_arg_def Let_def)

end

subsection \<open>The code's parsers provide it\<close>

lemma all_digits_split:
  "p \<noteq> [] \<Longrightarrow> dropWhile is_digit p = [] \<Longrightarrow> takeWhile is_digit p = p \<and> (\<forall>c \<in> set p. is_digit c)"
  by (auto simp: takeWhile_eq_all_conv)

lemma small_s32: "v < 10 ^ 9 \<Longrightarrow> s32 (int v) = int v"
  by (intro s32_id) auto

lemma digits_val_lt_9: "\<forall>c \<in> set ds. is_digit c \<Longrightarrow> length ds \<le> 9 \<Longrightarrow> digits_val ds < 10 ^ 9"
  by (rule less_le_trans [OF digits_val_bound power_increasing]) auto

lemma parse_nonneg_int_iff:
  "parse_nonneg_int d lo hi arg = Inr v \<longleftrightarrow>
     (\<exists>ds. decimal_arg arg = Some ds \<and> length ds \<le> 9 \<and> v = int (digits_val ds) \<and> lo \<le> v \<and> v \<le> hi)"
proof (cases "decimal_arg arg")
  case None
  then show ?thesis
    by (auto simp: decimal_arg_def parse_nonneg_int_def Let_def split: if_splits)
next
  case (Some ds)
  then have p: "dropWhile is_blank (str_of arg) = ds" and ds: "ds \<noteq> []" "\<forall>c \<in> set ds. is_digit c"
    by (auto simp: decimal_arg_def Let_def split: if_splits)
  then have tw: "takeWhile is_digit ds = ds" "dropWhile is_digit ds = []" by auto
  have "foldl digit_step 0 ds = int (digits_val ds)" "s32 (int (digits_val ds)) = int (digits_val ds)"
    if "length ds \<le> 9"
    using that ds digit_fold_exact [of ds] small_s32 [OF digits_val_lt_9 [of ds]] by auto
  then show ?thesis
    unfolding parse_nonneg_int_def Let_def p tw using Some ds(1) by auto
qed

lemma parse_nonneg_int_bounded_iff:
  "parse_nonneg_int_bounded d lo hi arg = Inr v \<longleftrightarrow>
     (\<exists>ds. decimal_arg arg = Some ds \<and> length ds \<le> 9 \<and> v = int (digits_val ds) \<and> lo \<le> v \<and> v \<le> hi)"
proof -
  have "parse_nonneg_int_bounded d lo hi arg = Inr v \<longleftrightarrow> parse_nonneg_int d lo hi arg = Inr v"
    by (auto simp: parse_nonneg_int_bounded_def parse_nonneg_int_def Let_def str_of_def split: if_splits)
  then show ?thesis by (simp add: parse_nonneg_int_iff)
qed

text \<open>
  The overflow guard: with \<open>0 \<le> hi < 2 ^ 63\<close> the loop computes the exact value while it fits
  the bound (or is a single digit), and gives up only when the value exceeds it.
\<close>

lemma c_div_small: "0 \<le> hi \<Longrightarrow> 0 \<le> d \<Longrightarrow> d \<le> 9 \<Longrightarrow> hi < d \<Longrightarrow> c_div (hi - d) 10 = 0"
  by (simp add: c_div_def)

lemma off_guard:
  assumes "0 \<le> hi" "hi < 2 ^ 63" "0 \<le> d" "d \<le> 9" "0 \<le> v"
  shows "v > c_div (s64 (hi - d)) 10 \<longleftrightarrow> (if hi < d then 0 < v else v * 10 + d > hi)"
proof (cases "hi < d")
  case True
  with assms show ?thesis by (simp add: c_div_small)
next
  case False
  with assms have "c_div (s64 (hi - d)) 10 = (hi - d) div 10" by simp
  with False show ?thesis by auto
qed

lemma digits_val_append: "digits_val (xs @ ys) = foldl (\<lambda>v c. v * 10 + digit_val c) (digits_val xs) ys"
  by (simp add: digits_val_def)

lemma foldl_digits_mono: "(v::nat) \<le> foldl (\<lambda>v c. v * 10 + digit_val c) v ds"
proof (induction ds arbitrary: v)
  case (Cons c ds)
  have "v \<le> v * 10 + digit_val c" by simp
  also have "\<dots> \<le> foldl (\<lambda>v c. v * 10 + digit_val c) (v * 10 + digit_val c) ds" by (rule Cons.IH)
  finally show ?case by simp
qed simp

lemma off_loop_exact:
  assumes "0 \<le> hi" "hi < 2 ^ 63" "\<forall>c \<in> set ds. is_digit c" "int v \<le> hi \<or> v \<le> 9"
  shows "case off_loop hi ds (int v) of
           None \<Rightarrow> int (foldl (\<lambda>v c. v * 10 + digit_val c) v ds) > hi
         | Some w \<Rightarrow> w = int (foldl (\<lambda>v c. v * 10 + digit_val c) v ds)"
  using assms(3,4)
proof (induction ds arbitrary: v)
  case Nil
  then show ?case by simp
next
  case (Cons c ds)
  define d where "d = digit_val c"
  have d: "d < 10" using Cons.prems(1) by (simp add: d_def digit_val_bound)
  show ?case
  proof (cases "int v > c_div (s64 (hi - int d)) 10")
    case True
    then have "int (v * 10 + d) > hi"
      using off_guard [of hi "int d" "int v"] assms d by (auto split: if_splits)
    moreover have "int (v * 10 + d) \<le> int (foldl (\<lambda>v c. v * 10 + digit_val c) (v * 10 + d) ds)"
      using foldl_digits_mono by (simp only: of_nat_le_iff)
    ultimately have "int (foldl (\<lambda>v c. v * 10 + digit_val c) (v * 10 + d) ds) > hi" by linarith
    with True show ?thesis by (simp add: d_def)
  next
    case False
    then have b: "int (v * 10 + d) \<le> hi \<or> v * 10 + d \<le> 9"
      using off_guard [of hi "int d" "int v"] assms d by (auto split: if_splits)
    have lt: "int v * 10 + int d < 2 ^ 63" using b assms(2) by auto
    have "s64 (s64 (int v * 10) + int d) = int (v * 10 + d)"
      using lt by (subst (2) s64_id) auto
    with False Cons.IH [of "v * 10 + d"] Cons.prems(1) b show ?thesis
      by (simp add: Let_def d_def [symmetric] split: option.splits)
  qed
qed

lemma off_loop_digits:
  assumes "0 \<le> hi" "hi < 2 ^ 63" "\<forall>c \<in> set ds. is_digit c"
  shows "off_loop hi ds 0 = (if off_loop hi ds 0 = None then None else Some (int (digits_val ds)))"
    and "off_loop hi ds 0 = None \<Longrightarrow> int (digits_val ds) > hi"
  using off_loop_exact [of hi ds 0] assms by (auto simp: digits_val_def split: option.splits)

lemma parse_nonneg_off_iff:
  assumes "0 \<le> hi" "hi < 2 ^ 63"
  shows "parse_nonneg_off d lo hi arg = Inr v \<longleftrightarrow>
     (\<exists>ds. decimal_arg arg = Some ds \<and> v = int (digits_val ds) \<and> lo \<le> v \<and> v \<le> hi)"
proof (cases "decimal_arg arg")
  case None
  then show ?thesis
    by (auto simp: decimal_arg_def parse_nonneg_off_def Let_def split: if_splits)
next
  case (Some ds)
  then have p: "dropWhile is_blank (str_of arg) = ds" and ds: "ds \<noteq> []" "\<forall>c \<in> set ds. is_digit c"
    by (auto simp: decimal_arg_def Let_def split: if_splits)
  then have tw: "takeWhile is_digit ds = ds" "dropWhile is_digit ds = []" by auto
  show ?thesis
    unfolding parse_nonneg_off_def Let_def p tw
    using Some ds(1) off_loop_digits [OF assms ds(2)] by (auto split: option.splits)
qed

interpretation nonneg_int: strict_decimal "parse_nonneg_int d" "\<lambda>ds. length ds \<le> 9" "\<lambda>_ _. True"
  by unfold_locales (simp_all add: parse_nonneg_int_iff decimal_arg_show)

interpretation nonneg_off: strict_decimal "parse_nonneg_off d" "\<lambda>_. True" "\<lambda>lo hi. 0 \<le> hi \<and> hi < 2 ^ 63"
  by unfold_locales (simp_all add: parse_nonneg_off_iff decimal_arg_show)

interpretation nonneg_bounded:
  strict_decimal "parse_nonneg_int_bounded d" "\<lambda>ds. length ds \<le> 9" "\<lambda>_ _. True"
  by unfold_locales (simp_all add: parse_nonneg_int_bounded_iff decimal_arg_show)

subsection \<open>Properties\<close>

text \<open>The off_t parser accepts an argument exactly when it is blanks followed by digits
  only whose value lies in the range, and then returns that value: neither the guard against
  overflow nor the 64-bit arithmetic rejects or distorts a number of any length.\<close>

theorem nonneg_off_exact:
  assumes "0 \<le> hi" and "hi < 2 ^ 63"
  shows "parse_nonneg_off d lo hi arg = Inr v \<longleftrightarrow>
    (\<exists>bs ds. str_of arg = bs @ ds \<and> (\<forall>c \<in> set bs. is_blank c) \<and> ds \<noteq> [] \<and> (\<forall>c \<in> set ds. is_digit c)
       \<and> v = int (digits_val ds) \<and> lo \<le> v \<and> v \<le> hi)"
  unfolding parse_nonneg_off_iff [OF assms] decimal_arg_iff by blast

theorem nonneg_off_exact_witness:
  "parse_nonneg_off ''MesiMaxBodySize'' 0 9223372036854775806 (Some '' 9223372036854775806'')
     = Inr 9223372036854775806"
proof (rule iffD2 [OF nonneg_off_exact])
  have v: "int (digits_val ''9223372036854775806'') = 9223372036854775806"
    by (simp add: digits_val_def digit_val_def)
  have d: "\<forall>c \<in> set ''9223372036854775806''. is_digit c" by code_simp
  show "\<exists>bs ds. str_of (Some '' 9223372036854775806'') = bs @ ds \<and> (\<forall>c \<in> set bs. is_blank c) \<and> ds \<noteq> []
      \<and> (\<forall>c \<in> set ds. is_digit c) \<and> (9223372036854775806::int) = int (digits_val ds)
      \<and> (0::int) \<le> 9223372036854775806 \<and> (9223372036854775806::int) \<le> 9223372036854775806"
    using v d by (intro exI [of _ "'' ''"] exI [of _ "''9223372036854775806''"] conjI)
      (simp_all only: str_of_def option.case append.simps, simp_all add: is_blank_def)
qed simp_all

text \<open>The two parsers for small numbers accept exactly the digit strings of at most nine
  digits in range, with the same value; on such arguments the off_t parser agrees with them.\<close>

theorem small_parsers_agree:
  assumes "0 \<le> hi" and "hi < 2 ^ 63"
  shows "(parse_nonneg_int d lo hi arg = Inr v \<longleftrightarrow> parse_nonneg_int_bounded d' lo hi arg = Inr v)
    \<and> (parse_nonneg_int d lo hi arg = Inr v \<longleftrightarrow>
         parse_nonneg_off d2 lo hi arg = Inr v \<and> length (dropWhile is_blank (str_of arg)) \<le> 9)"
proof
  show "parse_nonneg_int d lo hi arg = Inr v \<longleftrightarrow> parse_nonneg_int_bounded d' lo hi arg = Inr v"
    by (simp add: parse_nonneg_int_iff parse_nonneg_int_bounded_iff)
  show "parse_nonneg_int d lo hi arg = Inr v \<longleftrightarrow>
      parse_nonneg_off d2 lo hi arg = Inr v \<and> length (dropWhile is_blank (str_of arg)) \<le> 9"
    unfolding parse_nonneg_off_iff [OF assms] parse_nonneg_int_iff
    by (auto simp: decimal_arg_def Let_def split: if_splits)
qed

theorem small_parsers_agree_witness:
  "(parse_nonneg_int ''MesiMaxDepth'' 0 100 (Some ''42'') = Inr 42
      \<longleftrightarrow> parse_nonneg_int_bounded ''MesiCacheRedisDB'' 0 100 (Some ''42'') = Inr 42)
   \<and> (parse_nonneg_int ''MesiMaxDepth'' 0 100 (Some ''42'') = Inr 42
      \<longleftrightarrow> parse_nonneg_off ''MesiMaxBodySize'' 0 100 (Some ''42'') = Inr 42
        \<and> length (dropWhile is_blank (str_of (Some ''42''))) \<le> 9)"
  by (rule small_parsers_agree) simp_all

end
