(* ===== verification/Apache_Hosts.thy ===== *)
theory Apache_Hosts
  imports Apache_Num
begin

text \<open>
  The host allowlist: \<open>mesi_unicode_space\<close>, \<open>mesi_has_hostname_token\<close>, the token loop
  of \<open>set_allowed_hosts\<close> and the space-joined string the response filter passes to
  libgomesi.  The lemmas relate the byte patterns to the code points of Go's
  \<open>unicode.IsSpace\<close> (the separators of \<open>strings.Fields\<close>) and show that an accepted
  directive leaves at least one hostname in the joined string, so the restriction is never
  silently lost.
\<close>

definition mesi_unicode_space :: "string \<Rightarrow> nat" where
  "mesi_unicode_space p =
    (let len = length p; b = (\<lambda>i. byte (p ! i))
     in if 2 \<le> len \<and> b 0 = 0xc2 \<and> (b 1 = 0x85 \<or> b 1 = 0xa0) then 2
        else if 3 \<le> len \<and> b 0 = 0xe1 \<and> b 1 = 0x9a \<and> b 2 = 0x80 then 3
        else if 3 \<le> len \<and> b 0 = 0xe2 \<and> b 1 = 0x80 \<and>
          ((0x80 \<le> b 2 \<and> b 2 \<le> 0x8a) \<or> b 2 = 0xa8 \<or> b 2 = 0xa9 \<or> b 2 = 0xaf) then 3
        else if 3 \<le> len \<and> b 0 = 0xe2 \<and> b 1 = 0x81 \<and> b 2 = 0x9f then 3
        else if 3 \<le> len \<and> b 0 = 0xe3 \<and> b 1 = 0x80 \<and> b 2 = 0x80 then 3
        else 0)"

definition ascii_space :: "char \<Rightarrow> bool" where
  "ascii_space c \<longleftrightarrow> c \<in> {CHR '' '', CHR 0x09, CHR 0x0D, CHR 0x0A, CHR 0x0B, CHR 0x0C}"

lemma unicode_space_length: "mesi_unicode_space p \<le> length p"
  by (simp add: mesi_unicode_space_def Let_def)

function mesi_has_hostname_token :: "string \<Rightarrow> bool" where
  "mesi_has_hostname_token [] = False"
| "mesi_has_hostname_token (c # cs) =
     (if ascii_space c then mesi_has_hostname_token cs
      else let ws_width = mesi_unicode_space (c # cs)
           in if ws_width = 0 then True
              else mesi_has_hostname_token (drop ws_width (c # cs)))"
  by pat_completeness auto
termination by (relation "measure length") auto

declare mesi_has_hostname_token.simps(2) [simp del]

text \<open>The token loop of \<open>set_allowed_hosts\<close>: split on spaces and tabs, drop empty tokens.\<close>

function host_tokens :: "string \<Rightarrow> string list" where
  "host_tokens arg =
     (if arg = [] then []
      else let host = dropWhile is_blank arg;
               tok = takeWhile (\<lambda>c. \<not> is_blank c) host;
               arg' = dropWhile (\<lambda>c. \<not> is_blank c) host
           in if tok \<noteq> [] then tok # host_tokens arg' else host_tokens arg')"
  by pat_completeness auto
termination
proof (relation "measure length")
  fix arg host tok arg' :: string
  assume "arg \<noteq> []" and h: "host = dropWhile is_blank arg" and t: "tok = takeWhile (\<lambda>c. \<not> is_blank c) host"
    and a: "arg' = dropWhile (\<lambda>c. \<not> is_blank c) host" and "tok \<noteq> []"
  have "host = tok @ arg'" by (simp add: t a)
  then have "length arg' < length host" using \<open>tok \<noteq> []\<close> by simp
  also have "length host \<le> length arg" by (simp add: h length_dropWhile_le)
  finally show "(arg', arg) \<in> measure length" by simp
next
  fix arg host tok arg' :: string
  assume "arg \<noteq> []" and h: "host = dropWhile is_blank arg" and t: "tok = takeWhile (\<lambda>c. \<not> is_blank c) host"
    and a: "arg' = dropWhile (\<lambda>c. \<not> is_blank c) host" and "\<not> tok \<noteq> []"
  have "host = []"
  proof (rule ccontr)
    assume "host \<noteq> []"
    then obtain x xs where x: "host = x # xs" by (cases host) auto
    then have "\<not> is_blank x" using h by (metis dropWhile_hd)
    with x t \<open>\<not> tok \<noteq> []\<close> show False by simp
  qed
  with a \<open>arg \<noteq> []\<close> show "(arg', arg) \<in> measure length" by simp
qed simp

declare host_tokens.simps [simp del]

text \<open>The joined string: the hosts separated by one space.\<close>

fun join_hosts :: "string list \<Rightarrow> string" where
  "join_hosts [] = []"
| "join_hosts [h] = h"
| "join_hosts (h # g # hs) = h @ '' '' @ join_hosts (g # hs)"

text \<open>The size the filter computes before it copies: each host, and one byte between two.\<close>

definition join_hosts_total :: "string list \<Rightarrow> nat" where
  "join_hosts_total hosts = fold (\<lambda>i total. total + length (hosts ! i) + (if i > 0 then 1 else 0)) [0..<length hosts] 0"

subsection \<open>The byte patterns are the UTF-8 forms of Go's white space\<close>

text \<open>\<open>unicode.IsSpace\<close> beyond ASCII.\<close>

definition go_spaces :: "nat list" where
  "go_spaces = [0x85, 0xA0, 0x1680] @ [0x2000..<0x200B] @ [0x2028, 0x2029, 0x202F, 0x205F, 0x3000]"

definition go_space_bytes :: "string list" where
  "go_space_bytes = map utf8 go_spaces"

lemma prefix_bytes: "prefix u p \<longleftrightarrow> prefix (map byte u) (map byte p)"
  by (induction u p rule: list_induct2') auto

definition e280_thirds :: "nat list" where
  "e280_thirds = [0x80, 0x81, 0x82, 0x83, 0x84, 0x85, 0x86, 0x87, 0x88, 0x89, 0x8a, 0xa8, 0xa9, 0xaf]"

lemma go_space_bytes_values:
  "map (map byte) go_space_bytes =
     [[0xc2, 0x85], [0xc2, 0xa0], [0xe1, 0x9a, 0x80]]
     @ map (\<lambda>i. [0xe2, 0x80, i]) e280_thirds @ [[0xe2, 0x81, 0x9f], [0xe3, 0x80, 0x80]]"
  by (simp add: go_space_bytes_def go_spaces_def utf8_def upt_rec e280_thirds_def)

lemma e280_thirds_iff:
  "b \<in> set e280_thirds \<longleftrightarrow> (0x80 \<le> b \<and> b \<le> 0x8a) \<or> b = 0xa8 \<or> b = 0xa9 \<or> b = 0xaf"
  unfolding e280_thirds_def by (simp, presburger)

lemma go_prefix_ex:
  "(\<exists>u \<in> set go_space_bytes. prefix u p \<and> n = length u) \<longleftrightarrow>
   (\<exists>u \<in> set (map (map byte) go_space_bytes). prefix u (map byte p) \<and> n = length u)"
  by (auto simp: prefix_bytes)

lemma thirds_prefix_ex:
  "(\<exists>x \<in> S. prefix [0xe2, 0x80, x] (A # B # C # R) \<and> n = length [0xe2, 0x80, x]) \<longleftrightarrow>
     A = (0xe2::nat) \<and> B = 0x80 \<and> C \<in> S \<and> n = 3"
  by auto

lemma go_prefix_bytes:
  "(\<exists>u \<in> set go_space_bytes. prefix u (a # b # c # r) \<and> n = length u) \<longleftrightarrow>
     byte a = 0xc2 \<and> (byte b = 0x85 \<or> byte b = 0xa0) \<and> n = 2
   \<or> byte a = 0xe1 \<and> byte b = 0x9a \<and> byte c = 0x80 \<and> n = 3
   \<or> byte a = 0xe2 \<and> byte b = 0x80 \<and> byte c \<in> set e280_thirds \<and> n = 3
   \<or> byte a = 0xe2 \<and> byte b = 0x81 \<and> byte c = 0x9f \<and> n = 3
   \<or> byte a = 0xe3 \<and> byte b = 0x80 \<and> byte c = 0x80 \<and> n = 3"
  unfolding go_prefix_ex go_space_bytes_values set_append bex_Un set_map bex_simps list.map thirds_prefix_ex
  by (simp, rule iffI; elim disjE conjE; simp)

lemma go_prefix_short:
  "length p \<le> 2 \<Longrightarrow> (\<exists>u \<in> set go_space_bytes. prefix u p \<and> n = length u) \<longleftrightarrow>
     length p = 2 \<and> byte (p ! 0) = 0xc2 \<and> (byte (p ! 1) = 0x85 \<or> byte (p ! 1) = 0xa0) \<and> n = 2"
  unfolding go_prefix_ex go_space_bytes_values set_append bex_Un set_map bex_simps
  by (cases p; cases "tl p") auto

lemma unicode_space_iff:
  "mesi_unicode_space p = n \<and> 0 < n \<longleftrightarrow> (\<exists>u \<in> set go_space_bytes. prefix u p \<and> n = length u)"
proof (cases "length p \<le> 2")
  case True
  then show ?thesis
    unfolding go_prefix_short [OF True] by (auto simp: mesi_unicode_space_def Let_def)
next
  case False
  then obtain a b c r where p: "p = a # b # c # r" by (cases p; cases "tl p"; cases "tl (tl p)") auto
  show ?thesis
    unfolding p go_prefix_bytes e280_thirds_iff mesi_unicode_space_def Let_def
    by (simp split: if_splits, presburger)
qed

lemma unicode_space_zero: "mesi_unicode_space p = 0 \<longleftrightarrow> (\<forall>u \<in> set go_space_bytes. \<not> prefix u p)"
  using unicode_space_iff [of p] by (metis neq0_conv)

text \<open>White space between two hosts cannot hide inside a multi-byte sequence.\<close>

lemma go_space_bytes_high: "u \<in> set go_space_bytes \<Longrightarrow> c \<in> set u \<Longrightarrow> 128 \<le> byte c"
proof -
  have "\<forall>v \<in> set (map (map byte) go_space_bytes). \<forall>n \<in> set v. 128 \<le> n"
    unfolding go_space_bytes_values by (simp add: e280_thirds_def)
  then show "u \<in> set go_space_bytes \<Longrightarrow> c \<in> set u \<Longrightarrow> 128 \<le> byte c" by auto
qed

lemma prefix_before_low:
  assumes "\<forall>c \<in> set u. 128 \<le> byte c" and "byte b < 128"
  shows "prefix u (x @ b # y) \<longleftrightarrow> prefix u x"
proof
  assume "prefix u (x @ b # y)"
  then show "prefix u x"
  proof (rule prefix_append [THEN iffD1, THEN disjE])
    fix us assume "\<exists>us. u = x @ us \<and> prefix us (b # y)"
    then obtain us where us: "u = x @ us" "prefix us (b # y)" by blast
    have "us = []"
    proof (rule ccontr)
      assume "us \<noteq> []"
      with us have "b \<in> set u" by (cases us) auto
      with assms show False by auto
    qed
    with us show "prefix u x" by simp
  qed auto
qed simp

lemma unicode_space_before_low:
  assumes "byte b < 128"
  shows "mesi_unicode_space (x @ b # y) = mesi_unicode_space x"
proof -
  have "prefix u (x @ b # y) \<longleftrightarrow> prefix u x" if "u \<in> set go_space_bytes" for u
    using that assms by (intro prefix_before_low) (auto intro: go_space_bytes_high)
  then have "mesi_unicode_space (x @ b # y) = n \<and> 0 < n \<longleftrightarrow> mesi_unicode_space x = n \<and> 0 < n" for n
    unfolding unicode_space_iff by auto
  then show ?thesis by (metis neq0_conv)
qed

subsection \<open>Tokens and separators\<close>

lemma blank_ascii: "is_blank b \<Longrightarrow> ascii_space b \<and> byte b < 128"
  by (auto simp: is_blank_def ascii_space_def)

lemma has_token_blank:
  assumes "is_blank b"
  shows "mesi_has_hostname_token (x @ b # y) \<longleftrightarrow> mesi_has_hostname_token x \<or> mesi_has_hostname_token y"
proof (induction x rule: mesi_has_hostname_token.induct)
  case 1
  then show ?case using blank_ascii [OF assms] by (simp add: mesi_has_hostname_token.simps(2))
next
  case (2 c cs)
  have w: "mesi_unicode_space (c # cs @ b # y) = mesi_unicode_space (c # cs)"
    using unicode_space_before_low [of b "c # cs" y] blank_ascii [OF assms] by simp
  have "mesi_unicode_space (c # cs) \<le> length (c # cs)" by (rule unicode_space_length)
  then have d: "drop (mesi_unicode_space (c # cs)) (c # cs @ b # y)
      = drop (mesi_unicode_space (c # cs)) (c # cs) @ b # y"
    using drop_append [of _ "c # cs" "b # y"] by simp
  show ?case
    using 2 by (simp add: mesi_has_hostname_token.simps(2) w d Let_def)
qed

lemma has_token_Nil [simp]: "\<not> mesi_has_hostname_token []"
  by simp

lemma has_token_blanks:
  "\<forall>c \<in> set bs. is_blank c \<Longrightarrow> mesi_has_hostname_token (bs @ x) = mesi_has_hostname_token x"
  by (induction bs) (use has_token_blank [of _ "[]"] in auto)

text \<open>A value has a hostname exactly when one of its space-separated tokens has one.\<close>

lemma host_tokens_has_token:
  "mesi_has_hostname_token arg \<longleftrightarrow> (\<exists>t \<in> set (host_tokens arg). mesi_has_hostname_token t)"
proof (induction arg rule: host_tokens.induct)
  case (1 arg)
  define host where "host = dropWhile is_blank arg"
  define tok where "tok = takeWhile (\<lambda>c. \<not> is_blank c) host"
  define r where "r = dropWhile (\<lambda>c. \<not> is_blank c) host"
  have arg: "mesi_has_hostname_token arg = mesi_has_hostname_token host"
    using has_token_blanks [of "takeWhile is_blank arg" host] set_takeWhileD [of _ is_blank arg]
    by (auto simp: host_def)
  have host: "host = tok @ r" by (simp add: tok_def r_def)
  have "mesi_has_hostname_token host \<longleftrightarrow> mesi_has_hostname_token tok \<or> mesi_has_hostname_token r"
  proof (cases r)
    case Nil
    then show ?thesis by (simp add: host)
  next
    case (Cons b r')
    then have b: "is_blank b" using dropWhile_hd [of "\<lambda>c. \<not> is_blank c" host b r'] by (simp add: r_def)
    then show ?thesis
      using has_token_blank [OF b, of tok r'] has_token_blank [OF b, of "[]" r'] by (simp add: host Cons)
  qed
  with 1 arg show ?case
    by (subst host_tokens.simps) (auto simp: host_def [symmetric] tok_def [symmetric] r_def [symmetric] Let_def)
qed

lemma join_has_token:
  "mesi_has_hostname_token (join_hosts hs) \<longleftrightarrow> (\<exists>h \<in> set hs. mesi_has_hostname_token h)"
proof (induction hs rule: join_hosts.induct)
  case (3 h g hs)
  have b: "is_blank CHR '' ''" by (simp add: is_blank_def)
  show ?case using has_token_blank [OF b, of h] 3 by simp
qed auto

definition plain_token :: "string \<Rightarrow> bool" where
  "plain_token t \<longleftrightarrow> t \<noteq> [] \<and> (\<forall>c \<in> set t. \<not> is_blank c)"

lemma takeWhile_plain: "takeWhile (\<lambda>c. \<not> is_blank c) s \<noteq> [] \<Longrightarrow> plain_token (takeWhile (\<lambda>c. \<not> is_blank c) s)"
  by (auto simp: plain_token_def dest: set_takeWhileD)

lemma host_tokens_plain: "\<forall>t \<in> set (host_tokens arg). plain_token t"
proof (induction arg rule: host_tokens.induct)
  case (1 arg)
  show ?case
    using 1 takeWhile_plain [of "dropWhile is_blank arg"]
    by (simp only: host_tokens.simps [of arg] Let_def split: if_split) simp
qed

lemma plain_token_span:
  assumes "plain_token t" and "rest = [] \<or> is_blank (hd rest)"
  shows "dropWhile is_blank (t @ rest) = t @ rest"
    and "takeWhile (\<lambda>c. \<not> is_blank c) (t @ rest) = t"
    and "dropWhile (\<lambda>c. \<not> is_blank c) (t @ rest) = rest"
proof -
  have "\<not> is_blank (hd (t @ rest))" and all: "\<forall>c \<in> set t. \<not> is_blank c"
    using assms(1) by (auto simp: plain_token_def)
  then show "dropWhile is_blank (t @ rest) = t @ rest"
    using assms(1) by (cases t) (auto simp: plain_token_def)
  show "takeWhile (\<lambda>c. \<not> is_blank c) (t @ rest) = t" "dropWhile (\<lambda>c. \<not> is_blank c) (t @ rest) = rest"
    using all assms(2) by (cases rest; induction t; auto)+
qed

lemma host_tokens_Nil [simp]: "host_tokens [] = []"
  by (simp add: host_tokens.simps)

lemma host_tokens_cons:
  assumes "plain_token t" and "rest = [] \<or> is_blank (hd rest)"
  shows "host_tokens (t @ rest) = t # host_tokens rest"
  using assms(1)
  by (subst host_tokens.simps) (simp add: plain_token_span [OF assms] plain_token_def Let_def)

lemma host_tokens_space:
  assumes "is_blank b" shows "host_tokens (b # s) = host_tokens s"
proof (cases "s = []")
  case True
  with assms show ?thesis by (simp add: host_tokens.simps Let_def)
next
  case False
  with assms show ?thesis by (simp add: host_tokens.simps [of "b # s"] host_tokens.simps [of s])
qed

lemma host_tokens_join:
  "\<forall>h \<in> set hs. plain_token h \<Longrightarrow> host_tokens (join_hosts hs) = hs"
proof (induction hs rule: join_hosts.induct)
  case (2 h)
  then show ?case using host_tokens_cons [of h "[]"] by simp
next
  case (3 h g hs)
  have b: "is_blank CHR '' ''" by (simp add: is_blank_def)
  show ?case
    using 3 host_tokens_cons [of h "CHR '' '' # join_hosts (g # hs)"] host_tokens_space [OF b] b by simp
qed simp

lemma join_total_fold:
  "fold (\<lambda>i total. total + length (hosts ! i) + (if i > 0 then 1 else 0)) is t
     = t + (\<Sum>i \<leftarrow> is. length (hosts ! i) + (if i > 0 then 1 else 0))"
  by (induction "is" arbitrary: t) auto

lemma join_hosts_snoc: "hs \<noteq> [] \<Longrightarrow> join_hosts (hs @ [h]) = join_hosts hs @ '' '' @ h"
  by (induction hs rule: join_hosts.induct) auto

lemma join_total_length: "join_hosts_total hs = length (join_hosts hs)"
proof (induction hs rule: rev_induct)
  case Nil
  then show ?case by (simp add: join_hosts_total_def)
next
  case (snoc h hs)
  have "(\<Sum>i \<leftarrow> [0..<length hs]. length ((hs @ [h]) ! i) + (if i > 0 then 1 else 0))
      = (\<Sum>i \<leftarrow> [0..<length hs]. length (hs ! i) + (if i > 0 then 1 else 0))"
    by (intro arg_cong [where f = sum_list] map_cong) (auto simp: nth_append)
  with snoc show ?case
    by (cases "hs = []") (simp_all add: join_hosts_total_def join_total_fold join_hosts_snoc)
qed

subsection \<open>Properties\<close>

text \<open>The host list survives its trip: splitting the joined string gives back the very
  hosts that the directive was split into, in order.\<close>

theorem host_list_roundtrip: "host_tokens (join_hosts (host_tokens arg)) = host_tokens arg"
  using host_tokens_join [OF host_tokens_plain] .

text \<open>The size computed for the joined host string is its exact length, so the copy loop
  stays inside the allocation.\<close>

theorem host_join_allocation: "join_hosts_total hs = length (join_hosts hs)"
  by (rule join_total_length)

text \<open>\<open>mesi_unicode_space\<close> recognises exactly the UTF-8 encodings of the non-ASCII
  white space of Go's \<open>unicode.IsSpace\<close>, and returns their length.\<close>

theorem unicode_space_is_go_space:
  "mesi_unicode_space p = n \<longleftrightarrow>
     (if \<exists>u \<in> set go_space_bytes. prefix u p
      then \<exists>u \<in> set go_space_bytes. prefix u p \<and> n = length u else n = 0)"
  using unicode_space_iff [of p n] unicode_space_zero [of p] unicode_space_iff [of p "mesi_unicode_space p"]
  by (cases "n = 0") auto

end
