(* ===== verification/Go_Config.thy ===== *)
theory Go_Config
  imports Go_Json Apache_Hosts
begin

text \<open>
  \<open>libgomesi/internal/config\<close>: the schema of the blob that \<open>ParseJson\<close> takes, its
  decoding and the resolution of absent keys, and the split of the host list.  A Go error is
  \<open>None\<close>; a pointer that may be nil is an option.  \<open>int\<close> has 64 bits.
\<close>

subsection \<open>Limits\<close>

definition go_MaxMaxDepth :: int where "go_MaxMaxDepth = 10000"
definition go_MaxTimeoutSeconds :: int where "go_MaxTimeoutSeconds = 86400"
definition go_DefaultTimeoutSeconds :: int where "go_DefaultTimeoutSeconds = 30"
definition go_MaxMaxResponseSize :: int where "go_MaxMaxResponseSize = 9223372036854775806"
definition go_MaxMaxConcurrentRequests :: int where "go_MaxMaxConcurrentRequests = 999999999"
definition go_MaxMaxWorkers :: int where "go_MaxMaxWorkers = 999999999"
definition go_DefaultMaxDepth :: int where "go_DefaultMaxDepth = 5"

lemmas go_limits = go_MaxMaxDepth_def go_MaxTimeoutSeconds_def go_DefaultTimeoutSeconds_def
  go_MaxMaxResponseSize_def go_MaxMaxConcurrentRequests_def go_MaxMaxWorkers_def go_DefaultMaxDepth_def

text \<open>A \<open>time.Duration\<close> counts nanoseconds.\<close>

definition go_seconds :: "int \<Rightarrow> int" where
  "go_seconds v = s64 (v * 1000000000)"

definition validate_max_depth :: "int \<Rightarrow> bool" where
  "validate_max_depth v \<longleftrightarrow> \<not> v < 0 \<and> \<not> v > go_MaxMaxDepth"

definition validate_timeout :: "int \<Rightarrow> bool" where
  "validate_timeout v \<longleftrightarrow> \<not> v < 1 \<and> \<not> v > go_MaxTimeoutSeconds"

definition resolve_timeout :: "int option \<Rightarrow> int option" where
  "resolve_timeout explicit =
    (let v = (case explicit of None \<Rightarrow> go_DefaultTimeoutSeconds | Some e \<Rightarrow> e)
     in if validate_timeout v then Some (go_seconds v) else None)"

definition validate_max_response_size :: "int \<Rightarrow> bool" where
  "validate_max_response_size v \<longleftrightarrow> \<not> v < 0 \<and> \<not> v > go_MaxMaxResponseSize"

definition validate_max_concurrent :: "int \<Rightarrow> bool" where
  "validate_max_concurrent v \<longleftrightarrow> \<not> v < 0 \<and> \<not> v > go_MaxMaxConcurrentRequests"

definition validate_max_workers :: "int \<Rightarrow> bool" where
  "validate_max_workers v \<longleftrightarrow> \<not> v < 0 \<and> \<not> v > go_MaxMaxWorkers"

subsection \<open>Decoding into Go variables\<close>

text \<open>\<open>strconv.ParseInt (t, 10, 64)\<close> of a JSON number.\<close>

definition go_parse_int :: "string \<Rightarrow> int option" where
  "go_parse_int t =
    (let neg = (t \<noteq> [] \<and> hd t = CHR ''-'');
         ds = (if neg then tl t else t);
         v = (if neg then - int (digits_val ds) else int (digits_val ds))
     in if ds \<noteq> [] \<and> list_all is_digit ds \<and> - (2 ^ 63) \<le> v \<and> v < 2 ^ 63 then Some v else None)"

text \<open>\<open>null\<close> leaves a string or a bool as it is and makes a pointer nil; any other value of the
  wrong type is an error.\<close>

definition into_string :: "gjson \<Rightarrow> string \<Rightarrow> string option" where
  "into_string v old = (case v of GNull \<Rightarrow> Some old | GStr s \<Rightarrow> Some s | _ \<Rightarrow> None)"

definition into_bool :: "gjson \<Rightarrow> bool \<Rightarrow> bool option" where
  "into_bool v old = (case v of GNull \<Rightarrow> Some old | GBool b \<Rightarrow> Some b | _ \<Rightarrow> None)"

definition into_bool_ptr :: "gjson \<Rightarrow> bool option option" where
  "into_bool_ptr v = (case v of GNull \<Rightarrow> Some None | GBool b \<Rightarrow> Some (Some b) | _ \<Rightarrow> None)"

definition into_int_ptr :: "gjson \<Rightarrow> int option option" where
  "into_int_ptr v = (case v of GNull \<Rightarrow> Some None | GNum t \<Rightarrow> map_option Some (go_parse_int t) | _ \<Rightarrow> None)"

text \<open>
  Keys are matched without regard to case.  Beyond ASCII only the long s and the Kelvin sign fold to
  a letter of a field name.
\<close>

function fold_key :: "string \<Rightarrow> string" where
  "fold_key [] = []"
| "fold_key (c # cs) =
     (if prefix (utf8 383) (c # cs) then CHR ''s'' # fold_key (drop 1 cs)
      else if prefix (utf8 8490) (c # cs) then CHR ''k'' # fold_key (drop 2 cs)
      else lower c # fold_key cs)"
  by pat_completeness auto
termination by (relation "measure length") auto

subsection \<open>\<open>ParseConfig\<close>\<close>

record parse_config =
  pc_max_depth :: "int option"
  pc_default_url :: string
  pc_allowed_hosts :: string
  pc_block_private_ips :: "bool option"
  pc_allow_private :: bool
  pc_cache_key_template :: string
  pc_debug :: bool
  pc_parse_on_header :: bool
  pc_request_ctx :: string
  pc_timeout_seconds :: "int option"
  pc_max_response_size :: "int option"
  pc_max_concurrent_requests :: "int option"
  pc_max_workers :: "int option"
  pc_include_error_marker :: string

definition zero_config :: parse_config where
  "zero_config =
    \<lparr> pc_max_depth = None, pc_default_url = [], pc_allowed_hosts = [], pc_block_private_ips = None,
      pc_allow_private = False, pc_cache_key_template = [], pc_debug = False, pc_parse_on_header = False,
      pc_request_ctx = [], pc_timeout_seconds = None, pc_max_response_size = None,
      pc_max_concurrent_requests = None, pc_max_workers = None, pc_include_error_marker = [] \<rparr>"

text \<open>One member; an unknown key is ignored.\<close>

definition into_config :: "string \<Rightarrow> string \<Rightarrow> gjson \<Rightarrow> parse_config \<Rightarrow> parse_config option" where
  "into_config key raw v c =
    (if key = ''maxdepth'' then map_option (\<lambda>x. c\<lparr>pc_max_depth := x\<rparr>) (into_int_ptr v)
     else if key = ''defaulturl'' then map_option (\<lambda>x. c\<lparr>pc_default_url := x\<rparr>) (into_string v (pc_default_url c))
     else if key = ''allowedhosts'' then map_option (\<lambda>x. c\<lparr>pc_allowed_hosts := x\<rparr>) (into_string v (pc_allowed_hosts c))
     else if key = ''blockprivateips'' then map_option (\<lambda>x. c\<lparr>pc_block_private_ips := x\<rparr>) (into_bool_ptr v)
     else if key = ''allowprivateipsforallowedhosts''
       then map_option (\<lambda>x. c\<lparr>pc_allow_private := x\<rparr>) (into_bool v (pc_allow_private c))
     else if key = ''cachekeytemplate''
       then map_option (\<lambda>x. c\<lparr>pc_cache_key_template := x\<rparr>) (into_string v (pc_cache_key_template c))
     else if key = ''debug'' then map_option (\<lambda>x. c\<lparr>pc_debug := x\<rparr>) (into_bool v (pc_debug c))
     else if key = ''parseonheader''
       then map_option (\<lambda>x. c\<lparr>pc_parse_on_header := x\<rparr>) (into_bool v (pc_parse_on_header c))
     else if key = ''requestctx'' then Some (c\<lparr>pc_request_ctx := raw\<rparr>)
     else if key = ''timeoutseconds'' then map_option (\<lambda>x. c\<lparr>pc_timeout_seconds := x\<rparr>) (into_int_ptr v)
     else if key = ''maxresponsesize'' then map_option (\<lambda>x. c\<lparr>pc_max_response_size := x\<rparr>) (into_int_ptr v)
     else if key = ''maxconcurrentrequests''
       then map_option (\<lambda>x. c\<lparr>pc_max_concurrent_requests := x\<rparr>) (into_int_ptr v)
     else if key = ''maxworkers'' then map_option (\<lambda>x. c\<lparr>pc_max_workers := x\<rparr>) (into_int_ptr v)
     else if key = ''includeerrormarker''
       then map_option (\<lambda>x. c\<lparr>pc_include_error_marker := x\<rparr>) (into_string v (pc_include_error_marker c))
     else Some c)"

fun into_members :: "(string \<times> string \<times> gjson) list \<Rightarrow> parse_config \<Rightarrow> parse_config option" where
  "into_members [] c = Some c"
| "into_members ((k, raw, v) # ms) c =
     (case into_config (fold_key k) raw v c of None \<Rightarrow> None | Some c' \<Rightarrow> into_members ms c')"

definition parse_config_from_json :: "string \<Rightarrow> parse_config option" where
  "parse_config_from_json data =
    (case go_read data of
       None \<Rightarrow> None
     | Some v \<Rightarrow>
         (case v of
            GNull \<Rightarrow> Some zero_config
          | GObj ms \<Rightarrow> into_members ms zero_config
          | _ \<Rightarrow> None))"

definition resolved_max_depth :: "parse_config \<Rightarrow> int option" where
  "resolved_max_depth c =
    (let v = (case pc_max_depth c of None \<Rightarrow> go_DefaultMaxDepth | Some e \<Rightarrow> e)
     in if validate_max_depth v then Some v else None)"

definition resolved_timeout :: "parse_config \<Rightarrow> int option" where
  "resolved_timeout c = resolve_timeout (pc_timeout_seconds c)"

definition resolved_max_response_size :: "parse_config \<Rightarrow> int option" where
  "resolved_max_response_size c =
    (case pc_max_response_size c of
       None \<Rightarrow> Some 0
     | Some v \<Rightarrow> if validate_max_response_size v then Some v else None)"

definition resolved_max_concurrent :: "parse_config \<Rightarrow> int option" where
  "resolved_max_concurrent c =
    (case pc_max_concurrent_requests c of
       None \<Rightarrow> Some 0
     | Some v \<Rightarrow> if validate_max_concurrent v then Some v else None)"

definition resolved_max_workers :: "parse_config \<Rightarrow> int option" where
  "resolved_max_workers c =
    (case pc_max_workers c of
       None \<Rightarrow> Some 0
     | Some v \<Rightarrow> if validate_max_workers v then Some v else None)"

definition resolved_block_private_ips :: "parse_config \<Rightarrow> bool" where
  "resolved_block_private_ips c = (case pc_block_private_ips c of Some b \<Rightarrow> b | None \<Rightarrow> True)"

subsection \<open>The host list\<close>

text \<open>
  \<open>strings.Fields\<close>.  \<open>space_len\<close> is the number of bytes of the white space at the start of a text.
  The scan goes byte by byte: a byte inside a rune never starts white space.
\<close>

definition space_len :: "string \<Rightarrow> nat" where
  "space_len s =
    (case s of
       [] \<Rightarrow> 0
     | c # cs \<Rightarrow>
         if byte c = 32 \<or> 9 \<le> byte c \<and> byte c \<le> 13 then 1
         else case find (\<lambda>u. prefix u s) go_space_bytes of None \<Rightarrow> 0 | Some u \<Rightarrow> length u)"

definition end_field :: "string \<Rightarrow> string list" where
  "end_field tok = (if tok = [] then [] else [tok])"

fun fields_from :: "nat \<Rightarrow> string \<Rightarrow> string \<Rightarrow> string list" where
  "fields_from k tok [] = end_field tok"
| "fields_from (Suc k) tok (c # cs) = fields_from k tok cs"
| "fields_from 0 tok (c # cs) =
     (case space_len (c # cs) of
        0 \<Rightarrow> fields_from 0 (tok @ [c]) cs
      | Suc k \<Rightarrow> end_field tok @ fields_from k [] cs)"

definition go_fields :: "string \<Rightarrow> string list" where
  "go_fields s = fields_from 0 [] s"

text \<open>\<open>config.AllowedHosts\<close>; its warning is a log line.\<close>

definition go_allowed_hosts :: "string \<Rightarrow> string list" where
  "go_allowed_hosts hosts_str = go_fields hosts_str"

end
