(* ===== verification/Apache_Config.thy ===== *)
theory Apache_Config
  imports Apache_Hosts
begin

text \<open>
  The server configuration of \<open>mod_mesi.c\<close>: the record \<open>mesi_config\<close>, its defaults, the
  inheritance between a server and a virtual host (\<open>merge_server_config\<close>), and every
  directive handler, which returns the error text it would hand to Apache (\<open>None\<close> for
  NULL) together with the configuration it leaves behind.
\<close>

record mesi_config =
  enable_mesi :: int
  allowed_hosts :: "string list"
  block_private_ips :: int
  allow_private_ips_for_allowed :: int
  shared_http_client :: int
  cache_backend :: "string option"
  cache_size :: int
  cache_ttl :: int
  cache_redis_addr :: "string option"
  cache_redis_password :: "string option"
  cache_redis_db :: int
  cache_memcached_servers :: "string list"
  cache_key_template :: "string option"
  max_depth :: int
  timeout_seconds :: int
  max_response_size :: int
  max_body_size :: int
  on_oversize :: int
  max_concurrent_requests :: int
  max_workers :: int
  debug :: int
  parse_on_header :: int
  include_error_marker :: "string option"

definition MESI_MAX_CACHE_SIZE :: int where "MESI_MAX_CACHE_SIZE = 1000000"
definition MESI_MAX_CACHE_TTL_SECONDS :: int where "MESI_MAX_CACHE_TTL_SECONDS = 24 * 60 * 60"
definition MESI_MAX_REDIS_DB :: int where "MESI_MAX_REDIS_DB = 15"
definition MESI_MAX_MEMCACHED_SERVERS :: nat where "MESI_MAX_MEMCACHED_SERVERS = 64"
definition MESI_MAX_CACHE_KEY_TEMPLATE :: nat where "MESI_MAX_CACHE_KEY_TEMPLATE = 4096"
definition MESI_MAX_MAX_DEPTH :: int where "MESI_MAX_MAX_DEPTH = 10000"
definition MESI_DEFAULT_MAX_DEPTH :: int where "MESI_DEFAULT_MAX_DEPTH = 5"
definition MESI_MAX_TIMEOUT_SECONDS :: int where "MESI_MAX_TIMEOUT_SECONDS = 24 * 60 * 60"
definition MESI_MAX_MAX_RESPONSE_SIZE :: int where "MESI_MAX_MAX_RESPONSE_SIZE = 9223372036854775806"
definition MESI_MAX_MAX_CONCURRENT_REQUESTS :: int where "MESI_MAX_MAX_CONCURRENT_REQUESTS = 999999999"
definition MESI_MAX_MAX_WORKERS :: int where "MESI_MAX_MAX_WORKERS = 999999999"
definition MESI_DEFAULT_CACHE_SIZE :: int where "MESI_DEFAULT_CACHE_SIZE = 10000"
definition MESI_ON_OVERSIZE_PASS :: int where "MESI_ON_OVERSIZE_PASS = 0"
definition MESI_ON_OVERSIZE_ERROR :: int where "MESI_ON_OVERSIZE_ERROR = 1"

lemmas limit_defs [simp] =
  MESI_MAX_CACHE_SIZE_def MESI_MAX_CACHE_TTL_SECONDS_def MESI_MAX_REDIS_DB_def
  MESI_MAX_MEMCACHED_SERVERS_def MESI_MAX_CACHE_KEY_TEMPLATE_def MESI_MAX_MAX_DEPTH_def
  MESI_DEFAULT_MAX_DEPTH_def MESI_MAX_TIMEOUT_SECONDS_def MESI_MAX_MAX_RESPONSE_SIZE_def
  MESI_MAX_MAX_CONCURRENT_REQUESTS_def MESI_MAX_MAX_WORKERS_def MESI_DEFAULT_CACHE_SIZE_def
  MESI_ON_OVERSIZE_PASS_def MESI_ON_OVERSIZE_ERROR_def

subsection \<open>Defaults and inheritance\<close>

definition create_server_config :: mesi_config where
  "create_server_config =
    \<lparr> enable_mesi = 0, allowed_hosts = [], block_private_ips = -1,
      allow_private_ips_for_allowed = -1, shared_http_client = -1, cache_backend = Some [],
      cache_size = 0, cache_ttl = -1, cache_redis_addr = None, cache_redis_password = None,
      cache_redis_db = -1, cache_memcached_servers = [], cache_key_template = None,
      max_depth = -1, timeout_seconds = -1, max_response_size = -1, max_body_size = -1,
      on_oversize = -1, max_concurrent_requests = -1, max_workers = -1, debug = -1,
      parse_on_header = -1, include_error_marker = None \<rparr>"

definition merge_server_config :: "mesi_config \<Rightarrow> mesi_config \<Rightarrow> mesi_config" where
  "merge_server_config base add =
    \<lparr> enable_mesi = (if enable_mesi add \<noteq> 0 then enable_mesi add else enable_mesi base),
      allowed_hosts = (if length (allowed_hosts add) > 0 then allowed_hosts add else allowed_hosts base),
      block_private_ips =
        (if block_private_ips add \<noteq> -1 then block_private_ips add else block_private_ips base),
      allow_private_ips_for_allowed =
        (if allow_private_ips_for_allowed add \<noteq> -1 then allow_private_ips_for_allowed add
         else allow_private_ips_for_allowed base),
      shared_http_client =
        (if shared_http_client add \<noteq> -1 then shared_http_client add else shared_http_client base),
      cache_backend = (if nonempty (cache_backend add) then cache_backend add else cache_backend base),
      cache_size = (if cache_size add > 0 then cache_size add else cache_size base),
      cache_ttl = (if cache_ttl add \<ge> 0 then cache_ttl add else cache_ttl base),
      cache_redis_addr =
        (if cache_redis_addr add \<noteq> None then cache_redis_addr add else cache_redis_addr base),
      cache_redis_password =
        (if cache_redis_password add \<noteq> None then cache_redis_password add else cache_redis_password base),
      cache_redis_db = (if cache_redis_db add \<ge> 0 then cache_redis_db add else cache_redis_db base),
      cache_memcached_servers =
        (if length (cache_memcached_servers add) > 0 then cache_memcached_servers add
         else cache_memcached_servers base),
      cache_key_template =
        (if cache_key_template add \<noteq> None then cache_key_template add else cache_key_template base),
      max_depth = (if max_depth add \<noteq> -1 then max_depth add else max_depth base),
      timeout_seconds = (if timeout_seconds add \<noteq> -1 then timeout_seconds add else timeout_seconds base),
      max_response_size =
        (if max_response_size add \<noteq> -1 then max_response_size add else max_response_size base),
      max_body_size = (if max_body_size add \<noteq> -1 then max_body_size add else max_body_size base),
      on_oversize = (if on_oversize add \<noteq> -1 then on_oversize add else on_oversize base),
      max_concurrent_requests =
        (if max_concurrent_requests add \<noteq> -1 then max_concurrent_requests add
         else max_concurrent_requests base),
      max_workers = (if max_workers add \<noteq> -1 then max_workers add else max_workers base),
      debug = (if debug add \<noteq> -1 then debug add else debug base),
      parse_on_header = (if parse_on_header add \<noteq> -1 then parse_on_header add else parse_on_header base),
      include_error_marker =
        (if include_error_marker add \<noteq> None then include_error_marker add
         else include_error_marker base) \<rparr>"

subsection \<open>Directive handlers\<close>

text \<open>The result of a handler: the error text or NULL, and the configuration after it.\<close>

type_synonym handler_result = "cfg_error option \<times> mesi_config"

definition set_enable_mesi :: "mesi_config \<Rightarrow> int \<Rightarrow> handler_result" where [cfg_defs]:
  "set_enable_mesi conf flag = (None, conf\<lparr>enable_mesi := flag\<rparr>)"

definition set_allowed_hosts :: "mesi_config \<Rightarrow> string option \<Rightarrow> handler_result" where
  "set_allowed_hosts conf arg =
    (case arg of
       None \<Rightarrow> (Some HostsEmpty, conf)
     | Some a \<Rightarrow>
         if \<not> mesi_has_hostname_token a then (Some HostsEmpty, conf)
         else if CHR 0x22 \<in> set a \<or> CHR 0x27 \<in> set a then (Some HostsQuote, conf)
         else (None, conf\<lparr>allowed_hosts := allowed_hosts conf @ host_tokens a\<rparr>))"

definition set_block_private_ips :: "mesi_config \<Rightarrow> int \<Rightarrow> handler_result" where [cfg_defs]:
  "set_block_private_ips conf flag = (None, conf\<lparr>block_private_ips := flag\<rparr>)"

definition set_allow_private_for_allowed :: "mesi_config \<Rightarrow> int \<Rightarrow> handler_result" where [cfg_defs]:
  "set_allow_private_for_allowed conf flag = (None, conf\<lparr>allow_private_ips_for_allowed := flag\<rparr>)"

definition set_shared_http_client :: "mesi_config \<Rightarrow> int \<Rightarrow> handler_result" where [cfg_defs]:
  "set_shared_http_client conf flag = (None, conf\<lparr>shared_http_client := flag\<rparr>)"

definition set_debug :: "mesi_config \<Rightarrow> int \<Rightarrow> handler_result" where [cfg_defs]:
  "set_debug conf flag = (None, conf\<lparr>debug := flag\<rparr>)"

definition set_parse_on_header :: "mesi_config \<Rightarrow> int \<Rightarrow> handler_result" where [cfg_defs]:
  "set_parse_on_header conf flag = (None, conf\<lparr>parse_on_header := flag\<rparr>)"

definition set_max_depth :: "mesi_config \<Rightarrow> string option \<Rightarrow> handler_result" where [cfg_defs]:
  "set_max_depth conf arg =
    (case parse_nonneg_int ''MesiMaxDepth'' 0 MESI_MAX_MAX_DEPTH arg of
       Inl err \<Rightarrow> (Some err, conf) | Inr v \<Rightarrow> (None, conf\<lparr>max_depth := v\<rparr>))"

definition set_timeout :: "mesi_config \<Rightarrow> string option \<Rightarrow> handler_result" where [cfg_defs]:
  "set_timeout conf arg =
    (case parse_nonneg_int ''MesiTimeout'' 1 MESI_MAX_TIMEOUT_SECONDS arg of
       Inl err \<Rightarrow> (Some err, conf) | Inr v \<Rightarrow> (None, conf\<lparr>timeout_seconds := v\<rparr>))"

definition set_max_response_size :: "mesi_config \<Rightarrow> string option \<Rightarrow> handler_result" where [cfg_defs]:
  "set_max_response_size conf arg =
    (case parse_nonneg_off ''MesiMaxResponseSize'' 0 MESI_MAX_MAX_RESPONSE_SIZE arg of
       Inl err \<Rightarrow> (Some err, conf) | Inr v \<Rightarrow> (None, conf\<lparr>max_response_size := v\<rparr>))"

definition set_max_body_size :: "mesi_config \<Rightarrow> string option \<Rightarrow> handler_result" where [cfg_defs]:
  "set_max_body_size conf arg =
    (case parse_nonneg_off ''MesiMaxBodySize'' 0 MESI_MAX_MAX_RESPONSE_SIZE arg of
       Inl err \<Rightarrow> (Some err, conf) | Inr v \<Rightarrow> (None, conf\<lparr>max_body_size := v\<rparr>))"

definition set_on_oversize :: "mesi_config \<Rightarrow> string \<Rightarrow> handler_result" where [cfg_defs]:
  "set_on_oversize conf arg =
    (if strcaseeq arg ''pass'' then (None, conf\<lparr>on_oversize := MESI_ON_OVERSIZE_PASS\<rparr>)
     else if strcaseeq arg ''error'' then (None, conf\<lparr>on_oversize := MESI_ON_OVERSIZE_ERROR\<rparr>)
     else (Some (BadOversize arg), conf))"

definition set_max_concurrent_requests :: "mesi_config \<Rightarrow> string option \<Rightarrow> handler_result" where [cfg_defs]:
  "set_max_concurrent_requests conf arg =
    (case parse_nonneg_int ''MesiMaxConcurrentRequests'' 0 MESI_MAX_MAX_CONCURRENT_REQUESTS arg of
       Inl err \<Rightarrow> (Some err, conf) | Inr v \<Rightarrow> (None, conf\<lparr>max_concurrent_requests := v\<rparr>))"

definition set_max_workers :: "mesi_config \<Rightarrow> string option \<Rightarrow> handler_result" where [cfg_defs]:
  "set_max_workers conf arg =
    (case parse_nonneg_int ''MesiMaxWorkers'' 0 MESI_MAX_MAX_WORKERS arg of
       Inl err \<Rightarrow> (Some err, conf) | Inr v \<Rightarrow> (None, conf\<lparr>max_workers := v\<rparr>))"

text \<open>
  \<open>ap_getword_conf\<close> belongs to httpd: \<open>getword p\<close> is the word it takes from the
  line \<open>p\<close> and the rest of the line it leaves.
\<close>

definition set_include_error_marker ::
  "(string \<Rightarrow> string \<times> string) \<Rightarrow> mesi_config \<Rightarrow> string option \<Rightarrow> handler_result" where
  "set_include_error_marker getword conf arg =
    (let p = dropWhile ascii_space (str_of arg)
     in if p = [] then (Some MarkerMissing, conf)
        else let (marker, rest) = getword p
             in if rest \<noteq> [] then (Some MarkerExtra, conf)
                else (None, conf\<lparr>include_error_marker := Some marker\<rparr>))"

definition set_cache_backend :: "mesi_config \<Rightarrow> string option \<Rightarrow> handler_result" where [cfg_defs]:
  "set_cache_backend conf arg =
    (case arg of
       None \<Rightarrow> (Some BackendMissing, conf)
     | Some a \<Rightarrow>
         if a = ''memory'' then (None, conf\<lparr>cache_backend := Some ''memory''\<rparr>)
         else if a = ''redis'' then (None, conf\<lparr>cache_backend := Some ''redis''\<rparr>)
         else if a = ''memcached'' then (None, conf\<lparr>cache_backend := Some ''memcached''\<rparr>)
         else if a = [] then (None, conf\<lparr>cache_backend := Some []\<rparr>)
         else (Some (BadBackend a), conf))"

definition set_cache_size :: "mesi_config \<Rightarrow> string option \<Rightarrow> handler_result" where [cfg_defs]:
  "set_cache_size conf arg =
    (case parse_nonneg_int ''MesiCacheSize'' 1 MESI_MAX_CACHE_SIZE arg of
       Inl err \<Rightarrow> (Some err, conf) | Inr v \<Rightarrow> (None, conf\<lparr>cache_size := v\<rparr>))"

definition set_cache_ttl :: "mesi_config \<Rightarrow> string option \<Rightarrow> handler_result" where [cfg_defs]:
  "set_cache_ttl conf arg =
    (case parse_nonneg_int ''MesiCacheTTL'' 0 MESI_MAX_CACHE_TTL_SECONDS arg of
       Inl err \<Rightarrow> (Some err, conf) | Inr v \<Rightarrow> (None, conf\<lparr>cache_ttl := v\<rparr>))"

text \<open>\<open>strrchr (s, ':')\<close>: what stands before the last colon and what stands after it.\<close>

definition last_colon :: "string \<Rightarrow> (string \<times> string) option" where
  "last_colon s =
    (if CHR '':'' \<in> set s
     then let port = rev (takeWhile (\<lambda>c. c \<noteq> CHR '':'') (rev s))
          in Some (take (length s - length port - 1) s, port)
     else None)"

definition redis_addr_bad_char :: "char \<Rightarrow> bool" where
  "redis_addr_bad_char c \<longleftrightarrow>
     c = CHR '' '' \<or> c = CHR 0x09 \<or> c = CHR 0x22 \<or> c = CHR 0x5C \<or> byte c < 0x20"

definition set_cache_redis_addr :: "mesi_config \<Rightarrow> string option \<Rightarrow> handler_result" where
  "set_cache_redis_addr conf arg =
    (case arg of
       None \<Rightarrow> (Some RedisAddrMissing, conf)
     | Some a \<Rightarrow>
         if a = [] then (None, conf\<lparr>cache_redis_addr := None\<rparr>)
         else case find redis_addr_bad_char a of
                Some c \<Rightarrow> (Some (RedisAddrChar (byte c) a), conf)
              | None \<Rightarrow>
                  (case last_colon a of
                     None \<Rightarrow> (Some (RedisAddrForm a), conf)
                   | Some (host, port) \<Rightarrow>
                       if host = [] \<or> port = [] then (Some (RedisAddrForm a), conf)
                       else case parse_nonneg_int_bounded ''MesiCacheRedisAddr'' 1 65535 (Some port) of
                              Inl _ \<Rightarrow> (Some (RedisAddrPort a), conf)
                            | Inr _ \<Rightarrow> (None, conf\<lparr>cache_redis_addr := Some a\<rparr>)))"

definition set_cache_redis_password :: "mesi_config \<Rightarrow> string option \<Rightarrow> handler_result" where
  "set_cache_redis_password conf arg =
    (case arg of
       None \<Rightarrow> (None, conf\<lparr>cache_redis_password := Some []\<rparr>)
     | Some a \<Rightarrow>
         (case find (\<lambda>c. byte c < 0x20) a of
            Some c \<Rightarrow> (Some (RedisPasswordChar (byte c)), conf)
          | None \<Rightarrow> (None, conf\<lparr>cache_redis_password := Some a\<rparr>)))"

definition set_cache_redis_db :: "mesi_config \<Rightarrow> string option \<Rightarrow> handler_result" where [cfg_defs]:
  "set_cache_redis_db conf arg =
    (case parse_nonneg_int ''MesiCacheRedisDB'' 0 MESI_MAX_REDIS_DB arg of
       Inl err \<Rightarrow> (Some err, conf) | Inr v \<Rightarrow> (None, conf\<lparr>cache_redis_db := v\<rparr>))"

text \<open>The checks on one entry, in the order of the code.\<close>

definition is_quote :: "char \<Rightarrow> bool" where
  "is_quote c \<longleftrightarrow> c = CHR 0x22 \<or> c = CHR 0x27"

definition memcached_entry_error :: "string \<Rightarrow> cfg_error option" where
  "memcached_entry_error tok =
    (case find (\<lambda>c. is_quote c \<or> c = CHR 0x5C \<or> byte c < 0x20) tok of
       Some c \<Rightarrow> Some (if is_quote c then MemcachedQuote tok else MemcachedChar tok)
     | None \<Rightarrow>
         (case last_colon tok of
            None \<Rightarrow> Some (MemcachedForm tok)
          | Some (host, port) \<Rightarrow>
              if host = [] \<or> port = [] then Some (MemcachedForm tok)
              else case parse_nonneg_int_bounded ''MesiCacheMemcachedServers'' 1 65535 (Some port) of
                     Inl _ \<Rightarrow> Some (MemcachedPort tok)
                   | Inr _ \<Rightarrow> None))"

text \<open>The loop: entries pushed before an error stay in the array.\<close>

fun memcached_loop :: "string list \<Rightarrow> nat \<Rightarrow> string list \<Rightarrow> cfg_error option \<times> nat \<times> string list" where
  "memcached_loop [] count servers = (None, count, servers)"
| "memcached_loop (tok # toks) count servers =
     (case memcached_entry_error tok of
        Some err \<Rightarrow> (Some err, count, servers)
      | None \<Rightarrow>
          if count \<ge> MESI_MAX_MEMCACHED_SERVERS then (Some MemcachedTooMany, count, servers)
          else memcached_loop toks (count + 1) (servers @ [tok]))"

definition set_cache_memcached_servers :: "mesi_config \<Rightarrow> string option \<Rightarrow> handler_result" where
  "set_cache_memcached_servers conf arg =
    (case arg of
       None \<Rightarrow> (Some MemcachedMissing, conf)
     | Some a \<Rightarrow>
         (let (err, count, servers) = memcached_loop (host_tokens a) 0 (cache_memcached_servers conf);
              conf' = conf\<lparr>cache_memcached_servers := servers\<rparr>
          in case err of
               Some e \<Rightarrow> (Some e, conf')
             | None \<Rightarrow> if count = 0 then (Some MemcachedNone, conf') else (None, conf')))"

end
