(* ===== verification/Apache_Template.thy ===== *)
theory Apache_Template
  imports Apache_Config
begin

text \<open>
  \<open>set_cache_key_template\<close>: the cache key template directive with its normalisation of
  \<open>$${\<close> to \<open>${\<close>.  The lemmas show that the buffer sized by the counting
  loop is exactly the one the copying loop fills, and that a normalised template holds no
  \<open>$${\<close> that was in the argument twice over.
\<close>

text \<open>\<open>strstr\<close>: the rest of the string from the first occurrence on.\<close>

fun strstr :: "string \<Rightarrow> string \<Rightarrow> string option" where
  "strstr [] t = (if t = [] then Some [] else None)"
| "strstr (c # cs) t = (if prefix t (c # cs) then Some (c # cs) else strstr cs t)"

lemma strstr_Some: "strstr s t = Some q \<Longrightarrow> suffix q s \<and> prefix t q"
  by (induction s) (auto simp: suffix_Cons split: if_splits)

lemma strstr_None: "strstr s t = None \<longleftrightarrow> \<not> contains s t"
  by (induction s) auto

definition dollar2 :: string where
  "dollar2 = ''$${''"

text \<open>The counting loop \<open>for (q = arg; (q = strstr (q, "$${")) != NULL; q += 3) cnt++\<close>.\<close>

function count_dollar2 :: "string \<Rightarrow> nat" where
  "count_dollar2 q = (case strstr q dollar2 of None \<Rightarrow> 0 | Some q' \<Rightarrow> Suc (count_dollar2 (drop 3 q')))"
  by pat_completeness auto
termination
proof (relation "measure length")
  fix q q' assume "strstr q dollar2 = Some q'"
  then have "suffix q' q" "prefix dollar2 q'" by (auto dest: strstr_Some)
  then have "length q' \<le> length q" "3 \<le> length q'"
    by (auto simp: suffix_length_le dollar2_def dest: prefix_length_le)
  then show "(drop 3 q', q) \<in> measure length" by simp
qed simp

declare count_dollar2.simps [simp del]

text \<open>The copying loop.\<close>

function copy_norm :: "string \<Rightarrow> string" where
  "copy_norm [] = []"
| "copy_norm (c # cs) =
     (if prefix dollar2 (c # cs) then ''${'' @ copy_norm (drop 3 (c # cs)) else c # copy_norm cs)"
  by pat_completeness auto
termination by (relation "measure length") auto

declare copy_norm.simps(2) [simp del]

definition norm_template :: "string \<Rightarrow> string" where
  "norm_template arg = (if strstr arg dollar2 \<noteq> None then copy_norm arg else arg)"

definition norm_alloc :: "string \<Rightarrow> nat" where
  "norm_alloc arg = length arg - count_dollar2 arg + 1"

definition template_bad_char :: "char \<Rightarrow> bool" where
  "template_bad_char c \<longleftrightarrow> byte c < 0x20 \<or> byte c = 0x7f"

definition set_cache_key_template :: "mesi_config \<Rightarrow> string option \<Rightarrow> handler_result" where
  "set_cache_key_template conf arg =
    (case arg of
       None \<Rightarrow> (Some TemplateMissing, conf)
     | Some a \<Rightarrow>
         if a = [] then (None, conf\<lparr>cache_key_template := None\<rparr>)
         else if length a > MESI_MAX_CACHE_KEY_TEMPLATE then (Some (TemplateTooLong (length a)), conf)
         else case find template_bad_char a of
                Some c \<Rightarrow> (Some (if byte c < 0x20 then TemplateControl (byte c) else TemplateDel), conf)
              | None \<Rightarrow>
                  (let t = norm_template a
                   in if contains t ''::'' then (Some (TemplateMangled t), conf)
                      else if t ! (length t - 1) = CHR '':'' then (Some (TemplateMangled t), conf)
                      else (None, conf\<lparr>cache_key_template := Some t\<rparr>)))"

subsection \<open>The buffer is exactly filled\<close>

lemma count_step_match: "prefix dollar2 s \<Longrightarrow> count_dollar2 s = Suc (count_dollar2 (drop 3 s))"
proof (cases s)
  case (Cons c cs)
  then show "prefix dollar2 s \<Longrightarrow> ?thesis" by (simp add: count_dollar2.simps [of "c # cs"])
qed (simp add: dollar2_def)

lemma count_step_skip: "\<not> prefix dollar2 (c # cs) \<Longrightarrow> count_dollar2 (c # cs) = count_dollar2 cs"
  by (simp add: count_dollar2.simps [of "c # cs"] count_dollar2.simps [of cs])

lemma count_Nil [simp]: "count_dollar2 [] = 0"
  by (simp add: count_dollar2.simps dollar2_def)

lemma copy_norm_length: "length (copy_norm s) + count_dollar2 s = length s"
proof (induction s rule: copy_norm.induct)
  case 1
  then show ?case by simp
next
  case (2 c cs)
  show ?case
  proof (cases "prefix dollar2 (c # cs)")
    case True
    then have "3 \<le> length (c # cs)" by (auto simp: dollar2_def dest: prefix_length_le)
    with True 2(1) show ?thesis
      by (simp add: copy_norm.simps(2) count_step_match)
  next
    case False
    with 2(2) show ?thesis by (simp add: copy_norm.simps(2) count_step_skip)
  qed
qed

lemma copy_norm_fits: "length (copy_norm s) + 1 = norm_alloc s"
  using copy_norm_length [of s] by (simp add: norm_alloc_def)

lemma copy_norm_id: "strstr s dollar2 = None \<Longrightarrow> copy_norm s = s"
  by (induction s) (auto simp: copy_norm.simps(2) split: if_splits)

lemma norm_template_copy: "norm_template a = copy_norm a"
  by (simp add: norm_template_def copy_norm_id)

lemma copy_norm_Nil_iff: "copy_norm s = [] \<longleftrightarrow> s = []"
  by (cases s) (simp_all add: copy_norm.simps(2))

lemma copy_norm_set: "set (copy_norm s) \<subseteq> set s"
proof (induction s rule: copy_norm.induct)
  case (2 c cs)
  show ?case
  proof (cases "prefix dollar2 (c # cs)")
    case True
    then obtain r where "c # cs = CHR ''$'' # CHR ''$'' # CHR ''{'' # r"
      by (auto simp: dollar2_def prefix_def)
    with True 2(1) show ?thesis by (auto simp: copy_norm.simps(2))
  next
    case False
    with 2(2) show ?thesis by (auto simp: copy_norm.simps(2))
  qed
qed simp

text \<open>A template written with the documented escape arrives as intended.\<close>

lemma copy_norm_escaped:
  assumes "\<forall>c \<in> set pre. c \<noteq> CHR ''$''"
  shows "copy_norm (pre @ ''$${'' @ rest) = pre @ ''${'' @ copy_norm rest"
  using assms by (induction pre) (auto simp: copy_norm.simps(2) dollar2_def)

subsection \<open>Properties\<close>

text \<open>A template stored by \<open>MesiCacheKeyTemplate\<close> is the argument with every
  \<open>$${\<close> turned into \<open>${\<close>, it exactly fills the buffer allocated for it, and
  it holds no control character, no \<open>::\<close> and no trailing colon.\<close>

theorem stored_template_normalised:
  assumes "set_cache_key_template conf (Some a) = (None, conf')" and "a \<noteq> []"
  shows "\<exists>t. conf' = conf\<lparr>cache_key_template := Some t\<rparr> \<and> t = copy_norm a
    \<and> length t + 1 = norm_alloc a \<and> length t \<le> MESI_MAX_CACHE_KEY_TEMPLATE
    \<and> (\<forall>c \<in> set t. 0x20 \<le> byte c \<and> byte c \<noteq> 0x7f) \<and> \<not> contains t ''::'' \<and> last t \<noteq> CHR '':''"
proof -
  have ok: "length a \<le> MESI_MAX_CACHE_KEY_TEMPLATE" "\<forall>c \<in> set a. \<not> template_bad_char c"
      "\<not> contains (copy_norm a) ''::''" "copy_norm a ! (length (copy_norm a) - 1) \<noteq> CHR '':''"
      "conf' = conf\<lparr>cache_key_template := Some (copy_norm a)\<rparr>"
    using assms
    by (auto simp: set_cache_key_template_def Let_def find_None_iff norm_template_copy
        split: if_splits option.splits)
  moreover have "copy_norm a \<noteq> []" using assms(2) copy_norm_Nil_iff by simp
  moreover have "\<forall>c \<in> set (copy_norm a). \<not> template_bad_char c" using ok(2) copy_norm_set by blast
  ultimately show ?thesis
    using copy_norm_fits [of a] copy_norm_length [of a]
    by (simp add: template_bad_char_def last_conv_nth not_less)
qed

theorem stored_template_normalised_witness:
  "\<exists>t. (create_server_config\<lparr>cache_key_template := Some ''${url}''\<rparr>)
        = create_server_config\<lparr>cache_key_template := Some t\<rparr> \<and> t = copy_norm ''$${url}''
    \<and> length t + 1 = norm_alloc ''$${url}'' \<and> length t \<le> MESI_MAX_CACHE_KEY_TEMPLATE
    \<and> (\<forall>c \<in> set t. 0x20 \<le> byte c \<and> byte c \<noteq> 0x7f) \<and> \<not> contains t ''::'' \<and> last t \<noteq> CHR '':''"
proof (rule stored_template_normalised)
  have "find template_bad_char ''$${url}'' = None" "norm_template ''$${url}'' = ''${url}''"
    "\<not> contains ''${url}'' ''::''" "''${url}'' ! (length ''${url}'' - 1) \<noteq> CHR '':''"
    "length ''$${url}'' \<le> MESI_MAX_CACHE_KEY_TEMPLATE"
    by (code_simp | simp add: norm_template_copy)+
  then show "set_cache_key_template create_server_config (Some ''$${url}'')
      = (None, create_server_config\<lparr>cache_key_template := Some ''${url}''\<rparr>)"
    by (simp add: set_cache_key_template_def)
qed simp

end
