(* ===== verification/Mesi_Scopes.thy ===== *)
theory Mesi_Scopes
  imports Mesi_Prelude
begin

text \<open>
  Inheritance of settings along a chain of scopes.  \<open>config_scopes\<close> is the contract of a
  merge operation \<open>merge base add\<close> on the configurations a server can hold;
  \<open>scope_field\<close> adds one setting with an "is set" test.  The clients are the server/vhost
  merge of the Apache module and the location merge of the nginx module.
\<close>

locale config_scopes =
  fixes merge :: "'c \<Rightarrow> 'c \<Rightarrow> 'c"
    and unset :: "'c"
    and ok :: "'c \<Rightarrow> bool"
  assumes ok_unset: "ok unset"
    and ok_merge: "ok a \<Longrightarrow> ok b \<Longrightarrow> ok (merge a b)"
    and merge_unset_left: "ok c \<Longrightarrow> merge unset c = c"
    and merge_unset_right: "ok c \<Longrightarrow> merge c unset = c"
    and merge_assoc: "ok a \<Longrightarrow> ok b \<Longrightarrow> ok c \<Longrightarrow> merge (merge a b) c = merge a (merge b c)"
begin

definition effective :: "'c list \<Rightarrow> 'c" where
  "effective cs = foldl merge unset cs"

lemma effective_Nil: "effective [] = unset"
  by (simp add: effective_def)

lemma effective_snoc: "effective (cs @ [c]) = merge (effective cs) c"
  by (simp add: effective_def)

lemma effective_ok: "\<forall>c \<in> set cs. ok c \<Longrightarrow> ok (effective cs)"
  by (induction cs rule: rev_induct) (auto simp: effective_Nil effective_snoc ok_unset ok_merge)

lemma effective_append:
  "\<forall>c \<in> set (xs @ ys). ok c \<Longrightarrow> effective (xs @ ys) = merge (effective xs) (effective ys)"
proof (induction ys rule: rev_induct)
  case Nil
  then show ?case by (simp add: effective_Nil effective_ok merge_unset_right)
next
  case (snoc y ys)
  have "effective (xs @ ys @ [y]) = merge (merge (effective xs) (effective ys)) y"
    using snoc effective_snoc [of "xs @ ys" y] by simp
  also have "\<dots> = merge (effective xs) (merge (effective ys) y)"
    using snoc.prems by (intro merge_assoc effective_ok) auto
  finally show ?case by (simp add: effective_snoc)
qed

lemma effective_skip_unset:
  "\<forall>c \<in> set (xs @ ys). ok c \<Longrightarrow> effective (xs @ unset # ys) = effective (xs @ ys)"
  using effective_append [of "xs @ [unset]" ys] effective_append [of xs ys]
  by (auto simp: effective_snoc ok_unset merge_unset_right effective_ok)

end

locale scope_field = config_scopes merge unset ok
  for merge :: "'c \<Rightarrow> 'c \<Rightarrow> 'c" and unset :: "'c" and ok :: "'c \<Rightarrow> bool" +
  fixes get :: "'c \<Rightarrow> 'v"
    and is_set :: "'v \<Rightarrow> bool"
  assumes get_merge: "get (merge base add) = (if is_set (get add) then get add else get base)"
begin

text \<open>The innermost scope that sets the field decides it.\<close>

lemma get_effective:
  "get (effective cs) =
     (if \<exists>c \<in> set cs. is_set (get c) then get (last (filter (\<lambda>c. is_set (get c)) cs)) else get unset)"
  by (induction cs rule: rev_induct) (auto simp: effective_Nil effective_snoc get_merge)

lemma get_effective_inner:
  "is_set (get c) \<Longrightarrow> get (effective (cs @ [c])) = get c"
  by (simp add: effective_snoc get_merge)

end

end
