(* ===== verification/Apache_Directives.thy ===== *)
theory Apache_Directives
  imports Apache_Template Mesi_Scopes
begin

text \<open>
  The directive table (\<open>mesi_directives\<close>), loading of a configuration file section, the
  invariant every loaded configuration satisfies, and the inheritance of scopes.  The locale
  \<open>config_scopes\<close> is what a chain of scopes (global server, virtual host, ...) needs of a
  merge operation; \<open>scope_field\<close> adds one inherited setting.  \<open>merge_server_config\<close>
  provides both.
\<close>

subsection \<open>The directive table\<close>

datatype directive =
    EnableMesi bool
  | MaxDepth "string option"
  | IncludeErrorMarker "string option"
  | Timeout "string option"
  | MaxResponseSize "string option"
  | MaxBodySize "string option"
  | OnOversize string
  | MaxConcurrentRequests "string option"
  | MaxWorkers "string option"
  | AllowedHosts "string option"
  | BlockPrivateIPs bool
  | AllowPrivateIPsForAllowedHosts bool
  | SharedHTTPClient bool
  | Debug bool
  | ParseOnHeader bool
  | CacheBackend "string option"
  | CacheSize "string option"
  | CacheTTL "string option"
  | CacheRedisAddr "string option"
  | CacheRedisPassword "string option"
  | CacheRedisDB "string option"
  | CacheMemcachedServers "string option"
  | CacheKeyTemplate "string option"

text \<open>\<open>AP_INIT_FLAG\<close> hands a handler 0 or 1, the other forms hand it the argument text.\<close>

fun run_directive :: "(string \<Rightarrow> string \<times> string) \<Rightarrow> mesi_config \<Rightarrow> directive \<Rightarrow> handler_result" where
  "run_directive gw conf (EnableMesi b) = set_enable_mesi conf (of_bool b)"
| "run_directive gw conf (MaxDepth a) = set_max_depth conf a"
| "run_directive gw conf (IncludeErrorMarker a) = set_include_error_marker gw conf a"
| "run_directive gw conf (Timeout a) = set_timeout conf a"
| "run_directive gw conf (MaxResponseSize a) = set_max_response_size conf a"
| "run_directive gw conf (MaxBodySize a) = set_max_body_size conf a"
| "run_directive gw conf (OnOversize a) = set_on_oversize conf a"
| "run_directive gw conf (MaxConcurrentRequests a) = set_max_concurrent_requests conf a"
| "run_directive gw conf (MaxWorkers a) = set_max_workers conf a"
| "run_directive gw conf (AllowedHosts a) = set_allowed_hosts conf a"
| "run_directive gw conf (BlockPrivateIPs b) = set_block_private_ips conf (of_bool b)"
| "run_directive gw conf (AllowPrivateIPsForAllowedHosts b) = set_allow_private_for_allowed conf (of_bool b)"
| "run_directive gw conf (SharedHTTPClient b) = set_shared_http_client conf (of_bool b)"
| "run_directive gw conf (Debug b) = set_debug conf (of_bool b)"
| "run_directive gw conf (ParseOnHeader b) = set_parse_on_header conf (of_bool b)"
| "run_directive gw conf (CacheBackend a) = set_cache_backend conf a"
| "run_directive gw conf (CacheSize a) = set_cache_size conf a"
| "run_directive gw conf (CacheTTL a) = set_cache_ttl conf a"
| "run_directive gw conf (CacheRedisAddr a) = set_cache_redis_addr conf a"
| "run_directive gw conf (CacheRedisPassword a) = set_cache_redis_password conf a"
| "run_directive gw conf (CacheRedisDB a) = set_cache_redis_db conf a"
| "run_directive gw conf (CacheMemcachedServers a) = set_cache_memcached_servers conf a"
| "run_directive gw conf (CacheKeyTemplate a) = set_cache_key_template conf a"

text \<open>A section stops at the first directive that returns an error text.\<close>

fun load_directives ::
  "(string \<Rightarrow> string \<times> string) \<Rightarrow> mesi_config \<Rightarrow> directive list \<Rightarrow> handler_result" where
  "load_directives gw conf [] = (None, conf)"
| "load_directives gw conf (d # ds) =
     (case run_directive gw conf d of
        (Some e, conf') \<Rightarrow> (Some e, conf')
      | (None, conf') \<Rightarrow> load_directives gw conf' ds)"

subsection \<open>The invariant\<close>

definition tri :: "int \<Rightarrow> bool" where
  "tri v \<longleftrightarrow> v = -1 \<or> v = 0 \<or> v = 1"

definition unset_or :: "int \<Rightarrow> int \<Rightarrow> int \<Rightarrow> bool" where
  "unset_or lo hi v \<longleftrightarrow> v = -1 \<or> lo \<le> v \<and> v \<le> hi"

definition no_controls :: "string \<Rightarrow> bool" where
  "no_controls s \<longleftrightarrow> (\<forall>c \<in> set s. 32 \<le> byte c)"

definition opt_ok :: "(string \<Rightarrow> bool) \<Rightarrow> string option \<Rightarrow> bool" where
  "opt_ok P s = (case s of None \<Rightarrow> True | Some t \<Rightarrow> P t)"

definition backend_names :: "string set" where
  "backend_names = {[], ''memory'', ''redis'', ''memcached''}"

definition redis_addr_ok :: "string \<Rightarrow> bool" where
  "redis_addr_ok a \<longleftrightarrow> a \<noteq> [] \<and> (\<forall>c \<in> set a. \<not> redis_addr_bad_char c)"

definition memcached_entry_ok :: "string \<Rightarrow> bool" where
  "memcached_entry_ok t \<longleftrightarrow> plain_token t \<and> memcached_entry_error t = None"

definition template_ok :: "string \<Rightarrow> bool" where
  "template_ok t \<longleftrightarrow> t \<noteq> [] \<and> length t \<le> MESI_MAX_CACHE_KEY_TEMPLATE
     \<and> (\<forall>c \<in> set t. \<not> template_bad_char c) \<and> \<not> contains t ''::'' \<and> last t \<noteq> CHR '':''"

definition hosts_ok :: "string list \<Rightarrow> bool" where
  "hosts_ok hs \<longleftrightarrow> (\<forall>h \<in> set hs. plain_token h \<and> \<not> (\<exists>c \<in> set h. is_quote c))
     \<and> (hs \<noteq> [] \<longrightarrow> mesi_has_hostname_token (join_hosts hs))"

definition config_ok :: "mesi_config \<Rightarrow> bool" where
  "config_ok conf \<longleftrightarrow>
     (enable_mesi conf = 0 \<or> enable_mesi conf = 1)
     \<and> hosts_ok (allowed_hosts conf)
     \<and> tri (block_private_ips conf) \<and> tri (allow_private_ips_for_allowed conf)
     \<and> tri (shared_http_client conf) \<and> tri (debug conf) \<and> tri (parse_on_header conf)
     \<and> (\<exists>b \<in> backend_names. cache_backend conf = Some b)
     \<and> 0 \<le> cache_size conf \<and> cache_size conf \<le> MESI_MAX_CACHE_SIZE
     \<and> unset_or 0 MESI_MAX_CACHE_TTL_SECONDS (cache_ttl conf)
     \<and> opt_ok redis_addr_ok (cache_redis_addr conf)
     \<and> opt_ok no_controls (cache_redis_password conf)
     \<and> unset_or 0 MESI_MAX_REDIS_DB (cache_redis_db conf)
     \<and> (\<forall>t \<in> set (cache_memcached_servers conf). memcached_entry_ok t)
     \<and> opt_ok template_ok (cache_key_template conf)
     \<and> unset_or 0 MESI_MAX_MAX_DEPTH (max_depth conf)
     \<and> unset_or 1 MESI_MAX_TIMEOUT_SECONDS (timeout_seconds conf)
     \<and> unset_or 0 MESI_MAX_MAX_RESPONSE_SIZE (max_response_size conf)
     \<and> unset_or 0 MESI_MAX_MAX_RESPONSE_SIZE (max_body_size conf)
     \<and> tri (on_oversize conf)
     \<and> unset_or 0 MESI_MAX_MAX_CONCURRENT_REQUESTS (max_concurrent_requests conf)
     \<and> unset_or 0 MESI_MAX_MAX_WORKERS (max_workers conf)"

lemmas ok_defs = config_ok_def tri_def unset_or_def opt_ok_def

lemma config_ok_default: "config_ok create_server_config"
  by (simp add: create_server_config_def ok_defs hosts_ok_def backend_names_def)

lemma config_ok_merge:
  assumes "config_ok base" and "config_ok add"
  shows "config_ok (merge_server_config base add)"
  unfolding config_ok_def
  by (intro conjI; insert assms; clarsimp simp: config_ok_def merge_server_config_def)

lemma int_range:
  "parse_nonneg_int d lo hi arg = Inr v \<Longrightarrow> lo \<le> v \<and> v \<le> hi"
  using nonneg_int.parse_range by blast

lemma off_range:
  "parse_nonneg_off d lo MESI_MAX_MAX_RESPONSE_SIZE arg = Inr v \<Longrightarrow> lo \<le> v \<and> v \<le> MESI_MAX_MAX_RESPONSE_SIZE"
  by (drule nonneg_off.parse_range [rotated]) simp_all

lemma config_ok_numeric_updates:
  assumes "config_ok conf"
  shows "unset_or 0 MESI_MAX_MAX_DEPTH v \<Longrightarrow> config_ok (conf\<lparr>max_depth := v\<rparr>)"
    "unset_or 1 MESI_MAX_TIMEOUT_SECONDS v \<Longrightarrow> config_ok (conf\<lparr>timeout_seconds := v\<rparr>)"
    "unset_or 0 MESI_MAX_MAX_RESPONSE_SIZE v \<Longrightarrow> config_ok (conf\<lparr>max_response_size := v\<rparr>)"
    "unset_or 0 MESI_MAX_MAX_RESPONSE_SIZE v \<Longrightarrow> config_ok (conf\<lparr>max_body_size := v\<rparr>)"
    "unset_or 0 MESI_MAX_MAX_CONCURRENT_REQUESTS v \<Longrightarrow> config_ok (conf\<lparr>max_concurrent_requests := v\<rparr>)"
    "unset_or 0 MESI_MAX_MAX_WORKERS v \<Longrightarrow> config_ok (conf\<lparr>max_workers := v\<rparr>)"
    "0 \<le> v \<Longrightarrow> v \<le> MESI_MAX_CACHE_SIZE \<Longrightarrow> config_ok (conf\<lparr>cache_size := v\<rparr>)"
    "unset_or 0 MESI_MAX_CACHE_TTL_SECONDS v \<Longrightarrow> config_ok (conf\<lparr>cache_ttl := v\<rparr>)"
    "unset_or 0 MESI_MAX_REDIS_DB v \<Longrightarrow> config_ok (conf\<lparr>cache_redis_db := v\<rparr>)"
  using assms by (simp_all add: config_ok_def del: limit_defs)

lemma numeric_handlers_ok:
  assumes "config_ok conf"
  shows "config_ok (snd (set_max_depth conf a))" "config_ok (snd (set_timeout conf a))"
    "config_ok (snd (set_max_response_size conf a))" "config_ok (snd (set_max_body_size conf a))"
    "config_ok (snd (set_max_concurrent_requests conf a))" "config_ok (snd (set_max_workers conf a))"
    "config_ok (snd (set_cache_size conf a))" "config_ok (snd (set_cache_ttl conf a))"
    "config_ok (snd (set_cache_redis_db conf a))"
  using assms
  by (auto simp: cfg_defs unset_or_def simp del: limit_defs split: sum.split
        dest!: int_range off_range intro!: config_ok_numeric_updates)

lemma flag_handlers_ok:
  assumes "config_ok conf"
  shows "config_ok (snd (set_enable_mesi conf (of_bool b)))"
    "config_ok (snd (set_block_private_ips conf (of_bool b)))"
    "config_ok (snd (set_allow_private_for_allowed conf (of_bool b)))"
    "config_ok (snd (set_shared_http_client conf (of_bool b)))"
    "config_ok (snd (set_debug conf (of_bool b)))"
    "config_ok (snd (set_parse_on_header conf (of_bool b)))"
  using assms by (cases b; simp add: cfg_defs config_ok_def tri_def)+

lemma choice_handlers_ok:
  assumes "config_ok conf"
  shows "config_ok (snd (set_on_oversize conf s))" "config_ok (snd (set_cache_backend conf a))"
  using assms
  by (auto simp: cfg_defs config_ok_def tri_def backend_names_def split: option.split)

lemma marker_handler_ok: "config_ok conf \<Longrightarrow> config_ok (snd (set_include_error_marker gw conf a))"
  by (simp add: set_include_error_marker_def config_ok_def Let_def split: prod.split)

lemma host_tokens_subset: "\<forall>t \<in> set (host_tokens arg). set t \<subseteq> set arg"
proof (induction arg rule: host_tokens.induct)
  case (1 arg)
  define tok where "tok = takeWhile (\<lambda>c. \<not> is_blank c) (dropWhile is_blank arg)"
  define r where "r = dropWhile (\<lambda>c. \<not> is_blank c) (dropWhile is_blank arg)"
  have tok: "set tok \<subseteq> set arg" unfolding tok_def by (meson set_dropWhileD set_takeWhileD subsetI)
  have r: "set r \<subseteq> set arg" unfolding r_def by (meson set_dropWhileD subsetI)
  have "arg \<noteq> [] \<Longrightarrow> \<forall>t \<in> set (host_tokens r). set t \<subseteq> set r"
    using 1 by (cases "tok = []") (simp_all add: tok_def r_def)
  with r have "arg \<noteq> [] \<Longrightarrow> \<forall>t \<in> set (host_tokens r). set t \<subseteq> set arg" by fast
  with tok show ?case
    by (simp add: host_tokens.simps [of arg] tok_def [symmetric] r_def [symmetric] Let_def)
qed

lemma hosts_ok_append:
  assumes "hosts_ok hs" and "mesi_has_hostname_token a" and "CHR 0x22 \<notin> set a" and "CHR 0x27 \<notin> set a"
  shows "hosts_ok (hs @ host_tokens a)"
proof -
  have "mesi_has_hostname_token (join_hosts (hs @ host_tokens a))"
    using assms(2) host_tokens_has_token [of a] by (auto simp: join_has_token)
  moreover have "\<forall>h \<in> set (host_tokens a). plain_token h \<and> \<not> (\<exists>c \<in> set h. is_quote c)"
    using host_tokens_plain [of a] host_tokens_subset [of a] assms(3,4) by (auto simp: is_quote_def)
  ultimately show ?thesis using assms(1) by (simp add: hosts_ok_def ball_Un)
qed

lemma hosts_handler_ok:
  assumes "config_ok conf" shows "config_ok (snd (set_allowed_hosts conf a))"
proof -
  have "hosts_ok hs \<Longrightarrow> config_ok (conf\<lparr>allowed_hosts := hs\<rparr>)" for hs
    using assms by (simp add: config_ok_def del: limit_defs)
  moreover have "hosts_ok (allowed_hosts conf)" using assms by (simp add: config_ok_def)
  ultimately show ?thesis
    using assms by (auto simp: set_allowed_hosts_def intro: hosts_ok_append split: option.split)
qed

lemma redis_handlers_ok:
  assumes "config_ok conf"
  shows "config_ok (snd (set_cache_redis_addr conf a))" "config_ok (snd (set_cache_redis_password conf a))"
proof -
  have "opt_ok redis_addr_ok x \<Longrightarrow> config_ok (conf\<lparr>cache_redis_addr := x\<rparr>)" for x
    using assms by (simp add: config_ok_def del: limit_defs)
  then show "config_ok (snd (set_cache_redis_addr conf a))"
    using assms
    by (auto simp: set_cache_redis_addr_def opt_ok_def redis_addr_ok_def find_None_iff
          split: option.split sum.split)
  have "opt_ok no_controls x \<Longrightarrow> config_ok (conf\<lparr>cache_redis_password := x\<rparr>)" for x
    using assms by (simp add: config_ok_def del: limit_defs)
  then show "config_ok (snd (set_cache_redis_password conf a))"
    using assms
    by (auto simp: set_cache_redis_password_def opt_ok_def no_controls_def find_None_iff not_less
          split: option.split)
qed

lemma memcached_loop_spec:
  "memcached_loop toks count servers = (err, count', servers') \<Longrightarrow>
    \<exists>new. servers' = servers @ new \<and> count' = count + length new \<and> prefix new toks
      \<and> (\<forall>t \<in> set new. memcached_entry_error t = None) \<and> (err = None \<longrightarrow> new = toks)
      \<and> (count \<le> MESI_MAX_MEMCACHED_SERVERS \<longrightarrow> count' \<le> MESI_MAX_MEMCACHED_SERVERS)"
proof (induction toks arbitrary: count servers)
  case Nil
  then show ?case by auto
next
  case (Cons tok toks)
  show ?case
  proof (cases "memcached_entry_error tok = None \<and> count < MESI_MAX_MEMCACHED_SERVERS")
    case True
    with Cons.prems have "memcached_loop toks (count + 1) (servers @ [tok]) = (err, count', servers')"
      by simp
    from Cons.IH [OF this] obtain new where
      n: "servers' = servers @ tok # new" "count' = count + length (tok # new)" "prefix new toks"
      "\<forall>t \<in> set new. memcached_entry_error t = None" "err = None \<longrightarrow> new = toks"
      "count + 1 \<le> MESI_MAX_MEMCACHED_SERVERS \<longrightarrow> count' \<le> MESI_MAX_MEMCACHED_SERVERS"
      by auto
    with True show ?thesis by (intro exI [of _ "tok # new"]) auto
  next
    case False
    have "(\<exists>e. err = Some e) \<and> count' = count \<and> servers' = servers"
    proof (cases "memcached_entry_error tok")
      case None
      with False Cons.prems have "(Some MemcachedTooMany, count, servers) = (err, count', servers')" by simp
      then show ?thesis by blast
    next
      case (Some e)
      from Cons.prems have "(Some e, count, servers) = (err, count', servers')" by (simp add: Some)
      then show ?thesis by blast
    qed
    then show ?thesis by (intro exI [of _ "[]"]) auto
  qed
qed

lemma memcached_handler_ok:
  assumes "config_ok conf" shows "config_ok (snd (set_cache_memcached_servers conf a))"
proof -
  have upd: "\<forall>t \<in> set ts. memcached_entry_ok t \<Longrightarrow> config_ok (conf\<lparr>cache_memcached_servers := ts\<rparr>)" for ts
    using assms by (simp add: config_ok_def del: limit_defs)
  have old: "\<forall>t \<in> set (cache_memcached_servers conf). memcached_entry_ok t"
    using assms by (simp add: config_ok_def)
  show ?thesis
  proof (cases a)
    case None
    with assms show ?thesis by (simp add: set_cache_memcached_servers_def)
  next
    case (Some arg)
    obtain err count servers where
      l: "memcached_loop (host_tokens arg) 0 (cache_memcached_servers conf) = (err, count, servers)"
      by (metis prod_cases3)
    from memcached_loop_spec [OF l] obtain new where
      "servers = cache_memcached_servers conf @ new" "prefix new (host_tokens arg)"
      "\<forall>t \<in> set new. memcached_entry_error t = None" by blast
    then have "\<forall>t \<in> set servers. memcached_entry_ok t"
      using old host_tokens_plain [of arg] set_mono_prefix
      by (fastforce simp: memcached_entry_ok_def)
    then show ?thesis
      by (auto simp: set_cache_memcached_servers_def Some l Let_def intro: upd split: option.split)
  qed
qed

lemma template_handler_ok:
  assumes "config_ok conf" shows "config_ok (snd (set_cache_key_template conf a))"
proof -
  have upd: "opt_ok template_ok x \<Longrightarrow> config_ok (conf\<lparr>cache_key_template := x\<rparr>)" for x
    using assms by (simp add: config_ok_def del: limit_defs)
  have "template_ok (norm_template t)"
    if "t \<noteq> []" "length t \<le> MESI_MAX_CACHE_KEY_TEMPLATE" "\<forall>c \<in> set t. \<not> template_bad_char c"
      "\<not> contains (norm_template t) ''::''"
      "norm_template t ! (length (norm_template t) - 1) \<noteq> CHR '':''" for t
    using that copy_norm_length [of t] copy_norm_set [of t] copy_norm_Nil_iff [of t]
    by (auto simp: template_ok_def norm_template_copy last_conv_nth)
  then show ?thesis
    using assms upd
    by (auto simp: set_cache_key_template_def opt_ok_def Let_def find_None_iff split: option.split)
qed

lemma run_directive_ok: "config_ok conf \<Longrightarrow> config_ok (snd (run_directive gw conf d))"
  by (cases d)
     (simp_all add: numeric_handlers_ok flag_handlers_ok choice_handlers_ok marker_handler_ok
        hosts_handler_ok redis_handlers_ok memcached_handler_ok template_handler_ok)

lemma load_directives_ok: "config_ok conf \<Longrightarrow> config_ok (snd (load_directives gw conf ds))"
proof (induction ds arbitrary: conf)
  case (Cons d ds)
  have "config_ok (snd (run_directive gw conf d))" using Cons.prems by (rule run_directive_ok)
  with Cons.IH show ?case by (auto split: prod.split option.split)
qed simp

subsection \<open>Inheritance\<close>

lemma merge_unset_left_eq:
  assumes "config_ok c" shows "merge_server_config create_server_config c = c"
proof -
  have "\<not> nonempty (cache_backend c) \<Longrightarrow> cache_backend c = Some []"
    using assms by (auto simp: config_ok_def backend_names_def nonempty_def)
  moreover have "\<not> 0 < cache_size c \<Longrightarrow> cache_size c = 0" "\<not> 0 \<le> cache_ttl c \<Longrightarrow> cache_ttl c = -1"
    "\<not> 0 \<le> cache_redis_db c \<Longrightarrow> cache_redis_db c = -1"
    using assms by (auto simp: config_ok_def unset_or_def)
  ultimately show ?thesis
    by (intro mesi_config.equality) (simp_all add: merge_server_config_def create_server_config_def)
qed

lemma merge_unset_right_eq: "merge_server_config c create_server_config = c"
  by (intro mesi_config.equality) (simp_all add: merge_server_config_def create_server_config_def nonempty_def)

lemma merge_server_assoc:
  "merge_server_config (merge_server_config a b) c = merge_server_config a (merge_server_config b c)"
  by (intro mesi_config.equality) (simp_all add: merge_server_config_def, auto)

interpretation apache_scopes: config_scopes merge_server_config create_server_config config_ok
  by unfold_locales
     (simp_all add: config_ok_default config_ok_merge merge_unset_left_eq merge_unset_right_eq
        merge_server_assoc)

interpretation depth_field: scope_field merge_server_config create_server_config config_ok
    max_depth "\<lambda>v. v \<noteq> -1"
  by unfold_locales (simp add: merge_server_config_def)

interpretation body_field: scope_field merge_server_config create_server_config config_ok
    max_body_size "\<lambda>v. v \<noteq> -1"
  by unfold_locales (simp add: merge_server_config_def)

interpretation block_field: scope_field merge_server_config create_server_config config_ok
    block_private_ips "\<lambda>v. v \<noteq> -1"
  by unfold_locales (simp add: merge_server_config_def)

interpretation hosts_field: scope_field merge_server_config create_server_config config_ok
    allowed_hosts "\<lambda>v. v \<noteq> []"
  by unfold_locales (simp add: merge_server_config_def)

interpretation marker_field: scope_field merge_server_config create_server_config config_ok
    include_error_marker "\<lambda>v. v \<noteq> None"
  by unfold_locales (simp add: merge_server_config_def)

text \<open>Scopes loaded from directive sections, outermost first, and their merged configuration.\<close>

definition scope_of :: "(string \<Rightarrow> string \<times> string) \<Rightarrow> directive list \<Rightarrow> mesi_config" where
  "scope_of gw ds = snd (load_directives gw create_server_config ds)"

definition server_config :: "(string \<Rightarrow> string \<times> string) \<Rightarrow> directive list list \<Rightarrow> mesi_config" where
  "server_config gw sections = apache_scopes.effective (map (scope_of gw) sections)"

lemma scope_of_ok: "config_ok (scope_of gw ds)"
  by (simp add: scope_of_def load_directives_ok config_ok_default)

lemma server_config_ok: "config_ok (server_config gw sections)"
  unfolding server_config_def by (rule apache_scopes.effective_ok) (auto simp: scope_of_ok)

subsection \<open>Properties\<close>

text \<open>C14: whatever directives a server and its virtual hosts contain, accepted or refused
  half-way, the configuration a request sees is valid: every number within its documented range
  or unset, the host list empty or holding a usable host, the cache server entries and the
  template without characters that would break the JSON they are put into.\<close>

theorem effective_config_valid: "config_ok (server_config gw sections)"
  by (rule server_config_ok)

text \<open>The value of the innermost scope that sets a field.\<close>

definition innermost :: "('v \<Rightarrow> bool) \<Rightarrow> 'v \<Rightarrow> 'v list \<Rightarrow> 'v" where
  "innermost is_set dflt vs = (case filter is_set vs of [] \<Rightarrow> dflt | _ \<Rightarrow> last (filter is_set vs))"

lemma innermost_effective:
  assumes "f (server_config gw sections) =
    (if \<exists>c \<in> set (map (scope_of gw) sections). is_set (f c)
     then f (last (filter (\<lambda>c. is_set (f c)) (map (scope_of gw) sections))) else d)"
  shows "f (server_config gw sections) = innermost is_set d (map (f \<circ> scope_of gw) sections)"
proof -
  have "filter is_set (map (f \<circ> scope_of gw) sections)
      = map f (filter (\<lambda>c. is_set (f c)) (map (scope_of gw) sections))"
    by (simp add: filter_map comp_def)
  then show ?thesis
    using assms by (auto simp: innermost_def filter_empty_conv last_map split: list.split)
qed

text \<open>Grouping scopes changes nothing: merging the sections one by one is merging the
  configuration of the outer sections with the configuration of the inner ones, and a section
  without directives is neutral.\<close>

theorem merge_is_grouping_independent:
  "server_config gw (outer @ inner) = merge_server_config (server_config gw outer) (server_config gw inner)
   \<and> server_config gw (outer @ [] # inner) = server_config gw (outer @ inner)"
proof -
  have ok: "\<forall>c \<in> set (map (scope_of gw) outer @ map (scope_of gw) inner). config_ok c"
    by (auto simp: scope_of_ok)
  have "scope_of gw [] = create_server_config" by (simp add: scope_of_def)
  with apache_scopes.effective_append [OF ok] apache_scopes.effective_skip_unset [OF ok] show ?thesis
    by (simp add: server_config_def)
qed

text \<open>One \<open>MesiCacheMemcachedServers\<close> directive adds at most 64 entries, each a
  valid host:port, behind the ones already there; when it is accepted it adds all of its entries.\<close>

theorem memcached_directive_appends:
  assumes "set_cache_memcached_servers conf (Some a) = (err, conf')"
  shows "\<exists>new. cache_memcached_servers conf' = cache_memcached_servers conf @ new
    \<and> prefix new (host_tokens a) \<and> length new \<le> MESI_MAX_MEMCACHED_SERVERS
    \<and> (\<forall>t \<in> set new. memcached_entry_ok t) \<and> (err = None \<longrightarrow> new = host_tokens a \<and> new \<noteq> [])"
proof -
  obtain e count servers where
    l: "memcached_loop (host_tokens a) 0 (cache_memcached_servers conf) = (e, count, servers)"
    by (metis prod_cases3)
  from memcached_loop_spec [OF l] obtain new where new:
    "servers = cache_memcached_servers conf @ new" "count = length new" "prefix new (host_tokens a)"
    "\<forall>t \<in> set new. memcached_entry_error t = None" "e = None \<longrightarrow> new = host_tokens a"
    "length new \<le> MESI_MAX_MEMCACHED_SERVERS" by auto
  have "\<forall>t \<in> set new. plain_token t"
    using host_tokens_plain [of a] set_mono_prefix [OF new(3)] by blast
  moreover have "cache_memcached_servers conf' = servers" "err = None \<longrightarrow> e = None \<and> count \<noteq> 0"
    using assms l by (auto simp: set_cache_memcached_servers_def Let_def split: option.splits if_splits)
  ultimately show ?thesis
    using new by (intro exI [of _ new]) (auto simp: memcached_entry_ok_def)
qed

theorem memcached_directive_appends_witness:
  "let (err, conf') = set_cache_memcached_servers create_server_config (Some ''a:1 b:2'')
   in \<exists>new. cache_memcached_servers conf' = cache_memcached_servers create_server_config @ new
      \<and> prefix new (host_tokens ''a:1 b:2'') \<and> length new \<le> MESI_MAX_MEMCACHED_SERVERS
      \<and> (\<forall>t \<in> set new. memcached_entry_ok t) \<and> (err = None \<longrightarrow> new = host_tokens ''a:1 b:2'' \<and> new \<noteq> [])"
  using memcached_directive_appends [of create_server_config "''a:1 b:2''"
      "fst (set_cache_memcached_servers create_server_config (Some ''a:1 b:2''))"
      "snd (set_cache_memcached_servers create_server_config (Some ''a:1 b:2''))"]
  by (simp add: case_prod_beta)

end
