(* ===== verification/Apache_Worker.thy ===== *)
theory Apache_Worker
  imports Apache_Directives
begin

text \<open>
  The process state of a worker: which libgomesi symbols are resolved, whether the shared cache
  and the shared HTTP client have been set up, and the calls made into the library so far.
  Covered: \<open>mesi_child_init\<close>, \<open>mesi_child_cleanup\<close>,
  \<open>build_cache_config_json\<close>, \<open>mesi_init_cache\<close> and \<open>mesi_init_http_client\<close>.
  The library is a parameter: \<open>exports\<close> says which symbols \<open>dlsym\<close> finds, the
  record \<open>golib\<close> what the calls return.
\<close>

datatype symbol =
    Parse | ParseWithConfig | ParseWithConfigEx | ParseWithConfigCtx | ParseJson | FreeString
  | InitCache | InitCacheWithConfig | FreeCache | InitHTTPClient | FreeHTTPClient

text \<open>Library calls with their arguments, as the C code passes them.\<close>

datatype lib_call =
    CallParse string int string
  | CallParseWithConfig string int string string int
  | CallParseWithConfigEx string int string string int int
  | CallParseWithConfigCtx string int string string int int string string
  | CallParseJson string string
  | CallFreeString
  | CallInitCache string int int
  | CallInitCacheWithConfig string int int string
  | CallFreeCache
  | CallInitHTTPClient int
  | CallFreeHTTPClient

text \<open>
  \<open>resolved s\<close>: the pointer for \<open>s\<close> is not NULL.  A call is recorded with the
  value of "the library is mapped" at that moment, so a call through a stale pointer shows.
\<close>

record worker =
  go_module :: bool
  resolved :: "symbol \<Rightarrow> bool"
  cache_initialized :: bool
  http_client_initialized :: bool
  force_flatten_error :: bool
  calls :: "(bool \<times> lib_call) list"

definition call :: "lib_call \<Rightarrow> worker \<Rightarrow> worker" where
  "call c w = w\<lparr>calls := calls w @ [(go_module w, c)]\<rparr>"

definition initial_worker :: worker where
  "initial_worker =
    \<lparr> go_module = False, resolved = (\<lambda>_. False), cache_initialized = False,
      http_client_initialized = False, force_flatten_error = False, calls = [] \<rparr>"

subsection \<open>Worker start and stop\<close>

text \<open>
  \<open>dlopen_ok\<close> is the outcome of \<open>dlopen\<close>; each symbol is probed with
  \<open>dlerror\<close> cleared before, so a pointer is set exactly when the symbol is exported.
\<close>

definition mesi_child_init :: "string option \<Rightarrow> bool \<Rightarrow> (symbol \<Rightarrow> bool) \<Rightarrow> worker \<Rightarrow> worker" where
  "mesi_child_init env_force dlopen_ok exports w =
    (let w1 = (if env_force = Some ''1'' then w\<lparr>force_flatten_error := True\<rparr> else w)
     in if \<not> dlopen_ok then w1\<lparr>go_module := False\<rparr>
        else let w2 = w1\<lparr>go_module := True, resolved := exports\<rparr>
             in if (\<not> resolved w2 Parse \<and> \<not> resolved w2 ParseWithConfig) \<or> \<not> resolved w2 FreeString
                then w2\<lparr>go_module := False, resolved := (\<lambda>_. False)\<rparr>
                else w2)"

definition mesi_child_cleanup :: "worker \<Rightarrow> worker" where
  "mesi_child_cleanup w =
    (let w1 = (if resolved w FreeHTTPClient then call CallFreeHTTPClient w else w);
         w2 = w1\<lparr>http_client_initialized := False\<rparr>;
         w3 = (if resolved w2 FreeCache then call CallFreeCache w2 else w2);
         w4 = (if go_module w3 then w3\<lparr>go_module := False\<rparr> else w3)
     in w4\<lparr>resolved := (resolved w4)
               (Parse := False, ParseWithConfig := False, ParseWithConfigEx := False,
                ParseWithConfigCtx := False, ParseJson := False, FreeString := False,
                InitCache := False, InitCacheWithConfig := False, FreeCache := False),
           cache_initialized := False\<rparr>)"

subsection \<open>The cache configuration blob\<close>

definition escape_min :: "char \<Rightarrow> string" where
  "escape_min c = (if c = CHR 0x22 \<or> c = CHR 0x5C then [CHR 0x5C, c] else [c])"

definition quote_min :: "string \<Rightarrow> string" where
  "quote_min s = CHR 0x22 # concat (map escape_min s) @ [CHR 0x22]"

definition redis_config_json :: "mesi_config \<Rightarrow> string" where
  "redis_config_json conf =
    (let addr = (case cache_redis_addr conf of Some a \<Rightarrow> a | None \<Rightarrow> ''localhost:6379'');
         pwd_len = (case cache_redis_password conf of Some p \<Rightarrow> length p | None \<Rightarrow> 0);
         pwd_esc = (if pwd_len > 0 then Some (quote_min (the (cache_redis_password conf))) else None);
         addr_esc = quote_min addr;
         pwd_text = (case pwd_esc of Some p \<Rightarrow> p | None \<Rightarrow> ''\"\"'')
     in if cache_redis_db conf \<ge> 0
        then ''{\"redisAddr\":'' @ addr_esc @ '',\"redisPassword\":'' @ pwd_text
             @ '',\"redisDB\":'' @ show_int (cache_redis_db conf) @ ''}''
        else ''{\"redisAddr\":'' @ addr_esc @ '',\"redisPassword\":'' @ pwd_text @ ''}'')"

fun memcached_items :: "string list \<Rightarrow> bool \<Rightarrow> string" where
  "memcached_items [] first = []"
| "memcached_items (s # ss) first = (if first then [] else '','') @ quote_min s @ memcached_items ss False"

definition memcached_config_json :: "string list \<Rightarrow> string" where
  "memcached_config_json servers =
    (if length servers > 0 then ''{\"servers\":['' @ memcached_items servers True @ '']}''
     else ''{\"servers\":[]}'')"

text \<open>The size allocated for the server list: prefix, suffix and NUL, commas, escaped items.\<close>

definition memcached_total :: "string list \<Rightarrow> nat" where
  "memcached_total servers =
    (12 + 2 + 1) + (if length servers > 1 then length servers - 1 else 0)
      + sum_list (map (\<lambda>s. length s * 2 + 2) servers)"

definition build_cache_config_json :: "mesi_config \<Rightarrow> string option" where
  "build_cache_config_json conf =
    (case cache_backend conf of
       None \<Rightarrow> None
     | Some b \<Rightarrow>
         if b = ''redis'' then Some (redis_config_json conf)
         else if b = ''memcached'' then Some (memcached_config_json (cache_memcached_servers conf))
         else None)"

definition MESI_MAX_CACHE_CONFIG_JSON :: nat where
  "MESI_MAX_CACHE_CONFIG_JSON = 4096"

subsection \<open>Lazy initialisation\<close>

record golib =
  init_cache_rc :: "string \<Rightarrow> int \<Rightarrow> int \<Rightarrow> int"
  init_cache_with_config_rc :: "string \<Rightarrow> int \<Rightarrow> int \<Rightarrow> string \<Rightarrow> int"
  parse :: "string \<Rightarrow> int \<Rightarrow> string \<Rightarrow> string option"
  parse_with_config :: "string \<Rightarrow> int \<Rightarrow> string \<Rightarrow> string \<Rightarrow> int \<Rightarrow> string option"
  parse_with_config_ex :: "string \<Rightarrow> int \<Rightarrow> string \<Rightarrow> string \<Rightarrow> int \<Rightarrow> int \<Rightarrow> string option"
  parse_with_config_ctx ::
    "string \<Rightarrow> int \<Rightarrow> string \<Rightarrow> string \<Rightarrow> int \<Rightarrow> int \<Rightarrow> string \<Rightarrow> string \<Rightarrow> string option"
  parse_json :: "string \<Rightarrow> string \<Rightarrow> string option"

text \<open>The answer of the library to a parse call.\<close>

fun lib_answer :: "golib \<Rightarrow> lib_call \<Rightarrow> string option" where
  "lib_answer gl (CallParse h d u) = parse gl h d u"
| "lib_answer gl (CallParseWithConfig h d u hs bp) = parse_with_config gl h d u hs bp"
| "lib_answer gl (CallParseWithConfigEx h d u hs bp ap) = parse_with_config_ex gl h d u hs bp ap"
| "lib_answer gl (CallParseWithConfigCtx h d u hs bp ap t c) = parse_with_config_ctx gl h d u hs bp ap t c"
| "lib_answer gl (CallParseJson h b) = parse_json gl h b"
| "lib_answer gl _ = None"

text \<open>A second probe with \<open>dlsym\<close>, when the module is open and the pointer is still NULL.\<close>

definition probe :: "(symbol \<Rightarrow> bool) \<Rightarrow> symbol \<Rightarrow> worker \<Rightarrow> worker" where
  "probe exports s w =
    (if \<not> resolved w s \<and> go_module w then w\<lparr>resolved := (resolved w)(s := exports s)\<rparr> else w)"

definition finish_cache :: "int \<Rightarrow> worker \<Rightarrow> int \<times> worker" where
  "finish_cache rc w = (if rc \<noteq> 0 then (-1, w\<lparr>cache_initialized := False\<rparr>) else (0, w))"

definition mesi_init_cache :: "(symbol \<Rightarrow> bool) \<Rightarrow> golib \<Rightarrow> mesi_config \<Rightarrow> worker \<Rightarrow> int \<times> worker" where
  "mesi_init_cache exports lib conf w =
    (if cache_initialized w then (0, w)
     else if \<not> nonempty (cache_backend conf) then (0, w)
     else let backend = the (cache_backend conf);
              w1 = w\<lparr>cache_initialized := True\<rparr>;
              size = (if cache_size conf > 0 then cache_size conf else MESI_DEFAULT_CACHE_SIZE);
              ttl = (if cache_ttl conf \<ge> 0 then cache_ttl conf else 0);
              needs_config = (backend = ''redis'' \<or> backend = ''memcached'')
          in if needs_config then
               (let w2 = probe exports InitCacheWithConfig w1
                in if \<not> resolved w2 InitCacheWithConfig then (0, w2)
                   else case build_cache_config_json conf of
                          None \<Rightarrow> (-1, w2\<lparr>cache_initialized := False\<rparr>)
                        | Some cfg \<Rightarrow>
                            if length cfg > MESI_MAX_CACHE_CONFIG_JSON
                            then (-1, w2\<lparr>cache_initialized := False\<rparr>)
                            else finish_cache (init_cache_with_config_rc lib backend size ttl cfg)
                                   (call (CallInitCacheWithConfig backend size ttl cfg) w2))
             else
               (let w2 = probe exports InitCache w1
                in if \<not> resolved w2 InitCache then (0, w2)
                   else finish_cache (init_cache_rc lib backend size ttl)
                          (call (CallInitCache backend size ttl) w2)))"

definition mesi_init_http_client :: "(symbol \<Rightarrow> bool) \<Rightarrow> mesi_config \<Rightarrow> worker \<Rightarrow> int \<times> worker" where
  "mesi_init_http_client exports conf w =
    (if http_client_initialized w then (0, w)
     else if shared_http_client conf \<noteq> 1 then (0, w)
     else let w1 = w\<lparr>http_client_initialized := True\<rparr>;
              w2 = probe exports InitHTTPClient w1
          in if \<not> resolved w2 InitHTTPClient then (-1, w2\<lparr>http_client_initialized := False\<rparr>)
             else let bp = (if block_private_ips conf \<noteq> -1 then block_private_ips conf else 1)
                  in (0, call (CallInitHTTPClient bp) w2))"

subsection \<open>The blob is JSON and fits its buffer\<close>

lemma read_str_escape_min:
  "32 \<le> byte c \<Longrightarrow> read_str (escape_min c @ rest) = map_option (map_prod (Cons c) id) (read_str rest)"
  by (auto simp: escape_min_def simple_escape_def)

lemma read_str_escaped_min:
  "no_controls s \<Longrightarrow> read_str (concat (map escape_min s) @ CHR 0x22 # rest) = Some (s, rest)"
  by (induction s) (simp_all add: read_str_escape_min no_controls_def)

interpretation minq: json_quoter quote_min no_controls
  by unfold_locales (simp_all add: quote_min_def read_str_escaped_min)

lemma min_keys [key_quotes]:
  "quote_min ''redisAddr'' = ''\"redisAddr\"''" "quote_min ''redisPassword'' = ''\"redisPassword\"''"
  "quote_min ''redisDB'' = ''\"redisDB\"''" "quote_min ''servers'' = ''\"servers\"''"
  "quote_min [] = ''\"\"''"
  by code_simp+

lemma no_controls_keys [simp]:
  "no_controls ''redisAddr''" "no_controls ''redisPassword''" "no_controls ''redisDB''"
  "no_controls ''servers''" "no_controls ''localhost:6379''" "no_controls []"
  by code_simp+

definition redis_members :: "mesi_config \<Rightarrow> (string \<times> json) list" where
  "redis_members conf =
     [(''redisAddr'', JStr (case cache_redis_addr conf of Some a \<Rightarrow> a | None \<Rightarrow> ''localhost:6379'')),
      (''redisPassword'', JStr (str_of (cache_redis_password conf)))]
     @ opt_member (cache_redis_db conf \<ge> 0) ''redisDB'' (JInt (cache_redis_db conf))"

definition cache_config_value :: "mesi_config \<Rightarrow> json option" where
  "cache_config_value conf =
    (if cache_backend conf = Some ''redis'' then Some (JObj (redis_members conf))
     else if cache_backend conf = Some ''memcached''
     then Some (JObj [(''servers'', JArr (map JStr (cache_memcached_servers conf)))])
     else None)"

lemma redis_is_render: "redis_config_json conf = render quote_min (JObj (redis_members conf))"
proof -
  have pw: "(case (if (case cache_redis_password conf of None \<Rightarrow> 0 | Some p \<Rightarrow> length p) > 0
      then Some (quote_min (the (cache_redis_password conf))) else None) of
        None \<Rightarrow> ''\"\"'' | Some p \<Rightarrow> p) = quote_min (str_of (cache_redis_password conf))"
    by (cases "cache_redis_password conf") (auto simp: str_of_def key_quotes)
  show ?thesis
    unfolding redis_config_json_def Let_def pw
    by (simp add: redis_members_def opt_member_def key_quotes)
qed

lemma memcached_items_render:
  "memcached_items ss first =
     (if first then commas (map quote_min ss) else concat (map (\<lambda>y. '','' @ y) (map quote_min ss)))"
proof (induction ss arbitrary: first)
  case (Cons s ss)
  then show ?case by (simp only: memcached_items.simps list.map commas_Cons concat.simps) simp
qed simp

lemma memcached_is_render:
  "memcached_config_json ss = render quote_min (JObj [(''servers'', JArr (map JStr ss))])"
  by (cases ss) (simp_all add: memcached_config_json_def memcached_items_render key_quotes comp_def)

lemma cache_config_is_render: "build_cache_config_json conf = map_option (render quote_min) (cache_config_value conf)"
  by (auto simp: build_cache_config_json_def cache_config_value_def redis_is_render memcached_is_render
      split: option.split)

lemma last_colon_parts: "memcached_entry_error t = None \<Longrightarrow> no_controls t"
  by (auto simp: memcached_entry_error_def no_controls_def find_None_iff not_less split: option.splits)

lemma cache_config_legal:
  assumes "config_ok conf" and "cache_config_value conf = Some j"
  shows "all_strings no_controls j"
proof -
  have "\<And>a. cache_redis_addr conf = Some a \<Longrightarrow> no_controls a"
    using assms(1) by (auto simp: config_ok_def opt_ok_def redis_addr_ok_def redis_addr_bad_char_def
        no_controls_def not_less)
  moreover have "no_controls (str_of (cache_redis_password conf))"
    using assms(1) by (auto simp: config_ok_def opt_ok_def str_of_def split: option.splits)
  moreover have "\<forall>t \<in> set (cache_memcached_servers conf). no_controls t"
    using assms(1) by (auto simp: config_ok_def memcached_entry_ok_def last_colon_parts)
  ultimately show ?thesis
    using assms(2)
    by (auto simp: cache_config_value_def redis_members_def opt_member_def split: if_splits option.splits)
qed

lemma length_escaped_min: "length (concat (map escape_min s)) \<le> 2 * length s"
  by (induction s) (auto simp: escape_min_def)

lemma quote_min_fits: "length (quote_min s) + 1 \<le> length s * 2 + 3"
  using length_escaped_min [of s] by (simp add: quote_min_def)

lemma memcached_items_fit:
  "length (memcached_items ss first) + (if first \<and> ss \<noteq> [] then 1 else 0)
     \<le> sum_list (map (\<lambda>s. length s * 2 + 2) ss) + length ss"
proof (induction ss arbitrary: first)
  case (Cons s ss)
  show ?case using Cons.IH [of False] quote_min_fits [of s] by auto
qed simp

lemma memcached_fits: "ss \<noteq> [] \<Longrightarrow> length (memcached_config_json ss) + 1 \<le> memcached_total ss"
  using memcached_items_fit [of ss True]
  by (cases ss) (auto simp: memcached_config_json_def memcached_total_def)

subsection \<open>The worker invariant\<close>

text \<open>A pointer is kept only while the library is mapped, and every call so far was.\<close>

definition worker_ok :: "worker \<Rightarrow> bool" where
  "worker_ok w \<longleftrightarrow> (\<forall>s. resolved w s \<longrightarrow> go_module w) \<and> (\<forall>(mapped, c) \<in> set (calls w). mapped)"

lemma worker_ok_initial: "worker_ok initial_worker"
  by (simp add: worker_ok_def initial_worker_def)

lemma worker_ok_call: "worker_ok w \<Longrightarrow> resolved w s \<Longrightarrow> worker_ok (call c w)"
  by (auto simp: worker_ok_def call_def)

lemma worker_ok_frame:
  "worker_ok w \<Longrightarrow> worker_ok (w\<lparr>cache_initialized := b\<rparr>)"
  "worker_ok w \<Longrightarrow> worker_ok (w\<lparr>http_client_initialized := b\<rparr>)"
  "worker_ok w \<Longrightarrow> worker_ok (probe exports s w)"
  by (auto simp: worker_ok_def probe_def)

lemma worker_ok_finish: "worker_ok w \<Longrightarrow> worker_ok (snd (finish_cache rc w))"
  by (simp add: finish_cache_def worker_ok_frame)

lemma worker_ok_child_init:
  assumes "worker_ok w" and "\<forall>s. \<not> resolved w s"
  shows "worker_ok (mesi_child_init env dl exports w)"
  using assms by (auto simp: worker_ok_def mesi_child_init_def Let_def)

lemma worker_ok_init_cache:
  assumes "worker_ok w" shows "worker_ok (snd (mesi_init_cache exports lib conf w))"
  using assms
  by (simp add: mesi_init_cache_def Let_def worker_ok_frame worker_ok_finish
      worker_ok_call [where s = InitCache] worker_ok_call [where s = InitCacheWithConfig]
      split: option.split)

lemma worker_ok_init_http:
  assumes "worker_ok w" shows "worker_ok (snd (mesi_init_http_client exports conf w))"
  using assms
  by (auto simp: mesi_init_http_client_def Let_def worker_ok_def call_def probe_def)

text \<open>The clean-up calls the library only while it is mapped.\<close>

lemma cleanup_calls_mapped:
  "worker_ok w \<Longrightarrow> \<forall>(mapped, c) \<in> set (calls (mesi_child_cleanup w)). mapped"
  by (auto simp: worker_ok_def mesi_child_cleanup_def Let_def call_def)

lemma cleanup_resolved:
  "resolved (mesi_child_cleanup w) s \<longleftrightarrow> resolved w s \<and> (s = InitHTTPClient \<or> s = FreeHTTPClient)"
  by (cases s) (auto simp: mesi_child_cleanup_def Let_def call_def)

subsection \<open>Properties\<close>

text \<open>With a configuration the directives can produce, the cache configuration blob is
  JSON that reads back to the Redis address, password and database number, or to the memcached
  server list, although only quotes and backslashes are escaped.\<close>

theorem cache_blob_reads_back:
  assumes "config_ok conf"
  shows "Option.bind (build_cache_config_json conf) json_read = cache_config_value conf"
proof (cases "cache_config_value conf")
  case None
  then show ?thesis by (simp add: cache_config_is_render)
next
  case (Some j)
  with cache_config_legal [OF assms Some] show ?thesis
    by (simp add: cache_config_is_render minq.json_read_render del: render.simps)
qed

theorem cache_blob_reads_back_witness:
  "let conf = scope_of (\<lambda>s. (s, [])) [CacheBackend (Some ''redis''), CacheRedisPassword (Some ''a\"b'')]
   in Option.bind (build_cache_config_json conf) json_read = cache_config_value conf"
  unfolding Let_def by (rule cache_blob_reads_back) (rule scope_of_ok)

text \<open>The size computed for the memcached blob is enough for its text and the closing NUL,
  however many characters need escaping.\<close>

theorem memcached_blob_fits:
  assumes "servers \<noteq> []"
  shows "length (memcached_config_json servers) + 1 \<le> memcached_total servers"
  using assms by (rule memcached_fits)

theorem memcached_blob_fits_witness:
  "length (memcached_config_json [''a\"b:1'', ''c:2'']) + 1 \<le> memcached_total [''a\"b:1'', ''c:2'']"
  by (rule memcached_blob_fits) simp

end
