(* ===== verification/Go_Bridge.thy ===== *)
theory Go_Bridge
  imports Go_Config Apache_Worker
begin

text \<open>
  \<open>libgomesi/libgomesi.go\<close> and \<open>cache_config.go\<close>: the exported functions that the C
  modules call.  The globals of the library are the record \<open>go_state\<close>.  A parse function is
  modelled by the call of \<open>MESIParse\<close> that it makes, the page and the \<open>EsiParserConfig\<close>, or
  \<open>None\<close> when it answers NULL; \<open>MESIParse\<close> itself is a parameter.  A client is its transport's
  address policy and its timeout, a cache its constructor's arguments and the number of the instance.
\<close>

subsection \<open>The request of a cache key\<close>

text \<open>\<open>http.CanonicalHeaderKey\<close>.\<close>

definition token_byte :: "char \<Rightarrow> bool" where
  "token_byte c \<longleftrightarrow> is_digit c \<or> 65 \<le> byte c \<and> byte c \<le> 90 \<or> 97 \<le> byte c \<and> byte c \<le> 122
     \<or> c \<in> set ''!#$%&*+-.^_|~'' \<or> byte c = 39 \<or> byte c = 96"

definition upper :: "char \<Rightarrow> char" where
  "upper c = (if 97 \<le> byte c \<and> byte c \<le> 122 then char_of (byte c - 32) else c)"

fun canonical_from :: "bool \<Rightarrow> string \<Rightarrow> string" where
  "canonical_from up [] = []"
| "canonical_from up (c # cs) =
     (if up then upper c else lower c) # canonical_from (c = CHR ''-'') cs"

definition canonical_header_key :: "string \<Rightarrow> string" where
  "canonical_header_key s = (if list_all token_byte s then canonical_from True s else s)"

type_synonym http_header = "string \<rightharpoonup> string list"

definition header_set :: "string \<Rightarrow> string \<Rightarrow> http_header \<Rightarrow> http_header" where
  "header_set k v h = h(canonical_header_key k \<mapsto> [v])"

definition header_values :: "http_header \<Rightarrow> string \<Rightarrow> string list" where
  "header_values h k = (case h k of None \<Rightarrow> [] | Some vs \<Rightarrow> vs)"

definition header_add :: "string \<Rightarrow> string \<Rightarrow> http_header \<Rightarrow> http_header" where
  "header_add k v h = h(canonical_header_key k \<mapsto> header_values h (canonical_header_key k) @ [v])"

text \<open>\<open>Header.Get\<close>: the first value, or the empty string.\<close>

definition header_get :: "string \<Rightarrow> http_header \<Rightarrow> string" where
  "header_get k h = (case header_values h (canonical_header_key k) of [] \<Rightarrow> [] | v # vs \<Rightarrow> v)"

text \<open>\<open>Request.AddCookie\<close>.\<close>

definition sanitize_cookie_name :: "string \<Rightarrow> string" where
  "sanitize_cookie_name n = map (\<lambda>c. if c = CHR 0x0A \<or> c = CHR 0x0D then CHR ''-'' else c) n"

definition cookie_value_byte :: "char \<Rightarrow> bool" where
  "cookie_value_byte c \<longleftrightarrow> 32 \<le> byte c \<and> byte c < 127 \<and> c \<noteq> CHR 0x22 \<and> c \<noteq> CHR '';'' \<and> c \<noteq> CHR 0x5C"

definition sanitize_cookie_value :: "string \<Rightarrow> string" where
  "sanitize_cookie_value v =
    (let w = filter cookie_value_byte v
     in if w = [] then w
        else if CHR '' '' \<in> set w \<or> CHR '','' \<in> set w then CHR 0x22 # w @ [CHR 0x22]
        else w)"

definition add_cookie :: "string \<Rightarrow> string \<Rightarrow> http_header \<Rightarrow> http_header" where
  "add_cookie name val h =
    (let s = sanitize_cookie_name name @ ''='' @ sanitize_cookie_value val;
         c = header_get ''Cookie'' h
     in if c \<noteq> [] then header_set ''Cookie'' (c @ ''; '' @ s) h else header_set ''Cookie'' s h)"

subsection \<open>The request context\<close>

record request_ctx =
  rc_headers :: "(string \<times> string list) list"
  rc_cookies :: "(string \<times> string) list"

text \<open>\<open>headerValue.UnmarshalJSON\<close>: a string, else an array of strings, else nothing.  \<open>null\<close> is a
  string left empty.\<close>

definition string_or_null :: "gjson \<Rightarrow> string option" where
  "string_or_null v = into_string v []"

definition header_value :: "gjson \<Rightarrow> string list" where
  "header_value v =
    (case string_or_null v of
       Some s \<Rightarrow> [s]
     | None \<Rightarrow>
         (case v of
            GArr vs \<Rightarrow> if list_all (\<lambda>x. string_or_null x \<noteq> None) vs then map (the \<circ> string_or_null) vs else []
          | _ \<Rightarrow> []))"

text \<open>A Go map as an association list without repeated keys.\<close>

fun map_put :: "'k \<Rightarrow> 'v \<Rightarrow> ('k \<times> 'v) list \<Rightarrow> ('k \<times> 'v) list" where
  "map_put k v [] = [(k, v)]"
| "map_put k v ((k', v') # xs) = (if k' = k then (k, v) # xs else (k', v') # map_put k v xs)"

definition into_headers :: "gjson \<Rightarrow> (string \<times> string list) list \<Rightarrow> (string \<times> string list) list option" where
  "into_headers v old =
    (case v of
       GNull \<Rightarrow> Some []
     | GObj ms \<Rightarrow> Some (fold (\<lambda>(k, raw, w). map_put k (header_value w)) ms old)
     | _ \<Rightarrow> None)"

fun into_cookie_fields :: "(string \<times> string \<times> gjson) list \<Rightarrow> string \<times> string \<Rightarrow> (string \<times> string) option" where
  "into_cookie_fields [] c = Some c"
| "into_cookie_fields ((k, raw, v) # ms) (name, val) =
     (if fold_key k = ''name'' then
        (case into_string v name of None \<Rightarrow> None | Some n \<Rightarrow> into_cookie_fields ms (n, val))
      else if fold_key k = ''value'' then
        (case into_string v val of None \<Rightarrow> None | Some w \<Rightarrow> into_cookie_fields ms (name, w))
      else into_cookie_fields ms (name, val))"

definition into_cookie :: "gjson \<Rightarrow> string \<times> string \<Rightarrow> (string \<times> string) option" where
  "into_cookie v c = (case v of GNull \<Rightarrow> Some c | GObj ms \<Rightarrow> into_cookie_fields ms c | _ \<Rightarrow> None)"

text \<open>An element of a slice is decoded into the variable that an earlier decoding left there.\<close>

fun into_slice :: "(gjson \<Rightarrow> 'a \<Rightarrow> 'a option) \<Rightarrow> 'a \<Rightarrow> gjson list \<Rightarrow> 'a list \<Rightarrow> 'a list option" where
  "into_slice f z [] old = Some []"
| "into_slice f z (v # vs) old =
     (case f v (case old of [] \<Rightarrow> z | o1 # os \<Rightarrow> o1) of
        None \<Rightarrow> None
      | Some x \<Rightarrow> map_option (Cons x) (into_slice f z vs (tl old)))"

definition into_list :: "(gjson \<Rightarrow> 'a \<Rightarrow> 'a option) \<Rightarrow> 'a \<Rightarrow> gjson \<Rightarrow> 'a list \<Rightarrow> 'a list option" where
  "into_list f z v old = (case v of GNull \<Rightarrow> Some [] | GArr vs \<Rightarrow> into_slice f z vs old | _ \<Rightarrow> None)"

fun into_ctx :: "(string \<times> string \<times> gjson) list \<Rightarrow> request_ctx \<Rightarrow> request_ctx option" where
  "into_ctx [] c = Some c"
| "into_ctx ((k, raw, v) # ms) c =
     (if fold_key k = ''headers'' then
        (case into_headers v (rc_headers c) of None \<Rightarrow> None | Some h \<Rightarrow> into_ctx ms (c\<lparr>rc_headers := h\<rparr>))
      else if fold_key k = ''cookies'' then
        (case into_list into_cookie ([], []) v (rc_cookies c) of
           None \<Rightarrow> None | Some cs \<Rightarrow> into_ctx ms (c\<lparr>rc_cookies := cs\<rparr>))
      else into_ctx ms c)"

definition decode_ctx :: "string \<Rightarrow> request_ctx option" where
  "decode_ctx json_str =
    (case go_read json_str of
       None \<Rightarrow> None
     | Some v \<Rightarrow>
         (case v of
            GNull \<Rightarrow> Some \<lparr> rc_headers = [], rc_cookies = [] \<rparr>
          | GObj ms \<Rightarrow> into_ctx ms \<lparr> rc_headers = [], rc_cookies = [] \<rparr>
          | _ \<Rightarrow> None))"

text \<open>
  \<open>buildRequestFromJSON\<close>, reduced to the header of the request.  Go ranges over a map in any order:
  \<open>ord\<close> gives the order of this run.
\<close>

type_synonym map_order = "(string \<times> string list) list \<Rightarrow> (string \<times> string list) list"

definition set_header_values :: "string \<times> string list \<Rightarrow> http_header \<Rightarrow> http_header" where
  "set_header_values = (\<lambda>(k, vals) h.
    (case vals of
       [] \<Rightarrow> h
     | v # extra \<Rightarrow> fold (header_add k) extra (header_set k v h)))"

definition build_request_from_json :: "map_order \<Rightarrow> string \<Rightarrow> http_header" where
  "build_request_from_json ord json_str =
    (if json_str = [] then Map.empty
     else case decode_ctx json_str of
            None \<Rightarrow> Map.empty
          | Some ctx \<Rightarrow>
              fold (\<lambda>(name, val) h. if name = [] then h else add_cookie name val h) (rc_cookies ctx)
                (fold set_header_values (ord (rc_headers ctx)) Map.empty))"

subsection \<open>\<open>EsiParserConfig\<close> and the globals\<close>

datatype go_cache =
    MemoryCache int int
  | RedisCache string string int int
  | MemcachedCache "string list" int

text \<open>The transport's \<open>BlockPrivateIPs\<close> and the timeout.\<close>

type_synonym http_client = "bool \<times> int"

text \<open>The fields of \<open>EsiParserConfig\<close> that the library sets; the others keep their zero value.\<close>

record esi_config =
  ec_default_url :: string
  ec_max_depth :: int
  ec_timeout :: int
  ec_allowed_hosts :: "string list"
  ec_block_private_ips :: bool
  ec_allow_private :: bool
  ec_max_response_size :: int
  ec_max_concurrent_requests :: int
  ec_max_workers :: int
  ec_debug :: bool
  ec_parse_on_header :: bool
  ec_include_error_marker :: string
  ec_http_client :: "http_client option"
  ec_cache :: "(nat \<times> go_cache) option"
  ec_cache_ttl :: int
  ec_cache_key :: "(string \<times> http_header) option"

definition zero_esi_config :: esi_config where
  "zero_esi_config =
    \<lparr> ec_default_url = [], ec_max_depth = 0, ec_timeout = 0, ec_allowed_hosts = [],
      ec_block_private_ips = False, ec_allow_private = False, ec_max_response_size = 0,
      ec_max_concurrent_requests = 0, ec_max_workers = 0, ec_debug = False, ec_parse_on_header = False,
      ec_include_error_marker = [], ec_http_client = None, ec_cache = None, ec_cache_ttl = 0,
      ec_cache_key = None \<rparr>"

text \<open>\<open>gs_made\<close> counts the caches made so far.\<close>

record go_state =
  gs_transport :: "bool option"
  gs_client :: "http_client option"
  gs_cache :: "(nat \<times> go_cache) option"
  gs_cache_ttl :: int
  gs_made :: nat

definition go_initial :: go_state where
  "go_initial = \<lparr> gs_transport = None, gs_client = None, gs_cache = None, gs_cache_ttl = 0, gs_made = 0 \<rparr>"

subsection \<open>The shared HTTP client\<close>

definition go_init_http_client :: "int \<Rightarrow> go_state \<Rightarrow> go_state" where
  "go_init_http_client bp st =
    st\<lparr>gs_transport := Some (bp \<noteq> 0), gs_client := Some (bp \<noteq> 0, go_seconds 30)\<rparr>"

definition go_free_http_client :: "go_state \<Rightarrow> go_state" where
  "go_free_http_client st =
    (let st1 = (if gs_transport st \<noteq> None then st\<lparr>gs_transport := None\<rparr> else st)
     in st1\<lparr>gs_client := None\<rparr>)"

subsection \<open>The shared cache\<close>

record redis_config =
  rd_addr :: string
  rd_password :: string
  rd_db :: "int option"

fun into_redis :: "(string \<times> string \<times> gjson) list \<Rightarrow> redis_config \<Rightarrow> redis_config option" where
  "into_redis [] c = Some c"
| "into_redis ((k, raw, v) # ms) c =
     (if fold_key k = ''redisaddr'' then
        (case into_string v (rd_addr c) of None \<Rightarrow> None | Some s \<Rightarrow> into_redis ms (c\<lparr>rd_addr := s\<rparr>))
      else if fold_key k = ''redispassword'' then
        (case into_string v (rd_password c) of None \<Rightarrow> None | Some s \<Rightarrow> into_redis ms (c\<lparr>rd_password := s\<rparr>))
      else if fold_key k = ''redisdb'' then
        (case into_int_ptr v of None \<Rightarrow> None | Some n \<Rightarrow> into_redis ms (c\<lparr>rd_db := n\<rparr>))
      else into_redis ms c)"

definition parse_redis_config :: "string \<Rightarrow> (string \<times> string \<times> int) option" where
  "parse_redis_config cfg_json =
    (if cfg_json = [] then Some (''localhost:6379'', [], 0)
     else
       (case (case go_read cfg_json of
                Some GNull \<Rightarrow> Some \<lparr> rd_addr = [], rd_password = [], rd_db = None \<rparr>
              | Some (GObj ms) \<Rightarrow> into_redis ms \<lparr> rd_addr = [], rd_password = [], rd_db = None \<rparr>
              | _ \<Rightarrow> None) of
          None \<Rightarrow> None
        | Some c \<Rightarrow>
            Some (if rd_addr c \<noteq> [] then rd_addr c else ''localhost:6379'',
                  if rd_password c \<noteq> [] then rd_password c else [],
                  case rd_db c of Some n \<Rightarrow> if n \<ge> 0 then n else 0 | None \<Rightarrow> 0)))"

fun into_memcached :: "(string \<times> string \<times> gjson) list \<Rightarrow> string list \<Rightarrow> string list option" where
  "into_memcached [] servers = Some servers"
| "into_memcached ((k, raw, v) # ms) servers =
     (if fold_key k = ''servers'' then
        (case into_list into_string [] v servers of None \<Rightarrow> None | Some s \<Rightarrow> into_memcached ms s)
      else into_memcached ms servers)"

definition parse_memcached_config :: "string \<Rightarrow> string list option" where
  "parse_memcached_config cfg_json =
    (if cfg_json = [] then None
     else
       (case (case go_read cfg_json of
                Some GNull \<Rightarrow> Some []
              | Some (GObj ms) \<Rightarrow> into_memcached ms []
              | _ \<Rightarrow> None) of
          None \<Rightarrow> None
        | Some servers \<Rightarrow> if servers = [] then None else Some servers))"

text \<open>\<open>None\<close> is the error, \<open>Some None\<close> no cache.\<close>

definition init_cache_from_config :: "string \<Rightarrow> int \<Rightarrow> int \<Rightarrow> string \<Rightarrow> go_cache option option" where
  "init_cache_from_config backend csize ttl_seconds cfg_json =
    (let go_ttl = go_seconds ttl_seconds
     in if backend = ''memory'' then
          Some (Some (MemoryCache (if csize \<le> 0 then 10000 else csize) go_ttl))
        else if backend = ''redis'' then
          (case parse_redis_config cfg_json of
             None \<Rightarrow> None
           | Some (addr, password, db) \<Rightarrow> Some (Some (RedisCache addr password db go_ttl)))
        else if backend = ''memcached'' then
          (case parse_memcached_config cfg_json of
             None \<Rightarrow> None
           | Some servers \<Rightarrow> Some (Some (MemcachedCache servers go_ttl)))
        else if backend = [] then Some None
        else None)"

definition new_cache :: "go_cache \<Rightarrow> go_state \<Rightarrow> go_state" where
  "new_cache c st = st\<lparr>gs_cache := Some (gs_made st, c), gs_made := Suc (gs_made st)\<rparr>"

definition go_init_cache :: "string \<Rightarrow> int \<Rightarrow> int \<Rightarrow> go_state \<Rightarrow> int \<times> go_state" where
  "go_init_cache backend csize ttl_seconds st =
    (let go_ttl = go_seconds ttl_seconds
     in if backend = ''memory'' then
          (0, (new_cache (MemoryCache (if csize \<le> 0 then 10000 else csize) go_ttl) st)\<lparr>gs_cache_ttl := go_ttl\<rparr>)
        else if backend = [] then (0, st\<lparr>gs_cache := None, gs_cache_ttl := 0\<rparr>)
        else (-1, st))"

definition go_init_cache_with_config :: "string \<Rightarrow> int \<Rightarrow> int \<Rightarrow> string \<Rightarrow> go_state \<Rightarrow> int \<times> go_state" where
  "go_init_cache_with_config backend csize ttl_seconds config_json st =
    (let st1 = st\<lparr>gs_cache := None, gs_cache_ttl := 0\<rparr>
     in case init_cache_from_config backend csize ttl_seconds config_json of
          None \<Rightarrow> (-1, st1)
        | Some None \<Rightarrow> (0, st1)
        | Some (Some c) \<Rightarrow> (0, (new_cache c st1)\<lparr>gs_cache_ttl := go_seconds ttl_seconds\<rparr>))"

definition go_free_cache :: "go_state \<Rightarrow> go_state" where
  "go_free_cache st = st\<lparr>gs_cache := None, gs_cache_ttl := 0\<rparr>"

subsection \<open>The parse functions\<close>

definition apply_shared_config :: "go_state \<Rightarrow> esi_config \<Rightarrow> esi_config" where
  "apply_shared_config st config =
    (let c1 = (case gs_client st of
                 None \<Rightarrow> config
               | Some (bp, t) \<Rightarrow> config\<lparr>ec_http_client := Some (bp, ec_timeout config)\<rparr>)
     in case gs_cache st of
          None \<Rightarrow> c1
        | Some c \<Rightarrow> c1\<lparr>ec_cache := Some c, ec_cache_ttl := gs_cache_ttl st\<rparr>)"

definition default_parse_timeout :: int where
  "default_parse_timeout = go_seconds go_DefaultTimeoutSeconds"

definition resolve_max_depth :: "int \<Rightarrow> int option" where
  "resolve_max_depth d = (if validate_max_depth d then Some d else None)"

type_synonym core_call = "string \<times> esi_config"

definition go_parse_default :: "go_state \<Rightarrow> string \<Rightarrow> core_call option" where
  "go_parse_default st input =
    Some (input, apply_shared_config st
      (zero_esi_config\<lparr>ec_default_url := ''http://127.0.0.1/'', ec_max_depth := 5, ec_timeout := default_parse_timeout\<rparr>))"

definition go_parse :: "go_state \<Rightarrow> string \<Rightarrow> int \<Rightarrow> string \<Rightarrow> core_call option" where
  "go_parse st input depth default_url =
    (case resolve_max_depth depth of
       None \<Rightarrow> None
     | Some d \<Rightarrow>
         Some (input, apply_shared_config st
           (zero_esi_config\<lparr>ec_default_url := default_url, ec_max_depth := d, ec_timeout := default_parse_timeout\<rparr>)))"

text \<open>What only \<open>ParseJson\<close> can set.\<close>

record extra_options =
  xo_timeout :: int
  xo_max_response_size :: int
  xo_max_concurrent_requests :: int
  xo_max_workers :: int
  xo_debug :: bool
  xo_parse_on_header :: bool
  xo_include_error_marker :: string

definition positional_options :: extra_options where
  "positional_options =
    \<lparr> xo_timeout = default_parse_timeout, xo_max_response_size = 0, xo_max_concurrent_requests = 0,
      xo_max_workers = 0, xo_debug = False, xo_parse_on_header = False, xo_include_error_marker = [] \<rparr>"

definition parse_with_config_internal ::
  "map_order \<Rightarrow> go_state \<Rightarrow> string \<Rightarrow> int \<Rightarrow> string \<Rightarrow> string option \<Rightarrow> int \<Rightarrow> int \<Rightarrow> string option \<Rightarrow>
     string option \<Rightarrow> extra_options \<Rightarrow> core_call option" where
  "parse_with_config_internal ord st input depth default_url hosts bp ap cache_key_tmpl request_ctx_json xo =
    (case resolve_max_depth depth of
       None \<Rightarrow> None
     | Some d \<Rightarrow>
         (let host_list = go_allowed_hosts (str_of hosts);
              tmpl = str_of cache_key_tmpl;
              ctx_json = str_of request_ctx_json;
              cfg = zero_esi_config
                \<lparr>ec_default_url := default_url, ec_max_depth := d, ec_timeout := xo_timeout xo,
                 ec_allowed_hosts := host_list, ec_block_private_ips := (bp \<noteq> 0), ec_allow_private := (ap \<noteq> 0),
                 ec_max_response_size := xo_max_response_size xo,
                 ec_max_concurrent_requests := xo_max_concurrent_requests xo, ec_max_workers := xo_max_workers xo,
                 ec_debug := xo_debug xo, ec_parse_on_header := xo_parse_on_header xo,
                 ec_include_error_marker := xo_include_error_marker xo\<rparr>;
              cfg1 = apply_shared_config st cfg;
              cfg2 = (if ap \<noteq> 0 then cfg1\<lparr>ec_http_client := None\<rparr> else cfg1);
              cfg3 = (if tmpl \<noteq> []
                      then cfg2\<lparr>ec_cache_key := Some (tmpl, build_request_from_json ord ctx_json)\<rparr> else cfg2)
          in Some (input, cfg3)))"

definition go_parse_with_config_ex ::
  "map_order \<Rightarrow> go_state \<Rightarrow> string \<Rightarrow> int \<Rightarrow> string \<Rightarrow> string \<Rightarrow> int \<Rightarrow> int \<Rightarrow> core_call option" where
  "go_parse_with_config_ex ord st input depth default_url hosts bp ap =
    parse_with_config_internal ord st input depth default_url (Some hosts) bp ap None None positional_options"

definition go_parse_with_config ::
  "map_order \<Rightarrow> go_state \<Rightarrow> string \<Rightarrow> int \<Rightarrow> string \<Rightarrow> string \<Rightarrow> int \<Rightarrow> core_call option" where
  "go_parse_with_config ord st input depth default_url hosts bp =
    go_parse_with_config_ex ord st input depth default_url hosts bp 0"

definition go_parse_with_config_ctx ::
  "map_order \<Rightarrow> go_state \<Rightarrow> string \<Rightarrow> int \<Rightarrow> string \<Rightarrow> string \<Rightarrow> int \<Rightarrow> int \<Rightarrow> string \<Rightarrow> string \<Rightarrow> core_call option" where
  "go_parse_with_config_ctx ord st input depth default_url hosts bp ap tmpl ctx =
    parse_with_config_internal ord st input depth default_url (Some hosts) bp ap (Some tmpl) (Some ctx)
      positional_options"

text \<open>What C reads of a Go string.\<close>

definition c_string :: "string \<Rightarrow> string" where
  "c_string s = takeWhile (\<lambda>c. c \<noteq> CHR 0x00) s"

definition go_parse_json :: "map_order \<Rightarrow> go_state \<Rightarrow> string \<Rightarrow> string option \<Rightarrow> core_call option" where
  "go_parse_json ord st input config_json =
    (let raw0 = str_of config_json;
         raw = (if raw0 = [] then ''{}'' else raw0)
     in case parse_config_from_json raw of
          None \<Rightarrow> None
        | Some cfg \<Rightarrow>
            (case resolved_max_depth cfg of
               None \<Rightarrow> None
             | Some depth \<Rightarrow>
                 (case resolved_timeout cfg of
                    None \<Rightarrow> None
                  | Some t \<Rightarrow>
                      (case resolved_max_response_size cfg of
                         None \<Rightarrow> None
                       | Some mrs \<Rightarrow>
                           (case resolved_max_concurrent cfg of
                              None \<Rightarrow> None
                            | Some mcr \<Rightarrow>
                                (case resolved_max_workers cfg of
                                   None \<Rightarrow> None
                                 | Some mw \<Rightarrow>
                                     parse_with_config_internal ord st input depth
                                       (c_string (pc_default_url cfg))
                                       (Some (c_string (pc_allowed_hosts cfg)))
                                       (if resolved_block_private_ips cfg then 1 else 0)
                                       (if pc_allow_private cfg then 1 else 0)
                                       (Some (c_string (pc_cache_key_template cfg)))
                                       (Some (c_string (pc_request_ctx cfg)))
                                       \<lparr> xo_timeout = t, xo_max_response_size = mrs,
                                         xo_max_concurrent_requests = mcr, xo_max_workers = mw,
                                         xo_debug = pc_debug cfg, xo_parse_on_header = pc_parse_on_header cfg,
                                         xo_include_error_marker = pc_include_error_marker cfg \<rparr>))))))"

subsection \<open>The library as the C modules see it\<close>

fun go_step :: "go_state \<Rightarrow> lib_call \<Rightarrow> go_state" where
  "go_step st (CallInitCache b n t) = snd (go_init_cache b n t st)"
| "go_step st (CallInitCacheWithConfig b n t cfg) = snd (go_init_cache_with_config b n t cfg st)"
| "go_step st CallFreeCache = go_free_cache st"
| "go_step st (CallInitHTTPClient bp) = go_init_http_client bp st"
| "go_step st CallFreeHTTPClient = go_free_http_client st"
| "go_step st _ = st"

definition go_run :: "lib_call list \<Rightarrow> go_state" where
  "go_run cs = foldl go_step go_initial cs"

fun go_core_call :: "map_order \<Rightarrow> go_state \<Rightarrow> lib_call \<Rightarrow> core_call option" where
  "go_core_call ord st (CallParse i d u) = go_parse st i d u"
| "go_core_call ord st (CallParseWithConfig i d u h bp) = go_parse_with_config ord st i d u h bp"
| "go_core_call ord st (CallParseWithConfigEx i d u h bp ap) = go_parse_with_config_ex ord st i d u h bp ap"
| "go_core_call ord st (CallParseWithConfigCtx i d u h bp ap t c) = go_parse_with_config_ctx ord st i d u h bp ap t c"
| "go_core_call ord st (CallParseJson i b) = go_parse_json ord st i (Some b)"
| "go_core_call ord st _ = None"

text \<open>The answers, with \<open>MESIParse\<close> as \<open>core\<close>.\<close>

definition go_answer :: "(core_call \<Rightarrow> string) \<Rightarrow> map_order \<Rightarrow> go_state \<Rightarrow> lib_call \<Rightarrow> string option" where
  "go_answer core ord st c = map_option (\<lambda>cc. c_string (core cc)) (go_core_call ord st c)"

definition go_library :: "(core_call \<Rightarrow> string) \<Rightarrow> map_order \<Rightarrow> go_state \<Rightarrow> golib" where
  "go_library core ord st =
    \<lparr> init_cache_rc = (\<lambda>b n t. fst (go_init_cache b n t st)),
      init_cache_with_config_rc = (\<lambda>b n t cfg. fst (go_init_cache_with_config b n t cfg st)),
      parse = (\<lambda>i d u. go_answer core ord st (CallParse i d u)),
      parse_with_config = (\<lambda>i d u h bp. go_answer core ord st (CallParseWithConfig i d u h bp)),
      parse_with_config_ex = (\<lambda>i d u h bp ap. go_answer core ord st (CallParseWithConfigEx i d u h bp ap)),
      parse_with_config_ctx =
        (\<lambda>i d u h bp ap t c. go_answer core ord st (CallParseWithConfigCtx i d u h bp ap t c)),
      parse_json = (\<lambda>i b. go_answer core ord st (CallParseJson i b)) \<rparr>"

end
