(* ===== verification/Go_Ssrf.thy ===== *)
theory Go_Ssrf
  imports Go_Bridge "HOL-Library.Word"
begin

text \<open>
  \<open>mesi/ssrf.go\<close> and \<open>ssrf_dialer.go\<close>: the checks of the core on the host of a URL and on the address
  that is dialled.  A \<open>net.IP\<close> is the list of its bytes, empty for nil; the address tests of
  package \<open>net\<close> are written out.  \<open>strings.EqualFold\<close> and \<open>url.Parse\<close> are parameters (\<open>go_net\<close>),
  arbitrary where nothing else is said.
\<close>

unbundle bit_operations_syntax

subsection \<open>Addresses\<close>

type_synonym ip = "8 word list"

definition to4 :: "ip \<Rightarrow> ip option" where
  "to4 ip =
    (if length ip = 4 then Some ip
     else if length ip = 16 \<and> take 12 ip = replicate 10 0 @ [0xFF, 0xFF] then Some (drop 12 ip)
     else None)"

text \<open>\<open>IsLoopback\<close>, \<open>IsLinkLocalUnicast\<close>, \<open>IsLinkLocalMulticast\<close>, \<open>IsMulticast\<close>, \<open>IsUnspecified\<close> and
  \<open>IsPrivate\<close>.\<close>

definition ip_is_loopback :: "ip \<Rightarrow> bool" where
  "ip_is_loopback ip =
    (case to4 ip of Some v4 \<Rightarrow> v4 ! 0 = 127 | None \<Rightarrow> ip = replicate 15 0 @ [1])"

definition ip_is_link_local_unicast :: "ip \<Rightarrow> bool" where
  "ip_is_link_local_unicast ip =
    (case to4 ip of
       Some v4 \<Rightarrow> v4 ! 0 = 169 \<and> v4 ! 1 = 254
     | None \<Rightarrow> length ip = 16 \<and> ip ! 0 = 0xFE \<and> ip ! 1 AND 0xC0 = 0x80)"

definition ip_is_link_local_multicast :: "ip \<Rightarrow> bool" where
  "ip_is_link_local_multicast ip =
    (case to4 ip of
       Some v4 \<Rightarrow> v4 ! 0 = 224 \<and> v4 ! 1 = 0 \<and> v4 ! 2 = 0
     | None \<Rightarrow> length ip = 16 \<and> ip ! 0 = 0xFF \<and> ip ! 1 AND 0x0F = 0x02)"

definition ip_is_multicast :: "ip \<Rightarrow> bool" where
  "ip_is_multicast ip =
    (case to4 ip of
       Some v4 \<Rightarrow> v4 ! 0 AND 0xF0 = 0xE0
     | None \<Rightarrow> length ip = 16 \<and> ip ! 0 = 0xFF)"

definition ip_is_unspecified :: "ip \<Rightarrow> bool" where
  "ip_is_unspecified ip =
    (case to4 ip of Some v4 \<Rightarrow> v4 = [0, 0, 0, 0] | None \<Rightarrow> ip = replicate 16 0)"

definition ip_is_private :: "ip \<Rightarrow> bool" where
  "ip_is_private ip =
    (case to4 ip of
       Some v4 \<Rightarrow> v4 ! 0 = 10 \<or> v4 ! 0 = 172 \<and> v4 ! 1 AND 0xF0 = 16 \<or> v4 ! 0 = 192 \<and> v4 ! 1 = 168
     | None \<Rightarrow> length ip = 16 \<and> ip ! 0 AND 0xFE = 0xFC)"

text \<open>An \<open>IPNet\<close>, its number and its mask, and \<open>Contains\<close>.\<close>

type_synonym ip_net = "8 word list \<times> 8 word list"

definition net_contains :: "ip_net \<Rightarrow> ip \<Rightarrow> bool" where
  "net_contains n ip =
    (let x = (case to4 ip of Some v4 \<Rightarrow> v4 | None \<Rightarrow> ip)
     in length x = length (fst n)
        \<and> list_all (\<lambda>(a, m, b). a AND m = b AND m) (zip (fst n) (zip (snd n) x)))"

definition cgnat_cidr :: ip_net where
  "cgnat_cidr = ([100, 64, 0, 0], [0xFF, 0xC0, 0, 0])"

definition benchmark_cidr :: ip_net where
  "benchmark_cidr = ([198, 18, 0, 0], [0xFF, 0xFE, 0, 0])"

definition reserved240_cidr :: ip_net where
  "reserved240_cidr = ([240, 0, 0, 0], [0xF0, 0, 0, 0])"

definition documentation_cidr :: ip_net where
  "documentation_cidr = ([0x20, 0x01, 0x0D, 0xB8] @ replicate 12 0, replicate 4 0xFF @ replicate 12 0)"

definition nat64_cidr :: ip_net where
  "nat64_cidr = ([0x00, 0x64, 0xFF, 0x9B] @ replicate 12 0, replicate 12 0xFF @ replicate 4 0)"

definition is_private_or_reserved_ip :: "ip \<Rightarrow> bool" where
  "is_private_or_reserved_ip ip0 =
    (if ip0 = [] then True
     else
       let v4 = to4 ip0;
           ip = (case v4 of None \<Rightarrow> ip0 | Some x \<Rightarrow> x)
       in if ip_is_loopback ip \<or> ip_is_link_local_unicast ip \<or> ip_is_link_local_multicast ip
             \<or> ip_is_multicast ip \<or> ip_is_unspecified ip \<or> ip_is_private ip then True
          else case v4 of
                 Some x \<Rightarrow> net_contains cgnat_cidr x \<or> net_contains benchmark_cidr x \<or> net_contains reserved240_cidr x
               | None \<Rightarrow> net_contains documentation_cidr ip \<or> net_contains nat64_cidr ip)"

subsection \<open>Hosts and URLs\<close>

text \<open>A parsed URL: its scheme, what \<open>Hostname\<close> returns, and the text.\<close>

record url =
  u_scheme :: string
  u_host :: string
  u_text :: string

record go_net =
  equal_fold :: "string \<Rightarrow> string \<Rightarrow> bool"
  url_parse :: "string \<Rightarrow> url option"
  resolve_reference :: "url \<Rightarrow> url \<Rightarrow> url"

definition trim_dot :: "string \<Rightarrow> string" where
  "trim_dot s = (if s \<noteq> [] \<and> last s = CHR ''.'' then butlast s else s)"

definition host_matches :: "go_net \<Rightarrow> string \<Rightarrow> string \<Rightarrow> bool" where
  "host_matches net host0 allowed0 =
    (let host = trim_dot host0; allowed_host = trim_dot allowed0
     in equal_fold net host allowed_host
        \<or> length host > length allowed_host
          \<and> host ! (length host - length allowed_host - 1) = CHR ''.''
          \<and> equal_fold net (drop (length host - length allowed_host) host) allowed_host)"

definition host_in_allowed_hosts :: "go_net \<Rightarrow> string \<Rightarrow> esi_config \<Rightarrow> bool" where
  "host_in_allowed_hosts net host config = list_ex (host_matches net host) (ec_allowed_hosts config)"

datatype fetch_error = TimeBudget | InvalidSize | InvalidUrl | SsrfBlocked | UpstreamStatus | BodyTooLarge

text \<open>\<open>isURLSafe\<close>: the error, or none.\<close>

definition is_url_safe :: "go_net \<Rightarrow> string \<Rightarrow> esi_config \<Rightarrow> fetch_error option" where
  "is_url_safe net requested_url config =
    (case url_parse net requested_url of
       None \<Rightarrow> Some InvalidUrl
     | Some parsed \<Rightarrow>
         (let host = u_host parsed
          in if u_scheme parsed = [] \<and> host = [] then None
             else if host = [] then Some InvalidUrl
             else if length (ec_allowed_hosts config) > 0
                     \<and> \<not> list_ex (host_matches net host) (ec_allowed_hosts config) then Some SsrfBlocked
             else None))"

subsection \<open>Clients\<close>

text \<open>
  A client by the dial policy of its transport.  \<open>PlainClient\<close> is the client without a transport of
  its own.
\<close>

datatype fetch_client =
    PlainClient int
  | SafeClient bool int

text \<open>\<open>NewSSRFSafeTransport\<close> and the \<open>Control\<close> function of its dialer: whether an address is dialled.\<close>

definition safe_dialer :: "bool \<Rightarrow> ip \<Rightarrow> bool" where
  "safe_dialer bp ip \<longleftrightarrow> \<not> (bp \<and> is_private_or_reserved_ip ip)"

fun client_dials :: "fetch_client \<Rightarrow> ip \<Rightarrow> bool" where
  "client_dials (PlainClient t) ip = True"
| "client_dials (SafeClient bp t) ip = safe_dialer bp ip"

definition fetch_client_for_url :: "go_net \<Rightarrow> string \<Rightarrow> esi_config \<Rightarrow> fetch_client" where
  "fetch_client_for_url net fetch_url config =
    (case ec_http_client config of
       Some (bp, t) \<Rightarrow> SafeClient bp t
     | None \<Rightarrow>
         (let parsed = url_parse net fetch_url
          in if ec_allow_private config \<and> parsed \<noteq> None
                \<and> host_in_allowed_hosts net (u_host (the parsed)) config
             then PlainClient (ec_timeout config)
             else SafeClient (ec_block_private_ips config) (ec_timeout config)))"

subsection \<open>The blocked addresses as CIDR blocks\<close>

definition ip_number :: "ip \<Rightarrow> nat" where
  "ip_number = foldl (\<lambda>n b. n * 256 + unat b) 0"

text \<open>A block is its address and the length of its prefix.\<close>

definition in_block :: "nat \<Rightarrow> nat \<Rightarrow> ip \<times> nat \<Rightarrow> bool" where
  "in_block bits n = (\<lambda>(base, len). n div 2 ^ (bits - len) = ip_number base div 2 ^ (bits - len))"

definition v4_blocks :: "(ip \<times> nat) list" where
  "v4_blocks =
    [([0, 0, 0, 0], 32), ([10, 0, 0, 0], 8), ([100, 64, 0, 0], 10), ([127, 0, 0, 0], 8), ([169, 254, 0, 0], 16),
     ([172, 16, 0, 0], 12), ([192, 168, 0, 0], 16), ([198, 18, 0, 0], 15), ([224, 0, 0, 0], 4), ([240, 0, 0, 0], 4)]"

definition v6_blocks :: "(ip \<times> nat) list" where
  "v6_blocks =
    [(replicate 16 0, 128), (replicate 15 0 @ [1], 128), ([0x00, 0x64, 0xFF, 0x9B] @ replicate 12 0, 96),
     ([0x20, 0x01, 0x0D, 0xB8] @ replicate 12 0, 32), (0xFC # replicate 15 0, 7), (0xFE # 0x80 # replicate 14 0, 10),
     (0xFF # replicate 15 0, 8)]"

definition blocked :: "ip \<Rightarrow> bool" where
  "blocked ip =
    (case to4 ip of
       Some v4 \<Rightarrow> list_ex (in_block 32 (ip_number v4)) v4_blocks
     | None \<Rightarrow> list_ex (in_block 128 (ip_number ip)) v6_blocks)"

subsection \<open>Arithmetic of bytes\<close>

lemma byte_word: "unat (b :: 8 word) < 256"
  using unsigned_less [of b] by simp

lemma unat_byte_iff: "(b :: 8 word) = c \<longleftrightarrow> unat b = unat c"
  by (simp add: word_eq_iff_unsigned)

lemma high_bits_word: "b AND NOT (mask k) = push_bit k (drop_bit k b)" for b :: "8 word"
  by (rule bit_word_eqI) (auto simp: bit_and_iff bit_not_iff bit_mask_iff bit_push_bit_iff bit_drop_bit_eq)

lemma high_bits: "unat (b AND NOT (mask k)) = unat b div 2 ^ k * 2 ^ k" for b :: "8 word"
proof -
  have "unat b div 2 ^ k * 2 ^ k \<le> unat b" by simp
  then have "unat b div 2 ^ k * 2 ^ k < 256" using byte_word [of b] by linarith
  moreover have "unat (push_bit k (drop_bit k b)) = take_bit 8 (push_bit k (drop_bit k (unat b)))"
    using byte_word [of b] by (simp add: unsigned_push_bit_eq unsigned_drop_bit_eq take_bit_nat_eq_self)
  ultimately show ?thesis
    by (simp add: high_bits_word push_bit_eq_mult drop_bit_eq_div take_bit_eq_mod)
qed

text \<open>The masks of the code.\<close>

lemma byte_masks:
  "(0xFF :: 8 word) = NOT (mask 0)" "(0xFE :: 8 word) = NOT (mask 1)" "(0xF0 :: 8 word) = NOT (mask 4)"
  "(0xC0 :: 8 word) = NOT (mask 6)"
  by code_simp+

lemma masked_values:
  "unat (b AND 0xFE) = unat b div 2 * 2" "unat (b AND 0xF0) = unat b div 16 * 16"
  "unat (b AND 0xC0) = unat b div 64 * 64" for b :: "8 word"
  unfolding byte_masks high_bits by simp_all

lemma mask_tests:
  "b AND 0xC0 = 0x40 \<longleftrightarrow> unat b div 64 = 1" "0x40 = b AND 0xC0 \<longleftrightarrow> unat b div 64 = 1"
  "b AND 0xC0 = 0x80 \<longleftrightarrow> unat b div 64 = 2"
  "b AND 0xFE = 18 \<longleftrightarrow> unat b div 2 = 9" "18 = b AND 0xFE \<longleftrightarrow> unat b div 2 = 9"
  "b AND 0xFE = 0xFC \<longleftrightarrow> unat b div 2 = 126"
  "b AND 0xF0 = 0xF0 \<longleftrightarrow> unat b div 16 = 15" "0xF0 = b AND 0xF0 \<longleftrightarrow> unat b div 16 = 15"
  "b AND 0xF0 = 0xE0 \<longleftrightarrow> unat b div 16 = 14" "b AND 0xF0 = 16 \<longleftrightarrow> unat b div 16 = 1" for b :: "8 word"
  by (simp_all add: unat_byte_iff masked_values)

lemma ip_number_Nil [simp]: "ip_number [] = 0"
  by (simp add: ip_number_def)

lemma ip_number_snoc [simp]: "ip_number (xs @ [b]) = ip_number xs * 256 + unat b"
  by (simp add: ip_number_def)

lemma ip_number_bound: "ip_number xs < 256 ^ length xs"
proof (induction xs rule: rev_induct)
  case (snoc b xs)
  then show ?case using byte_word [of b] by simp
qed simp

lemma ip_number_append: "ip_number (xs @ ys) = ip_number xs * 256 ^ length ys + ip_number ys"
proof (induction ys rule: rev_induct)
  case (snoc b ys)
  then show ?case by (simp add: algebra_simps flip: append_assoc)
qed simp

lemma ip_number_div: "k = length ys \<Longrightarrow> ip_number (xs @ ys) div 256 ^ k = ip_number xs"
  using ip_number_bound [of ys] by (simp add: ip_number_append)

lemma ip_number_take: "k \<le> length xs \<Longrightarrow> ip_number xs div 256 ^ (length xs - k) = ip_number (take k xs)"
  using ip_number_div [of "length xs - k" "drop k xs" "take k xs"] by simp

lemma digits_eq:
  fixes u v x y k :: nat
  assumes "u < k" and "v < k"
  shows "x * k + u = y * k + v \<longleftrightarrow> x = y \<and> u = v"
  using assms by (metis div_mult_self3 div_less add.right_neutral add_left_cancel gr_implies_not0)

lemma ip_number_inj: "length xs = length ys \<Longrightarrow> ip_number xs = ip_number ys \<longleftrightarrow> xs = ys"
proof (induction xs arbitrary: ys rule: rev_induct)
  case (snoc b xs)
  then obtain zs c where ys: "ys = zs @ [c]" by (cases ys rule: rev_exhaust) auto
  with snoc have IH: "ip_number xs = ip_number zs \<longleftrightarrow> xs = zs" by simp
  have "ip_number xs * 256 + unat b = ip_number zs * 256 + unat c \<longleftrightarrow> ip_number xs = ip_number zs \<and> unat b = unat c"
    by (rule digits_eq [OF byte_word byte_word])
  then show ?case using IH ys by (simp add: unat_byte_iff)
qed simp

text \<open>A block whose prefix ends with a byte.\<close>

lemma in_byte_block:
  assumes "length base = length ip" and "k \<le> length ip" and "bits = 8 * length ip"
  shows "in_block bits (ip_number ip) (base, 8 * k) \<longleftrightarrow> take k ip = take k base"
proof -
  have "(2::nat) ^ (bits - 8 * k) = 256 ^ (length ip - k)"
    using assms(2,3) by (simp add: power_mult flip: right_diff_distrib')
  then show ?thesis
    using ip_number_take [of k ip] ip_number_take [of k base] assms(1,2)
      ip_number_inj [of "take k ip" "take k base"]
    by (simp add: in_block_def)
qed

subsection \<open>IPv4\<close>

lemma to4_four: "length ip = 4 \<Longrightarrow> to4 ip = Some ip"
  by (simp add: to4_def)

lemma four_bytes: "length ip = 4 \<Longrightarrow> \<exists>a b c d. ip = [a, b, c, d]"
  by (auto simp: eval_nat_numeral length_Suc_conv)

lemma v4_prefixes:
  fixes a b c d :: nat
  assumes "a < 256" and "b < 256" and "c < 256" and "d < 256"
  defines "n \<equiv> ((a * 256 + b) * 256 + c) * 256 + d"
  shows "n div 2 ^ 24 = a" "n div 2 ^ 16 = a * 256 + b" "n div 2 ^ 22 = a * 4 + b div 64"
    "n div 2 ^ 20 = a * 16 + b div 16" "n div 2 ^ 17 = a * 128 + b div 2" "n div 2 ^ 28 = a div 16"
proof -
  show h: "n div 2 ^ 24 = a" "n div 2 ^ 16 = a * 256 + b" using assms by (simp_all add: n_def)
  show "n div 2 ^ 22 = a * 4 + b div 64" "n div 2 ^ 20 = a * 16 + b div 16" "n div 2 ^ 17 = a * 128 + b div 2"
    using h(2) div_mult2_eq [of n "2 ^ 16" 64] div_mult2_eq [of n "2 ^ 16" 16] div_mult2_eq [of n "2 ^ 16" 2] by simp_all
  show "n div 2 ^ 28 = a div 16" using h(1) div_mult2_eq [of n "2 ^ 24" 16] by simp
qed

lemma all_ones [simp]: "b AND 0xFF = b" for b :: "8 word"
proof -
  have "(0xFF :: 8 word) = - 1" by simp
  then show ?thesis by (simp only: and.right_neutral)
qed

lemma four_contains:
  "net_contains cgnat_cidr [a, b, c, d] \<longleftrightarrow> a = 100 \<and> unat b div 64 = 1"
  "net_contains benchmark_cidr [a, b, c, d] \<longleftrightarrow> a = 198 \<and> unat b div 2 = 9"
  "net_contains reserved240_cidr [a, b, c, d] \<longleftrightarrow> unat a div 16 = 15"
  by (auto simp: net_contains_def to4_def cgnat_cidr_def benchmark_cidr_def reserved240_cidr_def mask_tests)

lemma four_private:
  "is_private_or_reserved_ip [a, b, c, d] \<longleftrightarrow>
     a = 127 \<or> a = 169 \<and> b = 254 \<or> unat a div 16 = 14 \<or> a = 0 \<and> b = 0 \<and> c = 0 \<and> d = 0
     \<or> a = 10 \<or> a = 172 \<and> unat b div 16 = 1 \<or> a = 192 \<and> b = 168
     \<or> a = 100 \<and> unat b div 64 = 1 \<or> a = 198 \<and> unat b div 2 = 9 \<or> unat a div 16 = 15"
proof -
  have "unat a div 16 = 14" if "a = 224" using that by simp
  then show ?thesis
    unfolding is_private_or_reserved_ip_def Let_def to4_four [of "[a, b, c, d]", simplified] option.case
    by (simp add: to4_def four_contains ip_is_loopback_def ip_is_link_local_unicast_def
        ip_is_link_local_multicast_def ip_is_multicast_def ip_is_unspecified_def ip_is_private_def mask_tests) blast
qed

lemma four_in_blocks:
  "list_ex (in_block 32 (ip_number [a, b, c, d])) v4_blocks \<longleftrightarrow>
     a = 127 \<or> a = 169 \<and> b = 254 \<or> unat a div 16 = 14 \<or> a = 0 \<and> b = 0 \<and> c = 0 \<and> d = 0
     \<or> a = 10 \<or> a = 172 \<and> unat b div 16 = 1 \<or> a = 192 \<and> b = 168
     \<or> a = 100 \<and> unat b div 64 = 1 \<or> a = 198 \<and> unat b div 2 = 9 \<or> unat a div 16 = 15"
proof -
  let ?n = "ip_number [a, b, c, d]"
  note v = v4_prefixes [OF byte_word [of a] byte_word [of b] byte_word [of c] byte_word [of d]]
  have n: "?n = ((unat a * 256 + unat b) * 256 + unat c) * 256 + unat d" by (simp add: ip_number_def)
  have 0: "in_block 32 ?n ([0, 0, 0, 0], 32) \<longleftrightarrow> a = 0 \<and> b = 0 \<and> c = 0 \<and> d = 0"
    using ip_number_inj [of "[a, b, c, d]" "[0, 0, 0, 0]"] by (simp add: in_block_def)
  have 8: "in_block 32 ?n ([x, 0, 0, 0], 8) \<longleftrightarrow> a = x" for x
    using in_byte_block [of "[x, 0, 0, 0]" "[a, b, c, d]" 1 32] by simp
  have 16: "in_block 32 ?n ([x, y, 0, 0], 16) \<longleftrightarrow> a = x \<and> b = y" for x y
    using in_byte_block [of "[x, y, 0, 0]" "[a, b, c, d]" 2 32] by simp
  have base: "ip_number [x, y, 0, 0] = ((unat x * 256 + unat y) * 256 + 0) * 256 + 0" for x y :: "8 word"
    by (simp add: ip_number_def)
  note w = v4_prefixes [OF byte_word byte_word, of 0 0, simplified zero_less_numeral, OF TrueI TrueI]
  have 4: "in_block 32 ?n ([x, 0, 0, 0], 4) \<longleftrightarrow> unat a div 16 = unat x div 16" for x
    unfolding in_block_def prod.case base n using v(6) w(6) [of x 0] by simp
  have 10: "in_block 32 ?n ([x, y, 0, 0], 10) \<longleftrightarrow> a = x \<and> unat b div 64 = unat y div 64" for x y
    unfolding in_block_def prod.case base n using v(3) w(3) [of x y] digits_eq [of "unat b div 64" 4 "unat y div 64" "unat a" "unat x"]
      byte_word [of b] byte_word [of y] by (simp add: less_mult_imp_div_less unat_byte_iff)
  have 12: "in_block 32 ?n ([x, y, 0, 0], 12) \<longleftrightarrow> a = x \<and> unat b div 16 = unat y div 16" for x y
    unfolding in_block_def prod.case base n using v(4) w(4) [of x y] digits_eq [of "unat b div 16" 16 "unat y div 16" "unat a" "unat x"]
      byte_word [of b] byte_word [of y] by (simp add: less_mult_imp_div_less unat_byte_iff)
  have 15: "in_block 32 ?n ([x, y, 0, 0], 15) \<longleftrightarrow> a = x \<and> unat b div 2 = unat y div 2" for x y
    unfolding in_block_def prod.case base n using v(5) w(5) [of x y] digits_eq [of "unat b div 2" 128 "unat y div 2" "unat a" "unat x"]
      byte_word [of b] byte_word [of y] by (simp add: less_mult_imp_div_less unat_byte_iff)
  show ?thesis
    by (simp add: v4_blocks_def 0 8 16 4 10 12 15) blast
qed

subsection \<open>IPv6\<close>

lemma masked_prefix:
  "length x = length p + k \<Longrightarrow>
    list_all (\<lambda>(a, m, b). a AND m = b AND m)
      (zip (p @ replicate k 0) (zip (replicate (length p) 0xFF @ replicate k 0) x))
    \<longleftrightarrow> take (length p) x = p" for p x :: "8 word list"
proof (induction p arbitrary: x)
  case Nil
  have "list_all (\<lambda>(a, m, b). a AND m = b AND m) (zip (replicate k 0) (zip (replicate k 0) x))"
    by (auto simp: list_all_iff in_set_zip)
  then show ?case by simp
next
  case (Cons a p)
  then obtain b y where "x = b # y" by (cases x) auto
  with Cons show ?case by auto
qed

lemma prefix_net:
  assumes "to4 ip = None" and "length p = n" and "length ip = n + k"
  shows "net_contains (p @ replicate k 0, replicate n 0xFF @ replicate k 0) ip \<longleftrightarrow> take n ip = p"
  using assms masked_prefix [of ip p k] by (auto simp: net_contains_def)

lemma nat64_split:
  "nat64_cidr = (([0x00, 0x64, 0xFF, 0x9B] @ replicate 8 0) @ replicate 4 0, replicate 12 0xFF @ replicate 4 0)"
  by code_simp

lemma six_contains:
  assumes "to4 ip = None" and "length ip = 16"
  shows "net_contains documentation_cidr ip \<longleftrightarrow> take 4 ip = [0x20, 0x01, 0x0D, 0xB8]"
    and "net_contains nat64_cidr ip \<longleftrightarrow> take 12 ip = [0x00, 0x64, 0xFF, 0x9B] @ replicate 8 0"
  unfolding documentation_cidr_def nat64_split
  by (rule prefix_net [OF assms(1)]; simp add: assms)+

lemma six_private:
  assumes "to4 ip = None" and "length ip = 16"
  shows "is_private_or_reserved_ip ip \<longleftrightarrow>
    ip = replicate 16 0 \<or> ip = replicate 15 0 @ [1] \<or> take 12 ip = [0x00, 0x64, 0xFF, 0x9B] @ replicate 8 0
    \<or> take 4 ip = [0x20, 0x01, 0x0D, 0xB8] \<or> unat (ip ! 0) div 2 = 126
    \<or> ip ! 0 = 0xFE \<and> unat (ip ! 1) div 64 = 2 \<or> ip ! 0 = 0xFF"
proof -
  have "ip \<noteq> []" using assms(2) by auto
  then show ?thesis
    using six_contains [OF assms]
    by (simp add: is_private_or_reserved_ip_def Let_def assms ip_is_loopback_def ip_is_link_local_unicast_def
        ip_is_link_local_multicast_def ip_is_multicast_def ip_is_unspecified_def ip_is_private_def mask_tests
        del: replicate.simps) blast
qed

lemma six_in_blocks:
  assumes "length ip = 16"
  shows "list_ex (in_block 128 (ip_number ip)) v6_blocks \<longleftrightarrow>
    ip = replicate 16 0 \<or> ip = replicate 15 0 @ [1] \<or> take 12 ip = [0x00, 0x64, 0xFF, 0x9B] @ replicate 8 0
    \<or> take 4 ip = [0x20, 0x01, 0x0D, 0xB8] \<or> unat (ip ! 0) div 2 = 126
    \<or> ip ! 0 = 0xFE \<and> unat (ip ! 1) div 64 = 2 \<or> ip ! 0 = 0xFF"
proof -
  obtain a b r where ip: "ip = a # b # r" and r: "length r = 14"
    using assms by (auto simp: numeral_eq_Suc length_Suc_conv)
  let ?n = "ip_number ip"
  have n1: "?n div 256 ^ 15 = unat a"
    using ip_number_div [of 15 "b # r" "[a]"] r by (simp add: ip ip_number_def)
  have n2: "?n div 256 ^ 14 = unat a * 256 + unat b"
    using ip_number_div [of 14 r "[a, b]"] r by (simp add: ip ip_number_def)
  have byte_block: "in_block 128 ?n (base, 8 * k) \<longleftrightarrow> take k ip = take k base" if "length base = 16" "k \<le> 16" for base k
    using in_byte_block [of base ip k 128] that assms by simp
  have 128: "in_block 128 ?n (base, 128) \<longleftrightarrow> ip = base" if "length base = 16" for base
    using byte_block [of base 16] that assms by simp
  have m: "ip_number (x # y # replicate 14 0) div 256 ^ 14 = unat x * 256 + unat y"
    "ip_number (x # replicate 15 0) div 256 ^ 15 = unat x" for x y :: "8 word"
    using ip_number_div [of 14 "replicate 14 0" "[x, y]"] ip_number_div [of 15 "replicate 15 0" "[x]"]
    by (simp_all add: ip_number_def)
  have p: "(2::nat) ^ 121 = 256 ^ 15 * 2" "(2::nat) ^ 118 = 256 ^ 14 * 64" by simp_all
  have 7: "in_block 128 ?n (0xFC # replicate 15 0, 7) \<longleftrightarrow> unat a div 2 = 126"
  proof -
    have e: "(128::nat) - 7 = 121" by simp
    show ?thesis by (simp only: in_block_def prod.case e p div_mult2_eq n1 m) simp
  qed
  have 10: "in_block 128 ?n (0xFE # 0x80 # replicate 14 0, 10) \<longleftrightarrow> a = 0xFE \<and> unat b div 64 = 2"
  proof -
    have "(unat a * 256 + unat b) div 64 = (254 * 256 + 128) div 64 \<longleftrightarrow> unat a = 254 \<and> unat b div 64 = 2"
    proof -
      have "(unat a * 256 + unat b) div 64 = unat a * 4 + unat b div 64"
        using div_mult_self1 [of 64 "unat b" "unat a * 4"] by (simp add: algebra_simps)
      moreover have "unat b div 64 < 4" using byte_word [of b] by (simp add: less_mult_imp_div_less)
      moreover have "x * 4 + y = 1018 \<longleftrightarrow> x = 254 \<and> y = 2" if "y < 4" for x y :: nat using that by arith
      ultimately show ?thesis by simp
    qed
    moreover have e: "(128::nat) - 10 = 118" by simp
    ultimately show ?thesis
      by (simp only: in_block_def prod.case e p div_mult2_eq n2 m unat_byte_iff) simp
  qed
  show ?thesis
    using byte_block [of "[0x00, 0x64, 0xFF, 0x9B] @ replicate 12 0" 12] byte_block [of "[0x20, 0x01, 0x0D, 0xB8] @ replicate 12 0" 4]
      byte_block [of "0xFF # replicate 15 0" 1] 128 [of "replicate 16 0"] 128 [of "replicate 15 0 @ [1]"]
    by (simp add: v6_blocks_def 7 10 del: replicate.simps) (simp add: ip)
qed

subsection \<open>The check is the list of blocks\<close>

lemma to4_length: "to4 ip = Some v4 \<Longrightarrow> length v4 = 4"
  by (auto simp: to4_def split: if_splits)

lemma private_of_four:
  assumes "to4 ip = Some v4"
  shows "is_private_or_reserved_ip ip \<longleftrightarrow> is_private_or_reserved_ip v4"
proof -
  have "ip \<noteq> []" "v4 \<noteq> []" using assms to4_length [OF assms] by (auto simp: to4_def)
  then show ?thesis
    using assms to4_four [OF to4_length [OF assms]] by (simp add: is_private_or_reserved_ip_def Let_def)
qed

text \<open>C9: the address test is exact: of the addresses that a dialer can see, 4 or 16 bytes long, it
  refuses those in the listed CIDR blocks and no others, and an IPv4 address that comes in its IPv6
  form is judged as the IPv4 address it is.\<close>

theorem private_check_exact:
  assumes "length ip = 4 \<or> length ip = 16"
  shows "is_private_or_reserved_ip ip \<longleftrightarrow> blocked ip"
proof (cases "to4 ip")
  case None
  then have "length ip = 16" using assms to4_four by fastforce
  with None show ?thesis by (simp add: blocked_def six_private six_in_blocks)
next
  case (Some v4)
  then obtain a b c d where "v4 = [a, b, c, d]" using four_bytes [OF to4_length [OF Some]] by blast
  with Some show ?thesis by (simp only: blocked_def private_of_four option.case four_private four_in_blocks)
qed

theorem private_check_exact_witness:
  "is_private_or_reserved_ip (replicate 10 0 @ [0xFF, 0xFF, 10, 0, 0, 1]) \<and> \<not> is_private_or_reserved_ip [8, 8, 8, 8]"
proof -
  have "to4 (replicate 10 0 @ [0xFF, 0xFF, 10, 0, 0, 1]) = Some [10, 0, 0, 1]" "to4 [8, 8, 8, 8] = Some [8, 8, 8, 8]"
    by code_simp+
  then have "blocked (replicate 10 0 @ [0xFF, 0xFF, 10, 0, 0, 1])" "\<not> blocked [8, 8, 8, 8]"
    unfolding blocked_def by (simp_all only: option.case four_in_blocks) simp_all
  then show ?thesis
    using private_check_exact [of "replicate 10 0 @ [0xFF, 0xFF, 10, 0, 0, 1]"] private_check_exact [of "[8, 8, 8, 8]"]
    by simp
qed

end
