(* ===== verification/Go_Policy.thy ===== *)
theory Go_Policy
  imports Go_Ssrf "HOL-Library.Char_ord" "HOL-Library.List_Lexorder"
begin

text \<open>
  \<open>securityPolicyFingerprint\<close> of \<open>mesi/ssrf.go\<close>, the part of a cache key that names the policy a
  fetch ran under.  Go compares strings byte by byte, as the order on lists of characters does; a
  slice of bytes is written to JSON in base64.
\<close>

subsection \<open>The fingerprint\<close>

definition is_ascii_host :: "string \<Rightarrow> bool" where
  "is_ascii_host s = list_all (\<lambda>c. byte c < 128) s"

definition policy_host :: "string \<Rightarrow> string" where
  "policy_host h = (let t = trim_dot h in if is_ascii_host t then map lower t else t)"

fun policy_hosts_from :: "string list \<Rightarrow> string list \<Rightarrow> string list" where
  "policy_hosts_from seen [] = []"
| "policy_hosts_from seen (h # hs) =
     (let x = policy_host h
      in if x \<in> set seen then policy_hosts_from seen hs else x # policy_hosts_from (x # seen) hs)"

definition base64_alphabet :: string where
  "base64_alphabet = ''ABCDEFGHIJKLMNOPQRSTUVWXYZabcdefghijklmnopqrstuvwxyz0123456789+/''"

definition b64 :: "nat \<Rightarrow> char" where
  "b64 n = base64_alphabet ! n"

fun base64 :: "string \<Rightarrow> string" where
  "base64 [] = []"
| "base64 [a] = [b64 (byte a div 4), b64 (byte a mod 4 * 16), CHR ''='', CHR ''='']"
| "base64 [a, b] =
     [b64 (byte a div 4), b64 (byte a mod 4 * 16 + byte b div 16), b64 (byte b mod 16 * 4), CHR ''='']"
| "base64 (a # b # c # r) =
     [b64 (byte a div 4), b64 (byte a mod 4 * 16 + byte b div 16), b64 (byte b mod 16 * 4 + byte c div 64),
      b64 (byte c mod 64)] @ base64 r"

definition go_bool :: "bool \<Rightarrow> string" where
  "go_bool b = (if b then ''true'' else ''false'')"

definition hosts_json :: "string list \<Rightarrow> string" where
  "hosts_json hs = ''['' @ commas (map (\<lambda>h. [CHR 0x22] @ base64 h @ [CHR 0x22]) hs) @ '']''"

definition security_policy_fingerprint :: "esi_config \<Rightarrow> string" where
  "security_policy_fingerprint config =
    (let hosts = sort (policy_hosts_from [] (ec_allowed_hosts config))
     in ''|ssrf=ah:'' @ hosts_json hosts @ '',bpi:'' @ go_bool (ec_block_private_ips config)
        @ '',api4ah:'' @ go_bool (ec_allow_private config) @ '',hc:'' @ go_bool (ec_http_client config \<noteq> None))"

subsection \<open>Base64 loses nothing\<close>

lemma alphabet: "length base64_alphabet = 64" "distinct base64_alphabet"
  "CHR ''='' \<notin> set base64_alphabet" "CHR 0x22 \<notin> set base64_alphabet" "CHR ''|'' \<notin> set base64_alphabet"
  by (simp_all add: base64_alphabet_def)

lemma b64_inj: "m < 64 \<Longrightarrow> n < 64 \<Longrightarrow> b64 m = b64 n \<longleftrightarrow> m = n"
  using alphabet by (simp add: b64_def nth_eq_iff_index_eq)

lemma b64_in: "n < 64 \<Longrightarrow> b64 n \<in> set base64_alphabet"
  using alphabet(1) by (simp add: b64_def)

lemma b64_not_pad: "n < 64 \<Longrightarrow> b64 n \<noteq> CHR ''=''" "n < 64 \<Longrightarrow> CHR ''='' \<noteq> b64 n"
  using b64_in [of n] alphabet(3) by auto

lemma byte_bound: "byte c < 256"
  by simp

text \<open>The four digits of three bytes.\<close>

lemma nat_digit_bounds:
  fixes a b c :: nat
  assumes "a < 256" and "b < 256" and "c < 256"
  shows "a div 4 < 64" "a mod 4 * 16 < 64" "a mod 4 * 16 + b div 16 < 64" "b mod 16 * 4 < 64"
    "b mod 16 * 4 + c div 64 < 64" "c mod 64 < 64" "b div 16 < 16" "c div 64 < 4"
proof -
  have m: "a mod 4 \<le> 3" "b mod 16 \<le> 15" "c mod 64 < 64"
    using mod_less_divisor [of 4 a] mod_less_divisor [of 16 b] mod_less_divisor [of 64 c] by linarith+
  show d: "a div 4 < 64" "b div 16 < 16" "c div 64 < 4" using assms by (simp_all add: less_mult_imp_div_less)
  show "a mod 4 * 16 < 64" "a mod 4 * 16 + b div 16 < 64" "b mod 16 * 4 < 64"
    "b mod 16 * 4 + c div 64 < 64" "c mod 64 < 64" using d m by linarith+
qed

lemmas digit_bounds = nat_digit_bounds [OF byte_bound byte_bound byte_bound]

lemma byte_parts:
  assumes "byte a div k = byte b div k" and "byte a mod k = byte b mod k"
  shows "a = b"
proof -
  have "byte a = byte a div k * k + byte a mod k" by (simp only: div_mult_mod_eq)
  also have "\<dots> = byte b" by (simp only: assms div_mult_mod_eq)
  finally show ?thesis by simp
qed

lemma base64_digits: "set (base64 s) \<subseteq> insert (CHR ''='') (set base64_alphabet)"
  by (induction s rule: base64.induct) (simp_all add: b64_in digit_bounds)

lemma base64_inj: "base64 xs = base64 ys \<Longrightarrow> xs = ys"
proof (induction xs arbitrary: ys rule: base64.induct)
  case 1
  then show ?case by (cases ys rule: base64.cases) simp_all
next
  case (2 a)
  then show ?case
    by (cases ys rule: base64.cases)
      (auto simp: b64_inj b64_not_pad digit_bounds dest: byte_parts [rotated])
next
  case (3 a b)
  show ?case
  proof (cases ys rule: base64.cases)
    case (3 a' b')
    with "3.prems" have e: "byte a div 4 = byte a' div 4"
      "byte a mod 4 * 16 + byte b div 16 = byte a' mod 4 * 16 + byte b' div 16" "byte b mod 16 = byte b' mod 16"
      by (simp_all add: b64_inj digit_bounds)
    from e(2) have "byte a mod 4 = byte a' mod 4 \<and> byte b div 16 = byte b' div 16"
      by (simp only: digits_eq [OF digit_bounds(7) digit_bounds(7)])
    with e 3 show ?thesis by (auto dest: byte_parts)
  qed (use "3.prems" in \<open>simp_all add: b64_inj b64_not_pad digit_bounds\<close>)
next
  case (4 a b c r)
  show ?case
  proof (cases ys rule: base64.cases)
    case (4 a' b' c' r')
    with "4.prems" have e: "byte a div 4 = byte a' div 4"
      "byte a mod 4 * 16 + byte b div 16 = byte a' mod 4 * 16 + byte b' div 16"
      "byte b mod 16 * 4 + byte c div 64 = byte b' mod 16 * 4 + byte c' div 64" "byte c mod 64 = byte c' mod 64"
      "base64 r = base64 r'"
      by (simp_all add: b64_inj digit_bounds)
    from e(2) have "byte a mod 4 = byte a' mod 4 \<and> byte b div 16 = byte b' div 16"
      by (simp only: digits_eq [OF digit_bounds(7) digit_bounds(7)])
    moreover from e(3) have "byte b mod 16 = byte b' mod 16 \<and> byte c div 64 = byte c' div 64"
      by (simp only: digits_eq [OF digit_bounds(8) digit_bounds(8)])
    ultimately show ?thesis using e 4 "4.IH" by (auto dest: byte_parts)
  qed (use "4.prems" in \<open>simp_all add: b64_inj b64_not_pad digit_bounds\<close>)
qed

subsection \<open>A fingerprint ends a key unmistakably\<close>

lemma base64_clean: "CHR 0x22 \<notin> set (base64 s)" "CHR ''|'' \<notin> set (base64 s)"
  using base64_digits [of s] alphabet(4,5) by auto

lemma split_first:
  assumes "x \<notin> set xs" and "x \<notin> set ys" and "xs @ x # r = ys @ x # r'"
  shows "xs = ys \<and> r = r'"
proof -
  have "takeWhile (\<lambda>c. c \<noteq> x) (zs @ x # t) = zs" if "x \<notin> set zs" for zs t
    using that by (induction zs) auto
  with assms show ?thesis by (metis append_same_eq same_append_eq list.inject)
qed

lemma split_last:
  assumes "x \<notin> set r" and "x \<notin> set r'" and "xs @ x # r = ys @ x # r'"
  shows "xs = ys \<and> r = r'"
proof -
  have "rev r @ x # rev xs = rev r' @ x # rev ys" using arg_cong [OF assms(3), of rev] by simp
  then show ?thesis using split_first [of x "rev r" "rev r'" "rev xs" "rev ys"] assms(1,2) by simp
qed

definition quoted64 :: "string \<Rightarrow> string" where
  "quoted64 h = [CHR 0x22] @ base64 h @ [CHR 0x22]"

lemma quoted64_split: "quoted64 h @ s = quoted64 h' @ s' \<Longrightarrow> h = h' \<and> s = s'"
  using split_first [OF base64_clean(1) base64_clean(1), of h s h' s'] base64_inj [of h h'] by (simp add: quoted64_def)

lemma host_commas: "commas (x # xs) = x @ concat (map (Cons CHR '','') xs)"
  by (induction xs arbitrary: x) simp_all

lemma quoted_tail_split:
  "concat (map (Cons CHR '','') (map quoted64 hs)) @ CHR '']'' # r
     = concat (map (Cons CHR '','') (map quoted64 hs')) @ CHR '']'' # r' \<Longrightarrow> hs = hs' \<and> r = r'"
proof (induction hs arbitrary: hs')
  case Nil
  then show ?case by (cases hs') simp_all
next
  case (Cons h hs)
  then obtain h' t where hs': "hs' = h' # t" by (cases hs') simp_all
  then have "quoted64 h @ concat (map (Cons CHR '','') (map quoted64 hs)) @ CHR '']'' # r
      = quoted64 h' @ concat (map (Cons CHR '','') (map quoted64 t)) @ CHR '']'' # r'"
    using Cons.prems by simp
  from quoted64_split [OF this] show ?case using Cons.IH [of t] hs' by blast
qed

lemma hosts_json_split:
  assumes "hosts_json hs @ r = hosts_json hs' @ r'"
  shows "hs = hs' \<and> r = r'"
proof -
  have e: "commas (map quoted64 hs) @ CHR '']'' # r = commas (map quoted64 hs') @ CHR '']'' # r'"
    using assms by (simp add: hosts_json_def quoted64_def [abs_def])
  show ?thesis
  proof (cases hs)
    case Nil
    with e show ?thesis by (cases hs') (simp_all add: host_commas quoted64_def)
  next
    case (Cons h t)
    with e obtain h' t' where hs': "hs' = h' # t'" by (cases hs') (simp_all add: host_commas quoted64_def)
    with e Cons show ?thesis
      using quoted64_split [of h _ h'] quoted_tail_split [of t r t' r'] by (simp add: host_commas)
  qed
qed

lemma hosts_json_clean: "CHR ''|'' \<notin> set (hosts_json hs)"
proof -
  have "CHR ''|'' \<notin> set (commas xs)" if "\<forall>x \<in> set xs. CHR ''|'' \<notin> set x" for xs
    using that by (induction xs rule: commas.induct) simp_all
  then show ?thesis using base64_clean(2) by (simp add: hosts_json_def)
qed

definition fingerprint_tail :: "esi_config \<Rightarrow> string" where
  "fingerprint_tail c = '',bpi:'' @ go_bool (ec_block_private_ips c) @ '',api4ah:'' @ go_bool (ec_allow_private c)
     @ '',hc:'' @ go_bool (ec_http_client c \<noteq> None)"

lemma go_bool_split: "go_bool b @ r = go_bool b' @ r' \<longleftrightarrow> b = b' \<and> r = r'"
  by (auto simp: go_bool_def)

lemma tail_inj:
  "fingerprint_tail c = fingerprint_tail c' \<longleftrightarrow> ec_block_private_ips c = ec_block_private_ips c'
     \<and> ec_allow_private c = ec_allow_private c' \<and> (ec_http_client c = None \<longleftrightarrow> ec_http_client c' = None)"
  using go_bool_split [of "ec_http_client c \<noteq> None" "[]" "ec_http_client c' \<noteq> None" "[]"]
  by (auto simp: fingerprint_tail_def go_bool_split)

lemma fingerprint_split:
  assumes "k @ security_policy_fingerprint c = k' @ security_policy_fingerprint c'"
  shows "k = k'" and "set (map policy_host (ec_allowed_hosts c)) = set (map policy_host (ec_allowed_hosts c'))"
    and "fingerprint_tail c = fingerprint_tail c'"
proof -
  let ?h = "\<lambda>c. sort (policy_hosts_from [] (ec_allowed_hosts c))"
  let ?r = "\<lambda>c. ''ssrf=ah:'' @ hosts_json (?h c) @ fingerprint_tail c"
  have f: "security_policy_fingerprint c = CHR ''|'' # ?r c" for c
    by (simp add: security_policy_fingerprint_def fingerprint_tail_def Let_def)
  have clean: "CHR ''|'' \<notin> set (?r c)" for c
    using hosts_json_clean by (simp add: fingerprint_tail_def go_bool_def)
  have kr: "k = k' \<and> ?r c = ?r c'" using split_last [OF clean clean, of k c k' c'] assms by (simp only: f)
  then have "hosts_json (?h c) @ fingerprint_tail c = hosts_json (?h c') @ fingerprint_tail c'" by simp
  from hosts_json_split [OF this] have h: "?h c = ?h c'" "fingerprint_tail c = fingerprint_tail c'" by blast+
  have s: "set (policy_hosts_from seen hs) = set (map policy_host hs) - set seen" for seen hs
    by (induction seen hs rule: policy_hosts_from.induct) (auto simp: Let_def)
  show "k = k'" "fingerprint_tail c = fingerprint_tail c'" using kr h by blast+
  show "set (map policy_host (ec_allowed_hosts c)) = set (map policy_host (ec_allowed_hosts c'))"
    using arg_cong [OF h(1), of set] by (simp add: s)
qed

subsection \<open>Equal keys, equal policies\<close>

text \<open>What \<open>strings.EqualFold\<close> promises for ASCII texts.\<close>

definition ascii_fold :: "go_net \<Rightarrow> bool" where
  "ascii_fold net \<longleftrightarrow> (\<forall>h a. is_ascii_host a \<longrightarrow> equal_fold net h (map lower a) = equal_fold net h a)"

definition matches_policy :: "go_net \<Rightarrow> string \<Rightarrow> string \<Rightarrow> bool" where
  "matches_policy net host0 a \<longleftrightarrow>
    (let host = trim_dot host0
     in equal_fold net host a
        \<or> length host > length a \<and> host ! (length host - length a - 1) = CHR ''.''
          \<and> equal_fold net (drop (length host - length a) host) a)"

lemma host_matches_policy: "ascii_fold net \<Longrightarrow> host_matches net host a \<longleftrightarrow> matches_policy net host (policy_host a)"
  by (simp add: host_matches_def matches_policy_def policy_host_def ascii_fold_def Let_def)

lemma allowed_by_policy:
  "ascii_fold net \<Longrightarrow> host_in_allowed_hosts net h c
     \<longleftrightarrow> (\<exists>a \<in> set (map policy_host (ec_allowed_hosts c)). matches_policy net h a)"
  by (simp add: host_in_allowed_hosts_def list_ex_iff host_matches_policy)

lemma fingerprint_policy:
  assumes "ascii_fold net"
    and "key1 @ security_policy_fingerprint c1 = key2 @ security_policy_fingerprint c2"
  shows "host_in_allowed_hosts net h c1 = host_in_allowed_hosts net h c2"
    and "ec_allowed_hosts c1 = [] \<longleftrightarrow> ec_allowed_hosts c2 = []"
    and "ec_block_private_ips c1 = ec_block_private_ips c2" "ec_allow_private c1 = ec_allow_private c2"
    and "ec_http_client c1 = None \<longleftrightarrow> ec_http_client c2 = None"
proof -
  note f = fingerprint_split [OF assms(2)]
  show "host_in_allowed_hosts net h c1 = host_in_allowed_hosts net h c2"
    using f(2) by (simp only: allowed_by_policy [OF assms(1)])
  show "ec_allowed_hosts c1 = [] \<longleftrightarrow> ec_allowed_hosts c2 = []" using f(2) by (metis set_empty map_is_Nil_conv)
  show "ec_block_private_ips c1 = ec_block_private_ips c2" "ec_allow_private c1 = ec_allow_private c2"
    "ec_http_client c1 = None \<longleftrightarrow> ec_http_client c2 = None" using f(3) tail_inj by blast+
qed

text \<open>C10: what a shared cache holds was fetched under the policy of whoever reads it: when two
  configurations lead to the same key, the keys before the fingerprint are the same, both
  admit the same URLs, both give the bypass to the same hosts, block or do not block private
  addresses alike, and both have a client of their own or neither has; without one, the same
  addresses are dialled for every URL.\<close>

theorem cache_keys_separate_policies:
  assumes "ascii_fold net"
    and "key1 @ security_policy_fingerprint c1 = key2 @ security_policy_fingerprint c2"
  shows "key1 = key2 \<and> is_url_safe net u c1 = is_url_safe net u c2
    \<and> host_in_allowed_hosts net h c1 = host_in_allowed_hosts net h c2
    \<and> ec_block_private_ips c1 = ec_block_private_ips c2 \<and> ec_allow_private c1 = ec_allow_private c2
    \<and> (ec_http_client c1 = None \<longleftrightarrow> ec_http_client c2 = None)
    \<and> (ec_http_client c1 \<noteq> None
       \<or> client_dials (fetch_client_for_url net u c1) ip = client_dials (fetch_client_for_url net u c2) ip)"
proof -
  note p = fingerprint_policy [OF assms]
  have "is_url_safe net u c1 = is_url_safe net u c2"
    using p(1,2) by (simp add: is_url_safe_def host_in_allowed_hosts_def Let_def split: option.split)
  moreover have "client_dials (fetch_client_for_url net u c1) ip = client_dials (fetch_client_for_url net u c2) ip"
    if "ec_http_client c1 = None"
    using that p(1,3-5) by (cases "url_parse net u") (simp_all add: fetch_client_for_url_def Let_def)
  ultimately show ?thesis using fingerprint_split(1) [OF assms(2)] p by blast
qed

text \<open>A net with the ASCII part of the folding and URLs of the form scheme, colon, host.\<close>

definition sample_net :: go_net where
  "sample_net =
    \<lparr> equal_fold = (\<lambda>a b. map lower a = map lower b),
      url_parse = (\<lambda>s. Some (if prefix ''http://'' s
                             then \<lparr> u_scheme = ''http'',
                                    u_host = takeWhile (\<lambda>c. c \<noteq> CHR ''/'' \<and> c \<noteq> CHR '':'') (drop 7 s), u_text = s \<rparr>
                             else \<lparr> u_scheme = [], u_host = [], u_text = s \<rparr>)),
      resolve_reference = (\<lambda>base ref. ref) \<rparr>"

lemma lower_lower: "lower (lower c) = lower c"
proof -
  have "byte (lower c) = (if 65 \<le> byte c \<and> byte c \<le> 90 then byte c + 32 else byte c)" by (simp add: lower_def)
  then show ?thesis unfolding lower_def [of "lower c"] by auto
qed

lemma sample_fold: "ascii_fold sample_net"
  by (simp add: ascii_fold_def sample_net_def comp_def lower_lower)

definition policy_config :: "string list \<Rightarrow> bool \<Rightarrow> bool \<Rightarrow> esi_config" where
  "policy_config hosts bp ap = zero_esi_config
     \<lparr>ec_allowed_hosts := hosts, ec_block_private_ips := bp, ec_allow_private := ap, ec_timeout := 1000000000\<rparr>"

theorem cache_keys_separate_policies_witness:
  "host_in_allowed_hosts sample_net ''www.b.com'' (policy_config [''B.com'', ''a.com''] True True)
   \<and> host_in_allowed_hosts sample_net ''www.b.com'' (policy_config [''a.com.'', ''b.com'', ''A.com''] True True)"
proof -
  have k: "''k'' @ security_policy_fingerprint (policy_config [''B.com'', ''a.com''] True True)
      = ''k'' @ security_policy_fingerprint (policy_config [''a.com.'', ''b.com'', ''A.com''] True True)"
    by code_simp
  have "host_in_allowed_hosts sample_net ''www.b.com'' (policy_config [''B.com'', ''a.com''] True True)" by code_simp
  then show ?thesis
    using cache_keys_separate_policies [OF sample_fold k, of "''http://a/''" "''www.b.com''" "[]"] by blast
qed

end
