(* ===== verification/Mesi_Buffer.thy ===== *)
theory Mesi_Buffer
  imports Mesi_Json
begin

text \<open>
  Output buffers.  A module's JSON writer is a list of buffer statements, each of which either
  succeeds or has no result, when it would write outside the allocation or not return.
  The locale \<open>growable_buffer\<close> is the contract between such a writer and the routines that
  reserve room and store bytes; inside it, \<open>emits f s\<close> says that the statement \<open>f\<close>
  always succeeds and appends exactly \<open>s\<close>.
\<close>

fun run_all :: "('b \<Rightarrow> 'b option) list \<Rightarrow> 'b \<Rightarrow> 'b option" where
  "run_all [] b = Some b"
| "run_all (f # fs) b = Option.bind (f b) (run_all fs)"

lemma run_all_append: "run_all (fs @ gs) b = Option.bind (run_all fs b) (run_all gs)"
  by (induction fs arbitrary: b) (auto split: bind_splits)

declare run_all.simps [simp del]

locale growable_buffer =
  fixes content :: "'b \<Rightarrow> string"
    and room :: "'b \<Rightarrow> nat"
    and good :: "'b \<Rightarrow> bool"
    and reserve :: "nat \<Rightarrow> 'b \<Rightarrow> 'b option"
    and store :: "string \<Rightarrow> 'b \<Rightarrow> 'b option"
    and slack :: nat
  assumes reserve_ok: "good b \<Longrightarrow>
      \<exists>b'. reserve n b = Some b' \<and> good b' \<and> content b' = content b \<and> n + slack \<le> room b'"
    and store_ok: "good b \<Longrightarrow> length s \<le> room b \<Longrightarrow>
      \<exists>b'. store s b = Some b' \<and> good b' \<and> content b' = content b @ s"
begin

definition emits :: "('b \<Rightarrow> 'b option) \<Rightarrow> string \<Rightarrow> bool" where
  "emits f s \<longleftrightarrow> (\<forall>b. good b \<longrightarrow> (\<exists>b'. f b = Some b' \<and> good b' \<and> content b' = content b @ s))"

lemma emits_reserve_store:
  assumes "length s \<le> n + slack"
  shows "emits (\<lambda>b. Option.bind (reserve n b) (store s)) s"
  unfolding emits_def
proof (intro allI impI)
  fix b assume "good b"
  then obtain b1 where b1: "reserve n b = Some b1" "good b1" "content b1 = content b" "n + slack \<le> room b1"
    using reserve_ok by blast
  with assms have "length s \<le> room b1" by simp
  with b1 store_ok show "\<exists>b'. Option.bind (reserve n b) (store s) = Some b' \<and> good b' \<and> content b' = content b @ s"
    by fastforce
qed

lemma emits_Nil: "emits (run_all []) []"
  by (simp add: emits_def run_all.simps)

lemma emits_Cons: "emits f s \<Longrightarrow> emits (run_all fs) t \<Longrightarrow> emits (run_all (f # fs)) (s @ t)"
  by (fastforce simp: emits_def run_all.simps)

lemma emits_append: "emits (run_all fs) s \<Longrightarrow> emits (run_all gs) t \<Longrightarrow> emits (run_all (fs @ gs)) (s @ t)"
  by (fastforce simp: emits_def run_all_append)

lemma emits_concat_map:
  assumes "\<And>x. x \<in> set xs \<Longrightarrow> emits (run_all (f x)) (g x)"
  shows "emits (run_all (concat (map f xs))) (concat (map g xs))"
  using assms by (induction xs) (auto intro: emits_Nil emits_append)

lemma emits_result: "emits f s \<Longrightarrow> good b \<Longrightarrow> \<exists>b'. f b = Some b' \<and> good b' \<and> content b' = content b @ s"
  by (simp add: emits_def)

end

end
