(* ===== verification/Apache_Ctx.thy ===== *)
theory Apache_Ctx
  imports Apache_Template Mesi_Buffer
begin

text \<open>
  \<open>build_request_ctx_json\<close>: the request headers and cookies as JSON, for cache key
  templates, written into a buffer that \<open>json_grow\<close> reallocates.  Writes are checked
  against the allocation and the doubling loop of \<open>json_grow\<close> is a
  \<open>partial_function\<close>, so "there is a result" is memory safety and termination.
\<close>

subsection \<open>The buffer: json_grow and json_escape_append\<close>

record jbuf =
  bytes :: string
  cap :: nat

text \<open>\<open>while (pos + need >= ncap) ncap *= 2\<close>\<close>

partial_function (option) grow_loop :: "nat \<Rightarrow> nat \<Rightarrow> nat option" where
  "grow_loop lim ncap = (if lim \<ge> ncap then grow_loop lim (ncap * 2) else Some ncap)"

definition json_grow :: "nat \<Rightarrow> jbuf \<Rightarrow> jbuf option" where
  "json_grow n b =
    (if length (bytes b) + n < cap b then Some b
     else map_option (\<lambda>ncap. b\<lparr>cap := ncap\<rparr>) (grow_loop (length (bytes b) + n) (cap b * 2)))"

text \<open>\<open>buf[pos++] = c\<close> for each byte in turn.\<close>

fun put_bytes :: "string \<Rightarrow> jbuf \<Rightarrow> jbuf option" where
  "put_bytes [] b = Some b"
| "put_bytes (c # cs) b =
     (if length (bytes b) < cap b then put_bytes cs (b\<lparr>bytes := bytes b @ [c]\<rparr>) else None)"

definition emit :: "nat \<Rightarrow> string \<Rightarrow> jbuf \<Rightarrow> jbuf option" where
  "emit n s b = Option.bind (json_grow n b) (put_bytes s)"

definition escape_op :: "char \<Rightarrow> jbuf \<Rightarrow> jbuf option" where
  "escape_op q =
    (if q = CHR 0x22 then emit 2 [CHR 0x5C, CHR 0x22]
     else if q = CHR 0x5C then emit 2 [CHR 0x5C, CHR 0x5C]
     else if byte q < 0x20 then
       emit 6 [CHR 0x5C, CHR ''u'', CHR ''0'', CHR ''0'',
               hex_digits ! (byte q div 16 mod 16), hex_digits ! (byte q mod 16)]
     else emit 1 [q])"

definition json_escape_append :: "string \<Rightarrow> jbuf \<Rightarrow> jbuf option" where
  "json_escape_append src = run_all (map escape_op src)"

lemma grow_loop_result: "0 < ncap \<Longrightarrow> \<exists>r. grow_loop lim ncap = Some r \<and> lim < r"
proof (induction "Suc lim - ncap" arbitrary: ncap rule: less_induct)
  case less
  show ?case
  proof (cases "lim \<ge> ncap")
    case True
    with less.prems have "Suc lim - ncap * 2 < Suc lim - ncap" by linarith
    from less.hyps [OF this] less.prems True show ?thesis
      by (simp add: grow_loop.simps [of lim ncap])
  qed (simp add: grow_loop.simps)
qed

lemma put_bytes_fits:
  "length (bytes b) + length s \<le> cap b \<Longrightarrow> put_bytes s b = Some (b\<lparr>bytes := bytes b @ s\<rparr>)"
  by (induction s arbitrary: b) auto

interpretation jbuf: growable_buffer bytes "\<lambda>b. cap b - length (bytes b)"
    "\<lambda>b. 0 < cap b \<and> length (bytes b) \<le> cap b" json_grow put_bytes 1
proof
  fix b :: jbuf and n assume b: "0 < cap b \<and> length (bytes b) \<le> cap b"
  obtain r where "grow_loop (length (bytes b) + n) (cap b * 2) = Some r" "length (bytes b) + n < r"
    using grow_loop_result [of "cap b * 2" "length (bytes b) + n"] b by auto
  with b show "\<exists>b'. json_grow n b = Some b' \<and> (0 < cap b' \<and> length (bytes b') \<le> cap b')
      \<and> bytes b' = bytes b \<and> n + 1 \<le> cap b' - length (bytes b')"
    by (auto simp: json_grow_def)
next
  fix b :: jbuf and s :: string assume "0 < cap b \<and> length (bytes b) \<le> cap b" "length s \<le> cap b - length (bytes b)"
  then show "\<exists>b'. put_bytes s b = Some b' \<and> (0 < cap b' \<and> length (bytes b') \<le> cap b') \<and> bytes b' = bytes b @ s"
    by (auto simp: put_bytes_fits)
qed

lemma emits_emit: "length s \<le> n + 1 \<Longrightarrow> jbuf.emits (emit n s) s"
  using jbuf.emits_reserve_store [of s n] by (simp add: emit_def [abs_def])

lemma emits_escape_op: "jbuf.emits (escape_op c) (escape_byte c)"
  by (simp add: escape_op_def escape_byte_def emits_emit)

lemma emits_json_escape: "jbuf.emits (json_escape_append s) (concat (map escape_byte s))"
  unfolding json_escape_append_def
proof (induction s)
  case Nil
  show ?case using jbuf.emits_Nil by simp
next
  case (Cons c s)
  show ?case using jbuf.emits_Cons [OF emits_escape_op Cons.IH] by simp
qed

subsection \<open>Cookies\<close>

definition cookie_sep :: "char \<Rightarrow> bool" where
  "cookie_sep c \<longleftrightarrow> c = CHR '' '' \<or> c = CHR '';'' \<or> c = CHR 0x09"

text \<open>The four trimming loops: blanks off the end, then off the front.\<close>

definition trim_blanks :: "string \<Rightarrow> string" where
  "trim_blanks s = dropWhile is_blank (rev (dropWhile is_blank (rev s)))"

text \<open>The loop over a \<open>Cookie\<close> header, as the list of the pairs it writes.\<close>

function cookie_pairs :: "string \<Rightarrow> (string \<times> string) list" where
  "cookie_pairs c =
    (let c1 = dropWhile cookie_sep c
     in if c1 = [] then []
        else let name = takeWhile (\<lambda>x. x \<noteq> CHR ''='' \<and> x \<noteq> CHR '';'') c1;
                 c2 = dropWhile (\<lambda>x. x \<noteq> CHR ''='' \<and> x \<noteq> CHR '';'') c1
             in if c2 = [] \<or> hd c2 \<noteq> CHR ''=''
                then cookie_pairs (dropWhile (\<lambda>x. x \<noteq> CHR '';'') c2)
                else let val = takeWhile (\<lambda>x. x \<noteq> CHR '';'') (tl c2);
                         c3 = dropWhile (\<lambda>x. x \<noteq> CHR '';'') (tl c2);
                         name' = trim_blanks name;
                         val' = trim_blanks val
                     in if name' = [] then cookie_pairs c3 else (name', val') # cookie_pairs c3)"
  by pat_completeness auto

termination
proof (relation "measure length")
  fix c c1 name c2 :: string
  assume c1: "c1 = dropWhile cookie_sep c" "c1 \<noteq> []"
    and c2: "c2 = dropWhile (\<lambda>x. x \<noteq> CHR ''='' \<and> x \<noteq> CHR '';'') c1"
    and stop: "c2 = [] \<or> hd c2 \<noteq> CHR ''=''"
  from c1 obtain x xs where x: "c1 = x # xs" "\<not> cookie_sep x"
    by (metis dropWhile_hd list.exhaust)
  then have "x \<noteq> CHR '';''" by (simp add: cookie_sep_def)
  with x c2 stop have "length c2 < length c1"
    by (cases "x = CHR ''=''") (auto intro: le_less_trans [OF length_dropWhile_le])
  moreover have "length c1 \<le> length c" by (simp add: c1 length_dropWhile_le)
  ultimately show "(dropWhile (\<lambda>x. x \<noteq> CHR '';'') c2, c) \<in> measure length"
    using length_dropWhile_le [of "\<lambda>x. x \<noteq> CHR '';''" c2] by simp
next
  fix c c1 name c2 val c3 name' val' :: string
  assume c1: "c1 = dropWhile cookie_sep c" "c1 \<noteq> []"
    and c2: "c2 = dropWhile (\<lambda>x. x \<noteq> CHR ''='' \<and> x \<noteq> CHR '';'') c1" "\<not> (c2 = [] \<or> hd c2 \<noteq> CHR ''='')"
    and c3: "c3 = dropWhile (\<lambda>x. x \<noteq> CHR '';'') (tl c2)"
  have "length c3 \<le> length (tl c2)" unfolding c3 by (rule length_dropWhile_le)
  also have "\<dots> < length c2" using c2 by (cases c2) auto
  also have "\<dots> \<le> length c1" unfolding c2(1) by (rule length_dropWhile_le)
  also have "\<dots> \<le> length c" by (simp add: c1 length_dropWhile_le)
  finally have "length c3 < length c" .
  then show "(c3, c) \<in> measure length" "(c3, c) \<in> measure length" by simp_all
qed simp

declare cookie_pairs.simps [simp del]

subsection \<open>The request context\<close>

text \<open>
  \<open>apr_table_elts\<close> of \<open>headers_in\<close>: the entries in order, each with a key and a value
  that the loop tests for NULL; \<open>None\<close> is a NULL table.  \<open>apr_table_get\<close> finds the
  first entry with the key, ignoring case.
\<close>

type_synonym table = "(string option \<times> string option) list"

definition table_get :: "table \<Rightarrow> string \<Rightarrow> string option" where
  "table_get t key =
    (case find (\<lambda>(k, v). case k of None \<Rightarrow> False | Some k' \<Rightarrow> strcaseeq k' key) t of
       None \<Rightarrow> None | Some (k, v) \<Rightarrow> v)"

fun header_ops :: "table \<Rightarrow> bool \<Rightarrow> (jbuf \<Rightarrow> jbuf option) list" where
  "header_ops [] first_hdr = []"
| "header_ops ((k, v) # es) first_hdr =
     (if k = None \<or> v = None then header_ops es first_hdr
      else if strcaseeq (the k) ''Cookie'' then header_ops es first_hdr
      else (if first_hdr then [] else [emit 1 '',''])
           @ [emit 2 ''\"'', json_escape_append (the k), emit 3 ''\":\"'',
              json_escape_append (the v), emit 1 ''\"'']
           @ header_ops es False)"

fun cookie_ops :: "(string \<times> string) list \<Rightarrow> bool \<Rightarrow> (jbuf \<Rightarrow> jbuf option) list" where
  "cookie_ops [] first_cookie = []"
| "cookie_ops ((name, val) # cs) first_cookie =
     (if first_cookie then [] else [emit 1 '',''])
     @ [emit 20 ''{\"name\":\"'', json_escape_append name, emit 11 ''\",\"value\":\"'',
        json_escape_append val, emit 3 ''\"}'']
     @ cookie_ops cs False"

definition template_wants_ctx :: "string option \<Rightarrow> bool" where
  "template_wants_ctx t \<longleftrightarrow>
     nonempty t \<and> (contains (the t) ''${header:'' \<or> contains (the t) ''${cookie:'')"

text \<open>
  The result is the C string in the buffer, what stands before the closing NUL; no result
  means an access outside the buffer or a loop that does not end.
\<close>

definition build_request_ctx_json :: "table option \<Rightarrow> mesi_config \<Rightarrow> string option" where
  "build_request_ctx_json headers_in conf =
    (if \<not> nonempty (cache_key_template conf) then Some []
     else if \<not> contains (the (cache_key_template conf)) ''${header:''
             \<and> \<not> contains (the (cache_key_template conf)) ''${cookie:'' then Some []
     else let hdrs = (case headers_in of None \<Rightarrow> [] | Some t \<Rightarrow> t);
              cookies = (case table_get hdrs ''Cookie'' of None \<Rightarrow> [] | Some c \<Rightarrow> cookie_pairs c)
          in map_option (\<lambda>b. butlast (bytes b))
               (run_all
                  ([put_bytes ''{\"headers\":{'']
                   @ header_ops hdrs True
                   @ [emit 12 ''},\"cookies\":['']
                   @ cookie_ops cookies True
                   @ [emit 3 ('']}'' @ [CHR 0x00])])
                  \<lparr>bytes = [], cap = 512\<rparr>))"

subsection \<open>What the buffer holds\<close>

fun kept_headers :: "table \<Rightarrow> (string \<times> json) list" where
  "kept_headers [] = []"
| "kept_headers ((Some k, Some v) # es) =
     (if strcaseeq k ''Cookie'' then kept_headers es else (k, JStr v) # kept_headers es)"
| "kept_headers (_ # es) = kept_headers es"

definition cookie_json :: "string \<times> string \<Rightarrow> json" where
  "cookie_json c = JObj [(''name'', JStr (fst c)), (''value'', JStr (snd c))]"

definition ctx_value :: "table option \<Rightarrow> json" where
  "ctx_value headers_in =
    (let hdrs = (case headers_in of None \<Rightarrow> [] | Some t \<Rightarrow> t)
     in JObj [(''headers'', JObj (kept_headers hdrs)),
              (''cookies'', JArr (map cookie_json
                 (case table_get hdrs ''Cookie'' of None \<Rightarrow> [] | Some c \<Rightarrow> cookie_pairs c)))])"

lemma ctx_keys [key_quotes]:
  "quote_full ''headers'' = ''\"headers\"''" "quote_full ''cookies'' = ''\"cookies\"''"
  "quote_full ''name'' = ''\"name\"''" "quote_full ''value'' = ''\"value\"''"
  by code_simp+

definition sep_text :: "bool \<Rightarrow> string list \<Rightarrow> string" where
  "sep_text first xs = (if first then commas xs else concat (map (\<lambda>y. '','' @ y) xs))"

lemma sep_text_Nil [simp]: "sep_text first [] = []"
  by (simp add: sep_text_def)

lemma sep_text_Cons: "sep_text first (x # xs) = (if first then [] else '','') @ x @ sep_text False xs"
proof -
  have "(@) '','' = (#) CHR '',''" by auto
  then show ?thesis by (simp add: sep_text_def commas_Cons)
qed

lemma quote_full_split: "quote_full s = ''\"'' @ concat (map escape_byte s) @ ''\"''"
  by (simp add: mesi_json_string_def)

lemmas emits_rules = jbuf.emits_Cons jbuf.emits_append jbuf.emits_Nil emits_emit emits_json_escape

lemma emits_comma: "jbuf.emits (run_all (if first then [] else [emit 1 '','']))  (if first then [] else '','')"
proof (cases first)
  case False
  have "jbuf.emits (run_all [emit 1 '','']) ('','' @ [])"
    by (intro emits_rules) simp
  with False show ?thesis by simp
qed (use jbuf.emits_Nil in simp)

lemma emits_header_ops:
  "jbuf.emits (run_all (header_ops hdrs first))
     (sep_text first (map (\<lambda>(k, v). quote_full k @ '':'' @ render quote_full v) (kept_headers hdrs)))"
proof (induction hdrs arbitrary: first rule: kept_headers.induct)
  case (2 k v es)
  show ?case
  proof (cases "strcaseeq k ''Cookie''")
    case True
    with 2 show ?thesis by simp
  next
    case False
    let ?e = "\<lambda>s. concat (map escape_byte s)"
    have "jbuf.emits (run_all
        ((if first then [] else [emit 1 '','']) @
         [emit 2 ''\"'', json_escape_append k, emit 3 ''\":\"'', json_escape_append v, emit 1 ''\"''] @
         header_ops es False))
       ((if first then [] else '','') @ (''\"'' @ ?e k @ ''\":\"'' @ ?e v @ ''\"'' @ []) @
        sep_text False (map (\<lambda>(k, v). quote_full k @ '':'' @ render quote_full v) (kept_headers es)))"
      by (intro jbuf.emits_append emits_comma 2(2) [OF False] emits_rules) simp_all
    with False show ?thesis by (simp add: sep_text_Cons quote_full_split)
  qed
qed (use jbuf.emits_Nil in \<open>simp_all add: sep_text_def\<close>)

lemma cookie_text: "render quote_full (cookie_json (n, v)) =
    ''{\"name\":\"'' @ concat (map escape_byte n) @ ''\",\"value\":\"'' @ concat (map escape_byte v) @ ''\"}''"
  by (simp add: cookie_json_def key_quotes quote_full_split [of n] quote_full_split [of v])

lemma emits_cookie_ops:
  "jbuf.emits (run_all (cookie_ops cs first)) (sep_text first (map (\<lambda>c. render quote_full (cookie_json c)) cs))"
proof (induction cs arbitrary: first)
  case (Cons c cs)
  obtain n v where c: "c = (n, v)" by (cases c)
  let ?e = "\<lambda>s. concat (map escape_byte s)"
  have "jbuf.emits (run_all
      ((if first then [] else [emit 1 '','']) @
       [emit 20 ''{\"name\":\"'', json_escape_append n, emit 11 ''\",\"value\":\"'',
        json_escape_append v, emit 3 ''\"}''] @ cookie_ops cs False))
     ((if first then [] else '','') @ (''{\"name\":\"'' @ ?e n @ ''\",\"value\":\"'' @ ?e v @ ''\"}'' @ []) @
      sep_text False (map (\<lambda>c. render quote_full (cookie_json c)) cs))"
    by (intro jbuf.emits_append emits_comma Cons.IH emits_rules) simp_all
  then show ?case
    by (cases first) (simp_all add: c sep_text_Cons cookie_text)
qed (use jbuf.emits_Nil in simp)

text \<open>
  The context is always produced: no write leaves the buffer (the fixed reservations 2, 3, 11,
  12 and 20 suffice) and \<open>json_grow\<close> returns; and it is the rendering of \<open>ctx_value\<close>.
\<close>

lemma build_ctx_exact:
  assumes "template_wants_ctx (cache_key_template conf)"
  shows "build_request_ctx_json headers_in conf = Some (render quote_full (ctx_value headers_in))"
proof -
  let ?hdrs = "case headers_in of None \<Rightarrow> [] | Some t \<Rightarrow> t"
  let ?cookies = "case table_get ?hdrs ''Cookie'' of None \<Rightarrow> [] | Some c \<Rightarrow> cookie_pairs c"
  let ?h = "sep_text True (map (\<lambda>(k, v). quote_full k @ '':'' @ render quote_full v) (kept_headers ?hdrs))"
  let ?c = "sep_text True (map (\<lambda>c. render quote_full (cookie_json c)) ?cookies)"
  let ?b = "\<lparr>bytes = ''{\"headers\":{'', cap = 512\<rparr>"
  have e: "jbuf.emits (run_all (header_ops ?hdrs True @ [emit 12 ''},\"cookies\":[''] @ cookie_ops ?cookies True
      @ [emit 3 ('']}'' @ [CHR 0x00])])) (?h @ (''},\"cookies\":['' @ []) @ ?c @ (('']}'' @ [CHR 0x00]) @ []))"
    by (intro jbuf.emits_append emits_header_ops emits_cookie_ops emits_rules) simp_all
  have "0 < cap ?b \<and> length (bytes ?b) \<le> cap ?b" by simp
  from jbuf.emits_result [OF e this] obtain b where b: "run_all (header_ops ?hdrs True @ [emit 12 ''},\"cookies\":[''] @ cookie_ops ?cookies True
      @ [emit 3 ('']}'' @ [CHR 0x00])]) ?b = Some b"
    "bytes b = bytes ?b @ ?h @ (''},\"cookies\":['' @ []) @ ?c @ (('']}'' @ [CHR 0x00]) @ [])"
    by blast
  have "put_bytes ''{\"headers\":{'' \<lparr>bytes = [], cap = 512\<rparr> = Some ?b"
    by (subst put_bytes_fits) simp_all
  then have "run_all ([put_bytes ''{\"headers\":{''] @ header_ops ?hdrs True @ [emit 12 ''},\"cookies\":['']
      @ cookie_ops ?cookies True @ [emit 3 ('']}'' @ [CHR 0x00])]) \<lparr>bytes = [], cap = 512\<rparr> = Some b"
    using b(1) by (simp only: append_Cons append_Nil run_all.simps bind.bind_lunit)
  moreover have "butlast (bytes b) = render quote_full (ctx_value headers_in)"
    by (simp add: b(2) ctx_value_def Let_def key_quotes sep_text_def butlast_append comp_def)
  ultimately show ?thesis
    using assms by (auto simp: build_request_ctx_json_def template_wants_ctx_def Let_def)
qed

lemma build_ctx_none:
  assumes "\<not> template_wants_ctx (cache_key_template conf)"
  shows "build_request_ctx_json headers_in conf = Some []"
  using assms by (auto simp: build_request_ctx_json_def template_wants_ctx_def)

subsection \<open>Properties\<close>

text \<open>C13: building the request context always ends and never writes outside its buffer,
  whatever the headers hold, and when the template asks for headers or cookies the text is JSON
  that reads back to the kept headers, in order, and the cookies.\<close>

theorem request_ctx_safe_and_exact:
  "\<exists>text. build_request_ctx_json headers_in conf = Some text
     \<and> (if template_wants_ctx (cache_key_template conf)
        then json_read text = Some (ctx_value headers_in) else text = [])"
proof (cases "template_wants_ctx (cache_key_template conf)")
  case True
  with build_ctx_exact [OF True, of headers_in] show ?thesis
    by (simp add: apq.json_read_render del: render.simps)
next
  case False
  with build_ctx_none [OF False, of headers_in] show ?thesis by simp
qed

end
