(* ===== verification/Apache_Header.thy ===== *)
theory Apache_Header
  imports Apache_Ctx
begin

text \<open>
  The checks on the response: \<open>mesi_header_signals_esi\<close> (the \<open>Edge-control\<close> list),
  \<open>is_html_content\<close>, and \<open>build_base_url\<close>.  The Go counterpart of the first,
  \<open>mesi.IsEsiResponse\<close>, is modelled on its ASCII behaviour and shown to agree.
\<close>

subsection \<open>Edge-control\<close>

definition mesi_is_header_space :: "char \<Rightarrow> bool" where
  "mesi_is_header_space c \<longleftrightarrow>
     c = CHR '' '' \<or> c = CHR 0x09 \<or> c = CHR 0x0D \<or> c = CHR 0x0A \<or> c = CHR 0x0B \<or> c = CHR 0x0C"

text \<open>One turn of the \<open>for (;;)\<close> loop per list element.\<close>

function signals_loop :: "string \<Rightarrow> bool" where
  "signals_loop p =
    (let start = dropWhile mesi_is_header_space p;
         p' = dropWhile (\<lambda>c. c \<noteq> CHR '','') start;
         elem = rev (dropWhile mesi_is_header_space (rev (takeWhile (\<lambda>c. c \<noteq> CHR '','') start)))
     in if length elem = length ''dca=esi'' \<and> strncaseeq elem ''dca=esi'' (length ''dca=esi'') then True
        else if p' = [] then False
        else signals_loop (tl p'))"
  by pat_completeness auto
termination
proof (relation "measure length")
  fix p start p' elem :: string
  assume "start = dropWhile mesi_is_header_space p" "p' = dropWhile (\<lambda>c. c \<noteq> CHR '','') start" "p' \<noteq> []"
  then have "length p' \<le> length start" "length start \<le> length p" "0 < length p'"
    by (auto simp: length_dropWhile_le)
  then show "(tl p', p) \<in> measure length" by (cases p') auto
qed simp

declare signals_loop.simps [simp del]

definition mesi_header_signals_esi :: "string option \<Rightarrow> bool" where
  "mesi_header_signals_esi value = (case value of None \<Rightarrow> False | Some v \<Rightarrow> signals_loop v)"

text \<open>
  \<open>mesi.IsEsiResponse\<close>: \<open>strings.ToLower\<close>, \<open>strings.Split\<close> on commas and
  \<open>strings.TrimSpace\<close>, for ASCII values (beyond ASCII Go lowers and trims code points).
\<close>

fun split_commas :: "string \<Rightarrow> string list" where
  "split_commas [] = [[]]"
| "split_commas (c # cs) =
     (if c = CHR '','' then [] # split_commas cs
      else case split_commas cs of [] \<Rightarrow> [[c]] | x # xs \<Rightarrow> (c # x) # xs)"

definition trim_space :: "string \<Rightarrow> string" where
  "trim_space s = rev (dropWhile mesi_is_header_space (rev (dropWhile mesi_is_header_space s)))"

definition is_esi_response :: "string \<Rightarrow> bool" where
  "is_esi_response header = (\<exists>part \<in> set (split_commas (map lower header)). trim_space part = ''dca=esi'')"

lemma lower_space: "mesi_is_header_space (lower c) = mesi_is_header_space c"
proof -
  have "byte (lower c) = (if 65 \<le> byte c \<and> byte c \<le> 90 then byte c + 32 else byte c)"
    by (simp add: lower_def)
  moreover have "mesi_is_header_space d \<longleftrightarrow> byte d \<in> {32, 9, 13, 10, 11, 12}" for d
    unfolding mesi_is_header_space_def
    by (auto simp flip: of_char_eq_iff [where ?'a = nat])
  ultimately show ?thesis by auto
qed

lemma lower_comma: "lower c = CHR '','' \<longleftrightarrow> c = CHR '',''"
proof -
  have "byte (lower c) = (if 65 \<le> byte c \<and> byte c \<le> 90 then byte c + 32 else byte c)"
    by (simp add: lower_def)
  moreover have "d = CHR '','' \<longleftrightarrow> byte d = 44" for d
    by (auto simp flip: of_char_eq_iff [where ?'a = nat])
  ultimately show ?thesis by auto
qed

lemma trim_space_lower: "trim_space (map lower s) = map lower (trim_space s)"
  by (simp add: trim_space_def dropWhile_map rev_map comp_def lower_space)

lemma split_commas_lower: "split_commas (map lower s) = map (map lower) (split_commas s)"
  by (induction s) (auto simp: lower_comma split: list.split)

lemma split_commas_span:
  "split_commas s =
     takeWhile (\<lambda>c. c \<noteq> CHR '','') s #
       (case dropWhile (\<lambda>c. c \<noteq> CHR '','') s of [] \<Rightarrow> [] | x # xs \<Rightarrow> split_commas xs)"
  by (induction s) auto

lemma space_not_comma: "mesi_is_header_space c \<Longrightarrow> c \<noteq> CHR '',''"
  by (auto simp: mesi_is_header_space_def)

lemma skip_space_take:
  "takeWhile (\<lambda>c. c \<noteq> CHR '','') (dropWhile mesi_is_header_space s)
     = dropWhile mesi_is_header_space (takeWhile (\<lambda>c. c \<noteq> CHR '','') s)"
  by (induction s) (auto dest: space_not_comma)

lemma skip_space_drop:
  "dropWhile (\<lambda>c. c \<noteq> CHR '','') (dropWhile mesi_is_header_space s) = dropWhile (\<lambda>c. c \<noteq> CHR '','') s"
  by (induction s) (auto dest: space_not_comma)

lemma elem_match:
  "length e = length ''dca=esi'' \<and> strncaseeq e ''dca=esi'' (length ''dca=esi'') \<longleftrightarrow> map lower e = ''dca=esi''"
proof -
  have "map lower ''dca=esi'' = ''dca=esi''" by code_simp
  then show ?thesis
    by (auto simp: strncaseeq_def strcaseeq_def dest: arg_cong [where f = length])
qed

lemma signals_loop_step:
  "signals_loop p \<longleftrightarrow>
     map lower (trim_space (takeWhile (\<lambda>c. c \<noteq> CHR '','') p)) = ''dca=esi''
     \<or> (dropWhile (\<lambda>c. c \<noteq> CHR '','') p \<noteq> [] \<and> signals_loop (tl (dropWhile (\<lambda>c. c \<noteq> CHR '','') p)))"
  unfolding signals_loop.simps [of p] Let_def elem_match skip_space_take skip_space_drop
    trim_space_def [symmetric] by meson

lemma signals_loop_split:
  "signals_loop p \<longleftrightarrow> (\<exists>part \<in> set (split_commas p). map lower (trim_space part) = ''dca=esi'')"
proof (induction p rule: length_induct)
  case (1 p)
  show ?case
  proof (cases "dropWhile (\<lambda>c. c \<noteq> CHR '','') p")
    case Nil
    then show ?thesis
      unfolding signals_loop_step [of p] split_commas_span [of p] by (simp only:) simp
  next
    case (Cons x xs)
    then have "length xs < length p"
      using length_dropWhile_le [of "\<lambda>c. c \<noteq> CHR '',''" p] by simp
    with 1 Cons show ?thesis
      unfolding signals_loop_step [of p] split_commas_span [of p] by simp
  qed
qed

lemma signals_is_esi: "signals_loop header = is_esi_response header"
  by (simp add: signals_loop_split is_esi_response_def split_commas_lower trim_space_lower)

subsection \<open>Content type and base URL\<close>

definition is_html_content :: "string option \<Rightarrow> bool" where
  "is_html_content ct =
    (case ct of
       None \<Rightarrow> False
     | Some c \<Rightarrow>
         (let c' = dropWhile is_blank c
          in if \<not> strncaseeq c' ''text/html'' 9 then False
             else length c' = 9 \<or> c' ! 9 \<in> {CHR '';'', CHR '' '', CHR 0x09, CHR 0x0D, CHR 0x0A}))"

text \<open>
  \<open>ap_http_scheme\<close>, \<open>ap_get_server_name\<close> and \<open>ap_get_server_port\<close> are the
  values httpd gives; \<open>server_hostname\<close> and \<open>server_port\<close> those of the server record.
\<close>

definition build_base_url :: "string \<Rightarrow> string option \<Rightarrow> string option \<Rightarrow> nat \<Rightarrow> nat \<Rightarrow> string" where
  "build_base_url scheme server_hostname server_name server_port req_port =
    (let host0 = (if server_hostname \<noteq> None then server_hostname else server_name);
         port = (if server_port \<noteq> 0 then server_port else req_port);
         host = (if nonempty host0 then the host0 else ''localhost'');
         default_port = (if scheme = ''https'' then 443 else 80)
     in if port \<noteq> default_port then scheme @ ''://'' @ host @ '':'' @ show_nat port @ ''/''
        else scheme @ ''://'' @ host @ ''/'')"

lemma lower_blank: "is_blank c \<Longrightarrow> lower c \<noteq> CHR ''t''"
  by (auto simp: is_blank_def lower_def)

text \<open>A response is HTML when its media type is \<open>text/html\<close>, whatever parameters follow.\<close>

lemma is_html_iff:
  "is_html_content (Some c) \<longleftrightarrow>
     (\<exists>bs t rest. c = bs @ t @ rest \<and> (\<forall>b \<in> set bs. is_blank b) \<and> strcaseeq t ''text/html'' \<and>
        (rest = [] \<or> hd rest \<in> {CHR '';'', CHR '' '', CHR 0x09, CHR 0x0D, CHR 0x0A}))"
proof
  assume h: "is_html_content (Some c)"
  define c' where "c' = dropWhile is_blank c"
  have t: "strcaseeq (take 9 c') ''text/html''"
    and d: "length c' = 9 \<or> c' ! 9 \<in> {CHR '';'', CHR '' '', CHR 0x09, CHR 0x0D, CHR 0x0A}"
    using h by (auto simp: is_html_content_def c'_def [symmetric] Let_def strncaseeq_def split: if_splits)
  have "9 \<le> length c'" using strcaseeq_length [OF t] by simp
  then have "drop 9 c' = [] \<or> hd (drop 9 c') \<in> {CHR '';'', CHR '' '', CHR 0x09, CHR 0x0D, CHR 0x0A}"
    using d by (auto simp: hd_drop_conv_nth)
  moreover have "c = takeWhile is_blank c @ take 9 c' @ drop 9 c'" by (simp add: c'_def)
  moreover have "\<forall>b \<in> set (takeWhile is_blank c). is_blank b" by (auto dest: set_takeWhileD)
  ultimately show "\<exists>bs t rest. c = bs @ t @ rest \<and> (\<forall>b \<in> set bs. is_blank b) \<and> strcaseeq t ''text/html'' \<and>
        (rest = [] \<or> hd rest \<in> {CHR '';'', CHR '' '', CHR 0x09, CHR 0x0D, CHR 0x0A})"
    using t by blast
next
  assume "\<exists>bs t rest. c = bs @ t @ rest \<and> (\<forall>b \<in> set bs. is_blank b) \<and> strcaseeq t ''text/html'' \<and>
        (rest = [] \<or> hd rest \<in> {CHR '';'', CHR '' '', CHR 0x09, CHR 0x0D, CHR 0x0A})"
  then obtain bs t rest where c: "c = bs @ t @ rest" "\<forall>b \<in> set bs. is_blank b"
    and t: "strcaseeq t ''text/html''"
    and r: "rest = [] \<or> hd rest \<in> {CHR '';'', CHR '' '', CHR 0x09, CHR 0x0D, CHR 0x0A}" by blast
  have len: "length t = 9" using strcaseeq_length [OF t] by simp
  then obtain t0 t' where t0: "t = t0 # t'" by (cases t) auto
  have "lower t0 = lower CHR ''t''" using t by (simp add: strcaseeq_def t0)
  also have "lower CHR ''t'' = CHR ''t''" by code_simp
  finally have "\<not> is_blank t0" using lower_blank by blast
  then have "dropWhile is_blank c = t @ rest"
    unfolding c(1) using c(2) by (intro dropWhile_skip) (auto simp: t0)
  moreover have "length (t @ rest) = 9 \<or> (t @ rest) ! 9 \<in> {CHR '';'', CHR '' '', CHR 0x09, CHR 0x0D, CHR 0x0A}"
    using r len by (cases rest) (auto simp: nth_append)
  ultimately show "is_html_content (Some c)"
    using t len by (simp add: is_html_content_def strncaseeq_def)
qed

subsection \<open>Properties\<close>

text \<open>\<open>mesi_header_signals_esi\<close> decides exactly as the Go core's
  \<open>IsEsiResponse\<close> on a header of ASCII white space and letters: some comma-separated element, trimmed and in
  lower case, is \<open>dca=esi\<close>; without the header it answers no.\<close>

theorem header_signal_is_go:
  "mesi_header_signals_esi v \<longleftrightarrow> (\<exists>h. v = Some h \<and> is_esi_response h)"
  by (simp add: mesi_header_signals_esi_def signals_is_esi split: option.split)

text \<open>A response counts as HTML exactly when its content type is, after blanks, the media
  type \<open>text/html\<close> in any case, followed by nothing or by a parameter or white space.\<close>

theorem html_content_exact:
  "is_html_content ct \<longleftrightarrow>
     (\<exists>bs t rest. ct = Some (bs @ t @ rest) \<and> (\<forall>b \<in> set bs. is_blank b) \<and> strcaseeq t ''text/html'' \<and>
        (rest = [] \<or> hd rest \<in> {CHR '';'', CHR '' '', CHR 0x09, CHR 0x0D, CHR 0x0A}))"
proof (cases ct)
  case None
  then show ?thesis by (simp add: is_html_content_def)
next
  case (Some c)
  then show ?thesis unfolding Some is_html_iff by auto
qed

theorem html_content_exact_witness:
  "is_html_content (Some '' Text/HTML; charset=utf-8'') \<longleftrightarrow>
     (\<exists>bs t rest. Some '' Text/HTML; charset=utf-8'' = Some (bs @ t @ rest) \<and> (\<forall>b \<in> set bs. is_blank b)
        \<and> strcaseeq t ''text/html'' \<and> (rest = [] \<or> hd rest \<in> {CHR '';'', CHR '' '', CHR 0x09, CHR 0x0D, CHR 0x0A}))"
  by (rule html_content_exact)

end
