(* ===== verification/Go_Fetch.thy ===== *)
theory Go_Fetch
  imports Go_Policy Apache_Header
begin

text \<open>
  \<open>singleFetchUrlWithContext\<close> of \<open>mesi/fetch.go\<close>: one fetch with its redirects, its cache look-ups and
  the dials it makes.  What the world does during the fetch is a parameter: name resolution, which
  may change from hop to hop, the servers, the cache, and whether a slot was free before the
  deadline.  A connection that a transport reuses was dialled by it and counts as dialled again.
  Go errors are values of \<open>fetch_error\<close>.
\<close>

subsection \<open>The world of a fetch\<close>

text \<open>A response; \<open>rs_breaks\<close>: reading the body fails after \<open>rs_body\<close>.\<close>

record response =
  rs_status :: int
  rs_location :: string
  rs_edge_control :: string
  rs_body :: string
  rs_breaks :: bool

record fetch_world =
  fw_slot :: bool
  fw_lock :: bool
  fw_get :: "string \<Rightarrow> string option"
  fw_get_again :: "string \<Rightarrow> string option"
  fw_dns :: "nat \<Rightarrow> string \<Rightarrow> ip list"
  fw_answer :: "nat \<Rightarrow> url \<Rightarrow> ip list \<Rightarrow> response option"

text \<open>A hop: the URL of the request and the addresses dialled for it.\<close>

type_synonym hop = "url \<times> ip list"

subsection \<open>Hops\<close>

definition is_redirect_status :: "int \<Rightarrow> bool" where
  "is_redirect_status s \<longleftrightarrow> s = 301 \<or> s = 302 \<or> s = 303 \<or> s = 307 \<or> s = 308"

definition http_scheme :: "string \<Rightarrow> bool" where
  "http_scheme s \<longleftrightarrow> s = ''http'' \<or> s = ''https''"

definition validate_fetch_url :: "go_net \<Rightarrow> string \<Rightarrow> esi_config \<Rightarrow> fetch_error option" where
  "validate_fetch_url net raw_url config =
    (case url_parse net raw_url of
       None \<Rightarrow> Some InvalidUrl
     | Some parsed \<Rightarrow>
         if u_scheme parsed \<noteq> ''http'' \<and> u_scheme parsed \<noteq> ''https'' then Some InvalidUrl
         else is_url_safe net raw_url config)"

text \<open>\<open>http.Client.Do\<close> on a client that follows no redirect.\<close>

definition client_do :: "fetch_world \<Rightarrow> nat \<Rightarrow> fetch_client \<Rightarrow> url \<Rightarrow> ip list \<times> response option" where
  "client_do world hop client req =
    (let dialled = filter (client_dials client) (fw_dns world hop (u_host req))
     in (dialled, if dialled = [] then None else fw_answer world hop req dialled))"

definition max_redirects :: nat where "max_redirects = 10"

text \<open>The loop over the hops; \<open>left\<close> is \<open>max_redirects - hop\<close>.\<close>

fun fetch_hops ::
  "go_net \<Rightarrow> esi_config \<Rightarrow> fetch_world \<Rightarrow> nat \<Rightarrow> nat \<Rightarrow> string \<Rightarrow> hop list \<times> (fetch_error + response)" where
  "fetch_hops net config world left hop hop_url =
    (case url_parse net hop_url of
       None \<Rightarrow> ([], Inl InvalidUrl)
     | Some req \<Rightarrow>
         (case client_do world hop (fetch_client_for_url net hop_url config) req of
            (dialled, None) \<Rightarrow> ([(req, dialled)], Inl UpstreamStatus)
          | (dialled, Some content) \<Rightarrow>
              if \<not> is_redirect_status (rs_status content) \<or> rs_location content = []
              then ([(req, dialled)], Inr content)
              else
                (case left of
                   0 \<Rightarrow> ([(req, dialled)], Inl UpstreamStatus)
                 | Suc left' \<Rightarrow>
                     (case url_parse net (rs_location content) of
                        None \<Rightarrow> ([(req, dialled)], Inl UpstreamStatus)
                      | Some ref \<Rightarrow>
                          (let next_url = u_text (resolve_reference net req ref)
                           in case validate_fetch_url net next_url config of
                                Some e \<Rightarrow> ([(req, dialled)], Inl e)
                              | None \<Rightarrow>
                                  (case fetch_hops net config world left' (Suc hop) next_url of
                                     (hops, r) \<Rightarrow> ((req, dialled) # hops, r)))))))"

declare fetch_hops.simps [simp del]

subsection \<open>One fetch\<close>

definition validate_max_size :: "int \<Rightarrow> bool" where
  "validate_max_size n \<longleftrightarrow> n \<le> 9223372036854775806"

definition default_cache_key :: "string \<Rightarrow> string" where
  "default_cache_key u = ''mesi:'' @ u"

definition trim_right_slash :: "string \<Rightarrow> string" where
  "trim_right_slash s = rev (dropWhile (\<lambda>c. c = CHR ''/'') (rev s))"

definition trim_left_slash :: "string \<Rightarrow> string" where
  "trim_left_slash s = dropWhile (\<lambda>c. c = CHR ''/'') s"

text \<open>Reading the body under the limit.\<close>

definition read_body :: "int \<Rightarrow> response \<Rightarrow> fetch_error + string" where
  "read_body limit content =
    (if limit > 0 then
       (if int (length (rs_body content)) > limit then Inl BodyTooLarge
        else if rs_breaks content then Inl UpstreamStatus
        else Inr (rs_body content))
     else if rs_breaks content then Inl UpstreamStatus
     else Inr (rs_body content))"

text \<open>
  The outcome of a fetch: the hops it made, what it put into the cache, and the error or the content
  with the mark of the header.
\<close>

record fetched =
  fd_hops :: "hop list"
  fd_stored :: "(string \<times> string) option"
  fd_result :: "fetch_error + string \<times> bool"

definition fetch_fails :: "fetch_error \<Rightarrow> fetched" where
  "fetch_fails e = \<lparr> fd_hops = [], fd_stored = None, fd_result = Inl e \<rparr>"

definition from_cache :: "string \<Rightarrow> fetched" where
  "from_cache val = \<lparr> fd_hops = [], fd_stored = None, fd_result = Inr (val, False) \<rparr>"

text \<open>After the cache: the hops, the body, the status, and storing.\<close>

definition fetch_upstream :: "go_net \<Rightarrow> esi_config \<Rightarrow> fetch_world \<Rightarrow> string \<Rightarrow> string \<Rightarrow> fetched" where
  "fetch_upstream net config world cache_key url_to_fetch =
    (case fetch_hops net config world max_redirects 0 url_to_fetch of
       (hops, Inl e) \<Rightarrow> \<lparr> fd_hops = hops, fd_stored = None, fd_result = Inl e \<rparr>
     | (hops, Inr content) \<Rightarrow>
         (case read_body (ec_max_response_size config) content of
            Inl e \<Rightarrow> \<lparr> fd_hops = hops, fd_stored = None, fd_result = Inl e \<rparr>
          | Inr body \<Rightarrow>
              if rs_status content \<ge> 400
              then \<lparr> fd_hops = hops, fd_stored = None, fd_result = Inl UpstreamStatus \<rparr>
              else \<lparr> fd_hops = hops,
                     fd_stored = (if ec_cache config \<noteq> None \<and> cache_key \<noteq> [] then Some (cache_key, body) else None),
                     fd_result = Inr (body, is_esi_response (rs_edge_control content)) \<rparr>))"

text \<open>The key function of the configuration, when it has one, is \<open>key_func\<close>.\<close>

definition fetch_key :: "(string \<Rightarrow> string) \<Rightarrow> esi_config \<Rightarrow> string \<Rightarrow> string" where
  "fetch_key key_func config u =
    (case ec_cache config of
       None \<Rightarrow> []
     | Some _ \<Rightarrow>
         (case ec_cache_key config of None \<Rightarrow> default_cache_key u | Some _ \<Rightarrow> key_func u)
         @ security_policy_fingerprint config)"

definition fetch_cached ::
  "go_net \<Rightarrow> (string \<Rightarrow> string) \<Rightarrow> esi_config \<Rightarrow> fetch_world \<Rightarrow> string \<Rightarrow> fetched" where
  "fetch_cached net key_func config world url_to_fetch =
    (let cache_key = fetch_key key_func config url_to_fetch
     in if cache_key = [] then fetch_upstream net config world cache_key url_to_fetch
        else case fw_get world cache_key of
               Some val \<Rightarrow> from_cache val
             | None \<Rightarrow>
                 if \<not> fw_lock world then fetch_fails TimeBudget
                 else case fw_get_again world cache_key of
                        Some val \<Rightarrow> from_cache val
                      | None \<Rightarrow> fetch_upstream net config world cache_key url_to_fetch)"

definition fetch_checked ::
  "go_net \<Rightarrow> (string \<Rightarrow> string) \<Rightarrow> esi_config \<Rightarrow> fetch_world \<Rightarrow> string \<Rightarrow> fetched" where
  "fetch_checked net key_func config world url_to_fetch =
    (case validate_fetch_url net url_to_fetch config of
       Some e \<Rightarrow> fetch_fails e
     | None \<Rightarrow> fetch_cached net key_func config world url_to_fetch)"

definition single_fetch_url ::
  "go_net \<Rightarrow> (string \<Rightarrow> string) \<Rightarrow> esi_config \<Rightarrow> fetch_world \<Rightarrow> string \<Rightarrow> fetched" where
  "single_fetch_url net key_func config world requested_url =
    (if ec_timeout config \<le> 0 then fetch_fails TimeBudget
     else if \<not> validate_max_size (ec_max_response_size config) then fetch_fails InvalidSize
     else if ec_max_concurrent_requests config > 0 \<and> \<not> fw_slot world then fetch_fails TimeBudget
     else
       (case url_parse net requested_url of
          None \<Rightarrow> fetch_fails InvalidUrl
        | Some parsed \<Rightarrow>
            if u_scheme parsed \<noteq> [] \<and> u_scheme parsed \<noteq> ''http'' \<and> u_scheme parsed \<noteq> ''https''
            then fetch_fails InvalidUrl
            else
              (case is_url_safe net requested_url config of
                 Some e \<Rightarrow> fetch_fails e
               | None \<Rightarrow>
                   if u_scheme parsed = [] \<and> ec_default_url config = [] then fetch_fails InvalidUrl
                   else
                     (let url_to_fetch =
                            (if u_scheme parsed = []
                             then trim_right_slash (ec_default_url config) @ ''/'' @ trim_left_slash requested_url
                             else requested_url)
                      in fetch_checked net key_func config world url_to_fetch))))"

subsection \<open>Every hop is within the policy\<close>

text \<open>What a hop may do: its URL, its host, and the addresses dialled.\<close>

definition private_dial_ok :: "go_net \<Rightarrow> esi_config \<Rightarrow> string \<Rightarrow> bool" where
  "private_dial_ok net config host \<longleftrightarrow>
    (case ec_http_client config of
       Some (bp, t) \<Rightarrow> \<not> bp
     | None \<Rightarrow> \<not> ec_block_private_ips config \<or> ec_allow_private config \<and> host_in_allowed_hosts net host config)"

definition hop_within :: "go_net \<Rightarrow> esi_config \<Rightarrow> hop \<Rightarrow> bool" where
  "hop_within net config = (\<lambda>(req, dialled).
     http_scheme (u_scheme req) \<and> u_host req \<noteq> []
     \<and> (ec_allowed_hosts config = [] \<or> host_in_allowed_hosts net (u_host req) config)
     \<and> (list_ex is_private_or_reserved_ip dialled \<longrightarrow> private_dial_ok net config (u_host req)))"

lemma validated:
  assumes "validate_fetch_url net u config = None" and "url_parse net u = Some req"
  shows "http_scheme (u_scheme req)" "u_host req \<noteq> []"
    "ec_allowed_hosts config = [] \<or> host_in_allowed_hosts net (u_host req) config"
  using assms
  by (auto simp: validate_fetch_url_def is_url_safe_def http_scheme_def host_in_allowed_hosts_def Let_def
      split: if_splits)

lemma dialled_within:
  assumes "url_parse net u = Some req" and "ip \<in> set (fst (client_do world hop (fetch_client_for_url net u config) req))"
    and "is_private_or_reserved_ip ip"
  shows "private_dial_ok net config (u_host req)"
  using assms
  by (auto simp: client_do_def fetch_client_for_url_def private_dial_ok_def safe_dialer_def Let_def
      split: option.splits if_splits)

lemma hop_checked:
  assumes "validate_fetch_url net u config = None" and "url_parse net u = Some req"
    and "client_do world hop (fetch_client_for_url net u config) req = (dialled, r)"
  shows "hop_within net config (req, dialled)"
  using validated [OF assms(1,2)] dialled_within [OF assms(2), of _ world hop config] assms(3)
  by (auto simp: hop_within_def list_ex_iff)

lemma hops_step:
  assumes "fetch_hops net config world left hop u = (hops, r)" and "url_parse net u = Some req"
    and "client_do world hop (fetch_client_for_url net u config) req = (dialled, o1)"
  shows "hops = [(req, dialled)]
    \<or> (\<exists>left' v hs. left = Suc left' \<and> validate_fetch_url net v config = None
         \<and> fetch_hops net config world left' (Suc hop) v = (hs, r) \<and> hops = (req, dialled) # hs)"
proof (cases o1)
  case None
  with assms show ?thesis by (simp add: fetch_hops.simps)
next
  case (Some content)
  note eq = assms(1) [unfolded fetch_hops.simps [of _ _ _ left] assms(2,3) Some option.case prod.case]
  show ?thesis
  proof (cases left)
    case 0
    with eq show ?thesis by (simp split: if_splits)
  next
    case (Suc k)
    with eq show ?thesis by (fastforce simp: Let_def split: if_splits option.splits prod.splits)
  qed
qed

lemma hops_within:
  "validate_fetch_url net u config = None \<Longrightarrow> fetch_hops net config world left hop u = (hops, r) \<Longrightarrow>
     list_all (hop_within net config) hops \<and> length hops \<le> Suc left"
proof (induction left arbitrary: hop u hops)
  case (0 hop u hops)
  obtain req where p: "url_parse net u = Some req" using 0(1) by (auto simp: validate_fetch_url_def split: option.splits)
  obtain dialled o1 where d: "client_do world hop (fetch_client_for_url net u config) req = (dialled, o1)" by fastforce
  show ?case using hops_step [OF 0(2) p d] hop_checked [OF 0(1) p d] by auto
next
  case (Suc left hop u hops)
  obtain req where p: "url_parse net u = Some req"
    using Suc.prems(1) by (auto simp: validate_fetch_url_def split: option.splits)
  obtain dialled o1 where d: "client_do world hop (fetch_client_for_url net u config) req = (dialled, o1)" by fastforce
  from hops_step [OF Suc.prems(2) p d] show ?case
    using hop_checked [OF Suc.prems(1) p d] Suc.IH by fastforce
qed

text \<open>What a fetch may do.\<close>

lemma upstream_hops:
  "fd_hops (fetch_upstream net config world k u) = fst (fetch_hops net config world max_redirects 0 u)"
  by (auto simp: fetch_upstream_def split: prod.split sum.split)

lemma cached_hops:
  "fd_hops (fetch_cached net kf config world u) = []
   \<or> fd_hops (fetch_cached net kf config world u) = fst (fetch_hops net config world max_redirects 0 u)"
  by (auto simp: fetch_cached_def Let_def from_cache_def fetch_fails_def upstream_hops split: option.split)

lemma fails_hops: "fd_hops (fetch_fails e) = []"
  by (simp add: fetch_fails_def)

lemma single_fetch_shape:
  "(\<exists>e. single_fetch_url net kf config world u = fetch_fails e)
   \<or> (\<exists>v. validate_fetch_url net v config = None
        \<and> single_fetch_url net kf config world u = fetch_cached net kf config world v)"
proof -
  have "(\<exists>e. single_fetch_url net kf config world u = fetch_fails e)
      \<or> (\<exists>v. single_fetch_url net kf config world u = fetch_checked net kf config world v)"
    unfolding single_fetch_url_def Let_def by (auto split: option.split)
  moreover have "(\<exists>e. fetch_checked net kf config world v = fetch_fails e)
      \<or> validate_fetch_url net v config = None
         \<and> fetch_checked net kf config world v = fetch_cached net kf config world v" for v
    by (cases "validate_fetch_url net v config") (auto simp: fetch_checked_def)
  ultimately show ?thesis by metis
qed

lemma fetch_hops_within:
  "list_all (hop_within net config) (fd_hops (single_fetch_url net kf config world u))
   \<and> length (fd_hops (single_fetch_url net kf config world u)) \<le> 11"
proof -
  consider "fd_hops (single_fetch_url net kf config world u) = []"
    | v where "validate_fetch_url net v config = None"
        "fd_hops (single_fetch_url net kf config world u) = fst (fetch_hops net config world max_redirects 0 v)"
    using single_fetch_shape [of net kf config world u] cached_hops by (metis fails_hops)
  then show ?thesis
  proof cases
    case (2 v)
    then show ?thesis
      using hops_within [OF 2(1), of world max_redirects 0] by (cases "fetch_hops net config world max_redirects 0 v")
        (simp add: max_redirects_def)
  qed simp
qed

text \<open>What a result is: an error stores nothing; content is either from the cache or from the last hop.\<close>

definition fetch_outcome :: "esi_config \<Rightarrow> fetch_world \<Rightarrow> fetched \<Rightarrow> bool" where
  "fetch_outcome config world f \<longleftrightarrow>
    (case fd_result f of
       Inl e \<Rightarrow> fd_stored f = None
     | Inr (body, esi) \<Rightarrow>
         fd_hops f = [] \<and> fd_stored f = None \<and> \<not> esi \<and> ec_cache config \<noteq> None
           \<and> (\<exists>key. fw_get world (key @ security_policy_fingerprint config) = Some body
                 \<or> fw_get_again world (key @ security_policy_fingerprint config) = Some body)
         \<or> fd_hops f \<noteq> [] \<and> (ec_max_response_size config > 0 \<longrightarrow> int (length body) \<le> ec_max_response_size config)
           \<and> (\<forall>k v. fd_stored f = Some (k, v) \<longrightarrow> v = body))"

lemma fetch_hops_some: "fetch_hops net config world left hop u = (hops, Inr content) \<Longrightarrow> hops \<noteq> []"
  by (subst (asm) fetch_hops.simps)
    (auto simp: Let_def split: option.splits prod.splits if_splits nat.splits)

lemma read_body_bounded:
  "read_body limit content = Inr body \<Longrightarrow> limit > 0 \<Longrightarrow> int (length body) \<le> limit"
  by (auto simp: read_body_def split: if_splits)

lemma upstream_outcome: "fetch_outcome config world (fetch_upstream net config world k u)"
proof -
  obtain hops r where h: "fetch_hops net config world max_redirects 0 u = (hops, r)" by fastforce
  show ?thesis
  proof (cases r)
    case (Inl e)
    then show ?thesis by (simp add: fetch_upstream_def h fetch_outcome_def)
  next
    case (Inr content)
    with h have "hops \<noteq> []" by (simp add: fetch_hops_some)
    then show ?thesis using read_body_bounded
      by (cases "read_body (ec_max_response_size config) content")
        (simp_all add: fetch_upstream_def h Inr fetch_outcome_def)
  qed
qed

lemma fails_outcome: "fetch_outcome config world (fetch_fails e)"
  by (simp add: fetch_outcome_def fetch_fails_def)

lemma cached_outcome: "fetch_outcome config world (fetch_cached net kf config world u)"
proof (cases "ec_cache config")
  case None
  then show ?thesis by (simp add: fetch_cached_def fetch_key_def upstream_outcome)
next
  case (Some c)
  then obtain k where k: "fetch_key kf config u = k @ security_policy_fingerprint config"
    by (simp add: fetch_key_def)
  have "fetch_outcome config world (from_cache v)"
    if "fw_get world (k @ security_policy_fingerprint config) = Some v
      \<or> fw_get_again world (k @ security_policy_fingerprint config) = Some v" for v
    using that Some by (auto simp: fetch_outcome_def from_cache_def)
  then show ?thesis
    unfolding fetch_cached_def Let_def k
    by (simp add: upstream_outcome fails_outcome split: option.split)
qed

lemma single_outcome: "fetch_outcome config world (single_fetch_url net kf config world u)"
  using single_fetch_shape [of net kf config world u] fails_outcome cached_outcome by metis

text \<open>What a fetch stores, it stores under a key that ends with its fingerprint.\<close>

lemma upstream_stored:
  "fd_stored (fetch_upstream net config world k u) = Some (k', v) \<Longrightarrow> k' = k \<and> ec_cache config \<noteq> None"
  by (simp add: fetch_upstream_def split: prod.splits sum.splits if_splits)

lemma not_stored: "fd_stored (fetch_fails e) = None" "fd_stored (from_cache x) = None"
  by (simp_all add: fetch_fails_def from_cache_def)

lemma cached_stored:
  assumes "fd_stored (fetch_cached net kf config world u) = Some (k, v)"
  shows "k = fetch_key kf config u \<and> ec_cache config \<noteq> None"
proof -
  have "fd_stored (fetch_upstream net config world (fetch_key kf config u) u) = Some (k, v)"
    using assms unfolding fetch_cached_def Let_def by (simp add: not_stored split: option.splits if_splits)
  from upstream_stored [OF this] show ?thesis .
qed

lemma stored_key:
  assumes "fd_stored (single_fetch_url net kf config world u) = Some (k, v)"
  shows "\<exists>key. k = key @ security_policy_fingerprint config"
proof -
  obtain w where "fd_stored (fetch_cached net kf config world w) = Some (k, v)"
    using single_fetch_shape [of net kf config world u] assms not_stored(1) by (metis option.distinct(1))
  from cached_stored [OF this] show ?thesis by (auto simp: fetch_key_def)
qed

subsection \<open>The fetch as a whole\<close>

text \<open>No fetch leaves the policy of its configuration, however the servers redirect it and
  however name resolution changes between the hops: every request goes to an http or https URL
  with a host that the list of allowed hosts admits (an empty list admits all), and a private or
  reserved address is dialled only when blocking is off, when the host is allowed and the bypass
  for allowed hosts is on, or when the client of the configuration does not block; a fetch makes at
  most eleven requests.\<close>

theorem fetch_within_policy:
  assumes "(req, dialled) \<in> set (fd_hops (single_fetch_url net key_func config world u))"
  shows "http_scheme (u_scheme req) \<and> u_host req \<noteq> []
    \<and> (ec_allowed_hosts config = [] \<or> host_in_allowed_hosts net (u_host req) config)
    \<and> (list_ex is_private_or_reserved_ip dialled \<longrightarrow> private_dial_ok net config (u_host req))
    \<and> length (fd_hops (single_fetch_url net key_func config world u)) \<le> 11"
  using assms fetch_hops_within [of net config key_func world u] by (auto simp: list_all_iff hop_within_def)

text \<open>A server that redirects \<open>/a\<close> to \<open>/b\<close> on a host with a private and a public address.\<close>

definition two_hop_world :: "string \<Rightarrow> fetch_world" where
  "two_hop_world next_url =
    \<lparr> fw_slot = True, fw_lock = True, fw_get = (\<lambda>k. None), fw_get_again = (\<lambda>k. None),
      fw_dns = (\<lambda>hop host. [[10, 0, 0, 1], [93, 184, 216, 34]]),
      fw_answer = (\<lambda>hop req ips. Some
        \<lparr> rs_status = (if hop = 0 then 302 else 200), rs_location = (if hop = 0 then next_url else []),
          rs_edge_control = [], rs_body = ''ok'', rs_breaks = False \<rparr>) \<rparr>"

lemma two_hop_fetch:
  "fd_hops (single_fetch_url sample_net id (policy_config [''b.com''] True False) (two_hop_world ''http://b.com/b'')
      ''http://www.b.com/a'')
    = [(\<lparr>u_scheme = ''http'', u_host = ''www.b.com'', u_text = ''http://www.b.com/a''\<rparr>, [[93, 184, 216, 34]]),
       (\<lparr>u_scheme = ''http'', u_host = ''b.com'', u_text = ''http://b.com/b''\<rparr>, [[93, 184, 216, 34]])]"
  by code_simp

theorem fetch_within_policy_witness:
  "length (fd_hops (single_fetch_url sample_net id (policy_config [''b.com''] True False)
     (two_hop_world ''http://b.com/b'') ''http://www.b.com/a'')) \<le> 11"
proof -
  have "(\<lparr>u_scheme = ''http'', u_host = ''b.com'', u_text = ''http://b.com/b''\<rparr>, [[93, 184, 216, 34]])
      \<in> set (fd_hops (single_fetch_url sample_net id (policy_config [''b.com''] True False)
           (two_hop_world ''http://b.com/b'') ''http://www.b.com/a''))"
    unfolding two_hop_fetch by simp
  from fetch_within_policy [OF this] show ?thesis by blast
qed

text \<open>A redirect to a host that is not allowed ends the fetch with the SSRF error.\<close>

lemma redirect_blocked:
  "fd_result (single_fetch_url sample_net id (policy_config [''b.com''] True False) (two_hop_world ''http://evil.com/'')
      ''http://www.b.com/a'') = Inl SsrfBlocked"
  by code_simp

end
