(* ===== verification/Go_Include.thy ===== *)
theory Go_Include
  imports Go_Fetch
begin

text \<open>
  One include of a page: the configuration it runs with (\<open>mesi/config.go\<close>, \<open>max_depth.go\<close>), the
  fetch modes (\<open>fetch_mode.go\<close>, \<open>ab_ratio.go\<close>) and \<open>toString\<close> of \<open>include.go\<close>; and the
  configurations under which \<open>MESIParse\<close> of \<open>parser.go\<close> runs the includes of a page and of the
  fragments that they bring in.  The attributes of a tag come from \<open>encoding/xml\<close>: a token is any
  record.  Time is in nanoseconds; what the clock, the random numbers and the scheduler do is an
  argument, and so is the \<open>Duration\<close> that \<open>strconv.ParseFloat\<close> and the conversion to an integer
  give for the text of a timeout (\<open>dur\<close>, \<open>None\<close> when it is no number above zero).
\<close>

subsection \<open>Texts of attributes\<close>

function strip :: "(string \<Rightarrow> nat) \<Rightarrow> string \<Rightarrow> string" where
  "strip width s = (if s = [] \<or> width s = 0 then s else strip width (drop (width s) s))"
  by auto

termination by (relation "measure (length \<circ> snd)") auto

declare strip.simps [simp del]

definition space_len_end :: "string \<Rightarrow> nat" where
  "space_len_end r =
    (case r of
       [] \<Rightarrow> 0
     | c # cs \<Rightarrow>
         if byte c = 32 \<or> 9 \<le> byte c \<and> byte c \<le> 13 then 1
         else case find (\<lambda>u. prefix (rev u) r) go_space_bytes of None \<Rightarrow> 0 | Some u \<Rightarrow> length u)"

text \<open>\<open>strings.TrimSpace\<close>.\<close>

definition go_trim_space :: "string \<Rightarrow> string" where
  "go_trim_space s = rev (strip space_len_end (rev (strip space_len s)))"

lemma no_space_bytes:
  assumes "byte c < 128" and "u \<in> set go_space_bytes"
  shows "\<not> prefix u (c # cs)" "\<not> prefix (rev u) (c # cs)"
proof -
  have "map byte u \<noteq> []" using assms(2) go_space_bytes_values imageI [of u "set go_space_bytes" "map byte"]
    unfolding set_map [symmetric] by (auto simp: e280_thirds_def)
  then have "u \<noteq> []" by simp
  then have h: "hd u \<in> set u" "last u \<in> set u" by simp_all
  then have "128 \<le> byte (hd u)" "128 \<le> byte (last u)" using go_space_bytes_high [OF assms(2)] by blast+
  then have "c \<noteq> hd u" "c \<noteq> last u" using assms(1) by (metis not_le)+
  then show "\<not> prefix u (c # cs)" "\<not> prefix (rev u) (c # cs)"
    using \<open>u \<noteq> []\<close> by (auto simp: prefix_Cons neq_Nil_conv hd_rev)
qed

lemma space_len_ascii:
  assumes "byte c < 128"
  shows "space_len (c # cs) = (if byte c = 32 \<or> 9 \<le> byte c \<and> byte c \<le> 13 then 1 else 0)"
    and "space_len_end (c # cs) = (if byte c = 32 \<or> 9 \<le> byte c \<and> byte c \<le> 13 then 1 else 0)"
proof -
  have "find (\<lambda>u. prefix u (c # cs)) go_space_bytes = None" "find (\<lambda>u. prefix (rev u) (c # cs)) go_space_bytes = None"
    using no_space_bytes [OF assms] by (simp_all add: find_None_iff)
  then show "space_len (c # cs) = (if byte c = 32 \<or> 9 \<le> byte c \<and> byte c \<le> 13 then 1 else 0)"
    "space_len_end (c # cs) = (if byte c = 32 \<or> 9 \<le> byte c \<and> byte c \<le> 13 then 1 else 0)"
    by (simp_all add: space_len_def space_len_end_def)
qed

text \<open>\<open>strconv.ParseUint (s, 10, 64)\<close>.\<close>

definition go_parse_uint :: "string \<Rightarrow> nat option" where
  "go_parse_uint s =
    (if s = [] \<or> \<not> list_all is_digit s then None
     else if digits_val s > 18446744073709551615 then None else Some (digits_val s))"

definition split_on :: "char \<Rightarrow> string \<Rightarrow> string list" where
  "split_on x s = foldr (\<lambda>c ps. if c = x then [] # ps else (c # hd ps) # tl ps) s [[]]"

subsection \<open>An include tag and its overrides\<close>

record include_token =
  it_src :: string
  it_alt :: string
  it_timeout :: string
  it_max_depth :: string
  it_fetch_mode :: string
  it_ab_ratio :: string
  it_on_error :: string
  it_content :: string

definition MaxMaxDepth :: nat where "MaxMaxDepth = 10000"

definition parse_max_depth :: "string \<Rightarrow> nat option" where
  "parse_max_depth raw =
    (if raw = [] then Some 0
     else let trimmed = go_trim_space raw
          in if trimmed = [] then Some 0
             else if prefix ''-'' trimmed then None
             else if CHR ''.'' \<in> set trimmed then None
             else case go_parse_uint trimmed of
                    None \<Rightarrow> None
                  | Some n \<Rightarrow> if n > MaxMaxDepth then None
                              else if n > 18446744073709551615 - 1 then None else Some n)"

definition can_go_deeper :: "int \<Rightarrow> esi_config \<Rightarrow> bool" where
  "can_go_deeper t c \<longleftrightarrow> ec_max_depth c \<ge> 1 \<and> ec_timeout c > t"

definition parse_only :: "esi_config \<Rightarrow> bool" where
  "parse_only c \<longleftrightarrow> ec_max_depth c < 1"

definition decrease_max_depth :: "esi_config \<Rightarrow> esi_config" where
  "decrease_max_depth c = (if ec_max_depth c > 0 then c\<lparr>ec_max_depth := ec_max_depth c - 1\<rparr> else c)"

definition with_elapsed_time :: "int \<Rightarrow> esi_config \<Rightarrow> esi_config" where
  "with_elapsed_time t c =
    (if s64 (ec_timeout c - t) > 0 then c\<lparr>ec_timeout := s64 (ec_timeout c - t)\<rparr> else c\<lparr>ec_timeout := 0\<rparr>)"

definition override_timeout :: "(string \<Rightarrow> int option) \<Rightarrow> include_token \<Rightarrow> esi_config \<Rightarrow> esi_config" where
  "override_timeout dur token c =
    (if it_timeout token \<noteq> [] then
       (case dur (it_timeout token) of
          None \<Rightarrow> c
        | Some timeout_limit \<Rightarrow> if ec_timeout c > timeout_limit then c\<lparr>ec_timeout := timeout_limit\<rparr> else c)
     else c)"

definition override_depth :: "include_token \<Rightarrow> esi_config \<Rightarrow> esi_config" where
  "override_depth token c =
    (if it_max_depth token = [] \<or> go_trim_space (it_max_depth token) = [] then c
     else case parse_max_depth (it_max_depth token) of
            None \<Rightarrow> c
          | Some depth \<Rightarrow> (let limit = int depth + 1
                            in if ec_max_depth c > limit then c\<lparr>ec_max_depth := limit\<rparr> else c))"

definition override_config :: "(string \<Rightarrow> int option) \<Rightarrow> include_token \<Rightarrow> esi_config \<Rightarrow> esi_config" where
  "override_config dur token c = override_depth token (override_timeout dur token c)"

subsection \<open>Ratios\<close>

definition MaxABRatio :: nat where "MaxABRatio = 1000000"

definition parse_ab_side :: "string \<Rightarrow> nat option" where
  "parse_ab_side side0 =
    (let side = go_trim_space side0
     in if side = [] then None
        else if prefix ''-'' side then None
        else if CHR ''.'' \<in> set side then None
        else case go_parse_uint side of None \<Rightarrow> None | Some n \<Rightarrow> if n > MaxABRatio then None else Some n)"

definition parse_ab :: "include_token \<Rightarrow> (nat \<times> nat) option" where
  "parse_ab token =
    (if it_ab_ratio token = [] then Some (50, 50)
     else let raw = go_trim_space (it_ab_ratio token)
          in if raw = [] then Some (50, 50)
             else if CHR '':'' \<notin> set raw then None
             else case split_on CHR '':'' raw of
                    [p, q] \<Rightarrow>
                      (case parse_ab_side p of
                         None \<Rightarrow> None
                       | Some a \<Rightarrow>
                           (case parse_ab_side q of
                              None \<Rightarrow> None
                            | Some b \<Rightarrow> if a = 0 \<and> b = 0 then None else Some (a, b)))
                  | _ \<Rightarrow> None)"

definition select_url :: "nat \<times> nat \<Rightarrow> include_token \<Rightarrow> (nat \<Rightarrow> nat) \<Rightarrow> string" where
  "select_url ratio token rng =
    (if it_alt token = [] then it_src token
     else let sum = fst ratio + snd ratio
          in if sum = 0 then it_src token
             else if sum > 9223372036854775807 then it_alt token
             else if rng sum < fst ratio then it_src token else it_alt token)"

subsection \<open>Fetch modes\<close>

datatype include_error = DepthExceeded | InvalidRatio | Stopped | FetchFailed fetch_error

text \<open>
  The order of events while two fetches race: which result is read first and whether the other is
  read at all, or the context ends before any.
\<close>

datatype race = SrcFirst bool | AltFirst bool | NoneFirst

record include_world =
  iw_src :: fetch_world
  iw_alt :: fetch_world
  iw_random :: "nat \<Rightarrow> nat"
  iw_spent :: int
  iw_race :: race

record included =
  in_hops :: "hop list"
  in_stored :: "(string \<times> string) list"
  in_result :: "include_error + string \<times> bool"

definition list_of_option :: "'a option \<Rightarrow> 'a list" where
  "list_of_option x = (case x of None \<Rightarrow> [] | Some y \<Rightarrow> [y])"

definition lift_error :: "fetch_error + string \<times> bool \<Rightarrow> include_error + string \<times> bool" where
  "lift_error r = (case r of Inl e \<Rightarrow> Inl (FetchFailed e) | Inr x \<Rightarrow> Inr x)"

definition one_fetch :: "fetched \<Rightarrow> included" where
  "one_fetch f = \<lparr> in_hops = fd_hops f, in_stored = list_of_option (fd_stored f), in_result = lift_error (fd_result f) \<rparr>"

definition two_fetches :: "fetched \<Rightarrow> fetched \<Rightarrow> include_error + string \<times> bool \<Rightarrow> included" where
  "two_fetches f g r =
    \<lparr> in_hops = fd_hops f @ fd_hops g, in_stored = list_of_option (fd_stored f) @ list_of_option (fd_stored g),
      in_result = r \<rparr>"

text \<open>The loop that reads the two results: the first success wins, else the last error.\<close>

definition read_two :: "fetch_error + string \<times> bool \<Rightarrow> fetch_error + string \<times> bool \<Rightarrow> bool \<Rightarrow> include_error + string \<times> bool" where
  "read_two first second read_both =
    (case first of
       Inr x \<Rightarrow> Inr x
     | Inl e \<Rightarrow> if read_both then lift_error second else Inl (FetchFailed e))"

definition fetch_concurrent ::
  "go_net \<Rightarrow> (string \<Rightarrow> string) \<Rightarrow> include_world \<Rightarrow> include_token \<Rightarrow> esi_config \<Rightarrow> included" where
  "fetch_concurrent net kf w token config =
    (let src = single_fetch_url net kf config (iw_src w) (it_src token)
     in if it_alt token = [] then one_fetch src
        else let alt = single_fetch_url net kf config (iw_alt w) (it_alt token)
             in two_fetches src alt
                  (case iw_race w of
                     SrcFirst b \<Rightarrow> read_two (fd_result src) (fd_result alt) b
                   | AltFirst b \<Rightarrow> read_two (fd_result alt) (fd_result src) b
                   | NoneFirst \<Rightarrow> Inl Stopped))"

definition fetch_fallback ::
  "go_net \<Rightarrow> (string \<Rightarrow> string) \<Rightarrow> include_world \<Rightarrow> include_token \<Rightarrow> esi_config \<Rightarrow> included" where
  "fetch_fallback net kf w token config =
    (let src = single_fetch_url net kf config (iw_src w) (it_src token)
     in if isl (fd_result src) \<and> it_alt token \<noteq> []
        then let alt = single_fetch_url net kf (with_elapsed_time (iw_spent w) config) (iw_alt w) (it_alt token)
             in two_fetches src alt (lift_error (fd_result alt))
        else one_fetch src)"

definition fetch_ab ::
  "go_net \<Rightarrow> (string \<Rightarrow> string) \<Rightarrow> include_world \<Rightarrow> include_token \<Rightarrow> esi_config \<Rightarrow> included" where
  "fetch_ab net kf w token config =
    (case parse_ab token of
       None \<Rightarrow> \<lparr> in_hops = [], in_stored = [], in_result = Inl InvalidRatio \<rparr>
     | Some ratio \<Rightarrow> one_fetch (single_fetch_url net kf config (iw_src w) (select_url ratio token (iw_random w))))"

text \<open>The hops, what was stored, and the content, the mark of the header and the unhandled error.\<close>

definition include_fetch ::
  "go_net \<Rightarrow> (string \<Rightarrow> string) \<Rightarrow> include_world \<Rightarrow> include_token \<Rightarrow> esi_config \<Rightarrow> included" where
  "include_fetch net kf w token config =
    (if parse_only config then \<lparr> in_hops = [], in_stored = [], in_result = Inl DepthExceeded \<rparr>
     else if it_fetch_mode token = ''ab'' then fetch_ab net kf w token config
     else if it_fetch_mode token = ''concurrent'' then fetch_concurrent net kf w token config
     else fetch_fallback net kf w token config)"

definition to_string ::
  "go_net \<Rightarrow> (string \<Rightarrow> string) \<Rightarrow> include_world \<Rightarrow> include_token \<Rightarrow> esi_config \<Rightarrow> string \<times> bool \<times> include_error option" where
  "to_string net kf w token config =
    (case in_result (include_fetch net kf w token config) of
       Inl e \<Rightarrow>
         if it_on_error token = ''continue'' then ([], False, None)
         else if it_content token \<noteq> [] then (it_content token, False, None)
         else (ec_include_error_marker config, False, Some e)
     | Inr (data, esi) \<Rightarrow> (data, esi, None))"

subsection \<open>The configurations of a page\<close>

text \<open>What \<open>MESIParse\<close> makes of its configuration before it looks at the page.\<close>

definition enter_parse :: "int \<Rightarrow> esi_config \<Rightarrow> esi_config" where
  "enter_parse cpus c =
    c\<lparr>ec_max_concurrent_requests := (if ec_max_concurrent_requests c < 0 then 0 else ec_max_concurrent_requests c),
      ec_max_workers := (if ec_max_workers c \<le> 0 then cpus * 4 else ec_max_workers c)\<rparr>"

definition include_config :: "(string \<Rightarrow> int option) \<Rightarrow> int \<Rightarrow> include_token \<Rightarrow> esi_config \<Rightarrow> esi_config" where
  "include_config dur t token c = with_elapsed_time t (override_config dur token c)"

definition clock :: "int \<Rightarrow> bool" where
  "clock t \<longleftrightarrow> 0 \<le> t \<and> t < 2 ^ 63"

text \<open>
  \<open>renders \<dots> n c\<close>: while a page is rendered under a configuration, a \<open>MESIParse\<close> at the \<open>n\<close>th level
  of includes works with \<open>c\<close>.  It runs again for the bodies of choose and try blocks, and for what an
  include brought in when the guard of the worker loop holds.
\<close>

inductive renders ::
  "go_net \<Rightarrow> (string \<Rightarrow> string) \<Rightarrow> (string \<Rightarrow> int option) \<Rightarrow> int \<Rightarrow> esi_config \<Rightarrow> nat \<Rightarrow> esi_config \<Rightarrow> bool"
  for net kf dur cpus c0 where
  page: "renders net kf dur cpus c0 0 (enter_parse cpus c0)"
| block: "renders net kf dur cpus c0 n c \<Longrightarrow> renders net kf dur cpus c0 n (enter_parse cpus c)"
| fragment: "renders net kf dur cpus c0 n c \<Longrightarrow> clock t1 \<Longrightarrow> clock t2 \<Longrightarrow> clock t3 \<Longrightarrow>
    new_config = include_config dur t1 token c \<Longrightarrow>
    to_string net kf w token new_config = (content, esi, err) \<Longrightarrow>
    can_go_deeper t2 c \<Longrightarrow> esi \<or> \<not> ec_parse_on_header new_config \<Longrightarrow>
    renders net kf dur cpus c0 (Suc n) (enter_parse cpus (with_elapsed_time t3 (decrease_max_depth new_config)))"

subsection \<open>What stays and what shrinks\<close>

text \<open>The settings that no include can touch.\<close>

definition same_policy :: "esi_config \<Rightarrow> esi_config \<Rightarrow> bool" where
  "same_policy c d \<longleftrightarrow> ec_allowed_hosts c = ec_allowed_hosts d \<and> ec_block_private_ips c = ec_block_private_ips d
     \<and> ec_allow_private c = ec_allow_private d \<and> ec_http_client c = ec_http_client d
     \<and> ec_cache c = ec_cache d \<and> ec_cache_key c = ec_cache_key d
     \<and> ec_max_response_size c = ec_max_response_size d \<and> ec_default_url c = ec_default_url d"

lemma same_policy_refl [simp]: "same_policy c c"
  by (simp add: same_policy_def)

lemma same_policy_trans: "same_policy c d \<Longrightarrow> same_policy d e \<Longrightarrow> same_policy c e"
  by (simp add: same_policy_def)

lemma same_policy_hop: "same_policy c d \<Longrightarrow> hop_within net c h = hop_within net d h"
  by (cases h; cases "ec_http_client d") (auto simp: same_policy_def hop_within_def private_dial_ok_def host_in_allowed_hosts_def)

lemma same_policy_steps [simp]:
  "same_policy (override_config dur token c) c" "same_policy (with_elapsed_time t c) c"
  "same_policy (decrease_max_depth c) c" "same_policy (enter_parse cpus c) c"
  by (simp_all add: same_policy_def override_config_def override_timeout_def override_depth_def
      with_elapsed_time_def decrease_max_depth_def enter_parse_def Let_def split: option.split)

lemma same_policy_include [simp]: "same_policy (include_config dur t token c) c"
  unfolding include_config_def by (rule same_policy_trans [of _ "override_config dur token c"]) simp_all

lemma depth_steps:
  "ec_max_depth (with_elapsed_time t c) = ec_max_depth c" "ec_max_depth (enter_parse cpus c) = ec_max_depth c"
  "ec_max_depth (override_timeout dur token c) = ec_max_depth c"
  by (simp_all add: with_elapsed_time_def enter_parse_def override_timeout_def split: option.split)

lemma override_depth_bounds:
  "ec_max_depth (override_depth token c) \<le> ec_max_depth c"
  "1 \<le> ec_max_depth c \<Longrightarrow> 1 \<le> ec_max_depth (override_depth token c)"
  by (simp_all add: override_depth_def Let_def split: option.split)

lemma include_depth:
  "ec_max_depth (include_config dur t token c) \<le> ec_max_depth c"
  "1 \<le> ec_max_depth c \<Longrightarrow> 1 \<le> ec_max_depth (include_config dur t token c)"
  using override_depth_bounds [where token = token and c = "override_timeout dur token c"]
  by (simp_all add: include_config_def override_config_def depth_steps)

text \<open>Each level of includes uses up one level of the configured depth.\<close>

lemma renders_invariant:
  "renders net kf dur cpus c0 n c \<Longrightarrow> 0 \<le> ec_max_depth c0 \<Longrightarrow>
     same_policy c c0 \<and> 0 \<le> ec_max_depth c \<and> ec_max_depth c + int n \<le> ec_max_depth c0"
proof (induction rule: renders.induct)
  case page
  then show ?case by (simp add: depth_steps)
next
  case (block n c)
  then show ?case using same_policy_trans [OF same_policy_steps(4) [of cpus c]] by (simp add: depth_steps)
next
  case (fragment n c t1 t2 t3 new_config token w content esi err)
  let ?d = "enter_parse cpus (with_elapsed_time t3 (decrease_max_depth new_config))"
  have n: "same_policy new_config c" using fragment(5) by simp
  have "same_policy ?d new_config"
    using same_policy_trans same_policy_steps(2,3,4) by blast
  then have p: "same_policy ?d c0" using n fragment same_policy_trans by blast
  have "1 \<le> ec_max_depth c" using fragment(7) by (simp add: can_go_deeper_def)
  then have "1 \<le> ec_max_depth new_config" "ec_max_depth new_config \<le> ec_max_depth c"
    using include_depth [where dur = dur and t = t1 and token = token and c = c] fragment(5) by simp_all
  then have "ec_max_depth ?d = ec_max_depth new_config - 1" by (simp add: depth_steps decrease_max_depth_def)
  with p fragment \<open>1 \<le> ec_max_depth new_config\<close> \<open>ec_max_depth new_config \<le> ec_max_depth c\<close>
  show ?case by simp
qed

subsection \<open>The hops of an include\<close>

lemma fetch_list_within: "h \<in> set (fd_hops (single_fetch_url net kf c w u)) \<Longrightarrow> hop_within net c h"
  using fetch_hops_within [of net c kf w u] by (simp add: list_all_iff)

lemma include_hops_within:
  assumes "h \<in> set (in_hops (include_fetch net kf w token c))"
  shows "hop_within net c h \<and> 1 \<le> ec_max_depth c"
proof -
  have alt: "hop_within net c h" if "h \<in> set (fd_hops (single_fetch_url net kf (with_elapsed_time t c) w' u))" for t w' u
    using fetch_list_within [OF that] same_policy_hop [OF same_policy_steps(2)] by simp
  have "hop_within net c h"
    using assms
    by (auto simp: include_fetch_def fetch_ab_def fetch_concurrent_def fetch_fallback_def one_fetch_def
        two_fetches_def Let_def split: if_splits option.splits intro: fetch_list_within alt)
  moreover have "\<not> parse_only c" using assms by (auto simp: include_fetch_def)
  ultimately show ?thesis by (simp add: parse_only_def)
qed

lemma page_include_within:
  assumes "renders net kf dur cpus c0 n c" and "0 \<le> ec_max_depth c0"
    and "h \<in> set (in_hops (include_fetch net kf w token (include_config dur t token c)))"
  shows "hop_within net c0 h \<and> int n < ec_max_depth c0"
proof -
  note i = renders_invariant [OF assms(1,2)]
  note h = include_hops_within [OF assms(3)]
  have "hop_within net c0 h"
    using h i same_policy_hop same_policy_trans [OF same_policy_include] by blast
  moreover have "1 \<le> ec_max_depth c" using h include_depth(1) [where dur = dur and t = t and token = token and c = c] by simp
  ultimately show ?thesis using i by simp
qed

text \<open>All the requests that a page may cause, with their levels.\<close>

definition page_hops ::
  "go_net \<Rightarrow> (string \<Rightarrow> string) \<Rightarrow> (string \<Rightarrow> int option) \<Rightarrow> int \<Rightarrow> esi_config \<Rightarrow> (nat \<times> hop) set" where
  "page_hops net kf dur cpus c0 =
    {(n, h). \<exists>c token w t. renders net kf dur cpus c0 n c
       \<and> h \<in> set (in_hops (include_fetch net kf w token (include_config dur t token c)))}"

lemma page_hops_within:
  assumes "(n, h) \<in> page_hops net kf dur cpus c0" and "0 \<le> ec_max_depth c0"
  shows "hop_within net c0 h \<and> int n < ec_max_depth c0"
proof -
  obtain c token w t where "renders net kf dur cpus c0 n c"
    "h \<in> set (in_hops (include_fetch net kf w token (include_config dur t token c)))"
    using assms(1) unfolding page_hops_def by blast
  from page_include_within [OF this(1) assms(2) this(2)] show ?thesis .
qed

text \<open>Timeouts.\<close>

definition plain_durations :: "(string \<Rightarrow> int option) \<Rightarrow> bool" where
  "plain_durations dur \<longleftrightarrow> (\<forall>s d. dur s = Some d \<longrightarrow> 0 \<le> d)"

definition budget :: "int \<Rightarrow> esi_config \<Rightarrow> bool" where
  "budget b c \<longleftrightarrow> 0 \<le> ec_timeout c \<and> ec_timeout c \<le> b"

lemma budget_steps:
  "budget b c \<Longrightarrow> budget b (decrease_max_depth c)" "budget b c \<Longrightarrow> budget b (enter_parse cpus c)"
  "budget b c \<Longrightarrow> budget b (override_depth token c)"
  by (simp_all add: budget_def decrease_max_depth_def enter_parse_def override_depth_def Let_def split: option.split)

lemma budget_override: "plain_durations dur \<Longrightarrow> budget b c \<Longrightarrow> budget b (override_timeout dur token c)"
  by (auto simp: budget_def override_timeout_def plain_durations_def split: option.split)

lemma budget_elapsed:
  assumes "budget b c" and "b < 2 ^ 63" and "clock t"
  shows "budget b (with_elapsed_time t c)"
proof -
  have "s64 (ec_timeout c - t) = ec_timeout c - t" using assms by (intro s64_id) (auto simp: budget_def clock_def)
  then show ?thesis using assms by (auto simp: budget_def with_elapsed_time_def clock_def)
qed

lemma budget_include:
  "plain_durations dur \<Longrightarrow> budget b c \<Longrightarrow> b < 2 ^ 63 \<Longrightarrow> clock t \<Longrightarrow> budget b (include_config dur t token c)"
  by (simp add: include_config_def override_config_def budget_elapsed budget_steps budget_override)

lemma renders_budget:
  "renders net kf dur cpus c0 n c \<Longrightarrow> plain_durations dur \<Longrightarrow> budget b c0 \<Longrightarrow> b < 2 ^ 63 \<Longrightarrow> budget b c"
  by (induction rule: renders.induct) (simp_all add: budget_steps budget_elapsed budget_include)

subsection \<open>Ratios are probabilities\<close>

lemma parse_ab_bounds:
  assumes "parse_ab token = Some (a, b)"
  shows "0 < a + b" and "a \<le> MaxABRatio" and "b \<le> MaxABRatio"
proof -
  have side: "n \<le> MaxABRatio" if "parse_ab_side s = Some n" for s n
    using that by (simp add: parse_ab_side_def Let_def split: if_splits option.splits)
  from assms show "0 < a + b" "a \<le> MaxABRatio" "b \<le> MaxABRatio"
    by (auto simp: parse_ab_def MaxABRatio_def Let_def split: if_splits list.splits option.splits
        dest!: side [unfolded MaxABRatio_def])
qed

lemma select_url_small:
  assumes "parse_ab token = Some (a, b)" and "it_alt token \<noteq> []"
  shows "select_url (a, b) token rng = (if rng (a + b) < a then it_src token else it_alt token)"
  using parse_ab_bounds [OF assms(1)] assms(2) by (auto simp: select_url_def Let_def MaxABRatio_def)

subsection \<open>Properties\<close>

definition src_token :: "string \<Rightarrow> include_token" where
  "src_token src =
    \<lparr> it_src = src, it_alt = [], it_timeout = [], it_max_depth = [], it_fetch_mode = [], it_ab_ratio = [],
      it_on_error = [], it_content = [] \<rparr>"

definition plain_world :: include_world where
  "plain_world =
    \<lparr> iw_src = two_hop_world ''http://b.com/b'', iw_alt = two_hop_world [], iw_random = (\<lambda>n. 0), iw_spent = 1,
      iw_race = NoneFirst \<rparr>"

definition page_config :: esi_config where
  "page_config = (policy_config [''b.com''] True False)\<lparr>ec_max_depth := 2\<rparr>"

text \<open>The include of a fragment: one level below the page.\<close>

definition fragment_config :: esi_config where
  "fragment_config =
    enter_parse 1 (with_elapsed_time 3 (decrease_max_depth
      (include_config (\<lambda>s. None) 1 (src_token ''http://b.com/a'') (enter_parse 1 page_config))))"

lemma fragment_renders: "renders sample_net id (\<lambda>s. None) 1 page_config 1 fragment_config"
proof -
  let ?n = "include_config (\<lambda>s. None) 1 (src_token ''http://b.com/a'') (enter_parse 1 page_config)"
  have t: "to_string sample_net id plain_world (src_token ''http://b.com/a'') ?n = (''ok'', False, None)" by code_simp
  have g: "can_go_deeper 2 (enter_parse 1 page_config)" "False \<or> \<not> ec_parse_on_header ?n" by code_simp+
  have c: "clock 1" "clock 2" "clock 3" by (simp_all add: clock_def)
  show ?thesis
    using renders.fragment [OF renders.page [of sample_net id "\<lambda>s. None" 1 page_config] c refl t g]
    by (simp add: fragment_config_def)
qed

lemma fragment_hops:
  "in_hops (include_fetch sample_net id plain_world (src_token ''http://b.com/a'')
      (include_config (\<lambda>s. None) 4 (src_token ''http://b.com/a'') fragment_config))
    = [(\<lparr>u_scheme = ''http'', u_host = ''b.com'', u_text = ''http://b.com/a''\<rparr>, [[93, 184, 216, 34]]),
       (\<lparr>u_scheme = ''http'', u_host = ''b.com'', u_text = ''http://b.com/b''\<rparr>, [[93, 184, 216, 34]])]"
  by code_simp

text \<open>An include can only shorten the time that its page has left, and its depth: at every level
  the timeout an include runs with lies between zero and the timeout of the page, provided the
  conversion of timeout attributes never yields a negative duration.\<close>

theorem includes_only_tighten:
  assumes "renders net kf dur cpus c0 n c" and "plain_durations dur"
    and "0 \<le> ec_timeout c0" and "ec_timeout c0 < 2 ^ 63" and "clock t"
  shows "0 \<le> ec_timeout (include_config dur t token c)
    \<and> ec_timeout (include_config dur t token c) \<le> ec_timeout c0
    \<and> ec_max_depth (include_config dur t token c) \<le> ec_max_depth c"
proof -
  have "budget (ec_timeout c0) c" using renders_budget [OF assms(1,2) _ assms(4)] assms(3) by (simp add: budget_def)
  then show ?thesis using budget_include [OF assms(2) _ assms(4,5)] include_depth(1) by (simp add: budget_def)
qed

theorem includes_only_tighten_witness:
  "ec_timeout (include_config (\<lambda>s. None) 4 (src_token ''http://b.com/a'') fragment_config) \<le> 1000000000"
  using includes_only_tighten [OF fragment_renders, of 4 "src_token ''http://b.com/a''"]
  by (simp add: plain_durations_def clock_def page_config_def policy_config_def)

text \<open>
  Without the proviso it fails: a duration beyond 64 bits, such as the attribute \<open>timeout="1e10"\<close> asks
  for, may be converted to the least integer; the elapsed time then wraps round to the largest timeout.
\<close>

lemma huge_timeout_widens:
  assumes "dur ''1e10'' = Some (- (2 ^ 63))" and "ec_timeout c = 1000000000"
  shows "ec_timeout (include_config dur 1 ((src_token u)\<lparr>it_timeout := ''1e10''\<rparr>) c) = 2 ^ 63 - 1"
  using assms
  by (simp add: include_config_def override_config_def override_depth_def override_timeout_def with_elapsed_time_def
      src_token_def s64_def)

text \<open>An accepted \<open>ab-ratio\<close> is the exact split of the traffic: of the \<open>a + b\<close> values that the
  random number may take, \<open>a\<close> select the source and \<open>b\<close> the alternative; both sides are at
  most a million and not both are zero.\<close>

theorem ab_ratio_splits_exactly:
  assumes "parse_ab token = Some (a, b)" and "it_alt token \<noteq> []" and "it_src token \<noteq> it_alt token"
  shows "card {v. v < a + b \<and> select_url (a, b) token (\<lambda>n. v) = it_src token} = a
    \<and> card {v. v < a + b \<and> select_url (a, b) token (\<lambda>n. v) = it_alt token} = b
    \<and> 0 < a + b \<and> a \<le> 1000000 \<and> b \<le> 1000000"
proof -
  have "{v. v < a + b \<and> select_url (a, b) token (\<lambda>n. v) = it_src token} = {..<a}"
    "{v. v < a + b \<and> select_url (a, b) token (\<lambda>n. v) = it_alt token} = {a..<a + b}"
    using assms(3) by (auto simp: select_url_small [OF assms(1,2)])
  then show ?thesis using parse_ab_bounds [OF assms(1)] by (simp add: MaxABRatio_def)
qed

definition ratio_token :: include_token where
  "ratio_token = (src_token ''/a'')\<lparr>it_alt := ''/b'', it_ab_ratio := '' 3: 1''\<rparr>"

theorem ab_ratio_splits_exactly_witness:
  "card {v. v < 4 \<and> select_url (3, 1) ratio_token (\<lambda>n. v) = ''/a''} = 3"
proof -
  have t: "go_trim_space '' 3: 1'' = ''3: 1''" "go_trim_space ''3'' = ''3''" "go_trim_space '' 1'' = ''1''"
    "split_on CHR '':'' ''3: 1'' = [''3'', '' 1'']"
    by (simp_all add: go_trim_space_def strip.simps space_len_ascii split_on_def)
  have u: "go_parse_uint ''3'' = Some 3" "go_parse_uint ''1'' = Some 1"
    by (simp_all add: go_parse_uint_def is_digit_def digits_val_def digit_val_def)
  have "parse_ab ratio_token = Some (3, 1)"
    by (simp add: parse_ab_def ratio_token_def src_token_def t u parse_ab_side_def MaxABRatio_def)
  moreover have "it_alt ratio_token \<noteq> []" "it_src ratio_token \<noteq> it_alt ratio_token" "it_src ratio_token = ''/a''"
    by (simp_all add: ratio_token_def src_token_def)
  ultimately show ?thesis using ab_ratio_splits_exactly [of ratio_token 3 1] by simp
qed

end
