(* ===== verification/Go_Shared.thy ===== *)
theory Go_Shared
  imports Go_Fetch
begin

text \<open>
  Fetches that share one cache.  The caches of the core are shared by all the configurations of a
  process, and the external ones by several processes, so what matters is not one fetch but what a
  fetch may read that another has stored.  An entry carries, beside its key and its value, how it was
  obtained; only the proofs look at that.
\<close>

record entry =
  en_key :: string
  en_value :: string
  en_hops :: "hop list"
  en_config :: esi_config

text \<open>The cache answers with what is among the entries; it may have dropped any of them.\<close>

definition answers_from :: "entry set \<Rightarrow> fetch_world \<Rightarrow> bool" where
  "answers_from E world \<longleftrightarrow>
    (\<forall>k v. fw_get world k = Some v \<or> fw_get_again world k = Some v \<longrightarrow> (\<exists>e \<in> E. en_key e = k \<and> en_value e = v))"

text \<open>
  The entries after any number of fetches, under any configurations, in the order in which they store.
\<close>

inductive cache_history :: "go_net \<Rightarrow> entry set \<Rightarrow> bool" for net where
  start: "cache_history net {}"
| store: "cache_history net E \<Longrightarrow> answers_from E world \<Longrightarrow>
    single_fetch_url net key_func config world u = f \<Longrightarrow> fd_stored f = Some (k, v) \<Longrightarrow>
    cache_history net (insert \<lparr> en_key = k, en_value = v, en_hops = fd_hops f, en_config = config \<rparr> E)"

text \<open>Every entry was fetched within the policy of its configuration and is stored under its fingerprint.\<close>

definition entry_ok :: "go_net \<Rightarrow> entry \<Rightarrow> bool" where
  "entry_ok net e \<longleftrightarrow> (\<exists>key. en_key e = key @ security_policy_fingerprint (en_config e))
     \<and> en_hops e \<noteq> [] \<and> list_all (hop_within net (en_config e)) (en_hops e)"

lemma stored_has_hops:
  assumes "fd_stored (single_fetch_url net kf config world u) = Some (k, v)"
  shows "fd_hops (single_fetch_url net kf config world u) \<noteq> []"
  using single_outcome [of config world net kf u] assms
  by (auto simp: fetch_outcome_def split: sum.splits)

lemma history_ok: "cache_history net E \<Longrightarrow> e \<in> E \<Longrightarrow> entry_ok net e"
proof (induction rule: cache_history.induct)
  case (store E world kf config u f k v)
  then show ?case
    using stored_key [of net kf config world u k v] stored_has_hops [of net kf config world u k v]
      fetch_hops_within [of net config kf world u]
    by (auto simp: entry_ok_def)
qed simp

text \<open>Configurations with one fingerprint and no client of their own have one policy.\<close>

lemma same_fingerprint_hops:
  assumes "ascii_fold net" and "key1 @ security_policy_fingerprint c1 = key2 @ security_policy_fingerprint c2"
    and "ec_http_client c1 = None"
  shows "hop_within net c1 h = hop_within net c2 h"
  using fingerprint_policy [OF assms(1,2)] assms(3)
  by (cases h) (simp add: hop_within_def private_dial_ok_def)


text \<open>
  Two ways to write one policy.  The first fetch stores what it got from \<open>b.com\<close>; the second finds it.
\<close>

definition cached_config :: "string list \<Rightarrow> http_client option \<Rightarrow> esi_config" where
  "cached_config hosts client =
    (policy_config hosts True False)\<lparr>ec_http_client := client, ec_cache := Some (0, MemoryCache 100 0)\<rparr>"

definition one_hop_world :: "ip list \<Rightarrow> (string \<Rightarrow> string option) \<Rightarrow> fetch_world" where
  "one_hop_world ips answer =
    \<lparr> fw_slot = True, fw_lock = True, fw_get = answer, fw_get_again = answer, fw_dns = (\<lambda>hop host. ips),
      fw_answer = (\<lambda>hop req ips. Some
        \<lparr> rs_status = 200, rs_location = [], rs_edge_control = [], rs_body = ''ok'', rs_breaks = False \<rparr>) \<rparr>"

definition b_url :: url where
  "b_url = \<lparr>u_scheme = ''http'', u_host = ''b.com'', u_text = ''http://b.com/''\<rparr>"

definition b_key :: "string list \<Rightarrow> http_client option \<Rightarrow> string" where
  "b_key hosts client = ''mesi:http://b.com/'' @ security_policy_fingerprint (cached_config hosts client)"

lemma b_fetched:
  "single_fetch_url sample_net id (cached_config [''B.com''] None) (one_hop_world [[93, 184, 216, 34]] (\<lambda>k. None)) ''http://b.com/''
    = \<lparr> fd_hops = [(b_url, [[93, 184, 216, 34]])], fd_stored = Some (b_key [''B.com''] None, ''ok''),
        fd_result = Inr (''ok'', False) \<rparr>"
  "single_fetch_url sample_net id (cached_config [''b.com''] (Some (False, 1))) (one_hop_world [[10, 0, 0, 1]] (\<lambda>k. None)) ''http://b.com/''
    = \<lparr> fd_hops = [(b_url, [[10, 0, 0, 1]])], fd_stored = Some (b_key [''b.com''] (Some (False, 1)), ''ok''),
        fd_result = Inr (''ok'', False) \<rparr>"
  by code_simp+

lemma no_answers: "answers_from E (one_hop_world ips (\<lambda>k. None))"
  by (simp add: answers_from_def one_hop_world_def)

lemma b_history:
  "cache_history sample_net {\<lparr>en_key = b_key [''B.com''] None, en_value = ''ok'', en_hops = [(b_url, [[93, 184, 216, 34]])],
      en_config = cached_config [''B.com''] None\<rparr>}"
  using cache_history.store [OF cache_history.start no_answers b_fetched(1)] by simp

lemma b_found:
  "single_fetch_url sample_net id (cached_config [''b.com.''] None)
      (one_hop_world [] [b_key [''B.com''] None \<mapsto> ''ok'']) ''http://b.com/''
    = \<lparr> fd_hops = [], fd_stored = None, fd_result = Inr (''ok'', False) \<rparr>"
  by code_simp


text \<open>
  With clients of their own the fingerprint does not tell an open one from a blocking one: content that an
  open client fetched from a private address is found under a client that would not have dialled it.
\<close>

lemma client_policy_not_in_key:
  defines "e \<equiv> \<lparr>en_key = b_key [''b.com''] (Some (False, 1)), en_value = ''ok'', en_hops = [(b_url, [[10, 0, 0, 1]])],
    en_config = cached_config [''b.com''] (Some (False, 1))\<rparr>"
    and "world \<equiv> one_hop_world [] [b_key [''b.com''] (Some (False, 1)) \<mapsto> ''ok'']"
    and "strict \<equiv> cached_config [''b.com''] (Some (True, 1))"
  shows "cache_history sample_net {e} \<and> answers_from {e} world
    \<and> fd_result (single_fetch_url sample_net id strict world ''http://b.com/'') = Inr (''ok'', False)
    \<and> \<not> list_all (hop_within sample_net strict) (en_hops e)"
proof -
  have "cache_history sample_net {e}"
    using cache_history.store [OF cache_history.start no_answers b_fetched(2)] by (simp add: e_def)
  moreover have "answers_from {e} world"
    by (auto simp: answers_from_def one_hop_world_def e_def world_def split: if_splits)
  moreover have "fd_result (single_fetch_url sample_net id strict world ''http://b.com/'') = Inr (''ok'', False)"
    unfolding world_def strict_def by code_simp
  moreover have "\<not> list_all (hop_within sample_net strict) (en_hops e)"
    unfolding e_def strict_def by code_simp
  ultimately show ?thesis by blast
qed

end
