(* ===== verification/Go_Tokens.thy ===== *)
theory Go_Tokens
  imports Mesi_Prelude
begin

text \<open>
  How the core reads a page: \<open>unescape.go\<close>, \<open>tokenizer.go\<close>, \<open>inline.go\<close> and the block extraction of
  \<open>parser.go\<close>.  A position in the input is the rest of the input from there; the loops then recur on
  shorter texts.
\<close>

subsection \<open>Searching\<close>

text \<open>\<open>strings.Index\<close> and \<open>strings.LastIndex\<close>.\<close>

fun str_index :: "string \<Rightarrow> string \<Rightarrow> nat option" where
  "str_index t [] = (if t = [] then Some 0 else None)"
| "str_index t (c # cs) = (if prefix t (c # cs) then Some 0 else map_option Suc (str_index t cs))"

definition last_index :: "string \<Rightarrow> string \<Rightarrow> nat option" where
  "last_index t s = map_option (\<lambda>i. length s - i - length t) (str_index (rev t) (rev s))"

lemma str_index_Some: "str_index t s = Some i \<Longrightarrow> prefix t (drop i s) \<and> i + length t \<le> length s"
proof (induction s arbitrary: i)
  case (Cons c cs)
  then show ?case using prefix_length_le [of t "c # cs"] by (auto split: if_splits)
qed (simp split: if_splits)

lemma str_index_bound: "str_index t s = Some i \<Longrightarrow> t \<noteq> [] \<Longrightarrow> i < length s"
  using str_index_Some [of t s i] by (cases t) auto

lemma str_index_None: "str_index t s = None \<longleftrightarrow> \<not> contains s t"
  by (induction s) auto

subsection \<open>Unescaping\<close>

function unescape :: "string \<Rightarrow> string" where
  "unescape input =
    (case str_index ''<!--esi'' input of
       None \<Rightarrow> input
     | Some start \<Rightarrow>
         let body = drop (start + length ''<!--esi'') input
         in case str_index ''-->'' body of
              None \<Rightarrow> input
            | Some e \<Rightarrow> take start input @ take e body @ unescape (drop (e + length ''-->'') body))"
  by auto

termination by (relation "measure length") (auto dest: str_index_bound)

declare unescape.simps [simp del]

lemma unescape_length: "length (unescape input) \<le> length input"
proof (induction input rule: unescape.induct)
  case (1 input)
  show ?case
  proof (cases "str_index ''<!--esi'' input")
    case (Some start)
    show ?thesis
    proof (cases "str_index ''-->'' (drop (start + length ''<!--esi'') input)")
      case (Some e)
      have "length (unescape (drop (e + length ''-->'') (drop (start + length ''<!--esi'') input)))
          \<le> length (drop (e + length ''-->'') (drop (start + length ''<!--esi'') input))"
        by (rule 1) (use \<open>str_index ''<!--esi'' input = Some start\<close> Some in simp_all)
      then show ?thesis
        using \<open>str_index ''<!--esi'' input = Some start\<close> Some str_index_Some [of "''<!--esi''" input start]
          str_index_Some [of "''-->''" _ e]
        by (subst unescape.simps) (auto simp: Let_def)
    qed (use Some in \<open>subst unescape.simps, simp\<close>)
  qed (subst unescape.simps, simp)
qed

lemma unescape_plain: "\<not> contains input ''<!--esi'' \<Longrightarrow> unescape input = input"
  by (subst unescape.simps) (simp add: str_index_None [symmetric])

subsection \<open>Tokens\<close>

record esi_token =
  static_content :: string
  esi_tag_content :: string
  esi_tag_type :: string

definition is_esi :: "esi_token \<Rightarrow> bool" where
  "is_esi token \<longleftrightarrow> esi_tag_type token \<noteq> [] \<and> esi_tag_content token \<noteq> []"

definition static_token :: "string \<Rightarrow> esi_token" where
  "static_token s = \<lparr> static_content = s, esi_tag_content = [], esi_tag_type = [] \<rparr>"

definition tag_token :: "string \<Rightarrow> string \<Rightarrow> esi_token" where
  "tag_token tag s = \<lparr> static_content = [], esi_tag_content = s, esi_tag_type = tag \<rparr>"

definition open_tag :: "string \<Rightarrow> string" where
  "open_tag tag = ''<esi:'' @ tag"

definition close_tag :: "string \<Rightarrow> string" where
  "close_tag tag = ''</esi:'' @ tag @ ''>''"

lemma tag_texts [simp]: "open_tag tag \<noteq> []" "close_tag tag \<noteq> []"
  by (simp_all add: open_tag_def close_tag_def)

text \<open>
  \<open>findMatchingEndTag\<close>, called with the opening and the closing form of one tag: where the close tag
  starts that brings the depth back to zero.
\<close>

definition earlier :: "nat option \<Rightarrow> nat \<Rightarrow> nat option" where
  "earlier i n = (case i of None \<Rightarrow> None | Some k \<Rightarrow> if k < n then Some k else None)"

lemma earlier_Some: "earlier i n = Some k \<longleftrightarrow> i = Some k \<and> k < n"
  by (auto simp: earlier_def split: option.split)

function find_end_from :: "string \<Rightarrow> int \<Rightarrow> nat \<Rightarrow> string \<Rightarrow> nat option" where
  "find_end_from tag depth pos s =
    (case str_index (close_tag tag) s of
       None \<Rightarrow> None
     | Some next_close \<Rightarrow>
         (case earlier (str_index (open_tag tag) s) next_close of
            Some next_open \<Rightarrow>
              (case str_index ''>'' (drop next_open s) of
                 None \<Rightarrow> None
               | Some tag_end \<Rightarrow>
                   find_end_from tag (depth + 1) (pos + (next_open + tag_end + 1)) (drop (next_open + tag_end + 1) s))
          | None \<Rightarrow>
              if depth - 1 = 0 then Some (pos + next_close)
              else find_end_from tag (depth - 1) (pos + (next_close + length (close_tag tag)))
                     (drop (next_close + length (close_tag tag)) s)))"
  by auto

termination
proof (relation "measure (\<lambda>(tag, depth, pos, s). length s)")
  fix tag depth pos s next_close
  assume "str_index (close_tag tag) s = Some next_close"
  then have "next_close < length s" by (simp add: str_index_bound)
  moreover have "0 < length (close_tag tag)" by (simp del: length_greater_0_conv add: close_tag_def)
  ultimately have "length s - (next_close + length (close_tag tag)) < length s" by linarith
  then show "((tag, depth - 1, pos + (next_close + length (close_tag tag)), drop (next_close + length (close_tag tag)) s),
      (tag, depth, pos, s)) \<in> measure (\<lambda>(tag, depth, pos, s). length s)" for depth :: int and pos by simp
qed (auto simp: earlier_Some dest: str_index_bound)

declare find_end_from.simps [simp del]

definition find_matching_end_tag :: "string \<Rightarrow> string \<Rightarrow> nat option" where
  "find_matching_end_tag tag s = find_end_from tag 0 0 s"

definition tag_names :: "string list" where
  "tag_names = [''inline'', ''choose'', ''try'', ''remove'', ''vars'', ''comment'', ''include'']"

text \<open>The first tag of the input: the earliest, and of those the first in the list.\<close>

fun first_tag :: "string list \<Rightarrow> string \<Rightarrow> (nat \<times> string) option \<Rightarrow> (nat \<times> string) option" where
  "first_tag [] input found = found"
| "first_tag (t # ts) input found =
     (case str_index (open_tag t) input of
        None \<Rightarrow> first_tag ts input found
      | Some idx \<Rightarrow>
          (case found of
             None \<Rightarrow> first_tag ts input (Some (idx, t))
           | Some (start, tag) \<Rightarrow> first_tag ts input (if idx < start then Some (idx, t) else found)))"

text \<open>The end of the tag that the text starts with.\<close>

definition tag_end :: "string \<Rightarrow> string \<Rightarrow> nat option" where
  "tag_end tag s =
    (if tag \<in> {''try'', ''choose'', ''inline'', ''remove'', ''vars''}
     then map_option (\<lambda>e. e + length (close_tag tag)) (find_matching_end_tag tag s)
     else case str_index ''>'' s of
            None \<Rightarrow> None
          | Some e \<Rightarrow>
              if tag = ''include'' \<and> s ! (e - 1) \<noteq> CHR ''/''
              then map_option (\<lambda>e. e + length (close_tag tag)) (str_index (close_tag tag) s)
              else Some (e + 1))"

lemma tag_end_pos: "tag_end tag s = Some e \<Longrightarrow> 0 < e"
  by (auto simp: tag_end_def close_tag_def split: if_splits option.splits)

lemma first_tag_sound:
  assumes "first_tag ts input found = Some (start, tag)"
    and "\<And>i t. found = Some (i, t) \<Longrightarrow> str_index (open_tag t) input = Some i \<and> t \<in> T" and "set ts \<subseteq> T"
  shows "str_index (open_tag tag) input = Some start \<and> tag \<in> T"
  using assms
proof (induction ts input found rule: first_tag.induct)
  case (2 t ts input found)
  show ?case
  proof (cases "str_index (open_tag t) input")
    case None
    then show ?thesis using 2 by simp
  next
    case (Some idx)
    with 2 show ?thesis by (cases found) (auto split: if_splits)
  qed
qed simp

lemma first_tag_found:
  assumes "first_tag tag_names input None = Some (start, tag)"
  shows "str_index (open_tag tag) input = Some start \<and> tag \<in> set tag_names"
  using first_tag_sound [OF assms, of "set tag_names"] by simp

function esi_tokenizer :: "string \<Rightarrow> esi_token list" where
  "esi_tokenizer input =
    (case first_tag tag_names input None of
       None \<Rightarrow> [static_token input]
     | Some (start, tag) \<Rightarrow>
         (if start > 0 then [static_token (take start input)] else [])
         @ (case tag_end tag (drop start input) of
              None \<Rightarrow> [static_token (drop start input)]
            | Some e \<Rightarrow> tag_token tag (take e (drop start input)) # esi_tokenizer (drop e (drop start input))))"
  by auto

termination
proof (relation "measure length")
  fix input x start tag e
  assume "first_tag tag_names input None = Some x" and "(start, tag) = x" and "tag_end tag (drop start input) = Some e"
  then have "start < length input" "0 < e"
    using first_tag_found str_index_bound tag_end_pos by fastforce+
  then show "(drop e (drop start input), input) \<in> measure length" by simp
qed simp

declare esi_tokenizer.simps [simp del]

subsection \<open>The tokens are the page\<close>

text \<open>A token is static text, or a tag that starts with its own opening.\<close>

definition token_ok :: "esi_token \<Rightarrow> bool" where
  "token_ok t \<longleftrightarrow>
    (if is_esi t then static_content t = [] \<and> esi_tag_type t \<in> set tag_names
       \<and> prefix (open_tag (esi_tag_type t)) (esi_tag_content t)
     else esi_tag_content t = [])"

lemma index_after_clean:
  assumes "str_index (c # cs) s = Some e" and "prefix u s" and "c \<notin> set u"
  shows "length u \<le> e"
proof (rule ccontr)
  assume "\<not> length u \<le> e"
  then have "e < length u" by simp
  moreover have "prefix (c # cs) (drop e s)" using str_index_Some [OF assms(1)] by blast
  then have "s ! e = c" using \<open>e < length u\<close> assms(2) prefix_length_le [OF assms(2)]
    by (metis Cons_nth_drop_Suc Cons_prefix_Cons order_less_le_trans)
  ultimately show False using assms(2,3) by (metis nth_mem prefix_def nth_append)
qed

lemma find_end_ge: "find_end_from tag depth pos s = Some e \<Longrightarrow> pos \<le> e"
proof (induction tag depth pos s rule: find_end_from.induct)
  case (1 tag depth pos s)
  then show ?case
    by (subst (asm) (3) find_end_from.simps) (fastforce split: option.splits if_splits)
qed

lemma names_clean:
  assumes "tag \<in> set tag_names"
  shows "CHR ''>'' \<notin> set (open_tag tag)" and "\<not> prefix (close_tag tag) (open_tag tag @ r)"
    and "CHR ''/'' \<notin> set (open_tag tag)"
  using assms by (auto simp: tag_names_def open_tag_def close_tag_def)

lemma tag_end_covers:
  assumes "tag_end tag s = Some e" and "prefix (open_tag tag) s" and "tag \<in> set tag_names"
  shows "length (open_tag tag) \<le> e"
proof -
  note gt = index_after_clean [OF _ assms(2) names_clean(1) [OF assms(3)]]
  obtain r where s: "s = open_tag tag @ r" using assms(2) by (auto simp: prefix_def)
  have block: "length (open_tag tag) \<le> k" if "find_matching_end_tag tag s = Some k" for k
  proof -
    have u: "find_end_from tag 0 0 s = Some k" using that by (simp add: find_matching_end_tag_def)
    obtain n where n: "str_index (close_tag tag) s = Some n"
      using u by (subst (asm) find_end_from.simps) (simp split: option.splits)
    have "n \<noteq> 0" using str_index_Some [OF n] names_clean(2) [OF assms(3), of r] s by (cases n) auto
    moreover have "str_index (open_tag tag) s = Some 0" using s by (cases s) (auto simp: open_tag_def)
    ultimately have "earlier (str_index (open_tag tag) s) n = Some 0" by (simp add: earlier_Some)
    with u n obtain g where "str_index ''>'' s = Some g" and "find_end_from tag 1 (g + 1) (drop (g + 1) s) = Some k"
      by (subst (asm) find_end_from.simps) (simp split: option.splits)
    then show ?thesis using gt [of "[]" g] find_end_ge by fastforce
  qed
  have after: "length (open_tag tag) \<le> k" if "str_index (close_tag tag) s = Some k" for k
  proof -
    have "CHR ''/'' \<notin> set (open_tag tag)" using names_clean(3) [OF assms(3)] .
    show ?thesis
    proof (rule ccontr)
      assume "\<not> length (open_tag tag) \<le> k"
      then have k: "k < length (open_tag tag)" by simp
      have p: "prefix (close_tag tag) (drop k s)" using str_index_Some [OF that] by blast
      have "k < length s" using k by (simp add: s)
      then have "drop k s \<noteq> []" "s ! k = hd (drop k s)" by (simp_all add: hd_drop_conv_nth)
      then have "s ! k = CHR ''<''" using p by (cases "drop k s") (auto simp: close_tag_def)
      then have "open_tag tag ! k = CHR ''<''" using k by (simp add: s nth_append_left)
      then have "k = 0" using k assms(3) by (auto simp: tag_names_def open_tag_def nth_Cons' split: if_splits)
      with p s names_clean(2) [OF assms(3), of r] show False by simp
    qed
  qed
  show ?thesis
    using assms(1) block after gt [of "[]"] by (fastforce simp: tag_end_def split: if_splits option.splits)
qed

lemma tokens_of_page:
  "concat (map (\<lambda>t. static_content t @ esi_tag_content t) (esi_tokenizer input)) = input
   \<and> list_all token_ok (esi_tokenizer input)"
proof (induction input rule: esi_tokenizer.induct)
  case (1 input)
  have s: "token_ok (static_token x)" for x by (simp add: token_ok_def static_token_def is_esi_def)
  show ?case
  proof (cases "first_tag tag_names input None")
    case None
    then show ?thesis using s by (subst (1 2) esi_tokenizer.simps) (simp add: static_token_def)
  next
    case (Some x)
    obtain start tag where x: "x = (start, tag)" by (cases x)
    let ?r = "drop start input"
    from first_tag_found Some x have f: "prefix (open_tag tag) ?r" "tag \<in> set tag_names"
      using str_index_Some by blast+
    show ?thesis
    proof (cases "tag_end tag ?r")
      case None
      then show ?thesis using Some x s by (subst (1 2) esi_tokenizer.simps) (simp add: static_token_def)
    next
      case (Some e)
      have "prefix (open_tag tag) (take e ?r)"
        using f(1) tag_end_covers [OF Some f] by (metis prefix_def take_all_iff take_append append_take_drop_id prefix_order.refl take_is_prefix prefix_length_prefix prefix_length_le length_take min.absorb_iff2 min_def)
      moreover have "tag \<noteq> []" "take e ?r \<noteq> []"
        using f tag_end_pos [OF Some] by (auto simp: tag_names_def)
      ultimately have "token_ok (tag_token tag (take e ?r))" using f(2) by (simp add: token_ok_def tag_token_def is_esi_def)
      moreover have "take start input @ take e ?r @ drop e ?r = input" by (simp only: append_take_drop_id)
      moreover have "start = 0 \<Longrightarrow> take e ?r @ drop e ?r = input" by simp
      moreover note 1 [OF \<open>first_tag tag_names input None = Some x\<close> x [symmetric] Some]
      ultimately show ?thesis
        using \<open>first_tag tag_names input None = Some x\<close> s
        by (subst (1 2) esi_tokenizer.simps)
          (simp add: x Some static_token_def tag_token_def del: drop_drop append_take_drop_id)
    qed
  qed
qed

text \<open>C28: the tokenizer loses nothing and invents nothing: for every input, well formed or not, the
  contents of its tokens, in order, are the input byte for byte, and each token is either static text or
  begins with the opening of the tag it is named after.\<close>

theorem tokenizer_lossless:
  "concat (map (\<lambda>t. static_content t @ esi_tag_content t) (esi_tokenizer input)) = input
   \<and> list_all token_ok (esi_tokenizer input)"
  by (rule tokens_of_page)

text \<open>Shorter than the page.\<close>

lemma token_length: "t \<in> set (esi_tokenizer input) \<Longrightarrow> length (esi_tag_content t) \<le> length input"
proof -
  assume "t \<in> set (esi_tokenizer input)"
  then obtain xs ys where "esi_tokenizer input = xs @ t # ys" by (meson split_list)
  then have "length input = length (concat (map (\<lambda>t. static_content t @ esi_tag_content t) (xs @ t # ys)))"
    using tokens_of_page [of input] by simp
  then show ?thesis by simp
qed

end
