(* ===== verification/Go_Blocks.thy ===== *)
theory Go_Blocks
  imports Go_Tokens
begin

text \<open>
  The blocks of \<open>parser.go\<close> and \<open>inline.go\<close>: the bodies of try, choose and inline tags.  The four
  functions that look for the end of an attempt, except, when or otherwise are one definition with the
  names of the tags as arguments.
\<close>

subsection \<open>Ends of blocks\<close>

definition first_of :: "nat option \<Rightarrow> nat option \<Rightarrow> nat option" where
  "first_of a b =
    (case a of
       None \<Rightarrow> b
     | Some x \<Rightarrow> (case b of None \<Rightarrow> a | Some y \<Rightarrow> if x < y then a else b))"

lemma first_of_Some: "first_of a b = Some n \<Longrightarrow> a = Some n \<or> b = Some n"
  by (auto simp: first_of_def split: option.splits if_splits)

text \<open>Past the opening tag at position \<open>i\<close>: the offset behind its bracket.\<close>

definition past_tag :: "nat \<Rightarrow> string \<Rightarrow> nat option" where
  "past_tag i s = map_option (\<lambda>e. i + e + 1) (str_index ''>'' (drop i s))"

lemma past_tag_pos: "past_tag i s = Some k \<Longrightarrow> 0 < k \<and> k \<le> length s"
  using str_index_Some [of "''>''" "drop i s"] by (auto simp: past_tag_def)

lemma close_tag_pos: "0 < length (close_tag tag)"
  by (simp add: close_tag_def)

lemma first_close_bound:
  assumes "first_of (str_index (close_tag block) s) (str_index (close_tag outer) s) = Some n"
  shows "n < length s"
  using first_of_Some [OF assms] str_index_bound tag_texts(2) by blast

text \<open>\<open>findAttemptClose\<close> and its like: \<open>block\<close> is the block whose end is sought, \<open>outer\<close> its kind of parent.\<close>

function find_block_end :: "string \<Rightarrow> string \<Rightarrow> int \<Rightarrow> nat \<Rightarrow> string \<Rightarrow> nat option" where
  "find_block_end block outer depth pos s =
    (let next_close = str_index (close_tag block) s
     in case first_of next_close (str_index (close_tag outer) s) of
          None \<Rightarrow> None
        | Some first_close \<Rightarrow>
            (case earlier (first_of (str_index (open_tag block) s) (str_index (open_tag outer) s)) first_close of
               Some first_open \<Rightarrow>
                 (case past_tag first_open s of
                    None \<Rightarrow> None
                  | Some k \<Rightarrow> find_block_end block outer (depth + 1) (pos + k) (drop k s))
             | None \<Rightarrow>
                 if depth = 0 \<and> next_close = Some first_close then Some (pos + first_close)
                 else
                   (let k = first_close + length (close_tag (if next_close = Some first_close then block else outer))
                    in find_block_end block outer (depth - 1) (pos + k) (drop k s))))"
  by auto

termination
proof (relation "measure (\<lambda>(block, outer, depth, pos, s). length s)")
  fix block outer depth pos s x first_close xa
  assume x: "x = str_index (close_tag block) s" and f: "first_of x (str_index (close_tag outer) s) = Some first_close"
    and k: "xa = first_close + length (close_tag (if x = Some first_close then block else outer))"
  have "first_close < length s" using first_close_bound f x by blast
  moreover have "0 < length (close_tag (if x = Some first_close then block else outer))" by (rule close_tag_pos)
  ultimately have "length (drop xa s) < length s" unfolding k length_drop by linarith
  then show "((block, outer, depth - 1, pos + xa, drop xa s), block, outer, depth, pos, s)
      \<in> measure (\<lambda>(block, outer, depth, pos, s). length s)" for depth :: int and pos by simp
next
  fix block outer depth pos s x first_close first_open k
  assume "past_tag first_open s = Some k"
  then have "0 < k" "k \<le> length s" by (simp_all add: past_tag_pos)
  then show "((block, outer, depth + 1, pos + k, drop k s), block, outer, depth, pos, s)
      \<in> measure (\<lambda>(block, outer, depth, pos, s). length s)" for depth :: int and pos by simp
qed simp

declare find_block_end.simps [simp del]

definition find_attempt_close :: "string \<Rightarrow> nat option" where
  "find_attempt_close s = find_block_end ''attempt'' ''try'' 0 0 s"

definition find_except_close :: "string \<Rightarrow> nat option" where
  "find_except_close s = find_block_end ''except'' ''try'' 0 0 s"

definition find_when_close :: "string \<Rightarrow> nat option" where
  "find_when_close s = find_block_end ''when'' ''choose'' 0 0 s"

definition find_otherwise_close :: "string \<Rightarrow> nat option" where
  "find_otherwise_close s = find_block_end ''otherwise'' ''choose'' 0 0 s"

text \<open>\<open>findTryClose\<close>: where the close tag starts.\<close>

function find_try_from :: "int \<Rightarrow> nat \<Rightarrow> string \<Rightarrow> nat option" where
  "find_try_from depth pos s =
    (case str_index (close_tag ''try'') s of
       None \<Rightarrow> None
     | Some next_close \<Rightarrow>
         (case earlier (str_index (open_tag ''try'') s) next_close of
            Some next_open \<Rightarrow>
              (case past_tag next_open s of
                 None \<Rightarrow> None
               | Some k \<Rightarrow> find_try_from (depth + 1) (pos + k) (drop k s))
          | None \<Rightarrow>
              if depth = 0 then Some (pos + next_close)
              else let k = next_close + length (close_tag ''try'') in find_try_from (depth - 1) (pos + k) (drop k s)))"
  by auto

termination
  by (relation "measure (\<lambda>(depth, pos, s). length s)")
    (auto simp: close_tag_def dest: str_index_bound past_tag_pos)

declare find_try_from.simps [simp del]

definition find_try_close :: "string \<Rightarrow> nat option" where
  "find_try_close s = find_try_from 0 0 s"

text \<open>\<open>findChooseClose\<close>: behind the close tag.\<close>

function find_choose_from :: "int \<Rightarrow> nat \<Rightarrow> string \<Rightarrow> nat option" where
  "find_choose_from depth pos s =
    (case str_index (close_tag ''choose'') s of
       None \<Rightarrow> None
     | Some next_close \<Rightarrow>
         (case earlier (str_index (open_tag ''choose'') s) next_close of
            Some next_open \<Rightarrow>
              (case past_tag next_open s of
                 None \<Rightarrow> None
               | Some k \<Rightarrow> find_choose_from (depth + 1) (pos + k) (drop k s))
          | None \<Rightarrow>
              let k = next_close + length (close_tag ''choose'')
              in if depth = 0 then Some (pos + k) else find_choose_from (depth - 1) (pos + k) (drop k s)))"
  by auto

termination
  by (relation "measure (\<lambda>(depth, pos, s). length s)")
    (auto simp: close_tag_def dest: str_index_bound past_tag_pos)

declare find_choose_from.simps [simp del]

definition find_choose_close :: "string \<Rightarrow> nat option" where
  "find_choose_close s = find_choose_from 0 0 s"

lemma find_try_ge: "find_try_from depth pos s = Some e \<Longrightarrow> pos \<le> e"
proof (induction depth pos s rule: find_try_from.induct)
  case (1 depth pos s)
  from 1(3) show ?case
    by (subst (asm) find_try_from.simps) (fastforce simp: Let_def dest: 1(1,2) split: option.splits if_splits)
qed

lemma find_choose_pos: "find_choose_from depth pos s = Some e \<Longrightarrow> pos < e"
proof (induction depth pos s rule: find_choose_from.induct)
  case (1 depth pos s)
  obtain n where n: "str_index (close_tag ''choose'') s = Some n"
    using 1(3) by (subst (asm) find_choose_from.simps) (simp split: option.splits)
  show ?case
  proof (cases "earlier (str_index (open_tag ''choose'') s) n")
    case None
    let ?k = "n + length (close_tag ''choose'')"
    have "depth = 0 \<and> e = pos + ?k \<or> depth \<noteq> 0 \<and> find_choose_from (depth - 1) (pos + ?k) (drop ?k s) = Some e"
      using 1(3) n None by (subst (asm) find_choose_from.simps) (simp add: Let_def split: if_splits)
    moreover have "pos + ?k < e" if "depth \<noteq> 0" "find_choose_from (depth - 1) (pos + ?k) (drop ?k s) = Some e"
      by (rule 1(1) [OF n None refl that])
    ultimately show ?thesis using close_tag_pos [of "''choose''"] by linarith
  next
    case (Some m)
    then obtain k where k: "past_tag m s = Some k" and r: "find_choose_from (depth + 1) (pos + k) (drop k s) = Some e"
      using 1(3) n by (subst (asm) find_choose_from.simps) (simp split: option.splits)
    from 1(2) [OF n Some k r] show ?thesis by simp
  qed
qed

lemma find_try_close_pos:
  assumes "find_try_close s = Some e" and "prefix (open_tag ''try'') s"
  shows "0 < e"
proof -
  obtain r where s: "s = open_tag ''try'' @ r" using assms(2) by (auto simp: prefix_def)
  have u: "find_try_from 0 0 s = Some e" using assms(1) by (simp add: find_try_close_def)
  obtain n where n: "str_index (close_tag ''try'') s = Some n"
    using u by (subst (asm) find_try_from.simps) (simp split: option.splits)
  have "n \<noteq> 0" using str_index_Some [OF n] s by (cases n) (auto simp: close_tag_def open_tag_def)
  moreover have "str_index (open_tag ''try'') s = Some 0" using s by (cases s) (auto simp: open_tag_def)
  ultimately have "earlier (str_index (open_tag ''try'') s) n = Some 0" by (simp add: earlier_Some)
  with u n obtain k where "past_tag 0 s = Some k" and "find_try_from 1 k (drop k s) = Some e"
    by (subst (asm) find_try_from.simps) (simp split: option.splits)
  then show ?thesis using past_tag_pos [of 0 s k] find_try_ge [of 1 k "drop k s" e] by linarith
qed

subsection \<open>Try blocks\<close>

text \<open>The first attempt behind the nested try blocks.\<close>

function skip_to_attempt :: "string \<Rightarrow> string option" where
  "skip_to_attempt r =
    (case str_index (open_tag ''attempt'') r of
       None \<Rightarrow> None
     | Some next_attempt \<Rightarrow>
         (case earlier (str_index (open_tag ''try'') r) next_attempt of
            Some next_try \<Rightarrow>
              (case find_try_close (drop next_try r) of
                 None \<Rightarrow> None
               | Some nested_end \<Rightarrow> skip_to_attempt (drop (next_try + nested_end) r))
          | None \<Rightarrow> Some (drop next_attempt r)))"
  by auto

termination
proof (relation "measure length")
  fix r next_attempt next_try nested_end
  assume "earlier (str_index (open_tag ''try'') r) next_attempt = Some next_try"
    and e: "find_try_close (drop next_try r) = Some nested_end"
  then have t: "str_index (open_tag ''try'') r = Some next_try" by (simp add: earlier_Some)
  have "0 < nested_end" using find_try_close_pos [OF e] str_index_Some [OF t] by blast
  moreover have "next_try < length r" using str_index_bound [OF t] by simp
  ultimately show "(drop (next_try + nested_end) r, r) \<in> measure length" by simp
qed simp

declare skip_to_attempt.simps [simp del]

definition extract_except :: "string \<Rightarrow> string" where
  "extract_except r =
    (case str_index (open_tag ''except'') r of
       None \<Rightarrow> []
     | Some except_start \<Rightarrow>
         (case past_tag except_start r of
            None \<Rightarrow> []
          | Some k \<Rightarrow>
              (case find_except_close (drop k r) of None \<Rightarrow> [] | Some except_len \<Rightarrow> take except_len (drop k r))))"

definition extract_try_blocks :: "string \<Rightarrow> string \<times> string" where
  "extract_try_blocks raw =
    (case past_tag 0 raw of
       None \<Rightarrow> ([], [])
     | Some k \<Rightarrow>
         (case skip_to_attempt (drop k raw) of
            None \<Rightarrow> ([], [])
          | Some r \<Rightarrow>
              (case past_tag 0 r of
                 None \<Rightarrow> ([], [])
               | Some j \<Rightarrow>
                   (let body = drop j r
                    in case find_attempt_close body of
                         None \<Rightarrow> (body, [])
                       | Some attempt_len \<Rightarrow>
                           (take attempt_len body,
                            extract_except (drop (attempt_len + length (close_tag ''attempt'')) body))))))"

subsection \<open>Choose blocks\<close>

text \<open>\<open>findChooseChildTag\<close>; \<open>pos\<close> is how far the search has come.\<close>

function find_child_from :: "nat \<Rightarrow> string \<Rightarrow> string \<Rightarrow> nat option" where
  "find_child_from pos s tag =
    (case str_index tag s of
       None \<Rightarrow> None
     | Some next_target \<Rightarrow>
         (case earlier (str_index (open_tag ''choose'') s) next_target of
            Some next_nested \<Rightarrow>
              (case find_choose_close (drop next_nested s) of
                 None \<Rightarrow> None
               | Some nested_close \<Rightarrow>
                   find_child_from (pos + (next_nested + nested_close)) (drop (next_nested + nested_close) s) tag)
          | None \<Rightarrow> Some (pos + next_target)))"
  by auto

termination
proof (relation "measure (\<lambda>(pos, s, tag). length s)")
  fix pos s tag next_target next_nested nested_close
  assume "earlier (str_index (open_tag ''choose'') s) next_target = Some next_nested"
    and "find_choose_close (drop next_nested s) = Some nested_close"
  then have "next_nested < length s" "0 < nested_close"
    using str_index_bound find_choose_pos by (auto simp: earlier_Some find_choose_close_def)
  then show "((pos + (next_nested + nested_close), drop (next_nested + nested_close) s, tag), pos, s, tag)
      \<in> measure (\<lambda>(pos, s, tag). length s)" for pos :: nat and tag :: string by simp
qed simp

declare find_child_from.simps [simp del]

definition find_choose_child_tag :: "string \<Rightarrow> string \<Rightarrow> nat option" where
  "find_choose_child_tag s tag = find_child_from 0 s tag"

lemma child_from_target: "find_child_from pos s tag = Some e \<Longrightarrow> pos \<le> e \<and> prefix tag (drop (e - pos) s)"
proof (induction pos s tag rule: find_child_from.induct)
  case (1 pos s tag)
  obtain t where t: "str_index tag s = Some t"
    using 1(2) by (subst (asm) find_child_from.simps) (simp split: option.splits)
  show ?case
  proof (cases "earlier (str_index (open_tag ''choose'') s) t")
    case None
    with 1(2) t have "e = pos + t" by (subst (asm) find_child_from.simps) simp
    then show ?thesis using str_index_Some [OF t] by simp
  next
    case (Some n)
    with 1(2) t obtain c where c: "find_choose_close (drop n s) = Some c"
      and r: "find_child_from (pos + (n + c)) (drop (n + c) s) tag = Some e"
      by (subst (asm) find_child_from.simps) (simp split: option.splits)
    from 1(1) [OF t Some c r] have "pos + (n + c) \<le> e" "prefix tag (drop (e - (pos + (n + c))) (drop (n + c) s))" by blast+
    then show ?thesis by simp
  qed
qed

lemma child_tag_target: "find_choose_child_tag s tag = Some i \<Longrightarrow> prefix tag (drop i s)"
  using child_from_target [of 0 s tag i] by (simp add: find_choose_child_tag_def)

lemma child_tag_bound: "find_choose_child_tag s tag = Some i \<Longrightarrow> tag \<noteq> [] \<Longrightarrow> i < length s"
  using child_tag_target [of s tag i] by (cases "i < length s") auto

record when_block =
  wb_test :: string
  wb_body :: string

text \<open>One when tag, at the start of the text.\<close>

datatype when_step =
    WhenSkip nat
  | WhenStop
  | WhenLast when_block
  | WhenNext when_block nat

definition read_when :: "string \<Rightarrow> when_step" where
  "read_when s =
    (case str_index (''test='' @ [CHR 0x22]) s of
       None \<Rightarrow> (case past_tag 0 s of None \<Rightarrow> WhenStop | Some k \<Rightarrow> WhenSkip k)
     | Some i \<Rightarrow>
         (let test_start = i + 6
          in case str_index [CHR 0x22] (drop test_start s) of
               None \<Rightarrow> WhenStop
             | Some test_len \<Rightarrow>
                 (let test = take test_len (drop test_start s)
                  in case past_tag (test_start + test_len) s of
                       None \<Rightarrow> WhenStop
                     | Some body_start \<Rightarrow>
                         (let body = drop body_start s
                          in case find_when_close body of
                               None \<Rightarrow> WhenLast \<lparr> wb_test = test, wb_body = body \<rparr>
                             | Some n \<Rightarrow>
                                 WhenNext \<lparr> wb_test = test, wb_body = take n body \<rparr>
                                   (body_start + n + length (close_tag ''when''))))))"

text \<open>The \<open>otherwise\<close> tag at the start of the text: its body, and where the loop goes on.\<close>

definition read_otherwise :: "string \<Rightarrow> (string \<times> nat option) option" where
  "read_otherwise s =
    (case past_tag 0 s of
       None \<Rightarrow> None
     | Some k \<Rightarrow>
         (case find_otherwise_close (drop k s) of
            None \<Rightarrow> Some (drop k s, None)
          | Some n \<Rightarrow> Some (take n (drop k s), Some (k + n + length (close_tag ''otherwise'')))))"

lemma read_when_progress: "read_when s = WhenSkip k \<Longrightarrow> 0 < k" "read_when s = WhenNext b k \<Longrightarrow> 0 < k"
  by (auto simp: read_when_def Let_def close_tag_def dest: past_tag_pos split: option.splits)

lemma read_otherwise_progress: "read_otherwise s = Some (b, Some k) \<Longrightarrow> 0 < k"
  by (auto simp: read_otherwise_def close_tag_def split: option.splits)

text \<open>\<open>a\<close> comes before \<open>b\<close>, which may be missing.\<close>

definition comes_first :: "nat option \<Rightarrow> nat option \<Rightarrow> bool" where
  "comes_first a b = (case a of None \<Rightarrow> False | Some x \<Rightarrow> (case b of None \<Rightarrow> True | Some y \<Rightarrow> x < y))"

function choose_from :: "when_block list \<Rightarrow> string \<Rightarrow> string \<Rightarrow> when_block list \<times> string" where
  "choose_from whens otherwise r =
    (let next_when = find_choose_child_tag r (open_tag ''when'');
         next_otherwise = find_choose_child_tag r (open_tag ''otherwise'');
         next_close = find_choose_child_tag r (close_tag ''choose'')
     in if next_when = None \<and> next_otherwise = None then (whens, otherwise)
        else if comes_first next_close next_when \<and> comes_first next_close next_otherwise then (whens, otherwise)
        else if comes_first next_when next_otherwise then
          (let i = the next_when
           in case read_when (drop i r) of
                WhenSkip k \<Rightarrow> choose_from whens otherwise (drop (i + k) r)
              | WhenStop \<Rightarrow> (whens, otherwise)
              | WhenLast b \<Rightarrow> (whens @ [b], otherwise)
              | WhenNext b k \<Rightarrow> choose_from (whens @ [b]) otherwise (drop (i + k) r))
        else
          (case next_otherwise of
             None \<Rightarrow> (whens, otherwise)
           | Some i \<Rightarrow>
               (case read_otherwise (drop i r) of
                  None \<Rightarrow> (whens, otherwise)
                | Some (body, None) \<Rightarrow> (whens, body)
                | Some (body, Some k) \<Rightarrow> choose_from whens body (drop (i + k) r))))"
  by pat_completeness auto

termination
proof (relation "measure (\<lambda>(whens, otherwise, r). length r)")
  have step: "length (drop (i + k) r) < length r" if "i < length r" "0 < k" for i k and r :: string
    using that by simp
  fix whens :: "when_block list" and otherwise r x xa xb i b k
  assume x: "x = find_choose_child_tag r (open_tag ''when'')" and f: "comes_first x xa" and i: "i = the x"
  then have b: "i < length r"
    using child_tag_bound [of r "open_tag ''when''" i] by (auto simp: comes_first_def split: option.splits)
  show "read_when (drop i r) = WhenSkip k \<Longrightarrow> ((whens, otherwise, drop (i + k) r), whens, otherwise, r)
      \<in> measure (\<lambda>(whens, otherwise, r). length r)"
    using step [OF b read_when_progress(1)] by simp
  show "read_when (drop i r) = WhenNext b k \<Longrightarrow> ((whens @ [b], otherwise, drop (i + k) r), whens, otherwise, r)
      \<in> measure (\<lambda>(whens, otherwise, r). length r)"
    using step [OF b read_when_progress(2)] by simp
next
  fix whens :: "when_block list" and otherwise r x xa xb i y body o1 k
  assume xa: "xa = find_choose_child_tag r (open_tag ''otherwise'')" and i: "xa = Some i"
    and r: "read_otherwise (drop i r) = Some y" and y: "(body, o1) = y" "o1 = Some k"
  have "i < length r" using child_tag_bound [of r "open_tag ''otherwise''" i] xa i by simp
  moreover have "0 < k" using read_otherwise_progress [of "drop i r" body k] r y by simp
  ultimately show "((whens, body, drop (i + k) r), whens, otherwise, r) \<in> measure (\<lambda>(whens, otherwise, r). length r)"
    by simp
qed simp

declare choose_from.simps [simp del]

definition extract_choose_blocks :: "string \<Rightarrow> when_block list \<times> string" where
  "extract_choose_blocks raw =
    (case past_tag 0 raw of
       None \<Rightarrow> ([], [])
     | Some k \<Rightarrow> choose_from [] [] (drop k raw))"

subsection \<open>Inline blocks\<close>

text \<open>\<open>quote_char\<close> is the quotation mark the scan is inside of.\<close>

fun unquoted_close_from :: "char option \<Rightarrow> string \<Rightarrow> nat option" where
  "unquoted_close_from quote_char [] = None"
| "unquoted_close_from (Some q) (c # cs) =
     map_option Suc (unquoted_close_from (if c = q then None else Some q) cs)"
| "unquoted_close_from None (c # cs) =
     (if c = CHR 0x22 \<or> c = CHR 0x27 then map_option Suc (unquoted_close_from (Some c) cs)
      else if c = CHR ''>'' then Some 0
      else map_option Suc (unquoted_close_from None cs))"

definition find_unquoted_close_bracket :: "string \<Rightarrow> nat option" where
  "find_unquoted_close_bracket s = unquoted_close_from None s"

definition process_inline_block :: "string \<Rightarrow> string" where
  "process_inline_block raw =
    (case find_unquoted_close_bracket raw of
       None \<Rightarrow> raw
     | Some k \<Rightarrow>
         (let body = drop (k + 1) raw
          in case last_index (close_tag ''inline'') body of None \<Rightarrow> body | Some n \<Rightarrow> take n body))"

subsection \<open>The bodies are parts of the block\<close>

lemma sublist_trans2: "sublist x (take n (drop k s)) \<Longrightarrow> sublist x s"
  by (meson sublist_order.order.trans sublist_take sublist_drop)

lemma sublist_drop2: "sublist x (drop k s) \<Longrightarrow> sublist x s"
  by (meson sublist_order.order.trans sublist_drop)

lemma skip_part: "skip_to_attempt r = Some r' \<Longrightarrow> \<exists>k. r' = drop k r"
proof (induction r rule: skip_to_attempt.induct)
  case (1 r)
  obtain a where a: "str_index (open_tag ''attempt'') r = Some a"
    using 1(2) by (subst (asm) skip_to_attempt.simps) (simp split: option.splits)
  show ?case
  proof (cases "earlier (str_index (open_tag ''try'') r) a")
    case None
    with 1(2) a show ?thesis by (subst (asm) skip_to_attempt.simps) auto
  next
    case (Some t)
    with 1(2) a obtain n where n: "find_try_close (drop t r) = Some n" and s: "skip_to_attempt (drop (t + n) r) = Some r'"
      by (subst (asm) skip_to_attempt.simps) (simp split: option.splits)
    from 1(1) [OF a Some n s] show ?thesis by auto
  qed
qed

text \<open>A body that is strictly shorter than its block.\<close>

definition inner :: "string \<Rightarrow> string \<Rightarrow> bool" where
  "inner body raw \<longleftrightarrow> sublist body raw \<and> (body = [] \<or> length body < length raw)"

lemma inner_drop: "past_tag i raw = Some k \<Longrightarrow> sublist body (drop k raw) \<Longrightarrow> inner body raw"
  using past_tag_pos [of i raw k] sublist_drop2 [of body k raw] sublist_length_le [of body "drop k raw"]
  by (auto simp: inner_def)

lemma inner_Nil [simp]: "inner [] raw"
  by (simp add: inner_def)

lemma except_part: "sublist (extract_except r) r"
  by (auto simp: extract_except_def split: option.split intro: sublist_trans2)

lemma try_blocks_inner: "inner (fst (extract_try_blocks raw)) raw" "inner (snd (extract_try_blocks raw)) raw"
proof -
  have "inner (fst (extract_try_blocks raw)) raw \<and> inner (snd (extract_try_blocks raw)) raw"
  proof (cases "past_tag 0 raw")
    case None
    then show ?thesis by (simp add: extract_try_blocks_def)
  next
    case (Some k)
    note in_raw = inner_drop [OF Some]
    show ?thesis
    proof (cases "skip_to_attempt (drop k raw)")
      case None
      then show ?thesis by (simp add: extract_try_blocks_def Some)
    next
      case (Some r)
      then obtain m where m: "r = drop m (drop k raw)" using skip_part by blast
      have "sublist x r \<Longrightarrow> inner x raw" for x using in_raw sublist_drop2 [of x m "drop k raw"] m by simp
      then show ?thesis
        using \<open>past_tag 0 raw = Some k\<close> Some except_part
        by (auto simp: extract_try_blocks_def Let_def split: option.split
            intro: sublist_drop2 sublist_trans2 sublist_take)
    qed
  qed
  then show "inner (fst (extract_try_blocks raw)) raw" "inner (snd (extract_try_blocks raw)) raw" by blast+
qed

lemma read_when_part:
  "read_when s = WhenLast b \<Longrightarrow> sublist (wb_body b) s" "read_when s = WhenNext b k \<Longrightarrow> sublist (wb_body b) s"
  by (auto simp: read_when_def Let_def intro: sublist_trans2 sublist_drop2 split: option.splits)

lemma read_otherwise_part: "read_otherwise s = Some (b, k) \<Longrightarrow> sublist b s"
  by (auto simp: read_otherwise_def intro: sublist_trans2 sublist_drop2 split: option.splits)

definition parts_of :: "string \<Rightarrow> when_block list \<times> string \<Rightarrow> bool" where
  "parts_of s = (\<lambda>(ws, other). (\<forall>b \<in> set ws. sublist (wb_body b) s) \<and> sublist other s)"

lemma choose_from_parts:
  "parts_of s (whens, other) \<Longrightarrow> sublist r s \<Longrightarrow> parts_of s (choose_from whens other r)"
proof (induction whens other r rule: choose_from.induct)
  case (1 whens other r)
  let ?w = "find_choose_child_tag r (open_tag ''when'')"
  let ?o = "find_choose_child_tag r (open_tag ''otherwise'')"
  let ?c = "find_choose_child_tag r (close_tag ''choose'')"
  have part: "sublist x (drop i r) \<Longrightarrow> sublist x s" for x i
    using 1(5) by (meson sublist_order.order.trans sublist_drop)
  have tail: "sublist (drop i r) s" for i using 1(5) by (meson sublist_order.order.trans sublist_drop)
  note step = choose_from.simps [of whens other r, unfolded Let_def]
  consider (stop) "?w = None \<and> ?o = None \<or> comes_first ?c ?w \<and> comes_first ?c ?o"
    | (whens) "\<not> (?w = None \<and> ?o = None)" "\<not> (comes_first ?c ?w \<and> comes_first ?c ?o)" "comes_first ?w ?o"
    | (other) "\<not> (?w = None \<and> ?o = None)" "\<not> (comes_first ?c ?w \<and> comes_first ?c ?o)" "\<not> comes_first ?w ?o"
    by blast
  then show ?case
  proof cases
    case stop
    then have "choose_from whens other r = (whens, other)" unfolding step by auto
    then show ?thesis using 1(4) by simp
  next
    case whens
    note IH = 1(1,2) [OF refl refl refl whens refl]
    note eq = step [unfolded if_not_P [OF whens(1)] if_not_P [OF whens(2)] if_P [OF whens(3)]]
    show ?thesis
    proof (cases "read_when (drop (the ?w) r)")
      case (WhenSkip k)
      then show ?thesis using IH(1) [OF WhenSkip 1(4) tail] by (simp add: eq)
    next
      case (WhenNext b k)
      have "parts_of s (whens @ [b], other)"
        using 1(4) part [OF read_when_part(2) [OF WhenNext]] by (auto simp: parts_of_def)
      then show ?thesis using IH(2) [OF WhenNext _ tail] WhenNext by (simp add: eq)
    next
      case (WhenLast b)
      then show ?thesis using 1(4) part [OF read_when_part(1) [OF WhenLast]] by (auto simp: eq parts_of_def)
    next
      case WhenStop
      then show ?thesis using 1(4) by (simp add: eq)
    qed
  next
    case other
    note eq = step [unfolded if_not_P [OF other(1)] if_not_P [OF other(2)] if_not_P [OF other(3)]]
    show ?thesis
    proof (cases ?o)
      case None
      then show ?thesis using 1(4) by (simp add: eq)
    next
      case (Some i)
      show ?thesis
      proof (cases "read_otherwise (drop i r)")
        case None
        then show ?thesis using 1(4) Some by (simp add: eq)
      next
        case (Some y)
        obtain body o1 where y: "y = (body, o1)" by (cases y)
        have p: "parts_of s (whens, body)"
          using 1(4) part [OF read_otherwise_part] Some y by (auto simp: parts_of_def)
        show ?thesis
        proof (cases o1)
          case None
          then show ?thesis using p Some y \<open>?o = Some i\<close> by (simp add: eq)
        next
          case k: (Some k)
          from 1(3) [OF refl refl refl other \<open>?o = Some i\<close> Some y [symmetric] k p tail]
          show ?thesis using k y Some \<open>?o = Some i\<close> by (simp add: eq)
        qed
      qed
    qed
  qed
qed

lemma choose_blocks_inner:
  assumes "extract_choose_blocks raw = (ws, other)"
  shows "\<forall>b \<in> set ws. inner (wb_body b) raw" and "inner other raw"
proof -
  have "(\<forall>b \<in> set ws. inner (wb_body b) raw) \<and> inner other raw"
  proof (cases "past_tag 0 raw")
    case None
    with assms show ?thesis by (simp add: extract_choose_blocks_def)
  next
    case (Some k)
    with assms have c: "choose_from [] [] (drop k raw) = (ws, other)" by (simp add: extract_choose_blocks_def)
    have "parts_of (drop k raw) (choose_from [] [] (drop k raw))"
      by (rule choose_from_parts) (simp_all add: parts_of_def)
    then have "parts_of (drop k raw) (ws, other)" by (simp add: c)
    then show ?thesis using inner_drop [OF Some] by (auto simp: parts_of_def)
  qed
  then show "\<forall>b \<in> set ws. inner (wb_body b) raw" and "inner other raw" by blast+
qed

subsection \<open>Plain bodies\<close>

definition tagless :: "string \<Rightarrow> bool" where
  "tagless s \<longleftrightarrow> \<not> contains s ''<esi:'' \<and> \<not> contains s ''</esi:''"

lemma index_skip:
  assumes "CHR ''<'' \<notin> set t" and "\<not> contains a (CHR ''<'' # t)"
  shows "str_index (CHR ''<'' # t) (a @ CHR ''<'' # r)
    = map_option (\<lambda>i. i + length a) (str_index (CHR ''<'' # t) (CHR ''<'' # r))"
  using assms(2)
proof (induction a)
  case (Cons c a)
  have "\<not> prefix (CHR ''<'' # t) (c # a @ CHR ''<'' # r)"
  proof
    assume p: "prefix (CHR ''<'' # t) (c # a @ CHR ''<'' # r)"
    then have c: "c = CHR ''<''" and "prefix t (a @ CHR ''<'' # r)" by auto
    then have "prefix t a" using assms(1) by (auto simp: prefix_append prefix_Cons)
    with Cons.prems c show False by simp
  qed
  then show ?case using Cons by (auto simp: option.map_comp comp_def)
qed (simp add: option.map_ident)

lemma contains_prefix: "contains s (u @ v) \<Longrightarrow> contains s u"
  by (auto simp: contains_iff)

lemma plain_index:
  assumes "tagless a" and "CHR ''<'' \<notin> set tag"
  shows "str_index (open_tag tag) (a @ CHR ''<'' # r)
      = map_option (\<lambda>i. i + length a) (str_index (open_tag tag) (CHR ''<'' # r))"
    and "str_index (close_tag tag) (a @ CHR ''<'' # r)
      = map_option (\<lambda>i. i + length a) (str_index (close_tag tag) (CHR ''<'' # r))"
proof -
  have "\<not> contains a (open_tag tag)" "\<not> contains a (close_tag tag)"
    using assms(1) contains_prefix [of a "''<esi:''" tag] contains_prefix [of a "''</esi:''" "tag @ ''>''"]
    by (auto simp: tagless_def open_tag_def close_tag_def)
  then show "str_index (open_tag tag) (a @ CHR ''<'' # r)
      = map_option (\<lambda>i. i + length a) (str_index (open_tag tag) (CHR ''<'' # r))"
    "str_index (close_tag tag) (a @ CHR ''<'' # r)
      = map_option (\<lambda>i. i + length a) (str_index (close_tag tag) (CHR ''<'' # r))"
    using index_skip [of "''esi:'' @ tag" a r] index_skip [of "''/esi:'' @ tag @ ''>''" a r] assms(2)
    by (simp_all add: open_tag_def close_tag_def del: str_index.simps)
qed

lemma first_of_ge: "first_of a b = Some n \<Longrightarrow> (\<And>k. a = Some k \<Longrightarrow> m \<le> k) \<Longrightarrow> (\<And>k. b = Some k \<Longrightarrow> m \<le> k) \<Longrightarrow> m \<le> n"
  using first_of_Some by blast

lemma plain_block_end:
  assumes "tagless a" and "CHR ''<'' \<notin> set block" and "CHR ''<'' \<notin> set outer"
    and "\<not> prefix (close_tag outer) (close_tag block @ r)"
  shows "find_block_end block outer 0 0 (a @ close_tag block @ r) = Some (length a)"
proof -
  obtain t where t: "close_tag block @ r = CHR ''<'' # t" by (simp add: close_tag_def)
  let ?s = "a @ close_tag block @ r"
  have c: "str_index (close_tag block) ?s = Some (length a)"
  proof -
    have "prefix (close_tag block) (close_tag block @ r)" by simp
    then have "str_index (close_tag block) (CHR ''<'' # t) = Some 0" unfolding t by simp
    then show ?thesis using plain_index(2) [OF assms(1,2), of t] by (simp add: t)
  qed
  have "0 < k" if "str_index (close_tag outer) (CHR ''<'' # t) = Some k" for k
    using that str_index_Some [OF that] assms(4) unfolding t by (cases k) auto
  then have o1: "length a < k" if "str_index (close_tag outer) ?s = Some k" for k
    using that plain_index(2) [OF assms(1,3), of t] by (auto simp: t)
  have o2: "length a \<le> k" if "str_index (open_tag tag) ?s = Some k" "CHR ''<'' \<notin> set tag" for k tag
    using that plain_index(1) [OF assms(1) that(2), of t] by (auto simp: t)
  have f: "first_of (str_index (close_tag block) ?s) (str_index (close_tag outer) ?s) = Some (length a)"
    using c o1 by (auto simp: first_of_def split: option.split)
  have "earlier (first_of (str_index (open_tag block) ?s) (str_index (open_tag outer) ?s)) (length a) = None"
    using first_of_ge [of _ _ _ "length a"] o2 assms(2,3) by (fastforce simp: earlier_def split: option.split)
  then show ?thesis
    using c f by (subst find_block_end.simps) (simp del: str_index.simps)
qed



subsection \<open>A nested block before the attempt\<close>

text \<open>
  \<open>findTryClose\<close> counts the opening tag that its text starts with, so it returns the end of the block
  around the one it was asked for: behind a nested try block no attempt is found any more.
\<close>

lemma try_close_of_parent:
  "find_try_close ''<esi:try></esi:try>-</esi:try>'' = Some 20" "find_try_close ''<esi:try></esi:try>'' = None"
  by code_simp+

lemma nested_try_hides_attempt:
  "extract_try_blocks ''<esi:try><esi:try></esi:try><esi:attempt>A</esi:attempt></esi:try>'' = ([], [])"
  "extract_try_blocks ''<esi:try><esi:attempt>A</esi:attempt></esi:try>'' = (''A'', [])"
  by code_simp+

end
