(* ===== verification/Go_Vars.thy ===== *)
theory Go_Vars
  imports Go_Tokens Go_Bridge
begin

text \<open>
  \<open>vars.go\<close>: the variables of a page.  The two regular expressions leave no choice to the matcher,
  so they are written as deterministic scans: \<open>$(\<dots>)\<close> takes everything up to the next closing
  parenthesis, a quoted text everything up to the next quotation mark.
\<close>

type_synonym variables = "string \<rightharpoonup> string"

text \<open>What expressions may refer to; \<open>None\<close> is a nil map.\<close>

record expr_env =
  ev_variables :: "variables option"
  ev_headers :: "http_header option"
  ev_cookies :: "variables option"
  ev_query :: "variables option"

definition lookup :: "variables option \<Rightarrow> string \<Rightarrow> string option" where
  "lookup m k = (case m of None \<Rightarrow> None | Some f \<Rightarrow> f k)"

text \<open>\<open>$(NAME{key})\<close>: the key.\<close>

definition braced :: "string \<Rightarrow> string \<Rightarrow> string option" where
  "braced name inner =
    (if prefix (name @ ''{'') inner \<and> suffix ''}'' inner then Some (butlast (drop (length name + 1) inner)) else None)"

definition expand_variable :: "expr_env \<Rightarrow> string \<Rightarrow> string" where
  "expand_variable env inner =
    (case lookup (ev_variables env) inner of
       Some val \<Rightarrow> val
     | None \<Rightarrow>
         (case braced ''HTTP_HEADER'' inner of
            Some key \<Rightarrow>
              (let val = (case ev_headers env of None \<Rightarrow> [] | Some h \<Rightarrow> header_get key h)
               in if val \<noteq> [] then val
                  else case lookup (ev_variables env) (''$('' @ inner @ '')'') of None \<Rightarrow> [] | Some v \<Rightarrow> v)
          | None \<Rightarrow>
              (case braced ''HTTP_COOKIE'' inner of
                 Some key \<Rightarrow> (case lookup (ev_cookies env) key of None \<Rightarrow> [] | Some v \<Rightarrow> v)
               | None \<Rightarrow>
                   (case braced ''QUERY_STRING'' inner of
                      Some key \<Rightarrow> (case lookup (ev_query env) key of None \<Rightarrow> [] | Some v \<Rightarrow> v)
                    | None \<Rightarrow> []))))"

text \<open>The match of \<open>\\$\\(([^)]+)\\)\<close> at the start of the text: the inner text and what follows.\<close>

definition var_match :: "string \<Rightarrow> (string \<times> string) option" where
  "var_match s =
    (if prefix ''$('' s then
       (let inner = takeWhile (\<lambda>c. c \<noteq> CHR '')'') (drop 2 s);
            r = dropWhile (\<lambda>c. c \<noteq> CHR '')'') (drop 2 s)
        in if inner \<noteq> [] \<and> r \<noteq> [] then Some (inner, tl r) else None)
     else None)"

lemma var_match_shorter: "var_match s = Some (inner, r) \<Longrightarrow> length r < length s"
  using length_dropWhile_le [of "\<lambda>c. c \<noteq> CHR '')''" "drop 2 s"]
  by (auto simp: var_match_def Let_def prefix_def split: if_splits)

function evaluate_expression :: "expr_env \<Rightarrow> string \<Rightarrow> string" where
  "evaluate_expression env [] = []"
| "evaluate_expression env (c # cs) =
     (case var_match (c # cs) of
        None \<Rightarrow> c # evaluate_expression env cs
      | Some (inner, r) \<Rightarrow> expand_variable env inner @ evaluate_expression env r)"
  by pat_completeness auto

termination
  by (relation "measure (\<lambda>(env, s). length s)") (auto dest: var_match_shorter)

lemma evaluate_plain: "\<not> contains s ''$('' \<Longrightarrow> evaluate_expression env s = s"
  by (induction env s rule: evaluate_expression.induct) (auto simp: var_match_def)

subsection \<open>Definitions\<close>

definition expect :: "string \<Rightarrow> string \<Rightarrow> string option" where
  "expect t s = (if prefix t s then Some (drop (length t) s) else None)"

definition re_space :: "char \<Rightarrow> bool" where
  "re_space c \<longleftrightarrow> c \<in> {CHR '' '', CHR 0x09, CHR 0x0A, CHR 0x0C, CHR 0x0D}"

definition some_space :: "string \<Rightarrow> string option" where
  "some_space s = (if s \<noteq> [] \<and> re_space (hd s) then Some (dropWhile re_space s) else None)"

definition until_quote :: "string \<Rightarrow> (string \<times> string) option" where
  "until_quote s =
    (let r = dropWhile (\<lambda>c. c \<noteq> CHR 0x22) s
     in if r = [] then None else Some (takeWhile (\<lambda>c. c \<noteq> CHR 0x22) s, tl r))"

text \<open>The match of the pattern for \<open><esi:variable name="\<dots>" value="\<dots>"/>\<close> at the start.\<close>

definition var_def_match :: "string \<Rightarrow> (string \<times> string \<times> string) option" where
  "var_def_match s =
    Option.bind (expect ''<esi:variable'' s) (\<lambda>s1.
    Option.bind (some_space s1) (\<lambda>s2.
    Option.bind (expect (''name='' @ [CHR 0x22]) s2) (\<lambda>s3.
    Option.bind (until_quote s3) (\<lambda>(name, s4).
    Option.bind (some_space s4) (\<lambda>s5.
    Option.bind (expect (''value='' @ [CHR 0x22]) s5) (\<lambda>s6.
    Option.bind (until_quote s6) (\<lambda>(val, s7).
    Option.bind (expect ''/>'' (dropWhile re_space s7)) (\<lambda>s8. Some (name, val, s8)))))))))"

lemma def_parts_shorter:
  "expect t s = Some r \<Longrightarrow> length r \<le> length s" "some_space s = Some r \<Longrightarrow> length r \<le> length s"
  "until_quote s = Some (v, r) \<Longrightarrow> length r \<le> length s"
  using length_dropWhile_le [of re_space s] length_dropWhile_le [of "\<lambda>c. c \<noteq> CHR 0x22" s]
  by (auto simp: expect_def some_space_def until_quote_def Let_def split: if_splits)

lemma expect_shorter: "expect t s = Some r \<Longrightarrow> t \<noteq> [] \<Longrightarrow> length r < length s"
  by (auto simp: expect_def prefix_def split: if_splits)

lemma var_def_shorter: "var_def_match s = Some (name, val, r) \<Longrightarrow> length r < length s"
proof -
  assume "var_def_match s = Some (name, val, r)"
  then obtain s1 s2 s3 s4 s5 s6 s7 where
    "expect ''<esi:variable'' s = Some s1" "some_space s1 = Some s2" "expect (''name='' @ [CHR 0x22]) s2 = Some s3"
    "until_quote s3 = Some (name, s4)" "some_space s4 = Some s5" "expect (''value='' @ [CHR 0x22]) s5 = Some s6"
    "until_quote s6 = Some (val, s7)" "expect ''/>'' (dropWhile re_space s7) = Some r"
    by (auto simp: var_def_match_def Option.bind_eq_Some_conv)
  then have "length s1 < length s" "length s2 \<le> length s1" "length s3 \<le> length s2" "length s4 \<le> length s3"
    "length s5 \<le> length s4" "length s6 \<le> length s5" "length s7 \<le> length s6" "length r \<le> length (dropWhile re_space s7)"
    using expect_shorter def_parts_shorter by blast+
  then show ?thesis using length_dropWhile_le [of re_space s7] by linarith
qed

function var_defs :: "string \<Rightarrow> (string \<times> string) list" where
  "var_defs [] = []"
| "var_defs (c # cs) =
     (case var_def_match (c # cs) of
        None \<Rightarrow> var_defs cs
      | Some (name, val, r) \<Rightarrow> (name, val) # var_defs r)"
  by pat_completeness auto

termination
  by (relation "measure length") (auto dest: var_def_shorter)

definition parse_vars_block :: "string \<Rightarrow> variables" where
  "parse_vars_block raw =
    (case str_index ''>'' raw of
       None \<Rightarrow> (\<lambda>k. None)
     | Some start \<Rightarrow>
         (case last_index ''</'' raw of
            None \<Rightarrow> (\<lambda>k. None)
          | Some e \<Rightarrow>
              if e \<le> start then (\<lambda>k. None)
              else map_of (rev (filter (\<lambda>(name, val). name \<noteq> [])
                     (var_defs (take (e - (start + 1)) (drop (start + 1) raw)))))))"

text \<open>Script text that looks like a variable is a variable: it goes, though no tag is near.\<close>

lemma script_text_is_expanded:
  "evaluate_expression \<lparr> ev_variables = None, ev_headers = None, ev_cookies = None, ev_query = None \<rparr>
     ''$(document).ready()'' = ''.ready()''"
  by code_simp

end
