(* ===== verification/Go_Page.thy ===== *)
theory Go_Page
  imports Go_Include Go_Shared Go_Blocks Go_Vars
begin

text \<open>
  \<open>MESIParse\<close> of \<open>parser.go\<close>.  The page is read into tokens; variables, blocks and static text are
  worked off in order, then the includes, whose results take their places.  The workers are run one
  after the other in the order of the page, as a single worker does; several workers give the same
  result as long as no fragment changes the variables of its page, the only state they share.  What
  comes from outside is an argument: the worlds of the includes and the times that the clock shows,
  both by the path of the include in the page, and the tokens that \<open>encoding/xml\<close> makes of a tag.
\<close>

record core_env =
  ce_net :: go_net
  ce_key :: "string \<Rightarrow> string"
  ce_dur :: "string \<Rightarrow> int option"
  ce_xml :: "string \<Rightarrow> include_token option"
  ce_cpus :: int
  ce_world :: "nat list \<Rightarrow> include_world"
  ce_time :: "nat list \<Rightarrow> nat \<Rightarrow> int"

text \<open>The variables of the page and, for the proofs, the hops made so far with their levels.\<close>

record page_state =
  ps_variables :: "variables option"
  ps_log :: "(nat \<times> hop) list"

text \<open>The library sets no request data.\<close>

definition page_env :: "page_state \<Rightarrow> expr_env" where
  "page_env st = \<lparr> ev_variables = ps_variables st, ev_headers = None, ev_cookies = None, ev_query = None \<rparr>"

definition evaluate :: "page_state \<Rightarrow> string \<Rightarrow> string" where
  "evaluate st s = evaluate_expression (page_env st) s"

text \<open>
  After a nested call: the map of the variables is shared when there was one, while a map that the nested
  call made is its own.
\<close>

definition after_nested :: "page_state \<Rightarrow> page_state \<Rightarrow> page_state" where
  "after_nested st st' = (case ps_variables st of None \<Rightarrow> st'\<lparr>ps_variables := None\<rparr> | Some vars \<Rightarrow> st')"

definition define_variables :: "variables \<Rightarrow> page_state \<Rightarrow> page_state" where
  "define_variables vars st =
    st\<lparr>ps_variables := Some (case ps_variables st of None \<Rightarrow> vars | Some old \<Rightarrow> old ++ vars)\<rparr>"

text \<open>A parse of a fragment: level, path, configuration, state and text to the rendered text and the state.\<close>

type_synonym parse = "nat \<Rightarrow> nat list \<Rightarrow> esi_config \<Rightarrow> page_state \<Rightarrow> string \<Rightarrow> string \<times> page_state"

subsection \<open>One include\<close>

text \<open>
  The error, the text and the state.  \<open>strict\<close> is the way of an attempt, which ends at an error; a
  tag that is no XML counts as one.
\<close>

definition run_include ::
  "core_env \<Rightarrow> parse \<Rightarrow> bool \<Rightarrow> nat \<Rightarrow> nat list \<Rightarrow> esi_config \<Rightarrow> page_state \<Rightarrow> string \<Rightarrow> bool \<times> string \<times> page_state" where
  "run_include env sub strict level path config st tag =
    (case ce_xml env tag of
       None \<Rightarrow> (True, [], st)
     | Some token0 \<Rightarrow>
         (let token = token0\<lparr>it_src := evaluate st (it_src token0), it_alt := evaluate st (it_alt token0)\<rparr>;
              new_config = include_config (ce_dur env) (ce_time env path 0) token config;
              st1 = st\<lparr>ps_log := ps_log st @ map (Pair level)
                     (in_hops (include_fetch (ce_net env) (ce_key env) (ce_world env path) token new_config))\<rparr>
          in case to_string (ce_net env) (ce_key env) (ce_world env path) token new_config of
               (content, esi, err) \<Rightarrow>
                 if strict \<and> err \<noteq> None then (True, [], st1)
                 else if can_go_deeper (ce_time env path 1) config \<and> (esi \<or> \<not> ec_parse_on_header new_config) then
                   (case sub (Suc level) path
                           (with_elapsed_time (ce_time env path 2) (decrease_max_depth new_config)) st1 content of
                      (text, st2) \<Rightarrow> (err \<noteq> None, text, after_nested st1 st2))
                 else (err \<noteq> None, content, st1)))"

subsection \<open>A page\<close>

definition assemble_results :: "(string \<times> nat) list \<Rightarrow> string" where
  "assemble_results results = concat (map fst (sort_key snd results))"

definition evaluate_test :: "page_state \<Rightarrow> string \<Rightarrow> bool" where
  "evaluate_test st expr = (let e = evaluate st (go_trim_space expr) in e = ''true'' \<or> e = ''1'')"

text \<open>The worker's jobs: tags other than includes render as nothing.\<close>

fun run_jobs ::
  "core_env \<Rightarrow> parse \<Rightarrow> nat \<Rightarrow> nat list \<Rightarrow> esi_config \<Rightarrow> page_state \<Rightarrow> (nat \<times> esi_token) list \<Rightarrow> (string \<times> nat) list \<times> page_state" where
  "run_jobs env sub level path config st [] = ([], st)"
| "run_jobs env sub level path config st ((i, t) # jobs) =
     (if esi_tag_type t = ''include'' then
        (case run_include env sub False level (path @ [i]) config st (esi_tag_content t) of
           (err, text, st1) \<Rightarrow>
             (case run_jobs env sub level path config st1 jobs of (rs, st2) \<Rightarrow> ((text, i) # rs, st2)))
      else (case run_jobs env sub level path config st jobs of (rs, st2) \<Rightarrow> (([], i) # rs, st2)))"

text \<open>The branch of a choose block that is rendered.\<close>

definition chosen_body :: "page_state \<Rightarrow> string \<Rightarrow> string option" where
  "chosen_body st raw =
    (case extract_choose_blocks raw of
       (whens, otherwise) \<Rightarrow>
         (case find (\<lambda>w. evaluate_test st (wb_test w)) whens of
            Some w \<Rightarrow> Some (wb_body w)
          | None \<Rightarrow> if otherwise \<noteq> [] then Some otherwise else None))"

lemma chosen_inner: "chosen_body st raw = Some body \<Longrightarrow> inner body raw"
  using choose_blocks_inner [of raw]
  by (auto simp: chosen_body_def find_Some_iff split: prod.splits option.splits if_splits)

text \<open>What the recursion works on: a page, a block, or the tokens of a page or an attempt from the \<open>i\<close>th on.\<close>

datatype task =
    Page string
  | Try string
  | Choose string
  | Tokens nat "esi_token list"
  | Attempt nat "esi_token list"

text \<open>The jobs that are left, and the error of an attempt, go with the results.\<close>

record outcome =
  oc_results :: "(string \<times> nat) list"
  oc_jobs :: "(nat \<times> esi_token) list"
  oc_error :: bool
  oc_state :: page_state

definition done_with :: "page_state \<Rightarrow> outcome" where
  "done_with st = \<lparr> oc_results = [], oc_jobs = [], oc_error = False, oc_state = st \<rparr>"

definition add_result :: "string \<Rightarrow> nat \<Rightarrow> outcome \<Rightarrow> outcome" where
  "add_result text i out = out\<lparr>oc_results := (text, i) # oc_results out\<rparr>"

definition add_job :: "nat \<Rightarrow> esi_token \<Rightarrow> outcome \<Rightarrow> outcome" where
  "add_job i t out = out\<lparr>oc_jobs := (i, t) # oc_jobs out\<rparr>"

definition tag_bytes :: "esi_token list \<Rightarrow> nat" where
  "tag_bytes ts = sum_list (map (\<lambda>t. length (esi_tag_content t)) ts)"

fun task_measure :: "task \<Rightarrow> nat \<times> nat \<times> nat" where
  "task_measure (Page s) = (length s, 1, 0)"
| "task_measure (Try raw) = (length raw, 0, 0)"
| "task_measure (Choose raw) = (length raw, 0, 0)"
| "task_measure (Tokens i ts) = (tag_bytes ts, 0, length ts)"
| "task_measure (Attempt i ts) = (tag_bytes ts, 0, length ts)"

lemma tag_bytes_simps [simp]:
  "tag_bytes [] = 0" "tag_bytes (t # ts) = length (esi_tag_content t) + tag_bytes ts"
  by (simp_all add: tag_bytes_def)

lemma tag_bytes_page: "tag_bytes (esi_tokenizer s) \<le> length s"
proof -
  have "tag_bytes ts \<le> length (concat (map (\<lambda>t. static_content t @ esi_tag_content t) ts))" for ts
    by (induction ts) auto
  from this [of "esi_tokenizer s"] show ?thesis using tokens_of_page [of s] by simp
qed

lemma inner_shorter: "inner body raw \<Longrightarrow> raw \<noteq> [] \<Longrightarrow> length body < length raw"
  by (auto simp: inner_def)

definition one_result :: "string \<Rightarrow> page_state \<Rightarrow> outcome" where
  "one_result text st = \<lparr> oc_results = [(text, 0)], oc_jobs = [], oc_error = False, oc_state = st \<rparr>"

definition result_text :: "outcome \<Rightarrow> string" where
  "result_text out = assemble_results (oc_results out)"

definition attempt_fails :: "page_state \<Rightarrow> outcome" where
  "attempt_fails st = \<lparr> oc_results = [], oc_jobs = [], oc_error = True, oc_state = st \<rparr>"

lemma try_bodies_shorter:
  "extract_try_blocks raw = (a, e) \<Longrightarrow> a \<noteq> [] \<Longrightarrow> length a < length raw"
  "extract_try_blocks raw = (a, e) \<Longrightarrow> e \<noteq> [] \<Longrightarrow> length e < length raw"
  using try_blocks_inner [of raw] by (auto simp: inner_def)

lemma chosen_shorter: "chosen_body st raw = Some body \<Longrightarrow> length body < length raw"
proof -
  assume c: "chosen_body st raw = Some body"
  then have "raw \<noteq> []" by (auto simp: chosen_body_def extract_choose_blocks_def past_tag_def)
  with chosen_inner [OF c] show ?thesis by (auto simp: inner_def)
qed

lemma task_lessI:
  "(task_measure a, task_measure b) \<in> less_than <*lex*> less_than <*lex*> less_than \<Longrightarrow>
     ((env, sub, level, path, config, st, a), env', sub', level', path', config', st', b)
       \<in> inv_image (less_than <*lex*> less_than <*lex*> less_than)
           (\<lambda>(env, sub, level, path, config, st, task). task_measure task)"
  by simp

lemma task_steps:
  "(task_measure (Tokens (Suc i) ts), task_measure (Tokens i (t # ts))) \<in> less_than <*lex*> less_than <*lex*> less_than"
  "(task_measure (Attempt (Suc i) ts), task_measure (Attempt i (t # ts))) \<in> less_than <*lex*> less_than <*lex*> less_than"
  "(task_measure (Try (esi_tag_content t)), task_measure (Tokens i (t # ts))) \<in> less_than <*lex*> less_than <*lex*> less_than"
  "(task_measure (Try (esi_tag_content t)), task_measure (Attempt i (t # ts))) \<in> less_than <*lex*> less_than <*lex*> less_than"
  "(task_measure (Choose (esi_tag_content t)), task_measure (Tokens i (t # ts))) \<in> less_than <*lex*> less_than <*lex*> less_than"
  "(task_measure (Choose (esi_tag_content t)), task_measure (Attempt i (t # ts))) \<in> less_than <*lex*> less_than <*lex*> less_than"
  by auto

function run ::
  "core_env \<Rightarrow> parse \<Rightarrow> nat \<Rightarrow> nat list \<Rightarrow> esi_config \<Rightarrow> page_state \<Rightarrow> task \<Rightarrow> outcome" where
  "run env sub level path config0 st (Page input) =
     (let config = enter_parse (ce_cpus env) config0;
          out = run env sub level path config st (Tokens 0 (esi_tokenizer (unescape input)))
      in case run_jobs env sub level path config (oc_state out) (oc_jobs out) of
           (rs, st1) \<Rightarrow> one_result (assemble_results (oc_results out @ rs)) st1)"
| "run env sub level path config st (Try raw) =
     (case extract_try_blocks raw of
        (attempt_body, except_body) \<Rightarrow>
          if attempt_body = [] then one_result [] st
          else
            (let out = run env sub level path config st (Attempt 0 (esi_tokenizer attempt_body))
             in if \<not> oc_error out then one_result (result_text out) (oc_state out)
                else if except_body = [] then one_result [] (oc_state out)
                else
                  (let out2 = run env sub level path config (oc_state out) (Page except_body)
                   in one_result (result_text out2) (after_nested (oc_state out) (oc_state out2)))))"
| "run env sub level path config st (Choose raw) =
     (case chosen_body st raw of
        None \<Rightarrow> one_result [] st
      | Some body \<Rightarrow>
          (let out = run env sub level path config st (Page body)
           in one_result (result_text out) (after_nested st (oc_state out))))"
| "run env sub level path config st (Tokens i []) = done_with st"
| "run env sub level path config st (Tokens i (t # ts)) =
     (if esi_tag_type t = ''vars'' then
        add_result [] i (run env sub level path config
          (define_variables (parse_vars_block (esi_tag_content t)) st) (Tokens (Suc i) ts))
      else if esi_tag_type t = ''try'' then
        (let out = run env sub level (path @ [i]) config st (Try (esi_tag_content t))
         in add_result (result_text out) i (run env sub level path config (oc_state out) (Tokens (Suc i) ts)))
      else if esi_tag_type t = ''choose'' then
        (let out = run env sub level (path @ [i]) config st (Choose (esi_tag_content t))
         in add_result (result_text out) i (run env sub level path config (oc_state out) (Tokens (Suc i) ts)))
      else if esi_tag_type t = ''inline'' then
        add_result (process_inline_block (esi_tag_content t)) i (run env sub level path config st (Tokens (Suc i) ts))
      else if \<not> is_esi t then
        add_result (evaluate st (static_content t)) i (run env sub level path config st (Tokens (Suc i) ts))
      else add_job i t (run env sub level path config st (Tokens (Suc i) ts)))"
| "run env sub level path config st (Attempt i []) = done_with st"
| "run env sub level path config st (Attempt i (t # ts)) =
     (if esi_tag_type t = ''include'' then
        (case run_include env sub True level (path @ [i]) config st (esi_tag_content t) of
           (err, text, st1) \<Rightarrow>
             if err then attempt_fails st1
             else add_result text i (run env sub level path config st1 (Attempt (Suc i) ts)))
      else if esi_tag_type t = ''try'' then
        (let out = run env sub level (path @ [i]) config st (Try (esi_tag_content t))
         in add_result (result_text out) i (run env sub level path config (oc_state out) (Attempt (Suc i) ts)))
      else if esi_tag_type t = ''choose'' then
        (let out = run env sub level (path @ [i]) config st (Choose (esi_tag_content t))
         in add_result (result_text out) i (run env sub level path config (oc_state out) (Attempt (Suc i) ts)))
      else if esi_tag_type t = ''inline'' then
        add_result (process_inline_block (esi_tag_content t)) i (run env sub level path config st (Attempt (Suc i) ts))
      else if \<not> is_esi t then
        add_result (evaluate st (static_content t)) i (run env sub level path config st (Attempt (Suc i) ts))
      else add_result [] i (run env sub level path config st (Attempt (Suc i) ts)))"
  by pat_completeness auto

termination
proof (relation "inv_image (less_than <*lex*> less_than <*lex*> less_than)
    (\<lambda>(env, sub, level, path, config, st, task). task_measure task)", goal_cases)
  case 1
  show ?case by (intro wf_inv_image wf_lex_prod wf_less_than)
next
  case (2 env sub level path config0 st input x)
  have "tag_bytes (esi_tokenizer (unescape input)) \<le> length input"
    using tag_bytes_page unescape_length le_trans by blast
  then show ?case by (auto simp: less_le)
next
  case (3 env sub level path config st raw x y)
  then have "length x < length raw" using try_bodies_shorter(1) by metis
  then show ?case using tag_bytes_page [of x] by auto
next
  case (4 env sub level path config st raw x y)
  then have "length y < length raw" using try_bodies_shorter(2) by metis
  then show ?case by auto
next
  case (5 env sub level path config st raw x)
  then show ?case using chosen_shorter by auto
qed (rule task_lessI, rule task_steps)+

declare run.simps [simp del]

subsection \<open>Levels\<close>

text \<open>A parse that may go \<open>k\<close> levels of fragments deep.\<close>

primrec mesi_level :: "nat \<Rightarrow> core_env \<Rightarrow> parse" where
  "mesi_level 0 env = (\<lambda>level path config st input. ([], st))"
| "mesi_level (Suc k) env = (\<lambda>level path config st input.
     let out = run env (mesi_level k env) level path config st (Page input)
     in (result_text out, oc_state out))"

definition start_state :: page_state where
  "start_state = \<lparr> ps_variables = None, ps_log = [] \<rparr>"

text \<open>As many levels as the configuration allows, and one for the page itself.\<close>

definition mesi_run :: "core_env \<Rightarrow> string \<Rightarrow> esi_config \<Rightarrow> string \<times> page_state" where
  "mesi_run env input config = mesi_level (Suc (nat (ec_max_depth config))) env 0 [] config start_state input"

definition MESIParse :: "core_env \<Rightarrow> string \<Rightarrow> esi_config \<Rightarrow> string" where
  "MESIParse env input config = fst (mesi_run env input config)"

subsection \<open>The levels are enough\<close>

definition agree_below :: "int \<Rightarrow> parse \<Rightarrow> parse \<Rightarrow> bool" where
  "agree_below d sub sub' \<longleftrightarrow>
    (\<forall>level path c st s. 0 \<le> ec_max_depth c \<and> ec_max_depth c < d \<longrightarrow> sub level path c st s = sub' level path c st s)"

lemma fragment_depth:
  assumes "can_go_deeper t2 c"
  shows "0 \<le> ec_max_depth (with_elapsed_time t3 (decrease_max_depth (include_config dur t1 token c)))
    \<and> ec_max_depth (with_elapsed_time t3 (decrease_max_depth (include_config dur t1 token c))) < ec_max_depth c"
proof -
  have "1 \<le> ec_max_depth c" using assms by (simp add: can_go_deeper_def)
  then have "1 \<le> ec_max_depth (include_config dur t1 token c)" "ec_max_depth (include_config dur t1 token c) \<le> ec_max_depth c"
    using include_depth [where dur = dur and t = t1 and token = token and c = c] by simp_all
  then show ?thesis by (simp add: depth_steps decrease_max_depth_def)
qed

lemma run_include_agree:
  assumes "agree_below (ec_max_depth c) sub sub'"
  shows "run_include env sub strict level path c st tag = run_include env sub' strict level path c st tag"
proof (cases "ce_xml env tag")
  case None
  then show ?thesis by (simp add: run_include_def)
next
  case (Some token)
  let ?t = "token\<lparr>it_src := evaluate st (it_src token), it_alt := evaluate st (it_alt token)\<rparr>"
  let ?n = "include_config (ce_dur env) (ce_time env path 0) ?t c"
  let ?d = "with_elapsed_time (ce_time env path 2) (decrease_max_depth ?n)"
  have "sub l p ?d s x = sub' l p ?d s x" if "can_go_deeper (ce_time env path 1) c" for l p s x
    using fragment_depth [OF that] assms unfolding agree_below_def by blast
  moreover obtain content esi e where r: "to_string (ce_net env) (ce_key env) (ce_world env path) ?t ?n = (content, esi, e)"
    by (cases "to_string (ce_net env) (ce_key env) (ce_world env path) ?t ?n")
  ultimately show ?thesis
    by (cases "can_go_deeper (ce_time env path 1) c"; cases e; simp add: run_include_def Some Let_def r)
qed

lemma run_jobs_agree:
  "agree_below (ec_max_depth c) sub sub' \<Longrightarrow>
     run_jobs env sub level path c st jobs = run_jobs env sub' level path c st jobs"
proof (induction env sub level path c st jobs rule: run_jobs.induct)
  case (2 env sub level path c st i t jobs)
  then show ?case
    using run_include_agree [OF "2.prems", of env False level "path @ [i]" st "esi_tag_content t"]
    by (auto split: prod.split)
qed simp

lemma run_agree:
  "agree_below (ec_max_depth c) sub sub' \<Longrightarrow> run env sub level path c st task = run env sub' level path c st task"
proof (induction env sub level path c st task rule: run.induct)
  case (1 env sub level path c st input)
  have d: "ec_max_depth (enter_parse (ce_cpus env) c) = ec_max_depth c" by (simp add: depth_steps)
  show ?case
    using 1 run_jobs_agree [of "enter_parse (ce_cpus env) c" sub sub'] by (simp add: run.simps(1) [of env] d Let_def)
next
  case (2 env sub level path c st raw)
  then show ?case by (simp add: run.simps(2) [of env] Let_def split: prod.split)
next
  case (3 env sub level path c st raw)
  then show ?case by (simp add: run.simps(3) [of env] Let_def split: option.split)
next
  case (5 env sub level path c st i t ts)
  then show ?case by (simp add: run.simps(5) [of env] Let_def)
next
  case (7 env sub level path c st i t ts)
  then show ?case
    using run_include_agree [OF "7.prems", of env True level "path @ [i]" st "esi_tag_content t"]
    by (auto simp: run.simps(7) [of env] Let_def split: prod.split)
qed (simp_all add: run.simps)

lemma level_agree:
  "0 \<le> ec_max_depth c \<Longrightarrow> ec_max_depth c < int k \<Longrightarrow> ec_max_depth c < int j \<Longrightarrow>
     mesi_level k env level path c st s = mesi_level j env level path c st s"
proof (induction k arbitrary: j level path c st s)
  case (Suc k)
  then obtain i where j: "j = Suc i" by (cases j) auto
  have "agree_below (ec_max_depth c) (mesi_level k env) (mesi_level i env)"
    unfolding agree_below_def using Suc j by auto
  from run_agree [OF this] show ?case by (simp add: j Let_def)
qed simp

subsection \<open>Where the requests of a page come from\<close>

definition clocks :: "core_env \<Rightarrow> bool" where
  "clocks env \<longleftrightarrow> (\<forall>path k. clock (ce_time env path k))"

definition runs_at :: "core_env \<Rightarrow> esi_config \<Rightarrow> nat \<Rightarrow> esi_config \<Rightarrow> bool" where
  "runs_at env c0 n c \<longleftrightarrow> renders (ce_net env) (ce_key env) (ce_dur env) (ce_cpus env) c0 n c"

definition env_hops :: "core_env \<Rightarrow> esi_config \<Rightarrow> (nat \<times> hop) set" where
  "env_hops env c0 = page_hops (ce_net env) (ce_key env) (ce_dur env) (ce_cpus env) c0"

definition log_ok :: "core_env \<Rightarrow> esi_config \<Rightarrow> page_state \<Rightarrow> bool" where
  "log_ok env c0 st \<longleftrightarrow> set (ps_log st) \<subseteq> env_hops env c0"

lemma log_ok_frame [simp]:
  "log_ok env c0 (after_nested st st') = log_ok env c0 st'"
  "log_ok env c0 (define_variables vars st) = log_ok env c0 st"
  by (simp_all add: log_ok_def after_nested_def define_variables_def split: option.split)

definition sub_ok :: "core_env \<Rightarrow> esi_config \<Rightarrow> parse \<Rightarrow> bool" where
  "sub_ok env c0 sub \<longleftrightarrow>
    (\<forall>n path c st s. runs_at env c0 n (enter_parse (ce_cpus env) c) \<longrightarrow> log_ok env c0 st \<longrightarrow>
       log_ok env c0 (snd (sub n path c st s)))"

lemma run_include_log:
  assumes "clocks env" and "sub_ok env c0 sub" and "runs_at env c0 n c" and "log_ok env c0 st"
    and "run_include env sub strict n path c st tag = (err, out, st')"
  shows "log_ok env c0 st'"
proof (cases "ce_xml env tag")
  case None
  then show ?thesis using assms(4,5) by (simp add: run_include_def)
next
  case (Some token)
  let ?t = "token\<lparr>it_src := evaluate st (it_src token), it_alt := evaluate st (it_alt token)\<rparr>"
  let ?n = "include_config (ce_dur env) (ce_time env path 0) ?t c"
  let ?st = "st\<lparr>ps_log := ps_log st @ map (Pair n)
    (in_hops (include_fetch (ce_net env) (ce_key env) (ce_world env path) ?t ?n))\<rparr>"
  let ?d = "with_elapsed_time (ce_time env path 2) (decrease_max_depth ?n)"
  have l: "log_ok env c0 ?st"
    using assms(3,4) by (auto simp: log_ok_def env_hops_def page_hops_def runs_at_def)
  obtain content esi e where r: "to_string (ce_net env) (ce_key env) (ce_world env path) ?t ?n = (content, esi, e)"
    by (cases "to_string (ce_net env) (ce_key env) (ce_world env path) ?t ?n")
  have "log_ok env c0 (snd (sub (Suc n) path ?d ?st content))"
    if "can_go_deeper (ce_time env path 1) c" "esi \<or> \<not> ec_parse_on_header ?n"
  proof -
    have "runs_at env c0 (Suc n) (enter_parse (ce_cpus env) ?d)"
      using renders.fragment [OF assms(3) [unfolded runs_at_def] _ _ _ refl r that] assms(1)
      by (simp add: runs_at_def clocks_def)
    then show ?thesis using assms(2) l unfolding sub_ok_def by blast
  qed
  then show ?thesis
    using assms(5) l by (auto simp: run_include_def Some Let_def r split: if_splits prod.splits)
qed

lemma run_jobs_log:
  "clocks env \<Longrightarrow> sub_ok env c0 sub \<Longrightarrow> runs_at env c0 n c \<Longrightarrow> log_ok env c0 st \<Longrightarrow>
     log_ok env c0 (snd (run_jobs env sub n path c st jobs))"
proof (induction env sub n path c st jobs rule: run_jobs.induct)
  case (2 env sub n path c st i t jobs)
  show ?case
  proof (cases "esi_tag_type t = ''include''")
    case True
    obtain err out st1 where r: "run_include env sub False n (path @ [i]) c st (esi_tag_content t) = (err, out, st1)"
      by (cases "run_include env sub False n (path @ [i]) c st (esi_tag_content t)")
    from 2(1) [OF True r [symmetric] refl 2(3-5) run_include_log [OF 2(3-6) r]]
    show ?thesis using True by (auto simp: r split: prod.split)
  next
    case False
    then show ?thesis using 2 by (auto split: prod.split)
  qed
qed simp

lemma outcome_simps [simp]:
  "oc_state (add_result x i out) = oc_state out" "oc_state (add_job i t out) = oc_state out"
  "oc_state (one_result x st) = st" "oc_state (done_with st) = st" "oc_state (attempt_fails st) = st"
  by (simp_all add: add_result_def add_job_def one_result_def done_with_def attempt_fails_def)

lemma runs_enter:
  "runs_at env c0 n c \<Longrightarrow> runs_at env c0 n (enter_parse (ce_cpus env) c)"
  unfolding runs_at_def by (rule renders.block)

text \<open>A task runs under a configuration of its level; a page makes its own of the one it is given.\<close>

definition task_config :: "core_env \<Rightarrow> task \<Rightarrow> esi_config \<Rightarrow> esi_config" where
  "task_config env task c = (case task of Page s \<Rightarrow> enter_parse (ce_cpus env) c | _ \<Rightarrow> c)"

lemma run_log:
  "clocks env \<Longrightarrow> sub_ok env c0 sub \<Longrightarrow> runs_at env c0 n (task_config env task c) \<Longrightarrow> log_ok env c0 st \<Longrightarrow>
     log_ok env c0 (oc_state (run env sub n path c st task))"
proof (induction env sub n path c st task rule: run.induct)
  case (1 env sub n path c st input)
  let ?c = "enter_parse (ce_cpus env) c"
  have r: "runs_at env c0 n ?c" using "1.prems"(3) by (simp add: task_config_def)
  let ?out = "run env sub n path ?c st (Tokens 0 (esi_tokenizer (unescape input)))"
  have "log_ok env c0 (oc_state ?out)" using 1 r by (simp add: task_config_def)
  from run_jobs_log [OF "1.prems"(1,2) r this, of path "oc_jobs ?out"] show ?case
    by (cases "run_jobs env sub n path ?c (oc_state ?out) (oc_jobs ?out)") (simp add: run.simps(1) [of env] Let_def)
next
  case (2 env sub n path c st raw)
  then show ?case
    by (auto simp: run.simps(2) [of env] Let_def task_config_def runs_enter split: prod.split)
next
  case (3 env sub n path c st raw)
  then show ?case
    by (auto simp: run.simps(3) [of env] Let_def task_config_def runs_enter split: option.split)
next
  case (5 env sub n path c st i t ts)
  then show ?case by (simp add: run.simps(5) [of env] Let_def task_config_def)
next
  case (7 env sub n path c st i t ts)
  obtain err out st1 where r: "run_include env sub True n (path @ [i]) c st (esi_tag_content t) = (err, out, st1)"
    by (cases "run_include env sub True n (path @ [i]) c st (esi_tag_content t)")
  have "log_ok env c0 st1"
    using run_include_log [OF "7.prems"(1,2) _ "7.prems"(4) r] "7.prems"(3) by (simp add: task_config_def)
  with 7 show ?case by (simp add: run.simps(7) [of env] Let_def task_config_def r)
qed (simp_all add: run.simps)

lemma level_ok: "clocks env \<Longrightarrow> sub_ok env c0 (mesi_level k env)"
proof (induction k)
  case (Suc k)
  then have "log_ok env c0 (oc_state (run env (mesi_level k env) n path c st (Page s)))"
    if "runs_at env c0 n (enter_parse (ce_cpus env) c)" "log_ok env c0 st" for n path c st s
    using run_log [of env c0 "mesi_level k env" n "Page s" c st path] that by (simp add: task_config_def)
  then show ?case by (simp add: sub_ok_def Let_def)
qed (simp add: sub_ok_def)

lemma page_log: "clocks env \<Longrightarrow> set (ps_log (snd (mesi_run env input c0))) \<subseteq> env_hops env c0"
proof -
  assume c: "clocks env"
  have "log_ok env c0 start_state" by (simp add: log_ok_def start_state_def)
  moreover have "runs_at env c0 0 (enter_parse (ce_cpus env) c0)" unfolding runs_at_def by (rule renders.page)
  ultimately show ?thesis
    using level_ok [OF c, of c0 "Suc (nat (ec_max_depth c0))"] unfolding sub_ok_def mesi_run_def log_ok_def by blast
qed

subsection \<open>Pages without ESI\<close>

definition no_esi :: "string \<Rightarrow> bool" where
  "no_esi s \<longleftrightarrow> \<not> contains s ''<esi:'' \<and> \<not> contains s ''<!--esi'' \<and> \<not> contains s ''$(''"

lemma no_esi_tokens:
  assumes "no_esi s"
  shows "esi_tokenizer s = [static_token s]"
proof -
  have "str_index (open_tag t) s = None" for t
    using assms contains_prefix [of s "''<esi:''" t] unfolding str_index_None by (auto simp: no_esi_def open_tag_def)
  then have "first_tag ts s None = None" for ts by (induction ts) simp_all
  then show ?thesis by (subst esi_tokenizer.simps) simp
qed

lemma run_plain_page:
  assumes "no_esi s"
  shows "run env sub n path c st (Page s) = one_result s st"
proof -
  have u: "unescape s = s" using assms by (simp add: unescape_plain no_esi_def)
  have e: "evaluate st s = s" using assms by (simp add: evaluate_def evaluate_plain no_esi_def)
  have "run env sub n path (enter_parse (ce_cpus env) c) st (Tokens 0 [static_token s]) = add_result s 0 (done_with st)"
    by (simp add: run.simps static_token_def is_esi_def e)
  then show ?thesis
    by (simp add: run.simps(1) [of env] u no_esi_tokens [OF assms] Let_def add_result_def done_with_def one_result_def
        assemble_results_def)
qed

lemma mesi_plain: "no_esi s \<Longrightarrow> mesi_run env s c = (s, start_state)"
  by (simp add: mesi_run_def run_plain_page result_text_def one_result_def assemble_results_def Let_def)

subsection \<open>Properties\<close>

text \<open>C7: whatever a page contains, and whatever the fragments contain that the servers answer with,
  rendering it leaves the policy of its configuration at no level: every request goes over http or
  https to a host that the list of allowed hosts admits, a private or reserved address is dialled
  only where the configuration lets it, and a request at the \<open>n\<close>th level of includes is made only
  if \<open>n\<close> is below the maximum depth.\<close>

theorem page_within_policy:
  assumes "clocks env" and "0 \<le> ec_max_depth c0"
    and "(n, req, dialled) \<in> set (ps_log (snd (mesi_run env input c0)))"
  shows "http_scheme (u_scheme req)
    \<and> (ec_allowed_hosts c0 = [] \<or> host_in_allowed_hosts (ce_net env) (u_host req) c0)
    \<and> (list_ex is_private_or_reserved_ip dialled \<longrightarrow> private_dial_ok (ce_net env) c0 (u_host req))
    \<and> int n < ec_max_depth c0"
proof -
  have "(n, req, dialled) \<in> env_hops env c0" using page_log [OF assms(1)] assms(3) by blast
  then show ?thesis using page_hops_within [OF _ assms(2)] by (fastforce simp: env_hops_def hop_within_def)
qed

text \<open>A page with an include whose host has the address \<open>a\<close>.\<close>

definition sample_world :: "ip \<Rightarrow> include_world" where
  "sample_world a = plain_world\<lparr>iw_src := one_hop_world [a] (\<lambda>k. None)\<rparr>"

definition sample_core :: "ip \<Rightarrow> core_env" where
  "sample_core a =
    \<lparr> ce_net = sample_net, ce_key = id, ce_dur = (\<lambda>s. None), ce_xml = (\<lambda>tag. Some (src_token ''http://b.com/'')),
      ce_cpus = 1, ce_world = (\<lambda>path. sample_world a), ce_time = (\<lambda>path k. 1) \<rparr>"

lemma sample_core_simps [simp]:
  "ce_net (sample_core a) = sample_net" "ce_key (sample_core a) = id" "ce_dur (sample_core a) = (\<lambda>s. None)"
  "ce_xml (sample_core a) tag = Some (src_token ''http://b.com/'')" "ce_cpus (sample_core a) = 1"
  "ce_world (sample_core a) path = sample_world a" "ce_time (sample_core a) path k = 1"
  by (simp_all add: sample_core_def)

lemma sample_clocks: "clocks (sample_core a)"
  by (simp add: clocks_def clock_def)

definition sample_logged :: "ip \<Rightarrow> page_state" where
  "sample_logged a = start_state\<lparr>ps_log := [(0, b_url, [a])]\<rparr>"

text \<open>The configuration of the include, and what makes it be fetched and parsed.\<close>

definition sample_include_config :: "esi_config \<Rightarrow> esi_config" where
  "sample_include_config c = include_config (\<lambda>s. None) 1 (src_token ''http://b.com/'') (enter_parse 1 c)"

definition sample_fetched :: "ip \<Rightarrow> esi_config \<Rightarrow> bool" where
  "sample_fetched a c \<longleftrightarrow>
     in_hops (include_fetch sample_net id (sample_world a) (src_token ''http://b.com/'') (sample_include_config c)) = [(b_url, [a])]
     \<and> to_string sample_net id (sample_world a) (src_token ''http://b.com/'') (sample_include_config c) = (''ok'', False, None)
     \<and> can_go_deeper 1 (enter_parse 1 c) \<and> \<not> ec_parse_on_header (sample_include_config c)"

lemma sample_include:
  assumes "sample_fetched a c" and "\<And>c'. sub (Suc 0) [1] c' (sample_logged a) ''ok'' = (''ok'', sample_logged a)"
  shows "run_include (sample_core a) sub False 0 [1] (enter_parse 1 c) start_state ''<esi:include/>''
    = (False, ''ok'', sample_logged a)"
proof -
  let ?t = "src_token ''http://b.com/''"
  have e: "evaluate start_state ''http://b.com/'' = ''http://b.com/''" "evaluate start_state [] = []" by code_simp+
  have t: "?t\<lparr>it_src := evaluate start_state (it_src ?t), it_alt := evaluate start_state (it_alt ?t)\<rparr> = ?t"
    by (simp add: src_token_def e)
  have l: "start_state\<lparr>ps_log := ps_log start_state @ map (Pair 0) [(b_url, [a])]\<rparr> = sample_logged a"
    by (simp add: sample_logged_def start_state_def)
  have n: "after_nested (sample_logged a) (sample_logged a) = sample_logged a"
    by (simp add: after_nested_def sample_logged_def start_state_def)
  have f: "in_hops (include_fetch sample_net id (sample_world a) ?t (sample_include_config c)) = [(b_url, [a])]"
    "to_string sample_net id (sample_world a) ?t (sample_include_config c) = (''ok'', False, None)"
    "can_go_deeper 1 (enter_parse 1 c)" "\<not> ec_parse_on_header (sample_include_config c)"
    using assms(1) unfolding sample_fetched_def by blast+
  show ?thesis
    unfolding run_include_def sample_core_simps option.case t Let_def sample_include_config_def [symmetric] f(1,2) l prod.case
    using assms(2) f(3,4) n by simp
qed

lemma result_text_one: "result_text (one_result x st) = x"
  by (simp add: result_text_def one_result_def assemble_results_def)

lemma level_plain: "no_esi s \<Longrightarrow> mesi_level (Suc k) env n path c st s = (s, st)"
  by (simp add: run_plain_page result_text_one)

lemma sample_page:
  assumes "sample_fetched a c"
  shows "mesi_run (sample_core a) ''<p><esi:include/></p>'' c = (''<p>ok</p>'', sample_logged a)"
proof -
  have toks: "esi_tokenizer (unescape ''<p><esi:include/></p>'')
      = [static_token ''<p>'', tag_token ''include'' ''<esi:include/>'', static_token ''</p>'']" by code_simp
  have "ec_max_depth (enter_parse 1 c) = ec_max_depth c" by (simp add: depth_steps)
  then have "1 \<le> ec_max_depth c" using assms by (simp add: sample_fetched_def can_go_deeper_def)
  then obtain k where k: "nat (ec_max_depth c) = Suc k" by (cases "nat (ec_max_depth c)") auto
  have "no_esi ''ok''" by code_simp
  note inc = sample_include [OF assms, of "mesi_level (Suc k) (sample_core a)", OF level_plain [OF this]]
  have e: "evaluate start_state ''<p>'' = ''<p>''" "evaluate start_state ''</p>'' = ''</p>''" by code_simp+
  have run: "run (sample_core a) (mesi_level (Suc k) (sample_core a)) 0 [] c start_state (Page ''<p><esi:include/></p>'')
      = one_result (assemble_results [(''<p>'', 0), (''</p>'', Suc (Suc 0)), (''ok'', Suc 0)]) (sample_logged a)"
    using inc
    by (simp add: run.simps toks e static_token_def tag_token_def is_esi_def done_with_def add_result_def add_job_def Let_def
        del: mesi_level.simps)
  have a: "assemble_results [(''<p>'', 0), (''</p>'', Suc (Suc 0)), (''ok'', Suc 0)] = ''<p>ok</p>''" by code_simp
  show ?thesis
    unfolding mesi_run_def k mesi_level.simps(2) [of "Suc k"] Let_def run a by (simp add: result_text_one)
qed

lemma page_fetched: "sample_fetched [93, 184, 216, 34] page_config"
  by code_simp

theorem page_within_policy_witness:
  "host_in_allowed_hosts sample_net ''b.com'' page_config \<and> (0::int) < ec_max_depth page_config"
proof -
  have d: "0 \<le> ec_max_depth page_config" "ec_allowed_hosts page_config \<noteq> []"
    by (simp_all add: page_config_def policy_config_def)
  have "(0, b_url, [[93, 184, 216, 34]])
      \<in> set (ps_log (snd (mesi_run (sample_core [93, 184, 216, 34]) ''<p><esi:include/></p>'' page_config)))"
    unfolding sample_page [OF page_fetched] by (simp add: sample_logged_def)
  from page_within_policy [OF sample_clocks d(1) this] d show ?thesis by (simp add: b_url_def)
qed

text \<open>C29: rendering always ends, and the maximum depth is all that bounds it: any number of levels of
  fragments above the maximum depth gives the same text, the same variables and the same requests.\<close>

theorem depth_bounds_rendering:
  assumes "0 \<le> ec_max_depth c" and "ec_max_depth c < int k"
  shows "mesi_level k env 0 [] c start_state input = mesi_run env input c"
  unfolding mesi_run_def by (rule level_agree [OF assms]) (use assms(1) in simp)

theorem depth_bounds_rendering_witness:
  "fst (mesi_level 1000 (sample_core [93, 184, 216, 34]) 0 [] page_config start_state ''<p><esi:include/></p>'') = ''<p>ok</p>''"
  using depth_bounds_rendering [of page_config 1000 "sample_core [93, 184, 216, 34]" "''<p><esi:include/></p>''"]
    sample_page [OF page_fetched]
  by (simp add: page_config_def)

text \<open>C30: a page without ESI tags, comments for ESI or variables is left alone: it is rendered as it
  is, byte for byte, and causes no request.\<close>

theorem plain_page_unchanged:
  assumes "no_esi page"
  shows "MESIParse env page c = page \<and> ps_log (snd (mesi_run env page c)) = []"
  using mesi_plain [OF assms] by (simp add: MESIParse_def start_state_def)

theorem plain_page_unchanged_witness: "MESIParse (sample_core [93, 184, 216, 34]) ''<p>a < b</p>'' page_config = ''<p>a < b</p>''"
proof -
  have "no_esi ''<p>a < b</p>''" by code_simp
  from plain_page_unchanged [OF this] show ?thesis by blast
qed

end
