(* ===== verification/Go_Wire.thy ===== *)
theory Go_Wire
  imports Go_Bridge
begin

text \<open>
  What a parse call delivers to the core.  \<open>wire_settings\<close> are the settings of one parse, free of the
  server they come from; \<open>wire_members\<close> is the blob that the three modules write for them, and
  \<open>core_config\<close> the \<open>EsiParserConfig\<close> that the core ought to run with.  The lemmas say that
  \<open>ParseJson\<close> decodes the blob to exactly that configuration, and what each of the older entry
  points, which carry less, delivers.
\<close>

subsection \<open>Settings on the wire\<close>

record wire_settings =
  ws_depth :: int
  ws_url :: string
  ws_hosts :: string
  ws_block :: bool
  ws_allow :: bool
  ws_timeout :: "int option"
  ws_max_response_size :: "int option"
  ws_max_concurrent :: "int option"
  ws_max_workers :: "int option"
  ws_debug :: "bool option"
  ws_parse_on_header :: "bool option"
  ws_marker :: "string option"
  ws_template :: string
  ws_ctx :: "json option"

definition int_member :: "string \<Rightarrow> int option \<Rightarrow> (string \<times> json) list" where
  "int_member k v = (case v of None \<Rightarrow> [] | Some i \<Rightarrow> [(k, JInt i)])"

definition bool_member :: "string \<Rightarrow> bool option \<Rightarrow> (string \<times> json) list" where
  "bool_member k v = (case v of None \<Rightarrow> [] | Some b \<Rightarrow> [(k, JBool b)])"

definition str_member :: "string \<Rightarrow> string option \<Rightarrow> (string \<times> json) list" where
  "str_member k v = (case v of None \<Rightarrow> [] | Some s \<Rightarrow> [(k, JStr s)])"

definition wire_members :: "wire_settings \<Rightarrow> (string \<times> json) list" where
  "wire_members w =
    [(''maxDepth'', JInt (ws_depth w)), (''defaultUrl'', JStr (ws_url w)), (''allowedHosts'', JStr (ws_hosts w)),
     (''blockPrivateIPs'', JBool (ws_block w)), (''allowPrivateIPsForAllowedHosts'', JBool (ws_allow w))]
    @ int_member ''timeoutSeconds'' (ws_timeout w)
    @ int_member ''maxResponseSize'' (ws_max_response_size w)
    @ int_member ''maxConcurrentRequests'' (ws_max_concurrent w)
    @ int_member ''maxWorkers'' (ws_max_workers w)
    @ bool_member ''debug'' (ws_debug w)
    @ bool_member ''parseOnHeader'' (ws_parse_on_header w)
    @ str_member ''includeErrorMarker'' (ws_marker w)
    @ (if ws_template w = [] then []
       else (''cacheKeyTemplate'', JStr (ws_template w))
         # (case ws_ctx w of None \<Rightarrow> [] | Some j \<Rightarrow> [(''requestCtx'', j)]))"

definition wire_blob :: "wire_settings \<Rightarrow> string" where
  "wire_blob w = render quote_full (JObj (wire_members w))"

definition ctx_string :: "json option \<Rightarrow> string" where
  "ctx_string ctx = (case ctx of None \<Rightarrow> [] | Some j \<Rightarrow> render quote_full j)"

text \<open>Text that means the same to C and to Go: no NUL, and UTF-8.\<close>

definition go_text :: "string \<Rightarrow> bool" where
  "go_text s \<longleftrightarrow> utf8_valid s \<and> CHR 0x00 \<notin> set s"

definition in_range :: "int option \<Rightarrow> int \<Rightarrow> int \<Rightarrow> bool" where
  "in_range v lo hi \<longleftrightarrow> (case v of None \<Rightarrow> True | Some i \<Rightarrow> lo \<le> i \<and> i \<le> hi)"

definition wire_numbers_ok :: "wire_settings \<Rightarrow> bool" where
  "wire_numbers_ok w \<longleftrightarrow> 0 \<le> ws_depth w \<and> ws_depth w \<le> go_MaxMaxDepth
     \<and> in_range (ws_timeout w) 1 go_MaxTimeoutSeconds
     \<and> in_range (ws_max_response_size w) 0 go_MaxMaxResponseSize
     \<and> in_range (ws_max_concurrent w) 0 go_MaxMaxConcurrentRequests
     \<and> in_range (ws_max_workers w) 0 go_MaxMaxWorkers"

definition wire_texts_ok :: "wire_settings \<Rightarrow> bool" where
  "wire_texts_ok w \<longleftrightarrow> go_text (ws_url w) \<and> go_text (ws_hosts w) \<and> go_text (str_of (ws_marker w))
     \<and> go_text (ws_template w) \<and> (\<forall>j. ws_ctx w = Some j \<longrightarrow> shallow 9999 j)"

lemma go_text_Nil [simp]: "go_text []" "utf8_valid []"
  by (simp_all add: go_text_def utf8_valid_def go_utf8_def)

text \<open>The members of settings that come from a module.\<close>

text \<open>In the configurations \<open>-1\<close> marks a directive that was not given.\<close>

definition given :: "int \<Rightarrow> int option" where
  "given v = (if v = -1 then None else Some v)"

definition given_flag :: "int \<Rightarrow> bool option" where
  "given_flag v = (if v = -1 then None else Some (v \<noteq> 0))"

lemma given_member:
  "int_member k (given v) = opt_member (v \<noteq> -1) k (JInt v)"
  "bool_member k (given_flag v) = opt_member (v \<noteq> -1) k (JBool (v \<noteq> 0))"
  by (simp_all add: int_member_def bool_member_def given_def given_flag_def opt_member_def)

lemma str_member_opt: "str_member k (if b then s else None) = opt_member (b \<and> s \<noteq> None) k (JStr (str_of s))"
  by (cases s) (simp_all add: str_member_def opt_member_def str_of_def)

lemma template_members:
  "(if t = [] then [] else (k, v) # (case c of None \<Rightarrow> [] | Some j \<Rightarrow> [(k', j)]))
    = opt_member (t \<noteq> []) k v @ (case c of None \<Rightarrow> [] | Some j \<Rightarrow> opt_member (t \<noteq> []) k' j)"
  by (cases c) (simp_all add: opt_member_def)

subsection \<open>The configuration the core ought to run with\<close>

definition shared_client :: "go_state \<Rightarrow> wire_settings \<Rightarrow> int \<Rightarrow> http_client option" where
  "shared_client st w t =
    (if ws_allow w then None else case gs_client st of None \<Rightarrow> None | Some (bp, t0) \<Rightarrow> Some (bp, t))"

definition core_config :: "map_order \<Rightarrow> go_state \<Rightarrow> wire_settings \<Rightarrow> esi_config" where
  "core_config ord st w =
    (let t = (case ws_timeout w of None \<Rightarrow> 30 | Some s \<Rightarrow> s) * 1000000000
     in \<lparr> ec_default_url = ws_url w, ec_max_depth = ws_depth w, ec_timeout = t,
          ec_allowed_hosts = go_fields (ws_hosts w),
          ec_block_private_ips = ws_block w, ec_allow_private = ws_allow w,
          ec_max_response_size = (case ws_max_response_size w of None \<Rightarrow> 0 | Some n \<Rightarrow> n),
          ec_max_concurrent_requests = (case ws_max_concurrent w of None \<Rightarrow> 0 | Some n \<Rightarrow> n),
          ec_max_workers = (case ws_max_workers w of None \<Rightarrow> 0 | Some n \<Rightarrow> n),
          ec_debug = (ws_debug w = Some True), ec_parse_on_header = (ws_parse_on_header w = Some True),
          ec_include_error_marker = str_of (ws_marker w),
          ec_http_client = shared_client st w t,
          ec_cache = gs_cache st,
          ec_cache_ttl = (if gs_cache st = None then 0 else gs_cache_ttl st),
          ec_cache_key =
            (if ws_template w = [] then None
             else Some (ws_template w, build_request_from_json ord (ctx_string (ws_ctx w)))) \<rparr>)"

lemma core_config_cong:
  assumes "gs_client st = gs_client st'" and "gs_cache st = gs_cache st'" and "gs_cache_ttl st = gs_cache_ttl st'"
  shows "core_config ord st w = core_config ord st' w"
  by (simp only: core_config_def shared_client_def assms)

subsection \<open>The blob decodes to the settings\<close>

lemma fold_key_ascii: "\<forall>c \<in> set s. byte c < 128 \<Longrightarrow> fold_key s = map lower s"
proof (induction s)
  case (Cons c s)
  have "\<not> prefix (utf8 383) (c # s)" "\<not> prefix (utf8 8490) (c # s)"
    using Cons.prems by (auto simp: utf8_def)
  with Cons show ?case by simp
qed simp

lemma fold_key_literal:
  assumes "list_all (\<lambda>c. byte c < 128) s"
  shows "fold_key (go_utf8 s) = map lower s"
  using assms ascii_valid [of s] fold_key_ascii [of s] by (simp add: list_all_iff go_utf8_valid)

lemma wire_keys [key_quotes]:
  "fold_key (go_utf8 ''maxDepth'') = ''maxdepth''" "fold_key (go_utf8 ''defaultUrl'') = ''defaulturl''"
  "fold_key (go_utf8 ''allowedHosts'') = ''allowedhosts''"
  "fold_key (go_utf8 ''blockPrivateIPs'') = ''blockprivateips''"
  "fold_key (go_utf8 ''allowPrivateIPsForAllowedHosts'') = ''allowprivateipsforallowedhosts''"
  "fold_key (go_utf8 ''timeoutSeconds'') = ''timeoutseconds''"
  "fold_key (go_utf8 ''maxResponseSize'') = ''maxresponsesize''"
  "fold_key (go_utf8 ''maxConcurrentRequests'') = ''maxconcurrentrequests''"
  "fold_key (go_utf8 ''maxWorkers'') = ''maxworkers''"
  "fold_key (go_utf8 ''debug'') = ''debug''" "fold_key (go_utf8 ''parseOnHeader'') = ''parseonheader''"
  "fold_key (go_utf8 ''includeErrorMarker'') = ''includeerrormarker''"
  "fold_key (go_utf8 ''cacheKeyTemplate'') = ''cachekeytemplate''"
  "fold_key (go_utf8 ''requestCtx'') = ''requestctx''"
  by (subst fold_key_literal; code_simp)+

lemma go_parse_int_show:
  assumes "- (2 ^ 63) \<le> i" and "i < 2 ^ 63"
  shows "go_parse_int (show_int i) = Some i"
proof (cases "i < 0")
  case True
  then show ?thesis using assms show_nat_digits
    by (auto simp: go_parse_int_def show_int_def Let_def list_all_iff)
next
  case False
  then show ?thesis using assms show_nat_digits hd_show_nat [of "nat i"]
    by (auto simp: go_parse_int_def show_int_def Let_def list_all_iff)
qed

definition lifted :: "(string \<times> json) list \<Rightarrow> (string \<times> string \<times> gjson) list" where
  "lifted ms = map (\<lambda>(k, v). (go_utf8 k, render quote_full v, lift v)) ms"

lemma lifted_simps:
  "lifted [] = []" "lifted ((k, v) # ms) = (go_utf8 k, render quote_full v, lift v) # lifted ms"
  "lifted (xs @ ys) = lifted xs @ lifted ys"
  by (simp_all add: lifted_def)

lemma into_members_append:
  "into_members (xs @ ys) c = (case into_members xs c of None \<Rightarrow> None | Some c' \<Rightarrow> into_members ys c')"
  by (induction xs c rule: into_members.induct) (simp_all split: option.split)

text \<open>A number that fits a Go int.\<close>

definition small :: "int option \<Rightarrow> bool" where
  "small v \<longleftrightarrow> in_range v (- (2 ^ 63)) (2 ^ 63 - 1)"

lemma small_Some: "small (Some i) \<Longrightarrow> into_int_ptr (GNum (show_int i)) = Some (Some i)"
  using go_parse_int_show [of i] by (simp add: small_def in_range_def into_int_ptr_def)

lemma lift_string: "utf8_valid s \<Longrightarrow> lift (JStr s) = GStr s"
  by (simp add: go_utf8_valid)

lemma decode_int_members:
  "small v \<Longrightarrow> pc_timeout_seconds c = None \<Longrightarrow>
     into_members (lifted (int_member ''timeoutSeconds'' v)) c = Some (c\<lparr>pc_timeout_seconds := v\<rparr>)"
  "small v \<Longrightarrow> pc_max_response_size c = None \<Longrightarrow>
     into_members (lifted (int_member ''maxResponseSize'' v)) c = Some (c\<lparr>pc_max_response_size := v\<rparr>)"
  "small v \<Longrightarrow> pc_max_concurrent_requests c = None \<Longrightarrow>
     into_members (lifted (int_member ''maxConcurrentRequests'' v)) c
       = Some (c\<lparr>pc_max_concurrent_requests := v\<rparr>)"
  "small v \<Longrightarrow> pc_max_workers c = None \<Longrightarrow>
     into_members (lifted (int_member ''maxWorkers'' v)) c = Some (c\<lparr>pc_max_workers := v\<rparr>)"
  by (cases v; simp add: int_member_def lifted_simps key_quotes into_config_def small_Some)+

lemma decode_bool_members:
  "\<not> pc_debug c \<Longrightarrow> into_members (lifted (bool_member ''debug'' b)) c = Some (c\<lparr>pc_debug := (b = Some True)\<rparr>)"
  "\<not> pc_parse_on_header c \<Longrightarrow>
     into_members (lifted (bool_member ''parseOnHeader'' b)) c = Some (c\<lparr>pc_parse_on_header := (b = Some True)\<rparr>)"
  by (cases b; simp add: bool_member_def lifted_simps key_quotes into_config_def into_bool_def)+

lemma decode_marker:
  "utf8_valid (str_of m) \<Longrightarrow> pc_include_error_marker c = [] \<Longrightarrow>
     into_members (lifted (str_member ''includeErrorMarker'' m)) c = Some (c\<lparr>pc_include_error_marker := str_of m\<rparr>)"
  by (cases m; simp add: str_member_def lifted_simps key_quotes into_config_def into_string_def str_of_def go_utf8_valid)

lemma decode_template:
  "utf8_valid t \<Longrightarrow> pc_cache_key_template c = [] \<Longrightarrow> pc_request_ctx c = [] \<Longrightarrow> into_members
       (lifted (if t = [] then [] else (''cacheKeyTemplate'', JStr t) # (case ctx of None \<Rightarrow> [] | Some j \<Rightarrow> [(''requestCtx'', j)]))) c
     = Some (c\<lparr>pc_cache_key_template := t, pc_request_ctx := (if t = [] then [] else ctx_string ctx)\<rparr>)"
  by (cases ctx; simp add: lifted_simps key_quotes into_config_def into_string_def ctx_string_def go_utf8_valid)

lemma decode_fixed:
  assumes "small (Some d)" and "utf8_valid u" and "utf8_valid h"
  shows "into_members (lifted [(''maxDepth'', JInt d), (''defaultUrl'', JStr u), (''allowedHosts'', JStr h),
      (''blockPrivateIPs'', JBool bp), (''allowPrivateIPsForAllowedHosts'', JBool ap)]) c
    = Some (c\<lparr>pc_max_depth := Some d, pc_default_url := u, pc_allowed_hosts := h,
              pc_block_private_ips := Some bp, pc_allow_private := ap\<rparr>)"
  using assms
  by (simp add: lifted_simps key_quotes into_config_def into_string_def into_bool_def into_bool_ptr_def
      go_utf8_valid small_Some)

text \<open>The decoded blob.\<close>

definition wire_config :: "wire_settings \<Rightarrow> parse_config" where
  "wire_config w =
    \<lparr> pc_max_depth = Some (ws_depth w), pc_default_url = ws_url w, pc_allowed_hosts = ws_hosts w,
      pc_block_private_ips = Some (ws_block w), pc_allow_private = ws_allow w,
      pc_cache_key_template = ws_template w, pc_debug = (ws_debug w = Some True),
      pc_parse_on_header = (ws_parse_on_header w = Some True),
      pc_request_ctx = (if ws_template w = [] then [] else ctx_string (ws_ctx w)),
      pc_timeout_seconds = ws_timeout w, pc_max_response_size = ws_max_response_size w,
      pc_max_concurrent_requests = ws_max_concurrent w, pc_max_workers = ws_max_workers w,
      pc_include_error_marker = str_of (ws_marker w) \<rparr>"

text \<open>Numbers that a Go int can hold.\<close>

definition wire_numbers_small :: "wire_settings \<Rightarrow> bool" where
  "wire_numbers_small w \<longleftrightarrow> small (Some (ws_depth w)) \<and> small (ws_timeout w)
     \<and> small (ws_max_response_size w) \<and> small (ws_max_concurrent w) \<and> small (ws_max_workers w)"

lemma wire_small:
  assumes "wire_numbers_small w"
  shows "small (Some (ws_depth w))" "small (ws_timeout w)" "small (ws_max_response_size w)"
    "small (ws_max_concurrent w)" "small (ws_max_workers w)"
  using assms by (simp_all add: wire_numbers_small_def)

lemma wire_ok_small: "wire_numbers_ok w \<Longrightarrow> wire_numbers_small w"
  by (auto simp: wire_numbers_ok_def wire_numbers_small_def small_def in_range_def go_limits split: option.splits)

lemma wire_shallow: "wire_texts_ok w \<Longrightarrow> shallow 10000 (JObj (wire_members w))"
  by (auto simp: wire_texts_ok_def wire_members_def int_member_def bool_member_def str_member_def
      split: option.splits)

lemma wire_decodes_small:
  assumes "wire_numbers_small w" and "wire_texts_ok w"
  shows "parse_config_from_json (wire_blob w) = Some (wire_config w)"
proof -
  have v: "utf8_valid (ws_url w)" "utf8_valid (ws_hosts w)" "utf8_valid (str_of (ws_marker w))"
    "utf8_valid (ws_template w)"
    using assms(2) by (simp_all add: wire_texts_ok_def go_text_def)
  have "go_read (wire_blob w) = Some (GObj (lifted (wire_members w)))"
    using go_read_render [OF wire_shallow [OF assms(2)]] by (simp add: wire_blob_def lifted_def del: render.simps)
  moreover have "into_members (lifted (wire_members w)) zero_config = Some (wire_config w)"
    unfolding wire_members_def lifted_simps(3) into_members_append
      decode_fixed [OF wire_small(1) [OF assms(1)] v(1,2)]
    by (simp add: decode_int_members wire_small [OF assms(1)] decode_bool_members decode_marker [OF v(3)]
        decode_template [OF v(4)] wire_config_def zero_config_def)
  ultimately show ?thesis by (simp add: parse_config_from_json_def)
qed

lemmas wire_decodes = wire_decodes_small [OF wire_ok_small]

subsection \<open>What the core gets of the blob\<close>

text \<open>No byte below the space stands in a rendered value; in particular no NUL.\<close>

definition printable :: "string \<Rightarrow> bool" where
  "printable s \<longleftrightarrow> list_all (\<lambda>c. 32 \<le> byte c) s"

lemma printable_simps [simp]:
  "printable []" "printable (c # s) \<longleftrightarrow> 32 \<le> byte c \<and> printable s"
  "printable (s @ t) \<longleftrightarrow> printable s \<and> printable t"
  by (simp_all add: printable_def)

lemma printable_commas: "(\<And>x. x \<in> set xs \<Longrightarrow> printable x) \<Longrightarrow> printable (commas xs)"
  by (induction xs rule: commas.induct) simp_all

lemma printable_escape: "printable (escape_byte c)"
proof -
  have "\<forall>n \<in> set [0..<16]. 32 \<le> byte (hex_digits ! n)" by code_simp
  then have "n < 16 \<Longrightarrow> 32 \<le> byte (hex_digits ! n)" for n by simp
  then show ?thesis by (simp add: escape_byte_def)
qed

lemma printable_quote: "printable (quote_full s)"
proof -
  have "printable (concat (map escape_byte s))" by (induction s) (simp_all add: printable_escape)
  then show ?thesis by (simp add: mesi_json_string_def)
qed

lemma printable_show: "printable (show_int i)"
proof -
  have "printable (show_nat n)" for n
    using show_nat_digits [of n] by (auto simp: printable_def list_all_iff is_digit_def)
  then show ?thesis by (simp add: show_int_def)
qed

lemma printable_render: "printable (render quote_full j)"
  by (induction j) (auto intro!: printable_commas simp: printable_quote printable_show)

lemma c_string_id: "CHR 0x00 \<notin> set s \<Longrightarrow> c_string s = s"
  by (auto simp: c_string_def takeWhile_eq_all_conv)

lemma printable_c_string: "printable s \<Longrightarrow> c_string s = s"
  by (rule c_string_id) (auto simp: printable_def list_all_iff)

lemma c_string_ctx: "c_string (ctx_string ctx) = ctx_string ctx"
  by (rule printable_c_string) (simp add: ctx_string_def printable_render split: option.split)

lemma go_seconds_small: "0 \<le> v \<Longrightarrow> v \<le> 86400 \<Longrightarrow> go_seconds v = v * 1000000000"
  by (simp add: go_seconds_def s64_id)

lemma resolve_timeout_ok:
  "in_range v 1 go_MaxTimeoutSeconds \<Longrightarrow>
     resolve_timeout v = Some ((case v of None \<Rightarrow> 30 | Some s \<Rightarrow> s) * 1000000000)"
  by (cases v) (simp_all add: in_range_def resolve_timeout_def validate_timeout_def go_limits go_seconds_small)

lemma wire_resolved:
  assumes "wire_numbers_ok w"
  shows "resolved_max_depth (wire_config w) = Some (ws_depth w)"
    and "resolved_timeout (wire_config w) = Some ((case ws_timeout w of None \<Rightarrow> 30 | Some s \<Rightarrow> s) * 1000000000)"
    and "resolved_max_response_size (wire_config w)
      = Some (case ws_max_response_size w of None \<Rightarrow> 0 | Some n \<Rightarrow> n)"
    and "resolved_max_concurrent (wire_config w) = Some (case ws_max_concurrent w of None \<Rightarrow> 0 | Some n \<Rightarrow> n)"
    and "resolved_max_workers (wire_config w) = Some (case ws_max_workers w of None \<Rightarrow> 0 | Some n \<Rightarrow> n)"
    and "resolve_max_depth (ws_depth w) = Some (ws_depth w)"
  using assms resolve_timeout_ok [of "ws_timeout w"]
  by (simp_all add: wire_numbers_ok_def wire_config_def resolved_max_depth_def validate_max_depth_def
      resolve_max_depth_def resolved_timeout_def resolved_max_response_size_def
      validate_max_response_size_def resolved_max_concurrent_def validate_max_concurrent_def
      resolved_max_workers_def validate_max_workers_def in_range_def split: option.splits)

text \<open>\<open>parse_with_config_internal\<close> builds the configuration.\<close>

definition wire_options :: "wire_settings \<Rightarrow> extra_options" where
  "wire_options w =
    \<lparr> xo_timeout = (case ws_timeout w of None \<Rightarrow> 30 | Some s \<Rightarrow> s) * 1000000000,
      xo_max_response_size = (case ws_max_response_size w of None \<Rightarrow> 0 | Some n \<Rightarrow> n),
      xo_max_concurrent_requests = (case ws_max_concurrent w of None \<Rightarrow> 0 | Some n \<Rightarrow> n),
      xo_max_workers = (case ws_max_workers w of None \<Rightarrow> 0 | Some n \<Rightarrow> n),
      xo_debug = (ws_debug w = Some True), xo_parse_on_header = (ws_parse_on_header w = Some True),
      xo_include_error_marker = str_of (ws_marker w) \<rparr>"

lemma internal_core:
  assumes "resolve_max_depth (ws_depth w) = Some (ws_depth w)" and "str_of hosts = ws_hosts w"
    and "bp \<noteq> 0 \<longleftrightarrow> ws_block w" and "ap \<noteq> 0 \<longleftrightarrow> ws_allow w" and "str_of tmpl = ws_template w"
    and "ws_template w \<noteq> [] \<Longrightarrow> str_of ctx = ctx_string (ws_ctx w)"
  shows "parse_with_config_internal ord st page (ws_depth w) (ws_url w) hosts bp ap tmpl ctx (wire_options w)
    = Some (page, core_config ord st w)"
  using assms
  by (cases "gs_client st"; cases "gs_cache st"; cases "ws_allow w")
    (auto simp: parse_with_config_internal_def Let_def apply_shared_config_def wire_options_def
      core_config_def shared_client_def zero_esi_config_def go_allowed_hosts_def)

lemma wire_blob_nonempty: "wire_blob w \<noteq> []"
  by (simp add: wire_blob_def)

lemma json_reaches_core:
  assumes "wire_numbers_ok w" and "wire_texts_ok w"
  shows "go_parse_json ord st page (Some (wire_blob w)) = Some (page, core_config ord st w)"
proof -
  have t: "c_string (ws_url w) = ws_url w" "c_string (ws_hosts w) = ws_hosts w"
    "c_string (ws_template w) = ws_template w"
    using assms(2) by (simp_all add: wire_texts_ok_def go_text_def c_string_id)
  have c: "c_string (if b then [] else ctx_string x) = (if b then [] else ctx_string x)" for b x
    using c_string_ctx by (simp add: c_string_def)
  have f: "pc_default_url (wire_config w) = ws_url w" "pc_allowed_hosts (wire_config w) = ws_hosts w"
    "resolved_block_private_ips (wire_config w) = ws_block w" "pc_allow_private (wire_config w) = ws_allow w"
    "pc_cache_key_template (wire_config w) = ws_template w"
    "pc_request_ctx (wire_config w) = (if ws_template w = [] then [] else ctx_string (ws_ctx w))"
    "pc_debug (wire_config w) = (ws_debug w = Some True)"
    "pc_parse_on_header (wire_config w) = (ws_parse_on_header w = Some True)"
    "pc_include_error_marker (wire_config w) = str_of (ws_marker w)"
    by (simp_all add: wire_config_def resolved_block_private_ips_def)
  show ?thesis
    using wire_decodes [OF assms] wire_blob_nonempty [of w]
      internal_core [OF wire_resolved(6) [OF assms(1)], of "Some (ws_hosts w)" "if ws_block w then 1 else 0"
        "if ws_allow w then 1 else 0" "Some (ws_template w)"
        "Some (if ws_template w = [] then [] else ctx_string (ws_ctx w))" ord st page]
    by (simp add: go_parse_json_def Let_def str_of_def [of "Some x" for x] wire_resolved [OF assms(1)] f t c
        wire_options_def)
qed

lemma go_answers: "lib_answer (go_library core ord st) c = go_answer core ord st c"
  by (cases c) (simp_all add: go_library_def go_answer_def)

subsection \<open>The other entry points\<close>

text \<open>What of the settings an entry point can carry.\<close>

definition drop_optional :: "wire_settings \<Rightarrow> wire_settings" where
  "drop_optional w =
    w\<lparr>ws_timeout := None, ws_max_response_size := None, ws_max_concurrent := None, ws_max_workers := None,
      ws_debug := None, ws_parse_on_header := None, ws_marker := None\<rparr>"

definition drop_template :: "wire_settings \<Rightarrow> wire_settings" where
  "drop_template w = w\<lparr>ws_template := [], ws_ctx := None\<rparr>"

fun delivered :: "lib_call \<Rightarrow> wire_settings \<Rightarrow> wire_settings" where
  "delivered (CallParseWithConfigCtx _ _ _ _ _ _ _ _) w = drop_optional w"
| "delivered (CallParseWithConfigEx _ _ _ _ _ _) w = drop_template (drop_optional w)"
| "delivered (CallParseWithConfig _ _ _ _ _) w = drop_template (drop_optional (w\<lparr>ws_allow := False\<rparr>))"
| "delivered (CallParse _ _ _) w =
     drop_template (drop_optional (w\<lparr>ws_hosts := [], ws_block := False, ws_allow := False\<rparr>))"
| "delivered _ w = w"

text \<open>The arguments of a call that delivers the settings.\<close>

fun delivers :: "wire_settings \<Rightarrow> string \<Rightarrow> lib_call \<Rightarrow> bool" where
  "delivers w page (CallParse i d u) \<longleftrightarrow> i = page \<and> d = ws_depth w \<and> u = ws_url w"
| "delivers w page (CallParseWithConfig i d u h bp) \<longleftrightarrow>
     i = page \<and> d = ws_depth w \<and> u = ws_url w \<and> h = ws_hosts w \<and> (bp \<noteq> 0 \<longleftrightarrow> ws_block w)"
| "delivers w page (CallParseWithConfigEx i d u h bp ap) \<longleftrightarrow>
     i = page \<and> d = ws_depth w \<and> u = ws_url w \<and> h = ws_hosts w \<and> (bp \<noteq> 0 \<longleftrightarrow> ws_block w)
     \<and> (ap \<noteq> 0 \<longleftrightarrow> ws_allow w)"
| "delivers w page (CallParseWithConfigCtx i d u h bp ap t cj) \<longleftrightarrow>
     i = page \<and> d = ws_depth w \<and> u = ws_url w \<and> h = ws_hosts w \<and> (bp \<noteq> 0 \<longleftrightarrow> ws_block w)
     \<and> (ap \<noteq> 0 \<longleftrightarrow> ws_allow w) \<and> t = ws_template w \<and> ctx_text (Some cj) (ws_ctx w)"
| "delivers w page (CallParseJson i blob) \<longleftrightarrow> i = page \<and> blob = wire_blob w"
| "delivers w page _ \<longleftrightarrow> False"

lemma positional_is_wire: "positional_options = wire_options (drop_optional w)"
  by (simp add: positional_options_def wire_options_def drop_optional_def default_parse_timeout_def
      go_limits go_seconds_small str_of_def)

lemma wire_options_template: "wire_options (drop_template w) = wire_options w"
  by (simp add: wire_options_def drop_template_def)

lemma ctx_text_string: "ctx_text (Some cj) ctx \<Longrightarrow> cj = ctx_string ctx"
  by (cases ctx) (simp_all add: ctx_text_def ctx_string_def nonempty_def)

lemmas wire_drop = drop_optional_def drop_template_def

lemma depth_ok: "wire_numbers_ok w \<Longrightarrow> resolve_max_depth (ws_depth w) = Some (ws_depth w)"
  by (rule wire_resolved(6))

lemma ctx_reaches_core:
  assumes "wire_numbers_ok w" and "delivers w page (CallParseWithConfigCtx i d u h bp ap t cj)"
  shows "go_core_call ord st (CallParseWithConfigCtx i d u h bp ap t cj) = Some (page, core_config ord st (drop_optional w))"
  using internal_core [of "drop_optional w" "Some h" bp ap "Some t" "Some cj" ord st page] assms(2)
    depth_ok [OF assms(1)] ctx_text_string [of cj "ws_ctx w"]
  unfolding go_core_call.simps go_parse_with_config_ctx_def positional_is_wire [of w]
  by (simp add: wire_drop str_of_def)

lemma ex_reaches_core:
  assumes "wire_numbers_ok w" and "delivers w page (CallParseWithConfigEx i d u h bp ap)"
  shows "go_core_call ord st (CallParseWithConfigEx i d u h bp ap)
    = Some (page, core_config ord st (drop_template (drop_optional w)))"
  using internal_core [of "drop_template (drop_optional w)" "Some h" bp ap None None ord st page] assms(2)
    depth_ok [OF assms(1)]
  unfolding go_core_call.simps go_parse_with_config_ex_def positional_is_wire [of w]
  by (simp only: wire_options_template) (simp add: wire_drop str_of_def)

lemma config_reaches_core:
  assumes "wire_numbers_ok w" and "delivers w page (CallParseWithConfig i d u h bp)"
  shows "go_core_call ord st (CallParseWithConfig i d u h bp)
    = Some (page, core_config ord st (drop_template (drop_optional (w\<lparr>ws_allow := False\<rparr>))))"
proof -
  have "wire_numbers_ok (w\<lparr>ws_allow := False\<rparr>)" using assms(1) by (simp add: wire_numbers_ok_def)
  from ex_reaches_core [OF this, of page i d u h bp 0 ord st] assms(2) show ?thesis
    by (simp add: go_parse_with_config_def)
qed

lemma plain_reaches_core:
  assumes "wire_numbers_ok w" and "delivers w page (CallParse i d u)"
  shows "go_core_call ord st (CallParse i d u)
    = Some (page, core_config ord st (delivered (CallParse i d u) w))"
  using assms(2) depth_ok [OF assms(1)]
  by (cases "gs_client st"; cases "gs_cache st")
    (auto simp: go_parse_def apply_shared_config_def core_config_def shared_client_def wire_drop
      zero_esi_config_def go_fields_def end_field_def default_parse_timeout_def go_limits go_seconds_small str_of_def Let_def)

lemma delivers_core:
  assumes "delivers w page c" and "wire_numbers_ok w" and "wire_texts_ok w"
  shows "go_core_call ord st c = Some (page, core_config ord st (delivered c w))"
proof (cases c)
  case CallParse
  with assms show ?thesis by (simp add: plain_reaches_core del: go_core_call.simps)
next
  case CallParseWithConfig
  with assms show ?thesis by (simp add: config_reaches_core del: go_core_call.simps)
next
  case CallParseWithConfigEx
  with assms show ?thesis by (simp add: ex_reaches_core del: go_core_call.simps)
next
  case CallParseWithConfigCtx
  with assms show ?thesis by (simp add: ctx_reaches_core del: go_core_call.simps)
next
  case CallParseJson
  with assms show ?thesis by (simp add: json_reaches_core)
qed (use assms(1) in simp_all)

subsection \<open>What is refused\<close>

lemma wire_unresolved:
  assumes "resolved_max_depth (wire_config w) \<noteq> None" and "resolved_timeout (wire_config w) \<noteq> None"
    and "resolved_max_response_size (wire_config w) \<noteq> None" and "resolved_max_concurrent (wire_config w) \<noteq> None"
    and "resolved_max_workers (wire_config w) \<noteq> None"
  shows "wire_numbers_ok w"
proof -
  have "0 \<le> ws_depth w \<and> ws_depth w \<le> go_MaxMaxDepth"
    using assms(1) by (simp add: resolved_max_depth_def wire_config_def validate_max_depth_def Let_def split: if_splits)
  moreover have "in_range (ws_timeout w) 1 go_MaxTimeoutSeconds"
    using assms(2)
    by (cases "ws_timeout w")
       (simp_all add: resolved_timeout_def resolve_timeout_def wire_config_def validate_timeout_def in_range_def Let_def split: if_splits)
  moreover have "in_range (ws_max_response_size w) 0 go_MaxMaxResponseSize"
    using assms(3)
    by (cases "ws_max_response_size w")
       (simp_all add: resolved_max_response_size_def wire_config_def validate_max_response_size_def in_range_def split: if_splits)
  moreover have "in_range (ws_max_concurrent w) 0 go_MaxMaxConcurrentRequests"
    using assms(4)
    by (cases "ws_max_concurrent w")
       (simp_all add: resolved_max_concurrent_def wire_config_def validate_max_concurrent_def in_range_def split: if_splits)
  moreover have "in_range (ws_max_workers w) 0 go_MaxMaxWorkers"
    using assms(5)
    by (cases "ws_max_workers w")
       (simp_all add: resolved_max_workers_def wire_config_def validate_max_workers_def in_range_def split: if_splits)
  ultimately show ?thesis by (simp add: wire_numbers_ok_def)
qed

subsection \<open>Properties\<close>

text \<open>C24: \<open>ParseJson\<close> answers NULL to a blob of the modules exactly when a number in it is out of the
  range that the modules themselves check, so a configuration they have accepted is never refused and
  an unchecked one never gets to the core.\<close>

theorem json_refuses_out_of_range:
  assumes "wire_numbers_small w" and "wire_texts_ok w"
  shows "go_parse_json ord st page (Some (wire_blob w)) = None \<longleftrightarrow> \<not> wire_numbers_ok w"
proof (cases "wire_numbers_ok w")
  case True
  then show ?thesis by (simp add: json_reaches_core [OF True assms(2)])
next
  case False
  then have "resolved_max_depth (wire_config w) = None \<or> resolved_timeout (wire_config w) = None
    \<or> resolved_max_response_size (wire_config w) = None \<or> resolved_max_concurrent (wire_config w) = None
    \<or> resolved_max_workers (wire_config w) = None" using wire_unresolved by blast
  with False show ?thesis
    using wire_decodes_small [OF assms] wire_blob_nonempty [of w]
    by (auto simp: go_parse_json_def Let_def str_of_def split: option.split)
qed

text \<open>C25: without the keys that only the blob can carry, \<open>ParseJson\<close> hands the core the very call that
  the positional entry point does, so a module may use either for them.\<close>

theorem json_entry_is_positional:
  assumes "wire_numbers_ok w" and "wire_texts_ok w" and "drop_optional w = w"
    and "ctx_text (Some ctx_json) (ws_ctx w)" and "bp \<noteq> 0 \<longleftrightarrow> ws_block w" and "ap \<noteq> 0 \<longleftrightarrow> ws_allow w"
  shows "go_parse_json ord st page (Some (wire_blob w))
    = go_parse_with_config_ctx ord st page (ws_depth w) (ws_url w) (ws_hosts w) bp ap (ws_template w) ctx_json"
  using json_reaches_core [OF assms(1,2), of ord st page]
    ctx_reaches_core [OF assms(1), of page page "ws_depth w" "ws_url w" "ws_hosts w" bp ap "ws_template w" ctx_json ord st]
    assms(3-6)
  by simp

definition sample_settings :: wire_settings where
  "sample_settings = \<lparr> ws_depth = 3, ws_url = ''http://a/'', ws_hosts = ''a b'', ws_block = True, ws_allow = False,
     ws_timeout = None, ws_max_response_size = None, ws_max_concurrent = None, ws_max_workers = None,
     ws_debug = None, ws_parse_on_header = None, ws_marker = None, ws_template = ''${header:X}'',
     ws_ctx = Some (JObj [(''headers'', JObj []), (''cookies'', JArr [])]) \<rparr>"

lemma sample_texts: "go_text ''http://a/''" "go_text ''a b''" "go_text ''${header:X}''"
  by code_simp+

lemma sample_settings_ok: "wire_texts_ok (sample_settings\<lparr>ws_depth := d\<rparr>)"
  by (simp add: wire_texts_ok_def sample_settings_def sample_texts str_of_def)

theorem json_refuses_out_of_range_witness:
  "go_parse_json id go_initial ''page'' (Some (wire_blob (sample_settings\<lparr>ws_depth := 10001\<rparr>))) = None"
  using json_refuses_out_of_range [OF _ sample_settings_ok [of 10001], of id go_initial "''page''"]
  by (simp add: wire_numbers_small_def small_def in_range_def sample_settings_def wire_numbers_ok_def go_limits)

theorem json_entry_is_positional_witness:
  "go_parse_json id go_initial ''page'' (Some (wire_blob sample_settings))
    = go_parse_with_config_ctx id go_initial ''page'' 3 ''http://a/'' ''a b'' 1 0 ''${header:X}''
        (render quote_full (JObj [(''headers'', JObj []), (''cookies'', JArr [])]))"
  using json_entry_is_positional [of sample_settings "render quote_full (JObj [(''headers'', JObj []), (''cookies'', JArr [])])"
      1 0 id go_initial "''page''"] sample_settings_ok [of 3]
  by (simp add: sample_settings_def wire_numbers_ok_def go_limits in_range_def drop_optional_def ctx_text_def
      del: render.simps)

end
