(* ===== verification/Go_Cache.thy ===== *)
theory Go_Cache
  imports Go_Wire
begin

text \<open>
  The shared cache and the shared client as the calls of a process leave them in the library.  The
  configuration texts that the modules write for Redis and memcached are read back to the very
  addresses, and an accepted configuration is never refused.
\<close>

subsection \<open>Calls in order\<close>

lemma go_run_Nil [simp]: "go_run [] = go_initial"
  by (simp add: go_run_def)

lemma go_run_snoc [simp]: "go_run (cs @ [c]) = go_step (go_run cs) c"
  by (simp add: go_run_def)

lemma step_client [simp]:
  "gs_client (go_init_http_client bp st) = Some (bp \<noteq> 0, 30000000000)"
  "gs_client (go_free_http_client st) = None"
  "gs_client (snd (go_init_cache b n t st)) = gs_client st"
  "gs_client (snd (go_init_cache_with_config b n t cfg st)) = gs_client st"
  "gs_client (go_free_cache st) = gs_client st"
  by (simp_all add: go_init_http_client_def go_seconds_small go_free_http_client_def Let_def go_init_cache_def
      new_cache_def go_init_cache_with_config_def go_free_cache_def split: option.split)

lemma step_cache [simp]:
  "gs_cache (go_init_http_client bp st) = gs_cache st" "gs_cache_ttl (go_init_http_client bp st) = gs_cache_ttl st"
  "gs_cache (go_free_http_client st) = gs_cache st" "gs_cache_ttl (go_free_http_client st) = gs_cache_ttl st"
  "gs_cache (go_free_cache st) = None" "gs_cache_ttl (go_free_cache st) = 0"
  by (simp_all add: go_init_http_client_def go_free_http_client_def Let_def go_free_cache_def)

text \<open>The return code of a set-up does not depend on the state.\<close>

definition init_refused :: "string \<Rightarrow> int \<Rightarrow> int \<Rightarrow> string \<Rightarrow> bool" where
  "init_refused b n t cfg \<longleftrightarrow> init_cache_from_config b n t cfg = None"

lemma init_with_config_rc: "fst (go_init_cache_with_config b n t cfg st) = (if init_refused b n t cfg then -1 else 0)"
  by (simp add: go_init_cache_with_config_def init_refused_def Let_def split: option.split)

lemma init_with_config_cache:
  "gs_cache (snd (go_init_cache_with_config b n t cfg st)) =
     (case init_cache_from_config b n t cfg of Some (Some c) \<Rightarrow> Some (gs_made st, c) | _ \<Rightarrow> None)"
  "gs_cache_ttl (snd (go_init_cache_with_config b n t cfg st)) =
     (case init_cache_from_config b n t cfg of Some (Some c) \<Rightarrow> go_seconds t | _ \<Rightarrow> 0)"
  by (simp_all add: go_init_cache_with_config_def new_cache_def Let_def split: option.split)

subsection \<open>The configuration of Redis\<close>

definition redis_json :: "string \<Rightarrow> string \<Rightarrow> int option \<Rightarrow> json" where
  "redis_json addr password db =
     JObj ([(''redisAddr'', JStr addr), (''redisPassword'', JStr password)] @ int_member ''redisDB'' db)"

lemma cache_wire_keys [key_quotes]:
  "fold_key (go_utf8 ''redisAddr'') = ''redisaddr''" "fold_key (go_utf8 ''redisPassword'') = ''redispassword''"
  "fold_key (go_utf8 ''redisDB'') = ''redisdb''" "fold_key (go_utf8 ''servers'') = ''servers''"
  by (subst fold_key_literal; code_simp)+

lemma go_utf8_empty: "go_utf8 s = [] \<longleftrightarrow> s = []"
  by (cases s) (auto simp: go_utf8_def rune_error_def utf8_def split: nat.splits)

lemma redis_decodes:
  assumes "addr \<noteq> []" and "in_range db 0 15"
  shows "parse_redis_config (render quote_full (redis_json addr password db))
    = Some (go_utf8 addr, go_utf8 password, case db of None \<Rightarrow> 0 | Some n \<Rightarrow> n)"
proof -
  let ?ms = "[(''redisAddr'', JStr addr), (''redisPassword'', JStr password)] @ int_member ''redisDB'' db"
  have "shallow 10000 (redis_json addr password db)"
    by (cases db) (simp_all add: redis_json_def int_member_def)
  then have r: "go_read (render quote_full (redis_json addr password db)) = Some (GObj (lifted ?ms))"
    unfolding redis_json_def by (simp only: go_read_render lift.simps lifted_def)
  have "small db" using assms(2) by (auto simp: small_def in_range_def split: option.splits)
  then have "into_redis (lifted ?ms) \<lparr> rd_addr = [], rd_password = [], rd_db = None \<rparr>
      = Some \<lparr> rd_addr = go_utf8 addr, rd_password = go_utf8 password, rd_db = db \<rparr>"
    by (cases db; simp add: lifted_simps key_quotes into_string_def int_member_def small_Some)
  moreover have "render quote_full (redis_json addr password db) \<noteq> []" by (simp add: redis_json_def)
  ultimately show ?thesis
    using assms r go_utf8_empty [of addr]
    by (cases db) (auto simp: parse_redis_config_def in_range_def)
qed

subsection \<open>The configuration of memcached\<close>

definition servers_json :: "string list \<Rightarrow> json" where
  "servers_json ss = JObj [(''servers'', JArr (map JStr ss))]"

lemma slice_strings: "into_slice into_string [] (map (lift \<circ> JStr) ss) [] = Some (map go_utf8 ss)"
  by (induction ss) (simp_all add: into_string_def)

lemma memcached_decodes:
  assumes "ss \<noteq> []"
  shows "parse_memcached_config (render quote_full (servers_json ss)) = Some (map go_utf8 ss)"
proof -
  have "shallow 10000 (servers_json ss)" by (simp add: servers_json_def)
  then have r: "go_read (render quote_full (servers_json ss)) = Some (GObj (lifted [(''servers'', JArr (map JStr ss))]))"
    unfolding servers_json_def by (simp only: go_read_render lift.simps lifted_def)
  have "into_memcached (lifted [(''servers'', JArr (map JStr ss))]) [] = Some (map go_utf8 ss)"
    using slice_strings [of ss] by (simp add: lifted_simps key_quotes into_list_def comp_def del: render.simps)
  moreover have "render quote_full (servers_json ss) \<noteq> []" by (simp add: servers_json_def)
  ultimately show ?thesis
    using assms r by (simp add: parse_memcached_config_def del: render.simps)
qed

end
