(* ===== verification/Apache_Filter.thy ===== *)
theory Apache_Filter
  imports Apache_Header Apache_Worker
begin

text \<open>
  The response path of \<open>mod_mesi.c\<close>: \<open>mesi_request_handler\<close>, \<open>flatten_brigade\<close> and
  \<open>mesi_response_filter\<close>, cut into the parts its comments name: the by-pass guards, the
  declared-length check, the accumulation loop, the oversize answer, the choice of the parse
  entry point, and the final brigade.
\<close>

subsection \<open>Requests and brigades\<close>

text \<open>
  A bucket holds bytes, or is a pipe or socket whose length is unknown until it is read:
  \<open>Stream cs\<close> yields the chunks \<open>cs\<close> one read at a time (\<open>None\<close> is a failing
  read), and a successful read splits the chunk off as a data bucket, as \<open>apr_bucket_read\<close>
  does.  \<open>Meta\<close> stands for the other metadata buckets.
\<close>

datatype bucket =
    Data string
  | Stream "string option list"
  | Meta nat
  | Eos
  | ErrorBucket int

record request =
  content_type :: "string option"
  status :: int
  header_only :: bool
  clength :: int
  headers_in :: "table option"
  headers_out :: table
  scheme :: string
  server_hostname :: "string option"
  server_name :: "string option"
  server_port :: nat
  req_port :: nat

definition key_is :: "string \<Rightarrow> (string option \<times> string option) \<Rightarrow> bool" where
  "key_is key e = (case fst e of None \<Rightarrow> False | Some k \<Rightarrow> strcaseeq k key)"

text \<open>\<open>apr_table_unset\<close>, and \<open>apr_table_set\<close>: the first entry with the key is overwritten, further ones removed.\<close>

definition table_unset :: "table \<Rightarrow> string \<Rightarrow> table" where
  "table_unset t key = filter (\<lambda>e. \<not> key_is key e) t"

fun table_set :: "table \<Rightarrow> string \<Rightarrow> string \<Rightarrow> table" where
  "table_set [] key v = [(Some key, Some v)]"
| "table_set (e # t) key v =
     (if key_is key e then (fst e, Some v) # table_unset t key else e # table_set t key v)"

definition table_unset_out :: "string \<Rightarrow> request \<Rightarrow> request" where
  "table_unset_out key r = r\<lparr>headers_out := table_unset (headers_out r) key\<rparr>"

record response_filter_ctx =
  bb :: "bucket list"
  total :: int
  passthrough :: bool

definition empty_ctx :: response_filter_ctx where
  "empty_ctx = \<lparr> bb = [], total = 0, passthrough = False \<rparr>"

text \<open>\<open>mesi_request_handler\<close>: the request after it, and whether the output filter was added.\<close>

definition mesi_request_handler :: "mesi_config \<Rightarrow> request \<Rightarrow> request \<times> bool" where
  "mesi_request_handler conf r =
    (if enable_mesi conf \<noteq> 0
     then (r\<lparr>headers_out := table_set (headers_out r) ''Surrogate-Capability'' ''ESI/1.0''\<rparr>, True)
     else (r, False))"

subsection \<open>Accumulation\<close>

text \<open>\<open>apr_strtoff\<close> is the parameter \<open>strtoff\<close>; \<open>None\<close> is a failing conversion.\<close>

definition body_limit :: "mesi_config \<Rightarrow> int" where
  "body_limit conf = (if max_body_size conf > 0 then max_body_size conf else 0)"

definition bodiless :: "request \<Rightarrow> bool" where
  "bodiless r \<longleftrightarrow> header_only r \<or> status r = 204 \<or> status r = 304"

definition declared_oversize :: "(string \<Rightarrow> int option) \<Rightarrow> mesi_config \<Rightarrow> request \<Rightarrow> bool" where
  "declared_oversize strtoff conf r =
    (if body_limit conf > 0 \<and> \<not> bodiless r
     then let hdr = Option.bind (table_get (headers_out r) ''Content-Length'') strtoff;
              declared = (case hdr of Some h \<Rightarrow> if h > clength r then h else clength r | None \<Rightarrow> clength r)
          in declared > body_limit conf
     else False)"

text \<open>The state of the \<open>while\<close> loop when it stops; \<open>ac_rest\<close> is what is left in the incoming brigade.\<close>

record accumulated =
  ac_bb :: "bucket list"
  ac_total :: int
  ac_seen_eos :: bool
  ac_oversize :: bool
  ac_rest :: "bucket list"

fun is_metadata :: "bucket \<Rightarrow> bool" where
  "is_metadata (Data _) = False"
| "is_metadata (Stream _) = False"
| "is_metadata _ = True"

text \<open>The bucket as it stands after its length is known, its length, and the bucket split off it.\<close>

fun measure_bucket :: "bucket \<Rightarrow> bucket \<times> nat \<times> bucket list" where
  "measure_bucket (Stream []) = (Data [], 0, [])"
| "measure_bucket (Stream (Some d # cs)) = (Data d, length d, [Stream cs])"
| "measure_bucket (Stream (None # cs)) = (Stream (None # cs), 0, [])"
| "measure_bucket (Data d) = (Data d, length d, [])"
| "measure_bucket b = (b, 0, [])"

fun bucket_weight :: "bucket \<Rightarrow> nat" where
  "bucket_weight (Stream cs) = Suc (length cs)"
| "bucket_weight _ = 1"

function accumulate ::
  "int \<Rightarrow> bool \<Rightarrow> bucket list \<Rightarrow> bucket list \<Rightarrow> int \<Rightarrow> bool \<Rightarrow> accumulated" where
  "accumulate limit counted [] acc tot seen =
     \<lparr> ac_bb = acc, ac_total = tot, ac_seen_eos = seen, ac_oversize = False, ac_rest = [] \<rparr>"
| "accumulate limit counted (b # bs) acc tot seen =
     (if b = Eos then accumulate limit counted bs acc tot True
      else if counted \<and> \<not> is_metadata b then
        (let (b', blen, split) = measure_bucket b; tot' = s64 (tot + int blen)
         in if tot' > limit
            then \<lparr> ac_bb = acc, ac_total = tot', ac_seen_eos = seen, ac_oversize = True,
                   ac_rest = b' # split @ bs \<rparr>
            else accumulate limit counted (split @ bs) (acc @ [b']) tot' seen)
      else accumulate limit counted bs (acc @ [b]) tot seen)"
  by pat_completeness auto
termination
proof (relation "measure (\<lambda>(limit, counted, bs, acc, tot, seen). sum_list (map bucket_weight bs))", goal_cases)
  case (3 limit counted b bs acc tot seen x b' xa blen split tot')
  then show ?case by (cases b rule: measure_bucket.cases) auto
next
  case (4 limit counted b bs acc tot seen)
  then show ?case by (cases b) auto
qed auto

declare accumulate.simps(2) [simp del]

subsection \<open>Flattening\<close>

text \<open>
  \<open>apr_brigade_length (bb, 1, len)\<close> reads every bucket and stops at a failing read; the
  bytes it reaches are the length it reports.
\<close>

fun read_chunks :: "string option list \<Rightarrow> bool \<times> string" where
  "read_chunks [] = (True, [])"
| "read_chunks (None # cs) = (False, [])"
| "read_chunks (Some d # cs) = (let (ok, s) = read_chunks cs in (ok, d @ s))"

fun read_bucket :: "bucket \<Rightarrow> bool \<times> string" where
  "read_bucket (Data d) = (True, d)"
| "read_bucket (Stream cs) = read_chunks cs"
| "read_bucket _ = (True, [])"

fun read_brigade :: "bucket list \<Rightarrow> bool \<times> string" where
  "read_brigade [] = (True, [])"
| "read_brigade (b # bs) =
     (case read_bucket b of
        (False, s) \<Rightarrow> (False, s)
      | (True, s) \<Rightarrow> (let (ok, t) = read_brigade bs in (ok, s @ t)))"

definition flatten_brigade :: "bool \<Rightarrow> bucket list \<Rightarrow> string option \<times> nat" where
  "flatten_brigade force bs =
    (let (ok, s) = read_brigade bs
     in if force then (None, length s)
        else if ok \<and> length s > 0 then (Some s, length s) else (None, length s))"

text \<open>The flattened body read as a C string ends at its first NUL byte.\<close>

definition c_str :: "string \<Rightarrow> string" where
  "c_str s = takeWhile (\<lambda>c. c \<noteq> CHR 0x00) s"

subsection \<open>Choosing the parse entry point\<close>

datatype parse_outcome =
    PassHtml              \<comment> \<open>the page is passed on unprocessed\<close>
  | Esi "string option"   \<comment> \<open>the library's answer\<close>

definition wants_parse_json :: "mesi_config \<Rightarrow> bool" where
  "wants_parse_json conf \<longleftrightarrow>
     timeout_seconds conf \<noteq> -1 \<or> max_response_size conf \<noteq> -1 \<or> max_concurrent_requests conf \<noteq> -1
     \<or> max_workers conf \<noteq> -1 \<or> debug conf \<noteq> -1 \<or> parse_on_header conf \<noteq> -1
     \<or> nonempty (include_error_marker conf)"

definition eff_block_private :: "mesi_config \<Rightarrow> int" where
  "eff_block_private conf = (if block_private_ips conf \<noteq> -1 then block_private_ips conf else 1)"

definition eff_allow_private :: "mesi_config \<Rightarrow> int" where
  "eff_allow_private conf =
    (if allow_private_ips_for_allowed conf \<noteq> -1 then allow_private_ips_for_allowed conf else 0)"

definition eff_depth :: "mesi_config \<Rightarrow> int" where
  "eff_depth conf = (if max_depth conf \<noteq> -1 then max_depth conf else MESI_DEFAULT_MAX_DEPTH)"

definition allowed_hosts_str :: "mesi_config \<Rightarrow> string" where
  "allowed_hosts_str conf = (if length (allowed_hosts conf) > 0 then join_hosts (allowed_hosts conf) else [])"

text \<open>\<open>build_parse_json_config\<close> of \<open>mod_mesi.c\<close>: the blob record from the configuration.\<close>

definition parse_json_config_of ::
  "mesi_config \<Rightarrow> int \<Rightarrow> string \<Rightarrow> string \<Rightarrow> int \<Rightarrow> int \<Rightarrow> string \<Rightarrow> parse_json_config" where
  "parse_json_config_of conf depth base_url hosts block_private allow_private ctx_json =
    \<lparr> pj_depth = depth, pj_base_url = Some base_url, pj_allowed_hosts = Some hosts,
      pj_block_private_ips = block_private, pj_allow_private_for_allowed = allow_private,
      pj_request_ctx_json = Some ctx_json, pj_timeout_seconds = timeout_seconds conf,
      pj_max_response_size = max_response_size conf,
      pj_max_concurrent_requests = max_concurrent_requests conf, pj_max_workers = max_workers conf,
      pj_debug = debug conf, pj_parse_on_header = parse_on_header conf,
      pj_include_error_marker = include_error_marker conf,
      pj_cache_key_template = cache_key_template conf \<rparr>"

definition build_parse_json_config ::
  "mesi_config \<Rightarrow> int \<Rightarrow> string \<Rightarrow> string \<Rightarrow> int \<Rightarrow> int \<Rightarrow> string \<Rightarrow> string" where
  "build_parse_json_config conf depth base_url hosts block_private allow_private ctx_json =
    mesi_build_parse_json_config
      (parse_json_config_of conf depth base_url hosts block_private allow_private ctx_json)"

definition request_base_url :: "request \<Rightarrow> string" where
  "request_base_url r =
    build_base_url (scheme r) (server_hostname r) (server_name r) (server_port r) (req_port r)"

definition has_security_config :: "mesi_config \<Rightarrow> bool" where
  "has_security_config conf \<longleftrightarrow>
     length (allowed_hosts conf) > 0 \<or> (block_private_ips conf \<noteq> -1 \<and> block_private_ips conf = 1)"

text \<open>The chain of positional entry points, taken when \<open>ParseJson\<close> is not used.\<close>

definition parse_legacy ::
  "golib \<Rightarrow> mesi_config \<Rightarrow> request \<Rightarrow> string \<Rightarrow> worker \<Rightarrow> (parse_outcome \<times> worker) option" where
  "parse_legacy lib conf r html w =
    (let base_url = request_base_url r; depth = eff_depth conf; hosts = allowed_hosts_str conf;
         bp = eff_block_private conf; ap = eff_allow_private conf
     in if nonempty (cache_key_template conf) \<and> resolved w ParseWithConfigCtx then
          (case build_request_ctx_json (headers_in r) conf of
             None \<Rightarrow> None
           | Some ctx_json \<Rightarrow>
               (let tmpl = the (cache_key_template conf)
                in Some (Esi (parse_with_config_ctx lib html depth base_url hosts bp ap tmpl ctx_json),
                         call (CallParseWithConfigCtx html depth base_url hosts bp ap tmpl ctx_json) w)))
        else if resolved w ParseWithConfigEx then
          Some (Esi (parse_with_config_ex lib html depth base_url hosts bp ap),
                call (CallParseWithConfigEx html depth base_url hosts bp ap) w)
        else if resolved w ParseWithConfig then
          Some (Esi (parse_with_config lib html depth base_url hosts bp),
                call (CallParseWithConfig html depth base_url hosts bp) w)
        else if has_security_config conf then Some (PassHtml, w)
        else if resolved w Parse then
          Some (Esi (parse lib html depth base_url), call (CallParse html depth base_url) w)
        else Some (Esi None, w))"

definition parse_dispatch ::
  "golib \<Rightarrow> mesi_config \<Rightarrow> request \<Rightarrow> string \<Rightarrow> worker \<Rightarrow> (parse_outcome \<times> worker) option" where
  "parse_dispatch lib conf r html w =
    (if \<not> resolved w Parse \<and> \<not> resolved w ParseWithConfig then Some (PassHtml, w)
     else if wants_parse_json conf \<and> resolved w ParseJson then
       (case build_request_ctx_json (headers_in r) conf of
          None \<Rightarrow> None
        | Some ctx_json \<Rightarrow>
            (let blob = build_parse_json_config conf (eff_depth conf) (request_base_url r)
                          (allowed_hosts_str conf) (eff_block_private conf) (eff_allow_private conf) ctx_json
             in Some (Esi (parse_json lib html blob), call (CallParseJson html blob) w)))
     else parse_legacy lib conf r html w)"

subsection \<open>The filter\<close>

record filter_env =
  exports :: "symbol \<Rightarrow> bool"
  lib :: golib
  strtoff :: "string \<Rightarrow> int option"

text \<open>
  What a call of the filter leaves: the filter context (\<open>f->ctx\<close>), the request, the worker,
  whether the filter removed itself, and the brigade handed to the next filter, if any.
\<close>

record filter_result =
  fr_ctx :: "response_filter_ctx option"
  fr_req :: request
  fr_worker :: worker
  fr_removed :: bool
  fr_passed :: "bucket list option"

definition finish_parse :: "response_filter_ctx \<Rightarrow> request \<Rightarrow> string \<Rightarrow> parse_outcome \<Rightarrow> worker \<Rightarrow> filter_result" where
  "finish_parse ctx r html outcome w =
    (let ctx' = ctx\<lparr>bb := []\<rparr>
     in case outcome of
          PassHtml \<Rightarrow>
            \<lparr> fr_ctx = Some ctx', fr_req = r, fr_worker = w, fr_removed = False,
              fr_passed = Some [Data html, Eos] \<rparr>
        | Esi None \<Rightarrow>
            \<lparr> fr_ctx = Some ctx', fr_req = table_unset_out ''Content-Length'' (r\<lparr>status := 500\<rparr>),
              fr_worker = w, fr_removed = False, fr_passed = Some [Eos] \<rparr>
        | Esi (Some esi) \<Rightarrow>
            \<lparr> fr_ctx = Some ctx', fr_req = table_unset_out ''Content-Length'' r,
              fr_worker = (if resolved w FreeString then call CallFreeString w else w),
              fr_removed = False, fr_passed = Some [Data esi, Eos] \<rparr>)"

text \<open>The shared cache and HTTP client, when they are configured.\<close>

definition init_shared :: "filter_env \<Rightarrow> mesi_config \<Rightarrow> worker \<Rightarrow> worker" where
  "init_shared env conf w =
    (let w1 = (if nonempty (cache_backend conf)
               then snd (mesi_init_cache (exports env) (lib env) conf w) else w)
     in if shared_http_client conf = 1
        then snd (mesi_init_http_client (exports env) conf w1) else w1)"

text \<open>After the last bucket: flatten, initialise what is configured, parse, pass the result on.\<close>

definition filter_complete ::
  "filter_env \<Rightarrow> mesi_config \<Rightarrow> response_filter_ctx \<Rightarrow> request \<Rightarrow> worker \<Rightarrow> filter_result option" where
  "filter_complete env conf ctx r w =
    (case flatten_brigade (force_flatten_error w) (bb ctx) of
       (None, len) \<Rightarrow>
         Some \<lparr> fr_ctx = Some (ctx\<lparr>bb := []\<rparr>), fr_req = r, fr_worker = w, fr_removed = False,
                fr_passed = Some (bb ctx @ [Eos]) \<rparr>
     | (Some body, len) \<Rightarrow>
         (let html = c_str body
          in map_option (\<lambda>(outcome, w3). finish_parse ctx r html outcome w3)
               (parse_dispatch (lib env) conf r html (init_shared env conf w))))"

text \<open>The answer to an oversized body: 502, or everything onwards untouched.\<close>

definition filter_oversize ::
  "mesi_config \<Rightarrow> response_filter_ctx \<Rightarrow> bucket list \<Rightarrow> request \<Rightarrow> worker \<Rightarrow> filter_result" where
  "filter_oversize conf ctx rest r w =
    (if on_oversize conf = MESI_ON_OVERSIZE_ERROR
     then \<lparr> fr_ctx = Some (ctx\<lparr>bb := []\<rparr>), fr_req = r, fr_worker = w, fr_removed = True,
            fr_passed = Some [ErrorBucket 502, Eos] \<rparr>
     else \<lparr> fr_ctx = Some (ctx\<lparr>bb := [], passthrough := True\<rparr>), fr_req = r, fr_worker = w,
            fr_removed = False, fr_passed = Some (bb ctx @ rest) \<rparr>)"

definition mesi_response_filter ::
  "filter_env \<Rightarrow> mesi_config \<Rightarrow> response_filter_ctx option \<Rightarrow> request \<Rightarrow> worker \<Rightarrow> bucket list
     \<Rightarrow> filter_result option" where
  "mesi_response_filter env conf fctx r w brigade =
    (if enable_mesi conf = 0 then
       Some \<lparr> fr_ctx = fctx, fr_req = r, fr_worker = w, fr_removed = False, fr_passed = Some brigade \<rparr>
     else if \<not> is_html_content (content_type r) \<or> status r \<ge> 400 then
       Some \<lparr> fr_ctx = fctx, fr_req = r, fr_worker = w, fr_removed = True, fr_passed = Some brigade \<rparr>
     else if (if parse_on_header conf \<noteq> -1 then parse_on_header conf else 0) \<noteq> 0
             \<and> \<not> mesi_header_signals_esi (table_get (headers_out r) ''Edge-control'') then
       Some \<lparr> fr_ctx = fctx, fr_req = table_unset_out ''Surrogate-Capability'' r, fr_worker = w,
              fr_removed = True, fr_passed = Some brigade \<rparr>
     else
       let ctx = (case fctx of None \<Rightarrow> empty_ctx | Some c \<Rightarrow> c)
       in if passthrough ctx then
            Some \<lparr> fr_ctx = Some ctx, fr_req = r, fr_worker = w, fr_removed = False,
                   fr_passed = Some brigade \<rparr>
          else
            let limit = body_limit conf;
                ac = (if declared_oversize (strtoff env) conf r
                      then \<lparr> ac_bb = bb ctx, ac_total = total ctx, ac_seen_eos = False,
                             ac_oversize = True, ac_rest = brigade \<rparr>
                      else accumulate limit (limit > 0 \<and> \<not> bodiless r) brigade (bb ctx) (total ctx) False);
                ctx' = ctx\<lparr>bb := ac_bb ac, total := ac_total ac\<rparr>
            in if ac_oversize ac then Some (filter_oversize conf ctx' (ac_rest ac) r w)
               else if \<not> ac_seen_eos ac then
                 Some \<lparr> fr_ctx = Some ctx', fr_req = r, fr_worker = w, fr_removed = False,
                        fr_passed = None \<rparr>
               else filter_complete env conf ctx' r w)"

end
