(* ===== verification/Apache_Calls.thy ===== *)
theory Apache_Calls
  imports Apache_Filter_Lemmas
begin

text \<open>
  Which library calls a response makes and what they carry.  \<open>carries conf r html c\<close> is
  the contract of a parse call: whatever entry point is used, the call gets the page and the
  configured depth, base URL, host list and address policy; for \<open>ParseJson\<close> the blob is,
  byte for byte, the rendering of all the configured values.  An entry point that cannot carry the host list and the
  policy is only used when none is configured.
\<close>

subsection \<open>The values of the JSON entry point\<close>

definition ctx_json_value :: "mesi_config \<Rightarrow> request \<Rightarrow> json option" where
  "ctx_json_value conf r =
    (if template_wants_ctx (cache_key_template conf) then Some (ctx_value (headers_in r)) else None)"

definition request_blob :: "mesi_config \<Rightarrow> request \<Rightarrow> string \<Rightarrow> parse_json_config" where
  "request_blob conf r ctx =
     parse_json_config_of conf (eff_depth conf) (request_base_url r) (allowed_hosts_str conf)
       (eff_block_private conf) (eff_allow_private conf) ctx"

lemma ctx_json_text:
  assumes "build_request_ctx_json (headers_in r) conf = Some s"
  shows "ctx_text (Some s) (ctx_json_value conf r)"
proof (cases "template_wants_ctx (cache_key_template conf)")
  case True
  with assms build_ctx_exact [OF True, of "headers_in r"] show ?thesis
    by (simp add: ctx_text_def ctx_json_value_def)
next
  case False
  with assms build_ctx_none [OF False, of "headers_in r"] show ?thesis
    by (simp add: ctx_text_def ctx_json_value_def nonempty_def)
qed

lemma request_blob_exact:
  assumes "build_request_ctx_json (headers_in r) conf = Some s"
  shows "mesi_build_parse_json_config (request_blob conf r s)
    = render quote_full (JObj (blob_members (request_blob conf r []) (ctx_json_value conf r)))"
proof -
  have "pj_request_ctx_json (request_blob conf r s) = Some s"
    and same: "blob_members (request_blob conf r s) j = blob_members (request_blob conf r []) j" for j
    by (simp_all add: request_blob_def parse_json_config_of_def blob_members_def cong: option.case_cong)
  with ctx_json_text [OF assms] show ?thesis
    by (simp add: blob_is_render same del: render.simps)
qed

subsection \<open>The contract of a parse call\<close>

fun carries :: "mesi_config \<Rightarrow> request \<Rightarrow> string \<Rightarrow> lib_call \<Rightarrow> bool" where
  "carries conf r html (CallParse h d u) \<longleftrightarrow>
     h = html \<and> d = eff_depth conf \<and> u = request_base_url r \<and> \<not> has_security_config conf"
| "carries conf r html (CallParseWithConfig h d u hs bp) \<longleftrightarrow>
     h = html \<and> d = eff_depth conf \<and> u = request_base_url r \<and> hs = allowed_hosts_str conf
     \<and> bp = eff_block_private conf"
| "carries conf r html (CallParseWithConfigEx h d u hs bp ap) \<longleftrightarrow>
     h = html \<and> d = eff_depth conf \<and> u = request_base_url r \<and> hs = allowed_hosts_str conf
     \<and> bp = eff_block_private conf \<and> ap = eff_allow_private conf"
| "carries conf r html (CallParseWithConfigCtx h d u hs bp ap tmpl ctx) \<longleftrightarrow>
     h = html \<and> d = eff_depth conf \<and> u = request_base_url r \<and> hs = allowed_hosts_str conf
     \<and> bp = eff_block_private conf \<and> ap = eff_allow_private conf
     \<and> cache_key_template conf = Some tmpl \<and> ctx_text (Some ctx) (ctx_json_value conf r)"
| "carries conf r html (CallParseJson h blob) \<longleftrightarrow>
     h = html
     \<and> blob = render quote_full (JObj (blob_members (request_blob conf r []) (ctx_json_value conf r)))"
| "carries conf r html _ \<longleftrightarrow> False"

lemma blob_carries:
  assumes "build_request_ctx_json (headers_in r) conf = Some s"
  shows "carries conf r html (CallParseJson html (mesi_build_parse_json_config (request_blob conf r s)))"
  by (simp add: request_blob_exact [OF assms] del: render.simps)

subsection \<open>The dispatcher keeps the contract\<close>

text \<open>Either one call that carries the configuration and whose answer is the outcome, or none and no parsed output.\<close>

definition one_call :: "golib \<Rightarrow> mesi_config \<Rightarrow> request \<Rightarrow> string \<Rightarrow> worker \<Rightarrow> parse_outcome \<times> worker \<Rightarrow> bool" where
  "one_call gl conf r html w res \<longleftrightarrow>
     (\<exists>c s. resolved w s \<and> carries conf r html c \<and> res = (Esi (lib_answer gl c), call c w))
     \<or> (snd res = w \<and> (fst res = PassHtml \<or> fst res = Esi None))"

lemma one_callI: "resolved w s \<Longrightarrow> carries conf r html c \<Longrightarrow> out = Esi (lib_answer gl c) \<Longrightarrow>
     one_call gl conf r html w (out, call c w)"
  by (auto simp: one_call_def)

lemma no_callI: "one_call gl conf r html w (PassHtml, w)" "one_call gl conf r html w (Esi None, w)"
  by (simp_all add: one_call_def)

lemma nonempty_the: "nonempty t \<Longrightarrow> t = Some (the t)"
  by (cases t) (simp_all add: nonempty_def)

lemma legacy_one_call:
  assumes "parse_legacy gl conf r html w = Some res"
  shows "one_call gl conf r html w res"
proof -
  consider "nonempty (cache_key_template conf) \<and> resolved w ParseWithConfigCtx"
    | "\<not> (nonempty (cache_key_template conf) \<and> resolved w ParseWithConfigCtx)" by blast
  then show ?thesis
  proof cases
    case 1
    obtain s where s: "build_request_ctx_json (headers_in r) conf = Some s"
      using build_ctx_total by blast
    from 1 have t: "cache_key_template conf = Some (the (cache_key_template conf))"
      using nonempty_the by blast
    show ?thesis
      using assms 1 s t ctx_json_text [OF s]
      by (auto simp: parse_legacy_def Let_def intro!: one_callI [where s = ParseWithConfigCtx])
  next
    case 2
    consider "resolved w ParseWithConfigEx"
      | "\<not> resolved w ParseWithConfigEx" "resolved w ParseWithConfig"
      | "\<not> resolved w ParseWithConfigEx" "\<not> resolved w ParseWithConfig" by blast
    then show ?thesis
    proof cases
      case 1
      with \<open>\<not> (nonempty _ \<and> _)\<close> assms show ?thesis
        by (auto simp: parse_legacy_def Let_def intro!: one_callI [OF 1])
    next
      case 2
      with \<open>\<not> (nonempty _ \<and> _)\<close> assms show ?thesis
        by (auto simp: parse_legacy_def Let_def intro!: one_callI [OF 2(2)])
    next
      case 3
      with \<open>\<not> (nonempty _ \<and> _)\<close> assms show ?thesis
        by (auto simp: parse_legacy_def Let_def intro!: no_callI one_callI [where s = Parse] split: if_splits)
    qed
  qed
qed

lemma dispatch_one_call:
  assumes "parse_dispatch gl conf r html w = Some res"
  shows "one_call gl conf r html w res"
proof -
  obtain s where s: "build_request_ctx_json (headers_in r) conf = Some s"
    using build_ctx_total by blast
  consider "\<not> resolved w Parse \<and> \<not> resolved w ParseWithConfig"
    | "resolved w Parse \<or> resolved w ParseWithConfig" "wants_parse_json conf \<and> resolved w ParseJson"
    | "resolved w Parse \<or> resolved w ParseWithConfig" "\<not> (wants_parse_json conf \<and> resolved w ParseJson)"
    by blast
  then show ?thesis
  proof cases
    case 1
    with assms show ?thesis by (auto simp: parse_dispatch_def intro!: no_callI)
  next
    case 2
    have "one_call gl conf r html w (Esi (parse_json gl html (mesi_build_parse_json_config (request_blob conf r s))),
        call (CallParseJson html (mesi_build_parse_json_config (request_blob conf r s))) w)"
      by (rule one_callI [of w ParseJson]) (use 2 blob_carries [OF s] in simp_all)
    with assms s 2 show ?thesis
      by (auto simp: parse_dispatch_def Let_def build_parse_json_config_def request_blob_def)
  next
    case 3
    with assms have "parse_legacy gl conf r html w = Some res" by (auto simp: parse_dispatch_def)
    then show ?thesis by (rule legacy_one_call)
  qed
qed

end
