(* ===== verification/Apache_Response.thy ===== *)
theory Apache_Response
  imports Apache_Calls
begin

text \<open>
  A whole response: the output filter called once per brigade, as the server does, until it
  removes itself.  A response that is not processed leaves unchanged; a body within the limit
  reaches the parser whole, however it is cut into brigades; a body over the limit is passed
  on untouched or answered with an error; the memory held stays under the limit.
\<close>

subsection \<open>Running the filter over a response\<close>

text \<open>The final request and worker, and the buckets the next filter has received.\<close>

fun run_filter ::
  "filter_env \<Rightarrow> mesi_config \<Rightarrow> response_filter_ctx option \<Rightarrow> request \<Rightarrow> worker \<Rightarrow> bool
     \<Rightarrow> bucket list list \<Rightarrow> bucket list \<Rightarrow> (request \<times> worker \<times> bucket list) option" where
  "run_filter env conf fctx r w removed [] out = Some (r, w, out)"
| "run_filter env conf fctx r w removed (b # bs) out =
     (if removed then run_filter env conf fctx r w True bs (out @ b)
      else case mesi_response_filter env conf fctx r w b of
             None \<Rightarrow> None
           | Some res \<Rightarrow>
               run_filter env conf (fr_ctx res) (fr_req res) (fr_worker res) (fr_removed res) bs
                 (out @ (case fr_passed res of None \<Rightarrow> [] | Some p \<Rightarrow> p)))"

text \<open>The conditions under which a response is buffered and parsed.\<close>

definition processed :: "mesi_config \<Rightarrow> request \<Rightarrow> bool" where
  "processed conf r \<longleftrightarrow>
     enable_mesi conf \<noteq> 0 \<and> is_html_content (content_type r) \<and> status r < 400
     \<and> (parse_on_header conf \<noteq> -1 \<and> parse_on_header conf \<noteq> 0
          \<longrightarrow> mesi_header_signals_esi (table_get (headers_out r) ''Edge-control''))"

text \<open>The limit applies to the response.\<close>

definition limited :: "mesi_config \<Rightarrow> request \<Rightarrow> bool" where
  "limited conf r \<longleftrightarrow> body_limit conf > 0 \<and> \<not> bodiless r"

definition ctx_of :: "response_filter_ctx option \<Rightarrow> response_filter_ctx" where
  "ctx_of fctx = (case fctx of None \<Rightarrow> empty_ctx | Some c \<Rightarrow> c)"

lemma ctx_of_simps [simp]: "ctx_of None = empty_ctx" "ctx_of (Some c) = c"
  by (simp_all add: ctx_of_def)

lemma run_removed: "run_filter env conf fctx r w True bs out = Some (r, w, out @ concat bs)"
  by (induction bs arbitrary: out) auto

subsection \<open>Responses that are not processed\<close>

lemma filter_disabled:
  "enable_mesi conf = 0 \<Longrightarrow>
    mesi_response_filter env conf fctx r w b =
      Some \<lparr> fr_ctx = fctx, fr_req = r, fr_worker = w, fr_removed = False, fr_passed = Some b \<rparr>"
  by (simp add: mesi_response_filter_def)

lemma run_disabled:
  "enable_mesi conf = 0 \<Longrightarrow> run_filter env conf fctx r w False bs out = Some (r, w, out @ concat bs)"
  by (induction bs arbitrary: out) (simp_all add: filter_disabled)

lemma filter_skips:
  assumes "\<not> processed conf r" and "enable_mesi conf \<noteq> 0"
  shows "\<exists>r'. mesi_response_filter env conf fctx r w b =
      Some \<lparr> fr_ctx = fctx, fr_req = r', fr_worker = w, fr_removed = True, fr_passed = Some b \<rparr>
    \<and> (r' = r \<or> r' = table_unset_out ''Surrogate-Capability'' r)"
  using assms by (auto simp: processed_def mesi_response_filter_def)

lemma run_skips:
  assumes "\<not> processed conf r"
  shows "\<exists>r'. run_filter env conf fctx r w False bs out = Some (r', w, out @ concat bs)
    \<and> (r' = r \<or> r' = table_unset_out ''Surrogate-Capability'' r)"
proof (cases "enable_mesi conf = 0")
  case True
  then show ?thesis by (simp add: run_disabled)
next
  case False
  show ?thesis
  proof (cases bs)
    case (Cons b bs')
    with filter_skips [OF assms False, of env fctx w b] show ?thesis
      by (auto simp: run_removed)
  qed simp
qed

subsection \<open>Responses that are processed\<close>

lemma filter_processed:
  assumes "processed conf r" and "\<not> passthrough (ctx_of fctx)" and "\<not> declared_oversize (strtoff env) conf r"
  shows "mesi_response_filter env conf fctx r w b =
    (let ac = accumulate (body_limit conf) (limited conf r) b (bb (ctx_of fctx)) (total (ctx_of fctx)) False;
         ctx' = (ctx_of fctx)\<lparr>bb := ac_bb ac, total := ac_total ac\<rparr>
     in if ac_oversize ac then Some (filter_oversize conf ctx' (ac_rest ac) r w)
        else if \<not> ac_seen_eos ac then
          Some \<lparr> fr_ctx = Some ctx', fr_req = r, fr_worker = w, fr_removed = False, fr_passed = None \<rparr>
        else filter_complete env conf ctx' r w)"
  using assms
  by (auto simp: processed_def mesi_response_filter_def ctx_of_def limited_def Let_def)

lemma filter_declared:
  assumes "processed conf r" and "\<not> passthrough (ctx_of fctx)" and "declared_oversize (strtoff env) conf r"
  shows "mesi_response_filter env conf fctx r w b = Some (filter_oversize conf (ctx_of fctx) b r w)"
  using assms by (cases fctx) (auto simp: processed_def mesi_response_filter_def Let_def)

lemma filter_passthrough:
  assumes "processed conf r" and "passthrough c"
  shows "mesi_response_filter env conf (Some c) r w b =
    Some \<lparr> fr_ctx = Some c, fr_req = r, fr_worker = w, fr_removed = False, fr_passed = Some b \<rparr>"
  using assms by (auto simp: processed_def mesi_response_filter_def)

lemma run_passthrough:
  assumes "processed conf r" and "passthrough c"
  shows "run_filter env conf (Some c) r w False bs out = Some (r, w, out @ concat bs)"
  using assms by (induction bs arbitrary: out) (simp_all add: filter_passthrough)

subsection \<open>Bodies of plain buckets\<close>

definition size_of :: "string list \<Rightarrow> int" where
  "size_of ds = int (sum_list (map length ds))"

lemma size_of_simps [simp]:
  "size_of [] = 0" "size_of (d # ds) = int (length d) + size_of ds"
  "size_of (xs @ ys) = size_of xs + size_of ys" "0 \<le> size_of ds"
  by (simp_all add: size_of_def)

lemma size_of_concat: "size_of ds = int (length (concat ds))"
  by (simp add: size_of_def length_concat)

lemma accumulate_plain:
  assumes "counted \<Longrightarrow> 0 \<le> tot \<and> tot + size_of ds \<le> limit \<and> limit < 2 ^ 63"
  shows "accumulate limit counted (map Data ds @ bs) acc tot seen =
    accumulate limit counted bs (acc @ map Data ds) (if counted then tot + size_of ds else tot) seen"
  using assms
proof (induction ds arbitrary: acc tot)
  case (Cons d ds)
  show ?case
  proof (cases counted)
    case True
    with Cons.prems have le: "0 \<le> tot" "tot + int (length d) + size_of ds \<le> limit" "limit < 2 ^ 63"
      by auto
    then have "tot + int (length d) \<le> limit" using size_of_simps(4) [of ds] by linarith
    moreover from this le have "s64 (tot + int (length d)) = tot + int (length d)"
      by (intro s64_id) auto
    ultimately show ?thesis
      using Cons.IH [of "tot + int (length d)" "acc @ [Data d]"] True le
      by (simp add: accumulate.simps(2) Let_def add.assoc)
  next
    case False
    with Cons.IH [of tot "acc @ [Data d]"] show ?thesis
      by (simp add: accumulate.simps(2))
  qed
qed simp

lemma accumulate_over:
  assumes "0 \<le> tot" and "tot \<le> limit" and "limit < tot + size_of ds" and "tot + size_of ds < 2 ^ 63"
  shows "let ac = accumulate limit True (map Data ds @ bs) acc tot seen in
    ac_oversize ac \<and> ac_bb ac @ ac_rest ac = acc @ map Data ds @ bs"
  using assms
proof (induction ds arbitrary: acc tot)
  case (Cons d ds)
  have "0 \<le> size_of ds" by simp
  with Cons.prems have "tot + int (length d) < 2 ^ 63" unfolding size_of_simps by linarith
  with Cons.prems have s: "s64 (tot + int (length d)) = tot + int (length d)" by (intro s64_id) auto
  show ?case
  proof (cases "tot + int (length d) > limit")
    case True
    with s show ?thesis by (simp add: accumulate.simps(2) Let_def)
  next
    case False
    with s Cons.IH [of "tot + int (length d)" "acc @ [Data d]"] Cons.prems show ?thesis
      by (simp add: accumulate.simps(2) Let_def)
  qed
qed simp

lemma read_brigade_plain: "read_brigade (map Data ds) = (True, concat ds)"
  by (induction ds) simp_all

lemma flatten_plain:
  "concat ds \<noteq> [] \<Longrightarrow> flatten_brigade False (map Data ds) = (Some (concat ds), length (concat ds))"
  by (simp only: flatten_brigade_def read_brigade_plain Let_def prod.case) auto

text \<open>The answer to a whole body.\<close>

definition parsed_response ::
  "filter_env \<Rightarrow> mesi_config \<Rightarrow> request \<Rightarrow> string \<Rightarrow> worker \<Rightarrow> (request \<times> worker \<times> bucket list) option" where
  "parsed_response env conf r body w =
    map_option (\<lambda>(outcome, w3).
        case outcome of
          PassHtml \<Rightarrow> (r, w3, [Data (c_str body), Eos])
        | Esi None \<Rightarrow> (table_unset_out ''Content-Length'' (r\<lparr>status := 500\<rparr>), w3, [Eos])
        | Esi (Some esi) \<Rightarrow>
            (table_unset_out ''Content-Length'' r,
             if resolved w3 FreeString then call CallFreeString w3 else w3, [Data esi, Eos]))
      (parse_dispatch (lib env) conf r (c_str body) (init_shared env conf w))"

lemma complete_plain:
  assumes "bb c = map Data ds" and "concat ds \<noteq> []" and "\<not> force_flatten_error w"
  shows "map_option (\<lambda>res. (fr_req res, fr_worker res, case fr_passed res of None \<Rightarrow> [] | Some p \<Rightarrow> p))
      (filter_complete env conf c r w) = parsed_response env conf r (concat ds) w"
proof -
  obtain out w3 where d: "parse_dispatch (lib env) conf r (c_str (concat ds)) (init_shared env conf w) = Some (out, w3)"
    using parse_dispatch_total [of "lib env" conf r "c_str (concat ds)" "init_shared env conf w"] by auto
  show ?thesis
    using assms d flatten_plain [OF assms(2)]
    by (auto simp: filter_complete_def parsed_response_def finish_parse_def Let_def
        split: parse_outcome.split option.split)
qed

text \<open>The loop over brigades: everything before the last bucket ends up in the context.\<close>

lemma run_plain:
  assumes "processed conf r" and "\<not> declared_oversize (strtoff env) conf r"
    and "\<not> force_flatten_error w" and "\<not> passthrough (ctx_of fctx)"
    and "bb (ctx_of fctx) = map Data kept"
    and "concat (kept @ concat dss @ ds) \<noteq> []"
    and "limited conf r \<Longrightarrow> 0 \<le> total (ctx_of fctx)
      \<and> total (ctx_of fctx) + size_of (concat dss @ ds) \<le> body_limit conf \<and> body_limit conf < 2 ^ 63"
  shows "run_filter env conf fctx r w False (map (map Data) dss @ [map Data ds @ [Eos]]) out =
    map_option (\<lambda>(r', w', p). (r', w', out @ p)) (parsed_response env conf r (concat (kept @ concat dss @ ds)) w)"
  using assms
proof (induction dss arbitrary: fctx kept)
  case Nil
  let ?c = "(ctx_of fctx)\<lparr>bb := map Data kept @ map Data ds,
      total := if limited conf r then total (ctx_of fctx) + size_of ds else total (ctx_of fctx)\<rparr>"
  have acc: "accumulate (body_limit conf) (limited conf r) (map Data ds @ [Eos]) (map Data kept)
      (total (ctx_of fctx)) False =
    \<lparr> ac_bb = bb ?c, ac_total = total ?c, ac_seen_eos = True, ac_oversize = False, ac_rest = [] \<rparr>"
    using Nil.prems(7) by (simp add: accumulate_plain accumulate.simps(2))
  have step: "mesi_response_filter env conf fctx r w (map Data ds @ [Eos]) = filter_complete env conf ?c r w"
    using Nil.prems by (simp add: filter_processed acc)
  have "map_option (\<lambda>res. (fr_req res, fr_worker res, case fr_passed res of None \<Rightarrow> [] | Some p \<Rightarrow> p))
      (filter_complete env conf ?c r w) = parsed_response env conf r (concat (kept @ ds)) w"
    using Nil.prems by (intro complete_plain) auto
  moreover obtain res where "filter_complete env conf ?c r w = Some res"
    using filter_complete_total by blast
  ultimately show ?case by (simp add: step) (metis (no_types, lifting) option.simps(9) prod.case)
next
  case (Cons d dss)
  let ?t = "if limited conf r then total (ctx_of fctx) + size_of d else total (ctx_of fctx)"
  let ?c = "(ctx_of fctx)\<lparr>bb := map Data (kept @ d), total := ?t\<rparr>"
  have nonneg: "0 \<le> size_of (concat dss @ ds)" by (rule size_of_simps(4))
  have whole: "size_of (concat (d # dss) @ ds) = size_of d + size_of (concat dss @ ds)" by simp
  have "limited conf r \<Longrightarrow> total (ctx_of fctx) + size_of d \<le> body_limit conf"
    using Cons.prems(7) nonneg whole by linarith
  then have acc: "accumulate (body_limit conf) (limited conf r) (map Data d) (map Data kept)
      (total (ctx_of fctx)) False =
    \<lparr> ac_bb = bb ?c, ac_total = total ?c, ac_seen_eos = False, ac_oversize = False, ac_rest = [] \<rparr>"
    using Cons.prems(7) accumulate_plain [of "limited conf r" "total (ctx_of fctx)" d "body_limit conf" "[]"]
    by simp
  have step: "mesi_response_filter env conf fctx r w (map Data d) =
      Some \<lparr> fr_ctx = Some ?c, fr_req = r, fr_worker = w, fr_removed = False, fr_passed = None \<rparr>"
    using Cons.prems by (simp add: filter_processed acc)
  have "run_filter env conf (Some ?c) r w False (map (map Data) dss @ [map Data ds @ [Eos]]) out =
    map_option (\<lambda>(r', w', p). (r', w', out @ p))
      (parsed_response env conf r (concat ((kept @ d) @ concat dss @ ds)) w)"
    using Cons.prems by (intro Cons.IH) (auto simp: ctx_of_def add.assoc)
  with step show ?case by simp
qed

subsection \<open>Bodies over the limit\<close>

lemma oversize_pass_step:
  assumes "processed conf r" and "\<not> passthrough (ctx_of fctx)" and "limited conf r"
    and "on_oversize conf \<noteq> MESI_ON_OVERSIZE_ERROR"
    and "declared_oversize (strtoff env) conf r
      \<or> (0 \<le> total (ctx_of fctx) \<and> total (ctx_of fctx) \<le> body_limit conf
          \<and> body_limit conf < total (ctx_of fctx) + size_of ds \<and> total (ctx_of fctx) + size_of ds < 2 ^ 63)"
  shows "\<exists>c'. passthrough c' \<and>
    mesi_response_filter env conf fctx r w (map Data ds @ bs) =
      Some \<lparr> fr_ctx = Some c', fr_req = r, fr_worker = w, fr_removed = False,
             fr_passed = Some (bb (ctx_of fctx) @ map Data ds @ bs) \<rparr>"
proof (cases "declared_oversize (strtoff env) conf r")
  case True
  with assms show ?thesis
    by (auto simp: filter_declared filter_oversize_def)
next
  case False
  with assms(5) have "let ac = accumulate (body_limit conf) True (map Data ds @ bs) (bb (ctx_of fctx))
      (total (ctx_of fctx)) False
    in ac_oversize ac \<and> ac_bb ac @ ac_rest ac = bb (ctx_of fctx) @ map Data ds @ bs"
    by (intro accumulate_over) auto
  with False assms(1-4) show ?thesis
    by (auto simp: filter_processed filter_oversize_def Let_def)
qed

lemma run_oversize_pass:
  assumes "processed conf r" and "limited conf r" and "on_oversize conf \<noteq> MESI_ON_OVERSIZE_ERROR"
    and "\<not> passthrough (ctx_of fctx)" and "\<not> declared_oversize (strtoff env) conf r"
    and "0 \<le> total (ctx_of fctx)" and "total (ctx_of fctx) \<le> body_limit conf"
    and "body_limit conf < total (ctx_of fctx) + size_of (concat dss)"
    and "total (ctx_of fctx) + size_of (concat dss) < 2 ^ 63"
  shows "run_filter env conf fctx r w False (map (map Data) dss @ tail) out =
    Some (r, w, out @ bb (ctx_of fctx) @ map Data (concat dss) @ concat tail)"
  using assms
proof (induction dss arbitrary: fctx)
  case (Cons d dss)
  have "0 \<le> size_of (concat dss)" by (rule size_of_simps(4))
  moreover have "size_of (concat (d # dss)) = size_of d + size_of (concat dss)" by simp
  ultimately have d: "total (ctx_of fctx) + size_of d < 2 ^ 63" using Cons.prems(9) by linarith
  show ?case
  proof (cases "body_limit conf < total (ctx_of fctx) + size_of d")
    case True
    obtain c' where "passthrough c'"
      "mesi_response_filter env conf fctx r w (map Data d @ []) =
        Some \<lparr> fr_ctx = Some c', fr_req = r, fr_worker = w, fr_removed = False,
               fr_passed = Some (bb (ctx_of fctx) @ map Data d @ []) \<rparr>"
      using oversize_pass_step [OF Cons.prems(1,4,2,3), where ds = d and bs = "[]"] Cons.prems True d
      by blast
    then show ?thesis
      using Cons.prems(1) by (simp add: run_passthrough map_concat)
  next
    case False
    let ?c = "(ctx_of fctx)\<lparr>bb := bb (ctx_of fctx) @ map Data d, total := total (ctx_of fctx) + size_of d\<rparr>"
    have "body_limit conf < 2 ^ 63" using Cons.prems(8,9) by linarith
    then have acc: "accumulate (body_limit conf) (limited conf r) (map Data d) (bb (ctx_of fctx))
        (total (ctx_of fctx)) False =
      \<lparr> ac_bb = bb ?c, ac_total = total ?c, ac_seen_eos = False, ac_oversize = False, ac_rest = [] \<rparr>"
      using Cons.prems False
        accumulate_plain [of True "total (ctx_of fctx)" d "body_limit conf" "[]"] by simp
    have step: "mesi_response_filter env conf fctx r w (map Data d) =
        Some \<lparr> fr_ctx = Some ?c, fr_req = r, fr_worker = w, fr_removed = False, fr_passed = None \<rparr>"
      unfolding filter_processed [OF Cons.prems(1,4,5)] acc by simp
    have "run_filter env conf (Some ?c) r w False (map (map Data) dss @ tail) out =
        Some (r, w, out @ bb (ctx_of (Some ?c)) @ map Data (concat dss) @ concat tail)"
      using Cons.prems False by (intro Cons.IH) (auto simp: ctx_of_def add.assoc)
    with step show ?thesis by (simp add: ctx_of_def)
  qed
qed simp

subsection \<open>Memory held\<close>

text \<open>
  The states a response goes through: the filter context, the request and the worker after each
  brigade.  A brigade is shorter than \<open>2 ^ 62\<close> bytes.
\<close>

inductive filter_reach ::
  "filter_env \<Rightarrow> mesi_config \<Rightarrow> request \<Rightarrow> worker
     \<Rightarrow> response_filter_ctx option \<times> request \<times> worker \<Rightarrow> bool"
  for env conf r w where
  start: "filter_reach env conf r w (None, r, w)"
| brigade: "\<lbrakk>filter_reach env conf r w (c, r', w');
     mesi_response_filter env conf c r' w' b = Some res; \<not> fr_removed res;
     length (brigade_bytes b) < 2 ^ 62\<rbrakk>
   \<Longrightarrow> filter_reach env conf r w (fr_ctx res, fr_req res, fr_worker res)"

text \<open>What is held fits the limit; while bytes are being counted, the count covers what is held.\<close>

definition ctx_bounded :: "int \<Rightarrow> response_filter_ctx option \<Rightarrow> bool" where
  "ctx_bounded limit c \<longleftrightarrow>
     int (held_bytes (bb (ctx_of c))) \<le> limit
     \<and> (\<not> passthrough (ctx_of c) \<longrightarrow>
          int (held_bytes (bb (ctx_of c))) \<le> total (ctx_of c) \<and> total (ctx_of c) \<le> limit)"

lemma ctx_bounded_Some:
  "ctx_bounded limit (Some c) \<longleftrightarrow> int (held_bytes (bb c)) \<le> limit
     \<and> (\<not> passthrough c \<longrightarrow> int (held_bytes (bb c)) \<le> total c \<and> total c \<le> limit)"
  by (simp add: ctx_bounded_def ctx_of_def)

lemma finish_ctx [simp]: "fr_ctx (finish_parse c r html out w) = Some (c\<lparr>bb := []\<rparr>)"
  by (auto simp: finish_parse_def Let_def split: parse_outcome.split option.split)

lemma complete_ctx:
  "filter_complete env conf c r w = Some res \<Longrightarrow> fr_ctx res = Some (c\<lparr>bb := []\<rparr>)"
  by (auto simp: filter_complete_def Let_def split: prod.splits option.splits)

lemma filter_bounded:
  assumes "body_limit conf > 0" and "body_limit conf < 2 ^ 62" and "length (brigade_bytes b) < 2 ^ 62"
    and "limited conf r" and "ctx_bounded (body_limit conf) c"
    and "mesi_response_filter env conf c r w b = Some res" and "\<not> fr_removed res"
  shows "ctx_bounded (body_limit conf) (fr_ctx res)"
proof (cases "processed conf r \<and> \<not> passthrough (ctx_of c)")
  case False
  show ?thesis
  proof (cases "processed conf r")
    case True
    with False have "passthrough (ctx_of c)" by simp
    then obtain c' where "c = Some c'" "passthrough c'" by (cases c) (auto simp: ctx_of_def empty_ctx_def)
    with True assms(5,6) show ?thesis by (auto simp: filter_passthrough)
  next
    case False
    show ?thesis
    proof (cases "enable_mesi conf = 0")
      case True
      with assms(5,6) show ?thesis by (auto simp: filter_disabled)
    next
      case enabled: False
      from filter_skips [OF False enabled, of env c w b] assms(6)
      have "fr_ctx res = c" by auto
      with assms(5) show ?thesis by simp
    qed
  qed
next
  case True
  note live = this
  show ?thesis
  proof (cases "declared_oversize (strtoff env) conf r")
    case True
    with live assms(1,5,6,7) show ?thesis
      by (auto simp: filter_declared filter_oversize_def ctx_bounded_def)
  next
    case False
    let ?ac = "accumulate (body_limit conf) True b (bb (ctx_of c)) (total (ctx_of c)) False"
    have acc: "int (held_bytes (ac_bb ?ac)) \<le> body_limit conf
      \<and> (\<not> ac_oversize ?ac \<longrightarrow> int (held_bytes (ac_bb ?ac)) \<le> ac_total ?ac \<and> ac_total ?ac \<le> body_limit conf)"
      using assms(2,3,5) live by (intro accumulate_limit) (auto simp: ctx_bounded_def)
    note f = filter_processed [of conf r c env, unfolded Let_def, OF _ _ False]
    show ?thesis
      using assms(1,4,6,7) live acc
      by (auto simp: f filter_oversize_def ctx_bounded_Some Let_def dest!: complete_ctx split: if_splits)
  qed
qed

text \<open>Whether the limit applies does not change on the way, not even when a failing parse sets the status.\<close>

lemma limited_frame [simp]:
  "limited conf (table_unset_out k r) = limited conf r"
  "limited conf r \<Longrightarrow> limited conf (r\<lparr>status := 500\<rparr>)"
  by (auto simp: limited_def bodiless_def table_unset_out_def)

lemma finish_limited: "limited conf r \<Longrightarrow> limited conf (fr_req (finish_parse c r html out w))"
  by (auto simp: finish_parse_def Let_def split: parse_outcome.split option.split)

lemma complete_limited:
  "filter_complete env conf c r w = Some res \<Longrightarrow> limited conf r \<Longrightarrow> limited conf (fr_req res)"
  by (auto simp: filter_complete_def Let_def finish_limited split: prod.splits option.splits)

lemma filter_limited:
  assumes "mesi_response_filter env conf c r w b = Some res" and "limited conf r"
  shows "limited conf (fr_req res)"
  using assms
  by (auto simp: mesi_response_filter_def filter_oversize_def Let_def dest: complete_limited split: if_splits)

lemma reach_bounded:
  assumes "filter_reach env conf r w s" and "limited conf r" and "body_limit conf < 2 ^ 62"
  shows "limited conf (fst (snd s)) \<and> ctx_bounded (body_limit conf) (fst s)"
  using assms(1)
proof (induction rule: filter_reach.induct)
  case start
  from assms(2) show ?case by (simp add: ctx_bounded_def empty_ctx_def limited_def)
next
  case (brigade c r' w' b res)
  moreover have "body_limit conf > 0" using assms(2) by (simp add: limited_def)
  ultimately show ?case using assms(3) filter_limited filter_bounded [of conf b r' c env w' res] by simp
qed

subsection \<open>Properties\<close>

text \<open>Concrete inputs.\<close>

definition sample_lib :: golib where
  "sample_lib = \<lparr> init_cache_rc = (\<lambda>b n t. 0), init_cache_with_config_rc = (\<lambda>b n t c. 0),
     parse = (\<lambda>h d u. Some h), parse_with_config = (\<lambda>h d u hs bp. Some h),
     parse_with_config_ex = (\<lambda>h d u hs bp ap. Some h),
     parse_with_config_ctx = (\<lambda>h d u hs bp ap t c. Some h), parse_json = (\<lambda>h b. None) \<rparr>"

definition sample_env :: filter_env where
  "sample_env = \<lparr> exports = (\<lambda>_. True), lib = sample_lib, strtoff = (\<lambda>_. None) \<rparr>"

definition sample_conf :: mesi_config where
  "sample_conf = create_server_config\<lparr>enable_mesi := 1, max_body_size := 10, timeout_seconds := 5\<rparr>"

definition sample_request :: request where
  "sample_request = \<lparr> content_type = Some ''text/html'', status = 200, header_only = False, clength = 0,
     headers_in = None, headers_out = [], scheme = ''http'', server_hostname = Some ''a'',
     server_name = Some ''a'', server_port = 80, req_port = 80 \<rparr>"

definition sample_worker :: worker where
  "sample_worker = initial_worker\<lparr>go_module := True, resolved := (\<lambda>_. True)\<rparr>"

lemma sample_processed: "processed sample_conf sample_request"
proof -
  have "is_html_content (Some ''text/html'')" by code_simp
  then show ?thesis
    by (simp add: processed_def sample_conf_def sample_request_def create_server_config_def)
qed

lemma sample_limit: "body_limit sample_conf = 10" "limited sample_conf sample_request"
    "\<not> declared_oversize (strtoff sample_env) sample_conf sample_request"
    "on_oversize sample_conf = -1"
  by (simp_all add: body_limit_def limited_def bodiless_def declared_oversize_def sample_conf_def
      sample_request_def sample_env_def create_server_config_def table_get_def)

text \<open>A response that is not to be processed (module off, not HTML, status 400 and above,
  or not signalled when signalling is required) reaches the client bucket for bucket as it was,
  however many brigades it has, and the worker is left alone.\<close>

theorem unprocessed_untouched:
  assumes "\<not> processed conf r"
  shows "\<exists>r'. run_filter env conf fctx r w False brigades [] = Some (r', w, concat brigades)
    \<and> (r' = r \<or> r' = table_unset_out ''Surrogate-Capability'' r)"
  using run_skips [OF assms, of env fctx w brigades "[]"] by simp

theorem unprocessed_untouched_witness:
  "\<exists>r'. run_filter sample_env sample_conf None (sample_request\<lparr>status := 404\<rparr>) sample_worker False
      [[Data ''ab''], [Data ''c'', Eos]] [] = Some (r', sample_worker, concat [[Data ''ab''], [Data ''c'', Eos]])
    \<and> (r' = sample_request\<lparr>status := 404\<rparr>
       \<or> r' = table_unset_out ''Surrogate-Capability'' (sample_request\<lparr>status := 404\<rparr>))"
  by (rule unprocessed_untouched) (simp add: processed_def sample_request_def)

lemma body_run:
  assumes "processed conf r" and "\<not> declared_oversize (strtoff env) conf r" and "\<not> force_flatten_error w"
    and "concat (concat dss @ ds) \<noteq> []"
    and "limited conf r \<Longrightarrow> size_of (concat dss @ ds) \<le> body_limit conf \<and> body_limit conf < 2 ^ 63"
  shows "run_filter env conf None r w False (map (map Data) dss @ [map Data ds @ [Eos]]) []
    = parsed_response env conf r (concat (concat dss @ ds)) w"
proof -
  have "run_filter env conf None r w False (map (map Data) dss @ [map Data ds @ [Eos]]) []
    = map_option (\<lambda>(r', w', p). (r', w', [] @ p)) (parsed_response env conf r (concat ([] @ concat dss @ ds)) w)"
    using assms by (intro run_plain) (simp_all add: empty_ctx_def)
  then show ?thesis by (simp add: option.map_id)
qed

text \<open>C11: a processed body within the limit reaches the parser whole, in order, however the
  server cuts it into buckets and brigades; nothing is sent before its end, and then the client
  gets the library's answer, the page itself where parsing is refused, or an empty 500.\<close>

theorem whole_body_parsed:
  assumes "processed conf r" and "\<not> declared_oversize (strtoff env) conf r" and "\<not> force_flatten_error w"
    and "concat (concat dss @ ds) \<noteq> []"
    and "limited conf r \<Longrightarrow> size_of (concat dss @ ds) \<le> body_limit conf \<and> body_limit conf < 2 ^ 63"
  shows "run_filter env conf None r w False (map (map Data) dss @ [map Data ds @ [Eos]]) []
    = parsed_response env conf r (concat (concat dss @ ds)) w"
  using assms by (rule body_run)

theorem whole_body_parsed_witness:
  "run_filter sample_env sample_conf None sample_request sample_worker False
     (map (map Data) [[''ab''], [''c'']] @ [map Data [''d''] @ [Eos]]) []
   = parsed_response sample_env sample_conf sample_request (concat (concat [[''ab''], [''c'']] @ [''d''])) sample_worker"
  by (rule whole_body_parsed)
     (simp_all add: sample_processed sample_limit sample_worker_def initial_worker_def)

text \<open>When the library answers a parse with NULL the response fails closed: status 500,
  no Content-Length, and not a byte of the unparsed page.\<close>

theorem null_answer_fails_closed:
  assumes "parse_dispatch (lib env) conf r (c_str body) (init_shared env conf w) = Some (Esi None, w')"
    and "flatten_brigade (force_flatten_error w) (bb c) = (Some body, n)"
  shows "\<exists>res. filter_complete env conf c r w = Some res \<and> status (fr_req res) = 500
    \<and> table_get (headers_out (fr_req res)) ''Content-Length'' = None
    \<and> fr_passed res = Some [Eos] \<and> fr_worker res = w'"
proof -
  have "find (\<lambda>(k', v). case k' of None \<Rightarrow> False | Some k'' \<Rightarrow> strcaseeq k'' k) (table_unset t k) = None" for t k
    by (auto simp: find_None_iff table_unset_def key_is_def)
  then have "table_get (table_unset t k) k = None" for t k by (simp add: table_get_def)
  with assms show ?thesis
    by (simp add: filter_complete_def finish_parse_def table_unset_out_def)
qed

theorem null_answer_fails_closed_witness:
  "\<exists>res. filter_complete sample_env sample_conf (empty_ctx\<lparr>bb := [Data ''ab'']\<rparr>) sample_request sample_worker
      = Some res \<and> status (fr_req res) = 500
    \<and> table_get (headers_out (fr_req res)) ''Content-Length'' = None
    \<and> fr_passed res = Some [Eos]
    \<and> fr_worker res = snd (the (parse_dispatch sample_lib sample_conf sample_request ''ab'' sample_worker))"
proof (rule null_answer_fails_closed [where body = "''ab''" and n = 2])
  have shared: "init_shared sample_env sample_conf sample_worker = sample_worker"
    by (simp add: init_shared_def sample_conf_def create_server_config_def nonempty_def)
  have ctx: "build_request_ctx_json (headers_in sample_request) sample_conf = Some []"
    by (rule build_ctx_none)
       (simp add: template_wants_ctx_def sample_conf_def create_server_config_def nonempty_def)
  have lib: "lib sample_env = sample_lib" "\<And>h b. parse_json sample_lib h b = None"
    by (simp_all add: sample_env_def sample_lib_def)
  have "wants_parse_json sample_conf" "\<And>s. resolved sample_worker s"
    by (simp_all add: wants_parse_json_def sample_conf_def sample_worker_def)
  then show "parse_dispatch (lib sample_env) sample_conf sample_request (c_str ''ab'')
      (init_shared sample_env sample_conf sample_worker)
    = Some (Esi None, snd (the (parse_dispatch sample_lib sample_conf sample_request ''ab'' sample_worker)))"
    by (simp add: shared parse_dispatch_def ctx lib c_str_def Let_def)
  show "flatten_brigade (force_flatten_error sample_worker) (bb (empty_ctx\<lparr>bb := [Data ''ab'']\<rparr>)) = (Some ''ab'', 2)"
    by (simp add: flatten_brigade_def sample_worker_def initial_worker_def)
qed

text \<open>C18: a body over the limit in pass mode reaches the client bucket for bucket as it was,
  what had been buffered first, and no library call is made for it.\<close>

theorem oversize_body_passed:
  assumes "processed conf r" and "limited conf r" and "on_oversize conf \<noteq> MESI_ON_OVERSIZE_ERROR"
    and "\<not> declared_oversize (strtoff env) conf r"
    and "body_limit conf < size_of (concat dss)" and "size_of (concat dss) < 2 ^ 63"
  shows "run_filter env conf None r w False (map (map Data) dss @ rest) []
    = Some (r, w, concat (map (map Data) dss @ rest))"
proof -
  have "run_filter env conf None r w False (map (map Data) dss @ rest) []
    = Some (r, w, [] @ bb (ctx_of None) @ map Data (concat dss) @ concat rest)"
    using assms by (intro run_oversize_pass) (simp_all add: empty_ctx_def limited_def)
  then show ?thesis by (simp add: empty_ctx_def map_concat)
qed

theorem oversize_body_passed_witness:
  "run_filter sample_env sample_conf None sample_request sample_worker False
     (map (map Data) [[''abcdef''], [''ghijkl'']] @ [[Data ''m'', Eos]]) []
   = Some (sample_request, sample_worker, concat (map (map Data) [[''abcdef''], [''ghijkl'']] @ [[Data ''m'', Eos]]))"
  by (rule oversize_body_passed) (simp_all add: sample_processed sample_limit)

text \<open>C15: at every point of a response with a size limit, the body bytes held in the filter
  context never exceed \<open>MesiMaxBodySize\<close>, even when lengths are only known by reading.\<close>

theorem held_bytes_bounded:
  assumes "filter_reach env conf r w (c, r', w')" and "limited conf r" and "body_limit conf < 2 ^ 62"
  shows "int (held_bytes (bb (ctx_of c))) \<le> max_body_size conf"
  using reach_bounded [OF assms] assms(2)
  by (auto simp: ctx_bounded_def limited_def body_limit_def split: if_splits)

theorem held_bytes_bounded_witness:
  "\<exists>res. mesi_response_filter sample_env sample_conf None sample_request sample_worker [Data ''abc''] = Some res
    \<and> int (held_bytes (bb (ctx_of (fr_ctx res)))) \<le> max_body_size sample_conf"
proof -
  let ?c = "empty_ctx\<lparr>bb := [Data ''abc''], total := 3\<rparr>"
  have f: "mesi_response_filter sample_env sample_conf None sample_request sample_worker [Data ''abc''] =
      Some \<lparr> fr_ctx = Some ?c, fr_req = sample_request, fr_worker = sample_worker,
             fr_removed = False, fr_passed = None \<rparr>"
    by (subst filter_processed [OF sample_processed _ sample_limit(3)])
       (simp_all add: sample_limit empty_ctx_def accumulate.simps(2) s64_id)
  have "filter_reach sample_env sample_conf sample_request sample_worker (Some ?c, sample_request, sample_worker)"
    using filter_reach.brigade [OF filter_reach.start f] by simp
  from held_bytes_bounded [OF this sample_limit(2)] f sample_limit(1) show ?thesis by simp
qed

end
