(* ===== verification/Apache_Life.thy ===== *)
theory Apache_Life
  imports Apache_Response
begin

text \<open>
  The life of a worker process as a state machine: \<open>mesi_child_init\<close> once, then any
  number of filter calls for any hosts and requests in any order.  In every state reached the
  library is called only while it is mapped, the shared cache has been set up successfully at
  most once and the shared HTTP client at most once.
\<close>

inductive worker_reach :: "string option \<Rightarrow> bool \<Rightarrow> (symbol \<Rightarrow> bool) \<Rightarrow> golib \<Rightarrow> worker \<Rightarrow> bool"
  for env_force dlopen_ok exps gl where
  child_init: "worker_reach env_force dlopen_ok exps gl (mesi_child_init env_force dlopen_ok exps initial_worker)"
| filter_call: "\<lbrakk>worker_reach env_force dlopen_ok exps gl w;
     exports env = exps; lib env = gl;
     mesi_response_filter env conf fctx r w brigade = Some res\<rbrakk>
   \<Longrightarrow> worker_reach env_force dlopen_ok exps gl (fr_worker res)"

subsection \<open>What a filter call does to the worker\<close>

text \<open>Either nothing, or: set up what is configured, parse, free the result.\<close>

lemma complete_worker:
  assumes "filter_complete env conf c r w = Some res"
  shows "fr_worker res = w
    \<or> (\<exists>html out w3. parse_dispatch (lib env) conf r html (init_shared env conf w) = Some (out, w3)
         \<and> (fr_worker res = w3 \<or> (resolved w3 FreeString \<and> fr_worker res = call CallFreeString w3)))"
proof (cases "fst (flatten_brigade (force_flatten_error w) (bb c))")
  case None
  with assms show ?thesis by (auto simp: filter_complete_def split: prod.splits)
next
  case (Some body)
  obtain out w3 where d: "parse_dispatch (lib env) conf r (c_str body) (init_shared env conf w) = Some (out, w3)"
    using parse_dispatch_total [of "lib env" conf r "c_str body" "init_shared env conf w"] by auto
  with assms Some have "res = finish_parse c r (c_str body) out w3"
    by (auto simp: filter_complete_def Let_def split: prod.splits)
  then have "fr_worker res = w3 \<or> (resolved w3 FreeString \<and> fr_worker res = call CallFreeString w3)"
    by (auto simp: finish_parse_def Let_def split: parse_outcome.splits option.splits if_splits)
  with d show ?thesis by blast
qed

lemma filter_worker:
  assumes "mesi_response_filter env conf fctx r w b = Some res"
  shows "fr_worker res = w
    \<or> (\<exists>html out w3. parse_dispatch (lib env) conf r html (init_shared env conf w) = Some (out, w3)
         \<and> (fr_worker res = w3 \<or> (resolved w3 FreeString \<and> fr_worker res = call CallFreeString w3)))"
proof -
  have "fr_worker res = w \<or> (\<exists>c. filter_complete env conf c r w = Some res)"
    using assms
    by (auto simp: mesi_response_filter_def filter_oversize_def Let_def split: if_splits)
  then show ?thesis using complete_worker by blast
qed

text \<open>
  So an invariant of the worker holds in every reachable state when the start, the lazy
  initialisers, one parse call and the release of its result keep it.
\<close>

lemma worker_induct:
  assumes reach: "worker_reach env_force dlopen_ok exps gl w"
    and init: "I (mesi_child_init env_force dlopen_ok exps initial_worker)"
    and cache: "\<And>conf w. I w \<Longrightarrow> I (snd (mesi_init_cache exps gl conf w))"
    and http: "\<And>conf w. I w \<Longrightarrow> I (snd (mesi_init_http_client exps conf w))"
    and parse: "\<And>conf r html c s w. I w \<Longrightarrow> resolved w s \<Longrightarrow> carries conf r html c \<Longrightarrow> I (call c w)"
    and free: "\<And>w. I w \<Longrightarrow> resolved w FreeString \<Longrightarrow> I (call CallFreeString w)"
  shows "I w"
  using reach
proof (induction rule: worker_reach.induct)
  case child_init
  show ?case by (rule init)
next
  case (filter_call w env conf fctx r brigade res)
  have shared: "I (init_shared env conf w)"
    using filter_call by (auto simp: init_shared_def Let_def cache http)
  have "I w3" if "parse_dispatch (lib env) conf r html (init_shared env conf w) = Some (out, w3)" for html out w3
    using dispatch_one_call [OF that] shared parse by (auto simp: one_call_def)
  with filter_worker [OF filter_call(4)] filter_call(5) free show ?case by auto
qed

subsection \<open>Calls only into the mapped library\<close>

lemma reach_worker_ok:
  assumes "worker_reach env_force dlopen_ok exps gl w"
  shows "worker_ok w"
  using assms
proof (rule worker_induct)
  show "worker_ok (mesi_child_init env_force dlopen_ok exps initial_worker)"
    by (intro worker_ok_child_init worker_ok_initial) (simp add: initial_worker_def)
qed (auto intro: worker_ok_init_cache worker_ok_init_http worker_ok_call)

subsection \<open>At most one set-up\<close>

fun cache_success :: "golib \<Rightarrow> lib_call \<Rightarrow> bool" where
  "cache_success gl (CallInitCache b n t) = (init_cache_rc gl b n t = 0)"
| "cache_success gl (CallInitCacheWithConfig b n t cfg) = (init_cache_with_config_rc gl b n t cfg = 0)"
| "cache_success gl _ = False"

fun is_http_init :: "lib_call \<Rightarrow> bool" where
  "is_http_init (CallInitHTTPClient b) = True"
| "is_http_init _ = False"

definition count_calls :: "(lib_call \<Rightarrow> bool) \<Rightarrow> worker \<Rightarrow> nat" where
  "count_calls P w = length (filter (P \<circ> snd) (calls w))"

lemma count_calls_call [simp]: "count_calls P (call c w) = count_calls P w + (if P c then 1 else 0)"
  by (simp add: count_calls_def call_def)

lemma count_calls_frame [simp]:
  "count_calls P (w\<lparr>cache_initialized := b\<rparr>) = count_calls P w"
  "count_calls P (w\<lparr>http_client_initialized := b\<rparr>) = count_calls P w"
  "count_calls P (probe e s w) = count_calls P w"
  by (simp_all add: count_calls_def probe_def)

lemma count_finish [simp]: "count_calls P (snd (finish_cache rc w)) = count_calls P w"
  by (simp add: finish_cache_def)

lemma finish_flags [simp]:
  "cache_initialized (snd (finish_cache rc w)) = (rc = 0 \<and> cache_initialized w)"
  "http_client_initialized (snd (finish_cache rc w)) = http_client_initialized w"
  by (simp_all add: finish_cache_def)

lemma frame_flags [simp]:
  "cache_initialized (call c w) = cache_initialized w"
  "http_client_initialized (call c w) = http_client_initialized w"
  "cache_initialized (probe e s w) = cache_initialized w"
  "http_client_initialized (probe e s w) = http_client_initialized w"
  by (simp_all add: call_def probe_def)

lemma count_child_init [simp]: "count_calls P (mesi_child_init f d e initial_worker) = 0"
  by (simp add: count_calls_def mesi_child_init_def initial_worker_def Let_def)

text \<open>The invariant: set up at most once, and only with the flag standing.\<close>

definition once :: "golib \<Rightarrow> worker \<Rightarrow> bool" where
  "once gl w \<longleftrightarrow>
     count_calls (cache_success gl) w \<le> (if cache_initialized w then 1 else 0)
     \<and> count_calls is_http_init w \<le> (if http_client_initialized w then 1 else 0)"

lemma init_cache_http:
  "count_calls is_http_init (snd (mesi_init_cache e gl conf w)) = count_calls is_http_init w"
  "http_client_initialized (snd (mesi_init_cache e gl conf w)) = http_client_initialized w"
  by (simp_all add: mesi_init_cache_def Let_def split: option.split)

lemma init_cache_success:
  assumes "count_calls (cache_success gl) w = 0" and "\<not> cache_initialized w"
  shows "count_calls (cache_success gl) (snd (mesi_init_cache e gl conf w))
    \<le> (if cache_initialized (snd (mesi_init_cache e gl conf w)) then 1 else 0)"
  using assms by (simp add: mesi_init_cache_def Let_def split: option.split)

lemma once_init_cache: "once gl w \<Longrightarrow> once gl (snd (mesi_init_cache e gl conf w))"
proof (cases "cache_initialized w")
  case True
  then show "once gl w \<Longrightarrow> ?thesis" by (simp add: mesi_init_cache_def)
next
  case False
  assume "once gl w"
  with False have "count_calls (cache_success gl) w = 0" by (simp add: once_def)
  from init_cache_success [OF this False, of e conf] \<open>once gl w\<close> show ?thesis
    by (simp add: once_def init_cache_http)
qed

lemma once_init_http: "once gl w \<Longrightarrow> once gl (snd (mesi_init_http_client e conf w))"
  by (auto simp: once_def mesi_init_http_client_def Let_def)

lemma once_parse: "once gl w \<Longrightarrow> carries conf r html c \<Longrightarrow> once gl (call c w)"
  by (cases c) (auto simp: once_def)

lemma once_free: "once gl w \<Longrightarrow> once gl (call CallFreeString w)"
  by (simp add: once_def)

lemma reach_once:
  assumes "worker_reach env_force dlopen_ok exps gl w"
  shows "once gl w"
  using assms
proof (rule worker_induct)
  show "once gl (mesi_child_init env_force dlopen_ok exps initial_worker)"
    by (simp add: once_def)
qed (auto intro: once_init_cache once_init_http once_parse once_free)

subsection \<open>Every parse call of a response carries the configuration\<close>

fun is_parse :: "lib_call \<Rightarrow> bool" where
  "is_parse (CallParse h d u) = True"
| "is_parse (CallParseWithConfig h d u hs bp) = True"
| "is_parse (CallParseWithConfigEx h d u hs bp ap) = True"
| "is_parse (CallParseWithConfigCtx h d u hs bp ap t c) = True"
| "is_parse (CallParseJson h b) = True"
| "is_parse _ = False"

lemma calls_probe [simp]: "calls (probe e s w) = calls w"
  by (simp add: probe_def)

lemma calls_call [simp]: "calls (call c w) = calls w @ [(go_module w, c)]"
  by (simp add: call_def)

lemma calls_finish [simp]: "calls (snd (finish_cache rc w)) = calls w"
  by (simp add: finish_cache_def)

lemma init_cache_calls:
  "\<exists>new. calls (snd (mesi_init_cache e gl conf w)) = calls w @ new \<and> (\<forall>x \<in> set new. \<not> is_parse (snd x))"
  unfolding mesi_init_cache_def Let_def
  by (simp split: option.split)

lemma init_http_calls:
  "\<exists>new. calls (snd (mesi_init_http_client e conf w)) = calls w @ new \<and> (\<forall>x \<in> set new. \<not> is_parse (snd x))"
  by (auto simp: mesi_init_http_client_def Let_def)

lemma init_shared_calls:
  "\<exists>new. calls (init_shared env conf w) = calls w @ new \<and> (\<forall>x \<in> set new. \<not> is_parse (snd x))"
proof -
  let ?w1 = "if nonempty (cache_backend conf) then snd (mesi_init_cache (exports env) (lib env) conf w) else w"
  have "\<exists>n1. calls ?w1 = calls w @ n1 \<and> (\<forall>x \<in> set n1. \<not> is_parse (snd x))"
    using init_cache_calls [of "exports env" "lib env" conf w] by (simp del: split_paired_All)
  then obtain n1 where "calls ?w1 = calls w @ n1" "\<forall>x \<in> set n1. \<not> is_parse (snd x)" by blast
  moreover have "\<exists>n2. calls (init_shared env conf w) = calls ?w1 @ n2 \<and> (\<forall>x \<in> set n2. \<not> is_parse (snd x))"
    using init_http_calls [of "exports env" conf ?w1]
    by (cases "shared_http_client conf = 1") (simp_all only: init_shared_def Let_def if_True if_False, auto)
  then obtain n2 where "calls (init_shared env conf w) = calls ?w1 @ n2" "\<forall>x \<in> set n2. \<not> is_parse (snd x)"
    by blast
  ultimately show ?thesis by auto
qed

lemma filter_parse_calls:
  assumes "mesi_response_filter env conf fctx r w b = Some res"
  shows "\<exists>new. calls (fr_worker res) = calls w @ new
    \<and> length (filter (is_parse \<circ> snd) new) \<le> 1
    \<and> (\<forall>(m, c) \<in> set new. is_parse c \<longrightarrow> (\<exists>html. carries conf r html c))"
proof (cases "fr_worker res = w")
  case False
  with filter_worker [OF assms] obtain html out w3 where
    d: "parse_dispatch (lib env) conf r html (init_shared env conf w) = Some (out, w3)"
    and e: "fr_worker res = w3 \<or> fr_worker res = call CallFreeString w3" by blast
  obtain n1 where n1: "calls (init_shared env conf w) = calls w @ n1" "\<forall>x \<in> set n1. \<not> is_parse (snd x)"
    using init_shared_calls by blast
  obtain n2 where n2: "calls w3 = calls (init_shared env conf w) @ n2" "length n2 \<le> 1"
      "\<forall>(m, c) \<in> set n2. \<exists>html. carries conf r html c"
    using dispatch_one_call [OF d] by (auto simp: one_call_def) (metis le_numeral_extra(4))
  obtain n3 where n3: "calls (fr_worker res) = calls w3 @ n3" "\<forall>x \<in> set n3. \<not> is_parse (snd x)"
    using e by auto
  have "length (filter (is_parse \<circ> snd) (n1 @ n2 @ n3)) = length (filter (is_parse \<circ> snd) n2)"
    using n1(2) n3(2) by simp
  also have "\<dots> \<le> 1" using n2(2) length_filter_le [of "is_parse \<circ> snd" n2] by linarith
  finally show ?thesis
    using n1 n2 n3 by (intro exI [of _ "n1 @ n2 @ n3"]) auto
qed (auto intro!: exI [of _ "[]"])

subsection \<open>Properties\<close>

text \<open>C16: over the whole life of a worker, start, any requests for any hosts, and clean-up, the
  library is called only while it is mapped.\<close>

theorem library_calls_mapped:
  assumes "worker_reach env_force dlopen_ok exps gl w"
  shows "\<forall>(mapped, c) \<in> set (calls (mesi_child_cleanup w)). mapped"
  using reach_worker_ok [OF assms] by (rule cleanup_calls_mapped)

theorem library_calls_mapped_witness:
  "\<exists>res. mesi_response_filter sample_env sample_conf None sample_request
      (mesi_child_init None True (\<lambda>_. True) initial_worker) [Data ''ab'', Eos] = Some res
    \<and> (\<forall>(mapped, c) \<in> set (calls (mesi_child_cleanup (fr_worker res))). mapped)"
proof -
  obtain res where f: "mesi_response_filter sample_env sample_conf None sample_request
      (mesi_child_init None True (\<lambda>_. True) initial_worker) [Data ''ab'', Eos] = Some res"
    using filter_total by blast
  have "worker_reach None True (\<lambda>_. True) sample_lib (fr_worker res)"
    by (rule worker_reach.filter_call [OF worker_reach.child_init _ _ f]) (simp_all add: sample_env_def)
  from f library_calls_mapped [OF this] show ?thesis by blast
qed

text \<open>C17: in the life of a worker the shared cache is set up successfully at most once and the
  shared HTTP client at most once, whatever the order of requests and hosts.\<close>

theorem shared_setup_at_most_once:
  assumes "worker_reach env_force dlopen_ok exps gl w"
  shows "count_calls (cache_success gl) w \<le> 1 \<and> count_calls is_http_init w \<le> 1"
  using reach_once [OF assms] by (auto simp: once_def split: if_splits)

theorem shared_setup_at_most_once_witness:
  "\<exists>res. mesi_response_filter sample_env (sample_conf\<lparr>shared_http_client := 1\<rparr>) None sample_request
      (mesi_child_init None True (\<lambda>_. True) initial_worker) [Data ''ab'', Eos] = Some res
    \<and> count_calls (cache_success sample_lib) (fr_worker res) \<le> 1 \<and> count_calls is_http_init (fr_worker res) \<le> 1"
proof -
  obtain res where f: "mesi_response_filter sample_env (sample_conf\<lparr>shared_http_client := 1\<rparr>) None sample_request
      (mesi_child_init None True (\<lambda>_. True) initial_worker) [Data ''ab'', Eos] = Some res"
    using filter_total by blast
  have "worker_reach None True (\<lambda>_. True) sample_lib (fr_worker res)"
    by (rule worker_reach.filter_call [OF worker_reach.child_init _ _ f]) (simp_all add: sample_env_def)
  from f shared_setup_at_most_once [OF this] show ?thesis by blast
qed

end
