(* ===== verification/Go_Apache.thy ===== *)
theory Go_Apache
  imports Go_Cache Apache_Life
begin

text \<open>
  \<open>mod_mesi\<close> composed with the library: whatever entry point a request takes, the core runs
  with the settings of the virtual host, as far as that entry point can carry them, and the response
  body is what the core makes of the page.  With a library of this repository, which exports every
  symbol, nothing is lost.
\<close>

subsection \<open>The settings of a request\<close>

definition apache_settings :: "mesi_config \<Rightarrow> request \<Rightarrow> wire_settings" where
  "apache_settings conf r =
    \<lparr> ws_depth = eff_depth conf, ws_url = request_base_url r, ws_hosts = allowed_hosts_str conf,
      ws_block = (eff_block_private conf \<noteq> 0), ws_allow = (eff_allow_private conf \<noteq> 0),
      ws_timeout = given (timeout_seconds conf), ws_max_response_size = given (max_response_size conf),
      ws_max_concurrent = given (max_concurrent_requests conf), ws_max_workers = given (max_workers conf),
      ws_debug = given_flag (debug conf), ws_parse_on_header = given_flag (parse_on_header conf),
      ws_marker = (if nonempty (include_error_marker conf) then include_error_marker conf else None),
      ws_template = str_of (cache_key_template conf), ws_ctx = ctx_json_value conf r \<rparr>"

lemma nonempty_str_of: "nonempty s \<longleftrightarrow> str_of s \<noteq> []"
  by (cases s) (simp_all add: nonempty_def str_of_def)

lemma nonempty_not_None: "nonempty s \<and> s \<noteq> None \<longleftrightarrow> nonempty s"
  by (cases s) (simp_all add: nonempty_def)

lemma apache_wire:
  "wire_members (apache_settings conf r) = blob_members (request_blob conf r []) (ctx_json_value conf r)"
  unfolding wire_members_def apache_settings_def wire_settings.simps template_members given_member
    str_member_opt blob_members_def request_blob_def parse_json_config_of_def parse_json_config.simps
    nonempty_not_None
  by (simp add: nonempty_str_of str_of_def [of "Some x" for x] cong: option.case_cong)

lemma ctx_empty_template: "str_of (cache_key_template conf) = [] \<Longrightarrow> ctx_json_value conf r = None"
  by (simp add: ctx_json_value_def template_wants_ctx_def nonempty_str_of)

lemma carries_delivers:
  assumes "carries conf r html c"
  shows "delivers (apache_settings conf r) html c"
  using assms
  by (cases c) (simp_all add: wire_blob_def apache_wire del: render.simps, simp_all add: apache_settings_def str_of_def)

subsection \<open>The settings can be carried\<close>

lemma given_range: "unset_or lo hi v \<Longrightarrow> in_range (given v) lo hi"
  by (auto simp: unset_or_def given_def in_range_def)

lemma apache_numbers:
  assumes "config_ok conf"
  shows "wire_numbers_ok (apache_settings conf r)"
proof -
  have "unset_or 0 MESI_MAX_MAX_DEPTH (max_depth conf)"
    "unset_or 1 MESI_MAX_TIMEOUT_SECONDS (timeout_seconds conf)"
    "unset_or 0 MESI_MAX_MAX_RESPONSE_SIZE (max_response_size conf)"
    "unset_or 0 MESI_MAX_MAX_CONCURRENT_REQUESTS (max_concurrent_requests conf)"
    "unset_or 0 MESI_MAX_MAX_WORKERS (max_workers conf)"
    using assms unfolding config_ok_def by blast+
  note n = this [THEN given_range]
  have "0 \<le> eff_depth conf" "eff_depth conf \<le> 10000"
    using \<open>unset_or 0 MESI_MAX_MAX_DEPTH (max_depth conf)\<close> by (auto simp: eff_depth_def unset_or_def)
  with n(2-) show ?thesis by (simp add: wire_numbers_ok_def apache_settings_def go_limits)
qed

lemma shallow_members: "\<forall>(k, v) \<in> set (kept_headers h). shallow n v"
  by (induction h rule: kept_headers.induct) simp_all

lemma shallow_ctx: "shallow 9999 (ctx_value h)"
proof -
  let ?t = "case h of None \<Rightarrow> [] | Some t \<Rightarrow> t"
  have "\<forall>(k, v) \<in> set (kept_headers ?t). shallow 9997 v" by (rule shallow_members)
  then show ?thesis by (simp add: ctx_value_def cookie_json_def Let_def)
qed

text \<open>The texts of a request that Go reads as C wrote them.\<close>

definition apache_texts_ok :: "mesi_config \<Rightarrow> request \<Rightarrow> bool" where
  "apache_texts_ok conf r \<longleftrightarrow> go_text (request_base_url r) \<and> go_text (allowed_hosts_str conf)
     \<and> go_text (str_of (include_error_marker conf)) \<and> go_text (str_of (cache_key_template conf))"

lemma apache_texts:
  assumes "apache_texts_ok conf r"
  shows "wire_texts_ok (apache_settings conf r)"
  using assms shallow_ctx
  by (auto simp: apache_texts_ok_def wire_texts_ok_def apache_settings_def ctx_json_value_def str_of_def
      split: if_splits)

subsection \<open>A dispatch against the library\<close>

text \<open>The configuration that the core runs with when the request goes through call \<open>c\<close>.\<close>

lemma apache_core_call:
  assumes "config_ok conf" and "apache_texts_ok conf r" and "carries conf r html c"
  shows "go_core_call ord st c = Some (html, core_config ord st (delivered c (apache_settings conf r)))"
  by (rule delivers_core [OF carries_delivers [OF assms(3)] apache_numbers [OF assms(1)] apache_texts [OF assms(2)]])

text \<open>With every symbol resolved the call carries everything.\<close>

lemma full_library_call:
  assumes "\<And>s. resolved w s" and "parse_dispatch gl conf r html w = Some (out, w')"
  shows "\<exists>c. carries conf r html c \<and> out = Esi (lib_answer gl c)
    \<and> delivered c (apache_settings conf r) = apache_settings conf r"
proof -
  obtain s where s: "build_request_ctx_json (headers_in r) conf = Some s"
    using build_ctx_total by blast
  consider "wants_parse_json conf" | "\<not> wants_parse_json conf" "nonempty (cache_key_template conf)"
    | "\<not> wants_parse_json conf" "\<not> nonempty (cache_key_template conf)" by blast
  then show ?thesis
  proof cases
    case 1
    let ?c = "CallParseJson html (mesi_build_parse_json_config (request_blob conf r s))"
    have "out = Esi (lib_answer gl ?c)"
      using assms s 1 by (simp add: parse_dispatch_def Let_def build_parse_json_config_def request_blob_def)
    then show ?thesis by (intro exI [of _ ?c]) (simp add: blob_carries [OF s] del: carries.simps)
  next
    case 2
    let ?c = "CallParseWithConfigCtx html (eff_depth conf) (request_base_url r) (allowed_hosts_str conf)
        (eff_block_private conf) (eff_allow_private conf) (the (cache_key_template conf)) s"
    have "out = Esi (lib_answer gl ?c)"
      using assms s 2 by (simp add: parse_dispatch_def parse_legacy_def Let_def)
    moreover have "carries conf r html ?c"
      using nonempty_the [OF 2(2)] ctx_json_text [OF s] by simp
    moreover have "drop_optional (apache_settings conf r) = apache_settings conf r"
      using 2(1) by (simp add: drop_optional_def apache_settings_def wants_parse_json_def given_def given_flag_def)
    ultimately show ?thesis by (intro exI [of _ ?c]) simp
  next
    case 3
    let ?c = "CallParseWithConfigEx html (eff_depth conf) (request_base_url r) (allowed_hosts_str conf)
        (eff_block_private conf) (eff_allow_private conf)"
    have "out = Esi (lib_answer gl ?c)"
      using assms s 3 by (simp add: parse_dispatch_def parse_legacy_def Let_def)
    moreover have "drop_template (drop_optional (apache_settings conf r)) = apache_settings conf r"
      using 3 by (simp add: wire_drop apache_settings_def wants_parse_json_def given_def given_flag_def
          nonempty_str_of ctx_empty_template)
    ultimately show ?thesis by (intro exI [of _ ?c]) simp
  qed
qed

subsection \<open>A response against the library\<close>

definition apache_library :: "worker \<Rightarrow> go_state" where
  "apache_library w = go_run (map snd (calls w))"

lemma dispatch_is_core:
  assumes "config_ok conf" and "apache_texts_ok conf r" and "\<And>s. resolved w s"
    and "parse_dispatch (go_library core ord st) conf r html w = Some (out, w')"
  shows "out = Esi (Some (c_string (core (html, core_config ord st (apache_settings conf r)))))"
proof -
  obtain c where c: "carries conf r html c" "out = Esi (lib_answer (go_library core ord st) c)"
    "delivered c (apache_settings conf r) = apache_settings conf r"
    using full_library_call [OF assms(3,4)] by blast
  then show ?thesis
    using apache_core_call [OF assms(1,2) c(1), of ord st] by (simp add: go_answers go_answer_def)
qed

lemma resolved_frame [simp]:
  "resolved (call c w) = resolved w" "resolved (snd (finish_cache rc w)) = resolved w"
  by (simp_all add: call_def finish_cache_def)

lemma probe_resolved: "resolved w = (\<lambda>_. True) \<Longrightarrow> probe e s w = w"
  by (simp add: probe_def)

lemma init_cache_resolved: "resolved w = (\<lambda>_. True) \<Longrightarrow> resolved (snd (mesi_init_cache e gl conf w)) = (\<lambda>_. True)"
  by (simp add: mesi_init_cache_def probe_resolved Let_def split: option.split)

lemma init_http_resolved: "resolved w = (\<lambda>_. True) \<Longrightarrow> resolved (snd (mesi_init_http_client e conf w)) = (\<lambda>_. True)"
  by (simp add: mesi_init_http_client_def probe_resolved Let_def)

lemma init_shared_resolved:
  assumes "\<And>s. resolved w s"
  shows "resolved (init_shared env conf w) s"
proof -
  have "resolved w = (\<lambda>_. True)" using assms by blast
  then have "resolved (init_shared env conf w) = (\<lambda>_. True)"
    by (simp add: init_shared_def init_cache_resolved init_http_resolved Let_def)
  then show ?thesis by simp
qed

lemma response_is_core:
  assumes "config_ok conf" and "apache_texts_ok conf r" and "\<And>s. resolved w s"
    and "init_shared env conf w = w1" and "lib env = go_library core ord (apache_library w1)"
  shows "\<exists>w'. parsed_response env conf r body w
    = Some (table_unset_out ''Content-Length'' r, w',
        [Data (c_string (core (c_str body, core_config ord (apache_library w1) (apache_settings conf r)))), Eos])"
proof -
  obtain out w3 where d: "parse_dispatch (go_library core ord (apache_library w1)) conf r (c_str body) w1 = Some (out, w3)"
    using parse_dispatch_total [of "go_library core ord (apache_library w1)" conf r "c_str body" w1] by auto
  have "resolved w1 s" for s using init_shared_resolved [OF assms(3), where env = env and conf = conf] assms(4) by simp
  from dispatch_is_core [OF assms(1,2) this d] show ?thesis
    by (simp add: parsed_response_def assms(4,5) d)
qed

subsection \<open>The shared client\<close>

text \<open>The requests that a worker has served: the worker before, the configuration, the worker after.\<close>

inductive worker_history ::
  "string option \<Rightarrow> bool \<Rightarrow> (symbol \<Rightarrow> bool) \<Rightarrow> golib \<Rightarrow> (worker \<times> mesi_config \<times> worker) list \<Rightarrow> worker \<Rightarrow> bool"
  for env_force dlopen_ok exps gl where
  started: "worker_history env_force dlopen_ok exps gl [] (mesi_child_init env_force dlopen_ok exps initial_worker)"
| served: "\<lbrakk>worker_history env_force dlopen_ok exps gl steps w;
     exports env = exps; lib env = gl;
     mesi_response_filter env conf fctx r w brigade = Some res\<rbrakk>
   \<Longrightarrow> worker_history env_force dlopen_ok exps gl (steps @ [(w, conf, fr_worker res)]) (fr_worker res)"

lemma history_reach: "worker_history f d e gl steps w \<Longrightarrow> worker_reach f d e gl w"
  by (induction rule: worker_history.induct) (auto intro: worker_reach.intros)

lemma reach_history: "worker_reach f d e gl w \<Longrightarrow> \<exists>steps. worker_history f d e gl steps w"
proof (induction rule: worker_reach.induct)
  case child_init
  show ?case using worker_history.started by blast
next
  case (filter_call w env conf fctx r brigade res)
  then show ?case using worker_history.served by blast
qed

text \<open>The virtual host whose request was the first to call \<open>InitHTTPClient\<close>.\<close>

definition http_inits :: "worker \<Rightarrow> nat" where
  "http_inits w = count_calls is_http_init w"

fun calls_http_init :: "worker \<times> mesi_config \<times> worker \<Rightarrow> bool" where
  "calls_http_init (w0, conf, w1) = (http_inits w0 < http_inits w1)"

definition client_host :: "(worker \<times> mesi_config \<times> worker) list \<Rightarrow> mesi_config option" where
  "client_host steps = map_option (fst \<circ> snd) (find calls_http_init steps)"

lemma find_snoc: "find P (xs @ [x]) = (case find P xs of None \<Rightarrow> (if P x then Some x else None) | Some y \<Rightarrow> Some y)"
  by (induction xs) simp_all

lemma library_call [simp]: "apache_library (call c w) = go_step (apache_library w) c"
  by (simp add: apache_library_def call_def)

lemma library_frame [simp]:
  "apache_library (w\<lparr>cache_initialized := b\<rparr>) = apache_library w"
  "apache_library (w\<lparr>http_client_initialized := b\<rparr>) = apache_library w"
  "apache_library (probe e s w) = apache_library w"
  "apache_library (snd (finish_cache rc w)) = apache_library w"
  by (simp_all add: apache_library_def probe_def finish_cache_def)

text \<open>A step leaves the client alone, or sets it up as its own virtual host says.\<close>

definition client_same :: "worker \<Rightarrow> worker \<Rightarrow> bool" where
  "client_same w w' \<longleftrightarrow> http_client_initialized w' = http_client_initialized w \<and> http_inits w' = http_inits w
     \<and> gs_client (apache_library w') = gs_client (apache_library w)"

definition host_client :: "mesi_config \<Rightarrow> http_client" where
  "host_client conf = (eff_block_private conf \<noteq> 0, 30000000000)"

definition client_made :: "mesi_config \<Rightarrow> worker \<Rightarrow> worker \<Rightarrow> bool" where
  "client_made conf w w' \<longleftrightarrow> \<not> http_client_initialized w \<and> http_client_initialized w' \<and> http_inits w < http_inits w'
     \<and> shared_http_client conf = 1 \<and> (gs_client (apache_library w) = None \<longrightarrow> gs_client (apache_library w') = Some (host_client conf))"

lemma client_same_refl: "client_same w w"
  by (simp add: client_same_def)

lemma client_same_trans: "client_same w w1 \<Longrightarrow> client_same w1 w2 \<Longrightarrow> client_same w w2"
  by (simp add: client_same_def)

lemma same_init_cache: "client_same w (snd (mesi_init_cache e gl conf w))"
  by (simp add: client_same_def mesi_init_cache_def http_inits_def Let_def split: option.split)

lemma step_init_http:
  "client_same w (snd (mesi_init_http_client e conf w)) \<or> client_made conf w (snd (mesi_init_http_client e conf w))"
proof (cases "http_client_initialized w \<or> shared_http_client conf \<noteq> 1")
  case True
  then show ?thesis by (auto simp: mesi_init_http_client_def client_same_refl)
next
  case False
  then show ?thesis
    by (auto simp: mesi_init_http_client_def client_same_def client_made_def http_inits_def host_client_def
        eff_block_private_def Let_def)
qed

lemma same_call: "\<not> is_http_init c \<Longrightarrow> c \<noteq> CallFreeHTTPClient \<Longrightarrow> client_same w (call c w)"
  by (cases c) (simp_all add: client_same_def http_inits_def)

lemma step_shared:
  "client_same w (init_shared env conf w) \<or> client_made conf w (init_shared env conf w)"
proof -
  let ?w1 = "if nonempty (cache_backend conf) then snd (mesi_init_cache (exports env) (lib env) conf w) else w"
  have s: "client_same w ?w1" by (simp add: same_init_cache client_same_refl)
  have "init_shared env conf w = ?w1 \<or> init_shared env conf w = snd (mesi_init_http_client (exports env) conf ?w1)"
    by (auto simp: init_shared_def Let_def)
  then show ?thesis
    using s step_init_http [of ?w1 "exports env" conf] by (auto simp: client_same_def client_made_def)
qed

lemma step_filter:
  assumes "mesi_response_filter env conf fctx r w b = Some res"
  shows "client_same w (fr_worker res) \<or> client_made conf w (fr_worker res)"
proof (cases "fr_worker res = w")
  case True
  then show ?thesis by (simp add: client_same_refl)
next
  case False
  with filter_worker [OF assms] obtain html out w3 where
    d: "parse_dispatch (lib env) conf r html (init_shared env conf w) = Some (out, w3)"
    and e: "fr_worker res = w3 \<or> fr_worker res = call CallFreeString w3" by blast
  have "client_same (init_shared env conf w) w3"
  proof -
    have "client_same v (call c v)" if "carries conf r html c" for c v
      using that by (cases c) (auto intro: same_call)
    then show ?thesis using dispatch_one_call [OF d] client_same_refl by (auto simp: one_call_def)
  qed
  moreover have "client_same w3 (fr_worker res)" using e client_same_refl same_call by auto
  ultimately have "client_same (init_shared env conf w) (fr_worker res)" by (rule client_same_trans)
  then show ?thesis using step_shared [of w env conf] by (auto simp: client_same_def client_made_def)
qed

lemma history_client:
  assumes "worker_history env_force dlopen_ok exps gl steps w"
  shows "gs_client (apache_library w) = map_option host_client (client_host steps)
    \<and> (http_client_initialized w \<longleftrightarrow> client_host steps \<noteq> None)
    \<and> (\<forall>first. client_host steps = Some first \<longrightarrow> shared_http_client first = 1)"
  using assms
proof (induction rule: worker_history.induct)
  case started
  show ?case
    by (simp add: client_host_def apache_library_def mesi_child_init_def initial_worker_def go_initial_def Let_def)
next
  case (served steps w env conf fctx r brigade res)
  from step_filter [OF served(4)] served(5) show ?case
    by (auto simp: client_host_def find_snoc client_same_def client_made_def split: option.splits)
qed

subsection \<open>Properties\<close>

text \<open>C4: end to end, with a library that exports every symbol: a processed body within the limit leaves
  Apache as what the core makes of the whole body under exactly the configuration of its virtual host,
  however the body was cut into buckets and whichever entry point was chosen: depth, time limit, host
  list, address policy, size limit, worker and request limits, flags, error marker, cache key with the
  request it reads, and the shared client and cache that the worker holds.\<close>

theorem apache_response_is_core:
  assumes "config_ok conf" and "apache_texts_ok conf r" and "\<And>s. resolved w s"
    and "processed conf r" and "\<not> declared_oversize (strtoff env) conf r" and "\<not> force_flatten_error w"
    and "concat (concat dss @ ds) \<noteq> []"
    and "limited conf r \<Longrightarrow> size_of (concat dss @ ds) \<le> body_limit conf \<and> body_limit conf < 2 ^ 63"
    and "init_shared env conf w = w1" and "lib env = go_library core ord (apache_library w1)"
  shows "\<exists>w'. run_filter env conf None r w False (map (map Data) dss @ [map Data ds @ [Eos]]) []
    = Some (table_unset_out ''Content-Length'' r, w',
        [Data (c_string (core (c_str (concat (concat dss @ ds)),
           core_config ord (apache_library w1) (apache_settings conf r)))), Eos])"
  using response_is_core [OF assms(1-3,9,10)] body_run [OF assms(4-8)] by simp

theorem apache_response_is_core_witness:
  "let env = sample_env\<lparr>lib := go_library fst id go_initial\<rparr>
   in \<exists>w'. run_filter env sample_conf None sample_request sample_worker False
        (map (map Data) [[''ab''], [''c'']] @ [map Data [''d''] @ [Eos]]) []
      = Some (table_unset_out ''Content-Length'' sample_request, w',
          [Data (c_string (fst (c_str (concat (concat [[''ab''], [''c'']] @ [''d''])),
             core_config id go_initial (apache_settings sample_conf sample_request)))), Eos])"
proof -
  have u: "utf8_valid (request_base_url sample_request)" by code_simp
  have n: "CHR 0x00 \<notin> set (request_base_url sample_request)" by code_simp
  have t: "apache_texts_ok sample_conf sample_request"
    using u n by (simp add: apache_texts_ok_def sample_conf_def create_server_config_def allowed_hosts_str_def str_of_def)
       (simp add: go_text_def)
  have ok: "config_ok sample_conf"
    by (simp add: sample_conf_def create_server_config_def ok_defs hosts_ok_def backend_names_def)
  have sh: "init_shared env sample_conf sample_worker = sample_worker" for env
    by (simp add: init_shared_def sample_conf_def create_server_config_def nonempty_def)
  have lib0: "apache_library sample_worker = go_initial"
    by (simp add: apache_library_def sample_worker_def initial_worker_def)
  let ?env = "sample_env\<lparr>lib := go_library fst id go_initial\<rparr>"
  have "\<exists>w'. run_filter ?env sample_conf None sample_request sample_worker False
        (map (map Data) [[''ab''], [''c'']] @ [map Data [''d''] @ [Eos]]) []
      = Some (table_unset_out ''Content-Length'' sample_request, w',
          [Data (c_string (fst (c_str (concat (concat [[''ab''], [''c'']] @ [''d''])),
             core_config id (apache_library sample_worker) (apache_settings sample_conf sample_request)))), Eos])"
  proof (rule apache_response_is_core [OF ok t _ sample_processed])
    show "lib ?env = go_library fst id (apache_library sample_worker)" by (simp add: lib0)
    show "\<not> force_flatten_error sample_worker" "resolved sample_worker s" for s
      by (simp_all add: sample_worker_def initial_worker_def)
    show "\<not> declared_oversize (strtoff ?env) sample_conf sample_request" using sample_limit(3) by simp
    show "size_of (concat [[''ab''], [''c'']] @ [''d'']) \<le> body_limit sample_conf \<and> body_limit sample_conf < 2 ^ 63"
      by (simp add: sample_limit)
  qed (simp_all add: sh)
  then show ?thesis by (simp only: lib0 Let_def)
qed

text \<open>C26: a client that is shared keeps the address policy of the virtual host that came first: over
  the life of a worker, whatever requests it serves, the library holds no client until a request makes
  the first call of \<open>InitHTTPClient\<close>; that is a request of a virtual host which asked for a shared
  client, and from then on the library holds the client with that virtual host's policy and a limit of
  thirty seconds, which no configuration of a later request changes.\<close>

theorem apache_client_policy_kept:
  assumes "worker_history env_force dlopen_ok exps gl steps w"
  shows "gs_client (apache_library w) =
      (case client_host steps of
         None \<Rightarrow> None | Some first \<Rightarrow> Some (eff_block_private first \<noteq> 0, 30000000000))
    \<and> (\<forall>first. client_host steps = Some first \<longrightarrow>
         shared_http_client first = 1 \<and> (\<forall>conf. mesi_init_http_client exps conf w = (0, w)))"
  using history_client [OF assms]
  by (auto simp: mesi_init_http_client_def host_client_def split: option.splits)

definition open_host :: mesi_config where
  "open_host = create_server_config\<lparr>enable_mesi := 1, shared_http_client := 1, block_private_ips := 0\<rparr>"

definition strict_host :: mesi_config where
  "strict_host = create_server_config\<lparr>enable_mesi := 1, shared_http_client := 1, block_private_ips := 1\<rparr>"

definition after_open_host :: worker where
  "after_open_host = fr_worker (the (mesi_response_filter sample_env open_host None sample_request
     (mesi_child_init None True (\<lambda>_. True) initial_worker) [Data ''ab'', Eos]))"

lemma after_open_host_client: "http_client_initialized after_open_host"
  by code_simp

definition open_host_steps :: "(worker \<times> mesi_config \<times> worker) list" where
  "open_host_steps = [(mesi_child_init None True (\<lambda>_. True) initial_worker, open_host, after_open_host)]"

lemma open_host_history: "worker_history None True (\<lambda>_. True) sample_lib open_host_steps after_open_host"
proof -
  let ?w0 = "mesi_child_init None True (\<lambda>_. True) initial_worker"
  let ?res = "mesi_response_filter sample_env open_host None sample_request ?w0 [Data ''ab'', Eos]"
  have "case ?res of None \<Rightarrow> False | Some _ \<Rightarrow> True" by code_simp
  then obtain res where res: "?res = Some res" by (cases ?res) simp_all
  have "worker_history None True (\<lambda>_. True) sample_lib ([] @ [(?w0, open_host, fr_worker res)]) (fr_worker res)"
    by (rule worker_history.served [OF worker_history.started _ _ res]) (simp_all add: sample_env_def)
  then show ?thesis by (simp add: after_open_host_def open_host_steps_def res)
qed

lemma open_host_first: "client_host open_host_steps = Some open_host"
proof -
  have "http_inits (mesi_child_init None True (\<lambda>_. True) initial_worker) = 0" "http_inits after_open_host = 1"
    by code_simp+
  then show ?thesis by (simp add: client_host_def open_host_steps_def)
qed

theorem apache_client_policy_kept_witness:
  "ec_block_private_ips (core_config id (apache_library after_open_host) (apache_settings strict_host sample_request))
   \<and> ec_http_client (core_config id (apache_library after_open_host) (apache_settings strict_host sample_request))
       = Some (False, 30000000000)
   \<and> mesi_init_http_client (\<lambda>_. True) strict_host after_open_host = (0, after_open_host)"
proof -
  have "eff_block_private open_host = 0" "eff_block_private strict_host \<noteq> 0" by code_simp+
  then show ?thesis
    using apache_client_policy_kept [OF open_host_history]
    by (auto simp: open_host_first core_config_def shared_client_def apache_settings_def strict_host_def
        eff_allow_private_def create_server_config_def given_def)
qed

subsection \<open>The shared cache\<close>

definition apache_go_cache :: "mesi_config \<Rightarrow> go_cache option" where
  "apache_go_cache conf =
    (let n = (if cache_size conf > 0 then cache_size conf else 10000);
         ttl = (if cache_ttl conf \<ge> 0 then cache_ttl conf else 0) * 1000000000
     in if cache_backend conf = Some ''memory'' then Some (MemoryCache n ttl)
        else if cache_backend conf = Some ''redis''
          then Some (RedisCache (case cache_redis_addr conf of Some a \<Rightarrow> a | None \<Rightarrow> ''localhost:6379'')
                 (str_of (cache_redis_password conf))
                 (if cache_redis_db conf \<ge> 0 then cache_redis_db conf else 0) ttl)
        else if cache_backend conf = Some ''memcached'' then Some (MemcachedCache (cache_memcached_servers conf) ttl)
        else None)"

definition apache_cache_texts_ok :: "mesi_config \<Rightarrow> bool" where
  "apache_cache_texts_ok conf \<longleftrightarrow> utf8_valid (str_of (cache_redis_addr conf))
     \<and> utf8_valid (str_of (cache_redis_password conf)) \<and> (\<forall>s \<in> set (cache_memcached_servers conf). utf8_valid s)"

text \<open>Without control characters the two quotings agree.\<close>

lemma escape_min_full: "32 \<le> byte c \<Longrightarrow> escape_min c = escape_byte c"
  by (auto simp: escape_min_def escape_byte_def)

lemma quote_min_full: "no_controls s \<Longrightarrow> quote_min s = quote_full s"
  by (auto simp: quote_min_def mesi_json_string_def no_controls_def escape_min_full intro!: arg_cong [where f = concat])

lemma render_min_full: "all_strings no_controls j \<Longrightarrow> render quote_min j = render quote_full j"
proof (induction j)
  case (JObj ms)
  have "map (\<lambda>(k, v). quote_min k @ '':'' @ render quote_min v) ms
      = map (\<lambda>(k, v). quote_full k @ '':'' @ render quote_full v) ms"
    using JObj by (intro map_cong) (auto simp: quote_min_full)
  then show ?case by (simp only: render.simps)
next
  case (JArr js)
  then have "map (render quote_min) js = map (render quote_full) js" by (intro map_cong) auto
  then show ?case by (simp only: render.simps)
qed (simp_all add: quote_min_full)

lemma apache_cache_json:
  "cache_backend conf = Some ''redis'' \<Longrightarrow> cache_config_value conf = Some (redis_json
     (case cache_redis_addr conf of Some a \<Rightarrow> a | None \<Rightarrow> ''localhost:6379'') (str_of (cache_redis_password conf))
     (if cache_redis_db conf \<ge> 0 then Some (cache_redis_db conf) else None))"
  "cache_backend conf = Some ''memcached'' \<Longrightarrow> cache_config_value conf = Some (servers_json (cache_memcached_servers conf))"
  by (simp_all add: cache_config_value_def redis_members_def redis_json_def servers_json_def int_member_def opt_member_def)

lemma config_ok_cache:
  assumes "config_ok conf"
  shows "unset_or 0 MESI_MAX_CACHE_TTL_SECONDS (cache_ttl conf)" "opt_ok redis_addr_ok (cache_redis_addr conf)"
    "unset_or 0 MESI_MAX_REDIS_DB (cache_redis_db conf)"
  using assms by (simp_all only: config_ok_def)

lemma apache_cache_read:
  assumes "config_ok conf" and "apache_cache_texts_ok conf" and "cache_backend conf = Some b"
    and "b = ''redis'' \<or> b = ''memcached'' \<and> cache_memcached_servers conf \<noteq> []"
    and "ttl = (if cache_ttl conf \<ge> 0 then cache_ttl conf else 0)"
  shows "\<exists>cfg. build_cache_config_json conf = Some cfg
    \<and> init_cache_from_config b n ttl cfg = Some (apache_go_cache conf) \<and> apache_go_cache conf \<noteq> None"
proof -
  have t: "0 \<le> ttl" "ttl \<le> 86400" using config_ok_cache(1) [OF assms(1)] assms(5) by (simp_all add: unset_or_def split: if_split_asm)
  note sec = go_seconds_small [OF t]
  obtain j where j: "cache_config_value conf = Some j" using apache_cache_json assms(3,4) by auto
  have cfg: "build_cache_config_json conf = Some (render quote_full j)"
    using cache_config_legal [OF assms(1) j] by (simp add: cache_config_is_render j render_min_full del: render.simps)
  have "init_cache_from_config b n ttl (render quote_full j) = Some (apache_go_cache conf)"
  proof (cases "b = ''redis''")
    case True
    let ?a = "case cache_redis_addr conf of Some a \<Rightarrow> a | None \<Rightarrow> ''localhost:6379''"
    have u: "utf8_valid ''localhost:6379''" by code_simp
    have "?a \<noteq> []" using config_ok_cache(2) [OF assms(1)] by (auto simp: opt_ok_def redis_addr_ok_def split: option.splits)
    moreover have "in_range (if cache_redis_db conf \<ge> 0 then Some (cache_redis_db conf) else None) 0 15"
      using config_ok_cache(3) [OF assms(1)] by (auto simp: unset_or_def in_range_def)
    ultimately have "parse_redis_config (render quote_full j) = Some (go_utf8 ?a, go_utf8 (str_of (cache_redis_password conf)),
        if cache_redis_db conf \<ge> 0 then cache_redis_db conf else 0)"
      using apache_cache_json(1) [of conf] j True assms(3) redis_decodes [of ?a] by (simp del: render.simps)
    moreover have "go_utf8 ?a = ?a" "go_utf8 (str_of (cache_redis_password conf)) = str_of (cache_redis_password conf)"
      using assms(2) u by (auto simp: apache_cache_texts_ok_def utf8_valid_def str_of_def split: option.split)
    ultimately show ?thesis
      using True assms(3,5) sec by (simp add: init_cache_from_config_def apache_go_cache_def)
  next
    case False
    then have b: "b = ''memcached''" "cache_memcached_servers conf \<noteq> []" using assms(4) by auto
    have "map go_utf8 (cache_memcached_servers conf) = cache_memcached_servers conf"
      using assms(2) by (intro map_idI) (simp add: apache_cache_texts_ok_def utf8_valid_def)
    with memcached_decodes [OF b(2)] apache_cache_json(2) [of conf] j b(1) assms(3)
    have "parse_memcached_config (render quote_full j) = Some (cache_memcached_servers conf)" by (simp del: render.simps)
    with b(1) assms(3,5) sec show ?thesis by (simp add: init_cache_from_config_def apache_go_cache_def)
  qed
  moreover have "apache_go_cache conf \<noteq> None" using assms(3,4) by (auto simp: apache_go_cache_def Let_def)
  ultimately show ?thesis using cfg by blast
qed

text \<open>The return codes of both set-ups are those of the library.\<close>

definition go_init_codes :: "golib \<Rightarrow> bool" where
  "go_init_codes gl \<longleftrightarrow> (\<forall>b n t. init_cache_rc gl b n t = fst (go_init_cache b n t go_initial))
     \<and> (\<forall>b n t cfg. init_cache_with_config_rc gl b n t cfg = fst (go_init_cache_with_config b n t cfg go_initial))"

definition set_up_ttl :: "mesi_config \<Rightarrow> int" where
  "set_up_ttl conf = (if cache_ttl conf \<ge> 0 then cache_ttl conf else 0)"

lemma set_up_seconds:
  assumes "config_ok conf"
  shows "go_seconds (set_up_ttl conf) = set_up_ttl conf * 1000000000"
  using config_ok_cache(1) [OF assms] by (intro go_seconds_small) (auto simp: set_up_ttl_def unset_or_def)

text \<open>What a set-up that succeeds leaves in the library.\<close>

definition set_up :: "(symbol \<Rightarrow> bool) \<Rightarrow> golib \<Rightarrow> mesi_config \<Rightarrow> worker \<Rightarrow> bool" where
  "set_up exps gl conf w \<longleftrightarrow>
    (\<exists>w'. mesi_init_cache exps gl conf w = (0, w') \<and> cache_initialized w'
      \<and> map_option snd (gs_cache (apache_library w')) = apache_go_cache conf
      \<and> gs_cache_ttl (apache_library w') = set_up_ttl conf * 1000000000)"

lemma memory_set_up:
  assumes "config_ok conf" and "go_init_codes gl" and "cache_backend conf = Some ''memory''"
    and "resolved w = (\<lambda>_. True)" and "\<not> cache_initialized w"
  shows "set_up exps gl conf w"
proof -
  let ?n = "if cache_size conf > 0 then cache_size conf else MESI_DEFAULT_CACHE_SIZE"
  let ?w = "call (CallInitCache ''memory'' ?n (set_up_ttl conf)) (w\<lparr>cache_initialized := True\<rparr>)"
  have "init_cache_rc gl ''memory'' ?n (set_up_ttl conf) = 0"
    using assms(2) by (simp add: go_init_codes_def go_init_cache_def Let_def)
  then have "mesi_init_cache exps gl conf w = (0, ?w)"
    using assms(3-5)
    by (simp add: probe_resolved mesi_init_cache_def Let_def finish_cache_def set_up_ttl_def [symmetric] call_def nonempty_def)
  moreover have "map_option snd (gs_cache (apache_library ?w)) = apache_go_cache conf
      \<and> gs_cache_ttl (apache_library ?w) = set_up_ttl conf * 1000000000"
    using assms(3) set_up_seconds [OF assms(1)]
    by (simp add: go_init_cache_def new_cache_def apache_go_cache_def set_up_ttl_def Let_def)
  ultimately show ?thesis by (simp add: set_up_def)
qed

lemma external_set_up:
  assumes "config_ok conf" and "apache_cache_texts_ok conf" and "go_init_codes gl" and "cache_backend conf = Some b"
    and b: "b = ''redis'' \<or> b = ''memcached'' \<and> cache_memcached_servers conf \<noteq> []"
    and "case build_cache_config_json conf of None \<Rightarrow> True | Some cfg \<Rightarrow> length cfg \<le> MESI_MAX_CACHE_CONFIG_JSON"
    and "resolved w = (\<lambda>_. True)" and "\<not> cache_initialized w"
  shows "set_up exps gl conf w"
proof -
  let ?n = "if cache_size conf > 0 then cache_size conf else MESI_DEFAULT_CACHE_SIZE"
  from apache_cache_read [OF assms(1,2,4) b set_up_ttl_def, of ?n] obtain cfg c where
    cfg: "build_cache_config_json conf = Some cfg"
    and i: "init_cache_from_config b ?n (set_up_ttl conf) cfg = Some (apache_go_cache conf)"
    and c: "apache_go_cache conf = Some c" by blast
  let ?w = "call (CallInitCacheWithConfig b ?n (set_up_ttl conf) cfg) (w\<lparr>cache_initialized := True\<rparr>)"
  have "init_cache_with_config_rc gl b ?n (set_up_ttl conf) cfg = 0"
    using assms(3) i by (simp add: go_init_codes_def init_with_config_rc init_refused_def)
  moreover have "length cfg \<le> MESI_MAX_CACHE_CONFIG_JSON" using assms(6) cfg by simp
  ultimately have "mesi_init_cache exps gl conf w = (0, ?w)"
    using assms(4,7,8) b cfg
    by (auto simp: probe_resolved mesi_init_cache_def Let_def finish_cache_def set_up_ttl_def [symmetric] call_def nonempty_def)
  moreover have "map_option snd (gs_cache (apache_library ?w)) = apache_go_cache conf
      \<and> gs_cache_ttl (apache_library ?w) = set_up_ttl conf * 1000000000"
    using i c set_up_seconds [OF assms(1)] by (simp add: init_with_config_cache)
  ultimately show ?thesis by (simp add: set_up_def)
qed

text \<open>C32: the first virtual host with a backend gets the cache it asks for: for every configuration that
  has loaded (memcached with a server, the blob within its limit), the set-up succeeds and the library
  then holds the configured backend with its addresses, password, database, size and time to live, the
  defaults where nothing was given.\<close>

theorem apache_cache_reaches_library:
  assumes "config_ok conf" and "apache_cache_texts_ok conf" and "go_init_codes gl"
    and "nonempty (cache_backend conf)"
    and "cache_backend conf = Some ''memcached'' \<Longrightarrow> cache_memcached_servers conf \<noteq> []"
    and "case build_cache_config_json conf of None \<Rightarrow> True | Some cfg \<Rightarrow> length cfg \<le> MESI_MAX_CACHE_CONFIG_JSON"
    and "resolved w = (\<lambda>_. True)" and "\<not> cache_initialized w"
  shows "\<exists>w'. mesi_init_cache exps gl conf w = (0, w') \<and> cache_initialized w'
    \<and> map_option snd (gs_cache (apache_library w')) = apache_go_cache conf
    \<and> gs_cache_ttl (apache_library w') = (if cache_ttl conf \<ge> 0 then cache_ttl conf else 0) * 1000000000"
proof -
  obtain b where b: "cache_backend conf = Some b" "b \<in> {''memory'', ''redis'', ''memcached''}"
    using assms(1,4) by (auto simp: config_ok_def backend_names_def nonempty_def)
  have "set_up exps gl conf w"
  proof (cases "b = ''memory''")
    case True
    with b show ?thesis by (auto intro: memory_set_up [OF assms(1,3) _ assms(7,8)])
  next
    case False
    with b assms(5) show ?thesis by (auto intro: external_set_up [OF assms(1-3) b(1) _ assms(6-8)])
  qed
  then show ?thesis by (simp add: set_up_def set_up_ttl_def)
qed

definition redis_host :: mesi_config where
  "redis_host = create_server_config\<lparr>cache_backend := Some ''redis'', cache_redis_addr := Some ''r:1'',
     cache_redis_password := Some ''a\"b'', cache_ttl := 60\<rparr>"

theorem apache_cache_reaches_library_witness:
  "\<exists>w'. mesi_init_cache (\<lambda>_. True) (go_library fst id go_initial) redis_host sample_worker = (0, w')
    \<and> map_option snd (gs_cache (apache_library w')) = Some (RedisCache ''r:1'' ''a\"b'' 0 60000000000)"
proof -
  have ok: "config_ok redis_host"
    by (simp add: redis_host_def create_server_config_def ok_defs hosts_ok_def backend_names_def redis_addr_ok_def
        redis_addr_bad_char_def no_controls_def)
  have "utf8_valid ''r:1''" "utf8_valid ''a\"b''" by code_simp+
  then have t: "apache_cache_texts_ok redis_host"
    by (simp add: apache_cache_texts_ok_def redis_host_def create_server_config_def str_of_def)
  have codes: "go_init_codes (go_library fst id go_initial)" by (simp add: go_init_codes_def go_library_def)
  have n: "nonempty (cache_backend redis_host)" "cache_backend redis_host \<noteq> Some ''memcached''"
    "resolved sample_worker = (\<lambda>_. True)" "\<not> cache_initialized sample_worker"
    by (simp_all add: redis_host_def nonempty_def sample_worker_def initial_worker_def)
  have l: "case build_cache_config_json redis_host of None \<Rightarrow> True | Some cfg \<Rightarrow> length cfg \<le> MESI_MAX_CACHE_CONFIG_JSON"
    by code_simp
  have c: "apache_go_cache redis_host = Some (RedisCache ''r:1'' ''a\"b'' 0 60000000000)"
    by (simp add: apache_go_cache_def redis_host_def create_server_config_def str_of_def)
  show ?thesis
    using apache_cache_reaches_library [OF ok t codes n(1) _ l n(3,4), of "\<lambda>_. True"] n(2) c by auto
qed

end
