(* ===== verification/Ngx_Config.thy ===== *)
theory Ngx_Config
  imports Apache_Num Apache_Hosts Mesi_Scopes
begin

text \<open>
  The location configuration of the nginx module: its record and limits, the directive setters
  with their digit loops, \<open>ngx_http_mesi_create_loc_conf\<close> and
  \<open>ngx_http_mesi_merge_loc_conf\<close>.  A setting of type \<open>ngx_str_t\<close> is \<open>None\<close>
  while its data pointer is NULL.  The merge is shown to be the inheritance of
  \<open>Mesi_Scopes\<close> followed by the defaults.
\<close>

subsection \<open>The record\<close>

definition NGX_CONF_UNSET_UINT :: int where
  "NGX_CONF_UNSET_UINT = 2 ^ 64 - 1"

record ngx_loc_conf =
  lc_enable_mesi :: int
  lc_max_depth :: int
  lc_timeout_seconds :: int
  lc_max_response_size :: int
  lc_max_concurrent_requests :: int
  lc_max_workers :: int
  lc_cache_backend :: "string option"
  lc_cache_size :: int
  lc_cache_ttl :: int
  lc_cache_memcached_servers :: "string option"
  lc_cache_redis_addr :: "string option"
  lc_cache_redis_password :: "string option"
  lc_cache_redis_db :: int
  lc_block_private_ips :: int
  lc_allowed_hosts :: "string option"
  lc_allow_private_ips_for_allowed :: int
  lc_cache_key_template :: "string option"
  lc_max_body_size :: int
  lc_on_oversize :: int
  lc_debug :: int
  lc_parse_on_header :: int
  lc_include_error_marker :: "string option"

definition NGX_MAX_CACHE_KEY_TEMPLATE :: nat where [simp]: "NGX_MAX_CACHE_KEY_TEMPLATE = 4096"
definition NGX_MAX_MAX_DEPTH :: int where [simp]: "NGX_MAX_MAX_DEPTH = 10000"
definition NGX_DEFAULT_MAX_DEPTH :: int where [simp]: "NGX_DEFAULT_MAX_DEPTH = 5"
definition NGX_MAX_TIMEOUT_SECONDS :: int where [simp]: "NGX_MAX_TIMEOUT_SECONDS = 86400"
definition NGX_MAX_MAX_RESPONSE_SIZE :: int where
  [simp]: "NGX_MAX_MAX_RESPONSE_SIZE = 9223372036854775806"
definition NGX_MAX_MAX_BODY_SIZE :: int where
  [simp]: "NGX_MAX_MAX_BODY_SIZE = NGX_MAX_MAX_RESPONSE_SIZE"
definition NGX_ON_OVERSIZE_PASS :: int where [simp]: "NGX_ON_OVERSIZE_PASS = 0"
definition NGX_ON_OVERSIZE_ERROR :: int where [simp]: "NGX_ON_OVERSIZE_ERROR = 1"
definition NGX_MAX_MAX_CONCURRENT_REQUESTS :: int where
  [simp]: "NGX_MAX_MAX_CONCURRENT_REQUESTS = 999999999"
definition NGX_MAX_MAX_WORKERS :: int where [simp]: "NGX_MAX_MAX_WORKERS = 999999999"

definition ngx_http_mesi_create_loc_conf :: ngx_loc_conf where
  "ngx_http_mesi_create_loc_conf =
    \<lparr> lc_enable_mesi = -1, lc_max_depth = -1, lc_timeout_seconds = -1, lc_max_response_size = -1,
      lc_max_concurrent_requests = -1, lc_max_workers = -1, lc_cache_backend = None,
      lc_cache_size = -1, lc_cache_ttl = -1, lc_cache_memcached_servers = None,
      lc_cache_redis_addr = None, lc_cache_redis_password = None, lc_cache_redis_db = -1,
      lc_block_private_ips = -1, lc_allowed_hosts = None, lc_allow_private_ips_for_allowed = -1,
      lc_cache_key_template = None, lc_max_body_size = -1, lc_on_oversize = NGX_CONF_UNSET_UINT,
      lc_debug = -1, lc_parse_on_header = -1, lc_include_error_marker = None \<rparr>"

subsection \<open>Setters\<close>

text \<open>
  The rejections of a setter: the NGX_CONF_ERROR returns carry the directive and the value they
  log.  \<open>Duplicate\<close> is the returned text "is duplicate".
\<close>

datatype ngx_error =
    Duplicate
  | NoArgument string
  | InvalidValue string string
  | ValueOutOfRange string string
  | TemplateLength nat
  | TemplateCtl nat
  | TemplateDelete
  | NoHostname

text \<open>
  The digit loops: one tests the accumulated value against the cap after the step, the other
  guards the multiplication against the cap before it.
\<close>

fun digits_then_cap :: "string \<Rightarrow> int \<Rightarrow> string \<Rightarrow> string \<Rightarrow> int \<Rightarrow> ngx_error + int" where
  "digits_then_cap d hi arg [] val = Inr val"
| "digits_then_cap d hi arg (c # cs) val =
     (if \<not> is_digit c then Inl (InvalidValue d arg)
      else let val' = s64 (s64 (val * 10) + int (digit_val c))
           in if val' > hi then Inl (ValueOutOfRange d arg) else digits_then_cap d hi arg cs val')"

fun digits_with_guard :: "string \<Rightarrow> int \<Rightarrow> string \<Rightarrow> string \<Rightarrow> int \<Rightarrow> ngx_error + int" where
  "digits_with_guard d hi arg [] val = Inr val"
| "digits_with_guard d hi arg (c # cs) val =
     (if \<not> is_digit c then Inl (InvalidValue d arg)
      else let n = int (digit_val c)
           in if val > c_div (s64 (hi - n)) 10 then Inl (ValueOutOfRange d arg)
              else digits_with_guard d hi arg cs (s64 (s64 (val * 10) + n)))"

type_synonym ngx_result = "ngx_error option \<times> ngx_loc_conf"

definition ngx_http_mesi_set_max_depth :: "ngx_loc_conf \<Rightarrow> string \<Rightarrow> ngx_result" where
  "ngx_http_mesi_set_max_depth lcf arg =
    (if lc_max_depth lcf \<noteq> -1 then (Some Duplicate, lcf)
     else if arg = [] then (Some (NoArgument ''mesi_max_depth''), lcf)
     else case digits_then_cap ''mesi_max_depth'' NGX_MAX_MAX_DEPTH arg arg 0 of
            Inl err \<Rightarrow> (Some err, lcf)
          | Inr val \<Rightarrow> (None, lcf\<lparr>lc_max_depth := val\<rparr>))"

definition ngx_http_mesi_set_timeout :: "ngx_loc_conf \<Rightarrow> string \<Rightarrow> ngx_result" where
  "ngx_http_mesi_set_timeout lcf arg =
    (if lc_timeout_seconds lcf \<noteq> -1 then (Some Duplicate, lcf)
     else if arg = [] then (Some (NoArgument ''mesi_timeout''), lcf)
     else case digits_then_cap ''mesi_timeout'' NGX_MAX_TIMEOUT_SECONDS arg arg 0 of
            Inl err \<Rightarrow> (Some err, lcf)
          | Inr val \<Rightarrow>
              if val < 1 then (Some (ValueOutOfRange ''mesi_timeout'' arg), lcf)
              else (None, lcf\<lparr>lc_timeout_seconds := val\<rparr>))"

definition ngx_http_mesi_set_max_response_size :: "ngx_loc_conf \<Rightarrow> string \<Rightarrow> ngx_result" where
  "ngx_http_mesi_set_max_response_size lcf arg =
    (if lc_max_response_size lcf \<noteq> -1 then (Some Duplicate, lcf)
     else if arg = [] then (Some (NoArgument ''mesi_max_response_size''), lcf)
     else case digits_with_guard ''mesi_max_response_size'' NGX_MAX_MAX_RESPONSE_SIZE arg arg 0 of
            Inl err \<Rightarrow> (Some err, lcf)
          | Inr val \<Rightarrow> (None, lcf\<lparr>lc_max_response_size := val\<rparr>))"

definition ngx_http_mesi_set_max_concurrent_requests :: "ngx_loc_conf \<Rightarrow> string \<Rightarrow> ngx_result" where
  "ngx_http_mesi_set_max_concurrent_requests lcf arg =
    (if lc_max_concurrent_requests lcf \<noteq> -1 then (Some Duplicate, lcf)
     else if arg = [] then (Some (NoArgument ''mesi_max_concurrent_requests''), lcf)
     else case digits_with_guard ''mesi_max_concurrent_requests'' NGX_MAX_MAX_CONCURRENT_REQUESTS arg arg 0 of
            Inl err \<Rightarrow> (Some err, lcf)
          | Inr val \<Rightarrow> (None, lcf\<lparr>lc_max_concurrent_requests := val\<rparr>))"

definition ngx_http_mesi_set_max_workers :: "ngx_loc_conf \<Rightarrow> string \<Rightarrow> ngx_result" where
  "ngx_http_mesi_set_max_workers lcf arg =
    (if lc_max_workers lcf \<noteq> -1 then (Some Duplicate, lcf)
     else if arg = [] then (Some (NoArgument ''mesi_max_workers''), lcf)
     else case digits_with_guard ''mesi_max_workers'' NGX_MAX_MAX_WORKERS arg arg 0 of
            Inl err \<Rightarrow> (Some err, lcf)
          | Inr val \<Rightarrow> (None, lcf\<lparr>lc_max_workers := val\<rparr>))"

definition ngx_http_mesi_set_max_body_size :: "ngx_loc_conf \<Rightarrow> string \<Rightarrow> ngx_result" where
  "ngx_http_mesi_set_max_body_size lcf arg =
    (if lc_max_body_size lcf \<noteq> -1 then (Some Duplicate, lcf)
     else if arg = [] then (Some (NoArgument ''mesi_max_body_size''), lcf)
     else case digits_with_guard ''mesi_max_body_size'' NGX_MAX_MAX_BODY_SIZE arg arg 0 of
            Inl err \<Rightarrow> (Some err, lcf)
          | Inr val \<Rightarrow> (None, lcf\<lparr>lc_max_body_size := val\<rparr>))"

subsection \<open>The directive table\<close>

text \<open>
  The commands of the module.  For those with a setter of nginx itself the constructor carries
  the value that setter has parsed (a flag, a non-negative number, a string, one of the two
  words of the oversize table); as documented, it stores the value once and rejects a repetition.
\<close>

datatype ngx_directive =
    NEnableMesi bool
  | NMaxDepth string
  | NTimeout string
  | NMaxResponseSize string
  | NMaxConcurrentRequests string
  | NMaxWorkers string
  | NDebug bool
  | NParseOnHeader bool
  | NIncludeErrorMarker string
  | NCacheBackend string
  | NCacheSize nat
  | NCacheTTL nat
  | NCacheMemcachedServers string
  | NCacheRedisAddr string
  | NCacheRedisPassword string
  | NCacheRedisDB nat
  | NBlockPrivateIPs bool
  | NAllowedHosts string
  | NAllowPrivateIPsForAllowed bool
  | NMaxBodySize string
  | NOnOversize bool
  | NCacheKeyTemplate string

definition slot_num :: "int \<Rightarrow> int \<Rightarrow> ngx_loc_conf \<Rightarrow> ngx_loc_conf \<Rightarrow> ngx_result" where
  "slot_num unset old stored lcf = (if old \<noteq> unset then (Some Duplicate, lcf) else (None, stored))"

definition slot_str :: "string option \<Rightarrow> ngx_loc_conf \<Rightarrow> ngx_loc_conf \<Rightarrow> ngx_result" where
  "slot_str old stored lcf = (if old \<noteq> None then (Some Duplicate, lcf) else (None, stored))"

fun ngx_run_directive :: "ngx_loc_conf \<Rightarrow> ngx_directive \<Rightarrow> ngx_result" where
  "ngx_run_directive c (NEnableMesi b) = slot_num (-1) (lc_enable_mesi c) (c\<lparr>lc_enable_mesi := of_bool b\<rparr>) c"
| "ngx_run_directive c (NMaxDepth a) = ngx_http_mesi_set_max_depth c a"
| "ngx_run_directive c (NTimeout a) = ngx_http_mesi_set_timeout c a"
| "ngx_run_directive c (NMaxResponseSize a) = ngx_http_mesi_set_max_response_size c a"
| "ngx_run_directive c (NMaxConcurrentRequests a) = ngx_http_mesi_set_max_concurrent_requests c a"
| "ngx_run_directive c (NMaxWorkers a) = ngx_http_mesi_set_max_workers c a"
| "ngx_run_directive c (NDebug b) = slot_num (-1) (lc_debug c) (c\<lparr>lc_debug := of_bool b\<rparr>) c"
| "ngx_run_directive c (NParseOnHeader b) =
     slot_num (-1) (lc_parse_on_header c) (c\<lparr>lc_parse_on_header := of_bool b\<rparr>) c"
| "ngx_run_directive c (NIncludeErrorMarker s) =
     slot_str (lc_include_error_marker c) (c\<lparr>lc_include_error_marker := Some s\<rparr>) c"
| "ngx_run_directive c (NCacheBackend s) = slot_str (lc_cache_backend c) (c\<lparr>lc_cache_backend := Some s\<rparr>) c"
| "ngx_run_directive c (NCacheSize n) = slot_num (-1) (lc_cache_size c) (c\<lparr>lc_cache_size := int n\<rparr>) c"
| "ngx_run_directive c (NCacheTTL n) = slot_num (-1) (lc_cache_ttl c) (c\<lparr>lc_cache_ttl := int n\<rparr>) c"
| "ngx_run_directive c (NCacheMemcachedServers s) =
     slot_str (lc_cache_memcached_servers c) (c\<lparr>lc_cache_memcached_servers := Some s\<rparr>) c"
| "ngx_run_directive c (NCacheRedisAddr s) = slot_str (lc_cache_redis_addr c) (c\<lparr>lc_cache_redis_addr := Some s\<rparr>) c"
| "ngx_run_directive c (NCacheRedisPassword s) =
     slot_str (lc_cache_redis_password c) (c\<lparr>lc_cache_redis_password := Some s\<rparr>) c"
| "ngx_run_directive c (NCacheRedisDB n) = slot_num (-1) (lc_cache_redis_db c) (c\<lparr>lc_cache_redis_db := int n\<rparr>) c"
| "ngx_run_directive c (NBlockPrivateIPs b) =
     slot_num (-1) (lc_block_private_ips c) (c\<lparr>lc_block_private_ips := of_bool b\<rparr>) c"
| "ngx_run_directive c (NAllowedHosts s) = slot_str (lc_allowed_hosts c) (c\<lparr>lc_allowed_hosts := Some s\<rparr>) c"
| "ngx_run_directive c (NAllowPrivateIPsForAllowed b) =
     slot_num (-1) (lc_allow_private_ips_for_allowed c) (c\<lparr>lc_allow_private_ips_for_allowed := of_bool b\<rparr>) c"
| "ngx_run_directive c (NMaxBodySize a) = ngx_http_mesi_set_max_body_size c a"
| "ngx_run_directive c (NOnOversize err) =
     slot_num NGX_CONF_UNSET_UINT (lc_on_oversize c)
       (c\<lparr>lc_on_oversize := (if err then NGX_ON_OVERSIZE_ERROR else NGX_ON_OVERSIZE_PASS)\<rparr>) c"
| "ngx_run_directive c (NCacheKeyTemplate s) =
     slot_str (lc_cache_key_template c) (c\<lparr>lc_cache_key_template := Some s\<rparr>) c"

text \<open>The directives of one block; an error aborts loading.\<close>

fun ngx_load_block :: "ngx_loc_conf \<Rightarrow> ngx_directive list \<Rightarrow> ngx_error + ngx_loc_conf" where
  "ngx_load_block c [] = Inr c"
| "ngx_load_block c (d # ds) =
     (case ngx_run_directive c d of (Some e, _) \<Rightarrow> Inl e | (None, c') \<Rightarrow> ngx_load_block c' ds)"

subsection \<open>Merging\<close>

definition ngx_merge_value :: "int \<Rightarrow> int \<Rightarrow> int \<Rightarrow> int" where
  "ngx_merge_value conf prev dflt = (if conf = -1 then (if prev = -1 then dflt else prev) else conf)"

definition ngx_merge_uint_value :: "int \<Rightarrow> int \<Rightarrow> int \<Rightarrow> int" where
  "ngx_merge_uint_value conf prev dflt =
    (if conf = NGX_CONF_UNSET_UINT then (if prev = NGX_CONF_UNSET_UINT then dflt else prev) else conf)"

definition ngx_merge_str_value :: "string option \<Rightarrow> string option \<Rightarrow> string \<Rightarrow> string option" where
  "ngx_merge_str_value conf prev dflt =
    (if conf = None then (if prev = None then Some dflt else prev) else conf)"

definition ngx_merge_values :: "ngx_loc_conf \<Rightarrow> ngx_loc_conf \<Rightarrow> ngx_loc_conf" where
  "ngx_merge_values prev conf =
    \<lparr> lc_enable_mesi = ngx_merge_value (lc_enable_mesi conf) (lc_enable_mesi prev) 0,
      lc_max_depth = ngx_merge_value (lc_max_depth conf) (lc_max_depth prev) NGX_DEFAULT_MAX_DEPTH,
      lc_timeout_seconds = ngx_merge_value (lc_timeout_seconds conf) (lc_timeout_seconds prev) (-1),
      lc_max_response_size = ngx_merge_value (lc_max_response_size conf) (lc_max_response_size prev) (-1),
      lc_max_concurrent_requests =
        ngx_merge_value (lc_max_concurrent_requests conf) (lc_max_concurrent_requests prev) (-1),
      lc_max_workers = ngx_merge_value (lc_max_workers conf) (lc_max_workers prev) (-1),
      lc_cache_backend = ngx_merge_str_value (lc_cache_backend conf) (lc_cache_backend prev) [],
      lc_cache_size = ngx_merge_value (lc_cache_size conf) (lc_cache_size prev) 10000,
      lc_cache_ttl = ngx_merge_value (lc_cache_ttl conf) (lc_cache_ttl prev) 30,
      lc_cache_memcached_servers =
        ngx_merge_str_value (lc_cache_memcached_servers conf) (lc_cache_memcached_servers prev) [],
      lc_cache_redis_addr = ngx_merge_str_value (lc_cache_redis_addr conf) (lc_cache_redis_addr prev) [],
      lc_cache_redis_password =
        ngx_merge_str_value (lc_cache_redis_password conf) (lc_cache_redis_password prev) [],
      lc_cache_redis_db = ngx_merge_value (lc_cache_redis_db conf) (lc_cache_redis_db prev) 0,
      lc_block_private_ips = ngx_merge_value (lc_block_private_ips conf) (lc_block_private_ips prev) 1,
      lc_allowed_hosts = ngx_merge_str_value (lc_allowed_hosts conf) (lc_allowed_hosts prev) [],
      lc_allow_private_ips_for_allowed =
        ngx_merge_value (lc_allow_private_ips_for_allowed conf) (lc_allow_private_ips_for_allowed prev) 0,
      lc_cache_key_template = ngx_merge_str_value (lc_cache_key_template conf) (lc_cache_key_template prev) [],
      lc_max_body_size = ngx_merge_value (lc_max_body_size conf) (lc_max_body_size prev) 0,
      lc_on_oversize =
        ngx_merge_uint_value (lc_on_oversize conf) (lc_on_oversize prev) NGX_ON_OVERSIZE_PASS,
      lc_debug = ngx_merge_value (lc_debug conf) (lc_debug prev) (-1),
      lc_parse_on_header = ngx_merge_value (lc_parse_on_header conf) (lc_parse_on_header prev) (-1),
      lc_include_error_marker =
        (if lc_include_error_marker conf = None then lc_include_error_marker prev
         else lc_include_error_marker conf) \<rparr>"

definition ngx_http_mesi_unicode_space :: "string \<Rightarrow> nat" where
  "ngx_http_mesi_unicode_space p =
    (let len = length p; b = (\<lambda>i. byte (p ! i))
     in if 2 \<le> len \<and> b 0 = 0xc2 \<and> (b 1 = 0x85 \<or> b 1 = 0xa0) then 2
        else if 3 \<le> len \<and> b 0 = 0xe1 \<and> b 1 = 0x9a \<and> b 2 = 0x80 then 3
        else if 3 \<le> len \<and> b 0 = 0xe2 \<and> b 1 = 0x80 \<and>
          ((0x80 \<le> b 2 \<and> b 2 \<le> 0x8a) \<or> b 2 = 0xa8 \<or> b 2 = 0xa9 \<or> b 2 = 0xaf) then 3
        else if 3 \<le> len \<and> b 0 = 0xe2 \<and> b 1 = 0x81 \<and> b 2 = 0x9f then 3
        else if 3 \<le> len \<and> b 0 = 0xe3 \<and> b 1 = 0x80 \<and> b 2 = 0x80 then 3
        else 0)"

lemma ngx_unicode_space_eq: "ngx_http_mesi_unicode_space = mesi_unicode_space"
  by (intro ext) (simp only: ngx_http_mesi_unicode_space_def mesi_unicode_space_def)

text \<open>The scan of the host list: what is left when it stops; nothing means no host name.\<close>

function ngx_hosts_scan :: "string \<Rightarrow> string" where
  "ngx_hosts_scan [] = []"
| "ngx_hosts_scan (c # cs) =
     (if ascii_space c then ngx_hosts_scan cs
      else let ws_width = ngx_http_mesi_unicode_space (c # cs)
           in if ws_width = 0 then c # cs else ngx_hosts_scan (drop ws_width (c # cs)))"
  by pat_completeness auto
termination by (relation "measure length") auto

definition ngx_http_mesi_merge_loc_conf :: "ngx_loc_conf \<Rightarrow> ngx_loc_conf \<Rightarrow> ngx_result" where
  "ngx_http_mesi_merge_loc_conf prev child =
    (let conf = ngx_merge_values prev child;
         tmpl = str_of (lc_cache_key_template conf);
         hosts = str_of (lc_allowed_hosts conf)
     in if length tmpl > NGX_MAX_CACHE_KEY_TEMPLATE then (Some (TemplateLength (length tmpl)), conf)
        else case find (\<lambda>tc. byte tc < 0x20 \<or> byte tc = 0x7f) tmpl of
               Some tc \<Rightarrow> (Some (if byte tc < 0x20 then TemplateCtl (byte tc) else TemplateDelete), conf)
             | None \<Rightarrow>
                 if hosts \<noteq> [] \<and> ngx_hosts_scan hosts = [] then (Some NoHostname, conf) else (None, conf))"

text \<open>
  The chain from the outermost block inwards: every block is merged into the result of the
  blocks around it, and an error aborts loading.
\<close>

fun ngx_merge_chain :: "ngx_loc_conf \<Rightarrow> ngx_loc_conf list \<Rightarrow> ngx_error + ngx_loc_conf" where
  "ngx_merge_chain prev [] = Inr prev"
| "ngx_merge_chain prev (c # cs) =
     (case ngx_http_mesi_merge_loc_conf prev c of
        (Some e, _) \<Rightarrow> Inl e
      | (None, conf) \<Rightarrow> ngx_merge_chain conf cs)"

end
