(* ===== verification/Ngx_Json.thy ===== *)
theory Ngx_Json
  imports Ngx_Config Apache_Ctx Apache_Worker
begin

text \<open>
  The JSON writers of the nginx module.  They measure first and write into an allocation of
  exactly that size; here each write is checked against it, so a result means that nothing was
  written outside.  Covered: the escaping and number helpers, \<open>ngx_http_mesi_contains\<close>,
  \<open>build_memcached_config_json\<close>, \<open>build_redis_config_json\<close>,
  \<open>build_request_ctx_json\<close> and \<open>build_parse_json_config\<close>.
\<close>

subsection \<open>Helpers\<close>

text \<open>\<open>ngx_str_to_cstr\<close>, as the C string its readers see.\<close>

definition ngx_str_to_cstr :: "string \<Rightarrow> string" where
  "ngx_str_to_cstr s = takeWhile (\<lambda>c. c \<noteq> CHR 0x00) s"

fun mesi_json_escaped_len :: "string \<Rightarrow> nat" where
  "mesi_json_escaped_len [] = 0"
| "mesi_json_escaped_len (c # cs) =
     (if c = CHR 0x22 \<or> c = CHR 0x5C then 2 else if byte c < 0x20 then 6 else 1) + mesi_json_escaped_len cs"

fun mesi_json_write_escaped :: "string \<Rightarrow> string" where
  "mesi_json_write_escaped [] = []"
| "mesi_json_write_escaped (c # cs) =
     (if c = CHR 0x22 \<or> c = CHR 0x5C then [CHR 0x5C, c]
      else if byte c < 0x20 then
        [CHR 0x5C, CHR ''u'', CHR ''0'', CHR ''0'',
         hex_digits ! (byte c div 16 mod 16), hex_digits ! (byte c mod 16)]
      else [c]) @ mesi_json_write_escaped cs"

definition mesi_json_append_str :: "string \<Rightarrow> string" where
  "mesi_json_append_str s = [CHR 0x22] @ mesi_json_write_escaped s @ [CHR 0x22]"

function mesi_json_uint_len :: "int \<Rightarrow> nat" where
  "mesi_json_uint_len v = (if v \<ge> 10 then mesi_json_uint_len (c_div v 10) + 1 else 1)"
  by pat_completeness auto
termination by (relation "measure nat") auto

declare mesi_json_uint_len.simps [simp del]

text \<open>The digits from the last one on, as the \<open>do\<close> loop stores them.\<close>

function uint_digits :: "int \<Rightarrow> string" where
  "uint_digits v =
     char_of (nat ((48 + (v - c_div v 10 * 10)) mod 256))
       # (if c_div v 10 > 0 then uint_digits (c_div v 10) else [])"
  by pat_completeness auto
termination
proof (relation "measure nat")
  fix v :: int assume "c_div v 10 > 0"
  then have "0 < v" by (cases "0 \<le> v") (auto simp: c_div_def sgn_if split: if_splits)
  then show "(c_div v 10, v) \<in> measure nat" by simp
qed simp

declare uint_digits.simps [simp del]

definition mesi_json_write_uint :: "int \<Rightarrow> string" where
  "mesi_json_write_uint v = rev (uint_digits v)"

definition mesi_json_off_len :: "int \<Rightarrow> nat" where
  "mesi_json_off_len v = mesi_json_uint_len v"

definition mesi_json_write_off :: "int \<Rightarrow> string" where
  "mesi_json_write_off v = rev (uint_digits v)"

text \<open>The search compares \<open>nlen\<close> bytes at every index where they still fit.\<close>

definition ngx_http_mesi_contains :: "string \<Rightarrow> string \<Rightarrow> bool" where
  "ngx_http_mesi_contains haystack needle =
    (let nlen = length needle
     in if length haystack < nlen then False
        else \<exists>i \<in> set [0..<length haystack - nlen + 1]. take nlen (drop i haystack) = needle)"

text \<open>The statements of a writer, each storing a run of bytes, in an allocation of the given size.\<close>

definition write_chunks :: "nat \<Rightarrow> string list \<Rightarrow> string option" where
  "write_chunks sz chunks =
     map_option (\<lambda>b. butlast (bytes b)) (run_all (map put_bytes chunks) \<lparr>bytes = [], cap = sz\<rparr>)"

subsection \<open>Cache configuration\<close>

text \<open>First pass over the server string: the number of tokens.\<close>

fun count_tokens :: "string \<Rightarrow> bool \<Rightarrow> nat" where
  "count_tokens [] in_token = 0"
| "count_tokens (c # cs) in_token =
     (if c = CHR '' '' then count_tokens cs False
      else if \<not> in_token then count_tokens cs True + 1
      else count_tokens cs True)"

text \<open>The token loop of the second and third pass.\<close>

fun take_tokens :: "nat \<Rightarrow> string \<Rightarrow> string list" where
  "take_tokens 0 q = []"
| "take_tokens (Suc n) q =
     (let q1 = dropWhile (\<lambda>c. c = CHR '' '') q
      in takeWhile (\<lambda>c. c \<noteq> CHR '' '') q1 # take_tokens n (dropWhile (\<lambda>c. c \<noteq> CHR '' '') q1))"

fun server_chunks :: "string list \<Rightarrow> bool \<Rightarrow> string list" where
  "server_chunks [] first = []"
| "server_chunks (t # ts) first =
     (if first then [] else ['','']) @ [quote_min t] @ server_chunks ts False"

definition ngx_build_memcached_config_json :: "ngx_loc_conf \<Rightarrow> string option" where
  "ngx_build_memcached_config_json lcf =
    (if str_of (lc_cache_memcached_servers lcf) = [] then Some ''{\"servers\":[]}''
     else let servers = ngx_str_to_cstr (str_of (lc_cache_memcached_servers lcf));
              ntok = count_tokens servers False;
              toks = take_tokens ntok servers;
              sz = (12 + 2 + 1) + (if ntok > 1 then ntok - 1 else 0)
                        + sum_list (map (\<lambda>t. length t * 2 + 2) toks)
          in write_chunks sz
               ([''{\"servers\":[''] @ server_chunks toks True @ ['']'', ''}'', [CHR 0x00]]))"

text \<open>
  \<open>snprintf\<close> stores at most the room that is left, but returns the full length, by which
  the write pointer moves before the last NUL is stored.
\<close>

definition ngx_build_redis_config_json :: "ngx_loc_conf \<Rightarrow> string option" where
  "ngx_build_redis_config_json lcf =
    (let addr = (if str_of (lc_cache_redis_addr lcf) \<noteq> []
                 then ngx_str_to_cstr (str_of (lc_cache_redis_addr lcf)) else ''localhost:6379'');
         password = ngx_str_to_cstr (str_of (lc_cache_redis_password lcf));
         sz = 49 + length addr * 2 + length password * 2;
         head = ''{\"redisAddr\":\"'' @ concat (map escape_min addr)
                  @ ''\",\"redisPassword\":\"'' @ concat (map escape_min password);
         db = (if lc_cache_redis_db lcf < 0 then 0 else lc_cache_redis_db lcf);
         tail = ''\",\"redisDB\":'' @ show_int (s32 db) @ ''}''
     in if length head \<le> sz \<and> length head + length tail < sz then Some (head @ tail) else None)"

subsection \<open>The request context\<close>

text \<open>An entry of the header list: its hash (0 for a hidden entry), key and value.\<close>

type_synonym ngx_header = "nat \<times> string \<times> string"

text \<open>The cookie tokeniser, the same loops as in the Apache module on a length-bounded string.\<close>

definition ngx_cookies :: "string \<Rightarrow> (string \<times> string) list" where
  "ngx_cookies c = cookie_pairs c"

definition ngx_is_cookie :: "string \<Rightarrow> bool" where
  "ngx_is_cookie key \<longleftrightarrow> length key = 6 \<and> strncaseeq key ''cookie'' 6"

fun measure_cookies :: "(string \<times> string) list \<Rightarrow> nat \<Rightarrow> nat \<Rightarrow> nat \<times> nat" where
  "measure_cookies [] sz n_cookies = (sz, n_cookies)"
| "measure_cookies ((name, val) # cs) sz n_cookies =
     measure_cookies cs
       (sz + 22 + mesi_json_escaped_len name + mesi_json_escaped_len val
          + (if n_cookies + 1 > 1 then 1 else 0))
       (n_cookies + 1)"

fun measure_headers :: "ngx_header list \<Rightarrow> nat \<Rightarrow> nat \<Rightarrow> nat \<Rightarrow> nat" where
  "measure_headers [] sz n_headers n_cookies = sz"
| "measure_headers ((hash, key, val) # hs) sz n_headers n_cookies =
     (if hash = 0 then measure_headers hs sz n_headers n_cookies
      else if ngx_is_cookie key then
        (let (sz', n_cookies') = measure_cookies (ngx_cookies val) sz n_cookies
         in measure_headers hs sz' n_headers n_cookies')
      else measure_headers hs
             (sz + 5 + mesi_json_escaped_len key + mesi_json_escaped_len val
                + (if n_headers + 1 > 1 then 1 else 0))
             (n_headers + 1) n_cookies)"

fun header_chunks :: "ngx_header list \<Rightarrow> nat \<Rightarrow> string list" where
  "header_chunks [] n_headers = []"
| "header_chunks ((hash, key, val) # hs) n_headers =
     (if hash = 0 then header_chunks hs n_headers
      else if ngx_is_cookie key then header_chunks hs n_headers
      else (if n_headers > 0 then ['',''] else [])
           @ [mesi_json_append_str key, '':'', mesi_json_append_str val]
           @ header_chunks hs (n_headers + 1))"

fun cookie_chunks :: "(string \<times> string) list \<Rightarrow> nat \<Rightarrow> string list" where
  "cookie_chunks [] n_cookies = []"
| "cookie_chunks ((name, val) # cs) n_cookies =
     (if n_cookies > 0 then ['',''] else [])
     @ [''{\"name\":'', mesi_json_append_str name, '',\"value\":'', mesi_json_append_str val, ''}'']
     @ cookie_chunks cs (n_cookies + 1)"

fun all_cookies :: "ngx_header list \<Rightarrow> (string \<times> string) list" where
  "all_cookies [] = []"
| "all_cookies ((hash, key, val) # hs) =
     (if hash = 0 then all_cookies hs
      else if \<not> ngx_is_cookie key then all_cookies hs
      else ngx_cookies val @ all_cookies hs)"

definition ngx_build_request_ctx_json :: "ngx_header list \<Rightarrow> string \<Rightarrow> string option" where
  "ngx_build_request_ctx_json headers template =
    (if template = [] then Some []
     else if \<not> (ngx_http_mesi_contains template ''${header:''
                 \<or> ngx_http_mesi_contains template ''${cookie:'') then Some []
     else write_chunks (measure_headers headers (12 + 13 + 2 + 1) 0 0)
            ([''{\"headers\":{''] @ header_chunks headers 0 @ [''},\"cookies\":['']
             @ cookie_chunks (all_cookies headers) 0 @ ['']'', ''}'', [CHR 0x00]]))"

subsection \<open>The ParseJson blob\<close>

definition bool_text :: "int \<Rightarrow> string" where
  "bool_text b = (if b \<noteq> 0 then ''true'' else ''false'')"

definition bool_len :: "int \<Rightarrow> nat" where
  "bool_len b = (if b \<noteq> 0 then 4 else 5)"

text \<open>First pass: the size of the blob.\<close>

definition blob_total :: "ngx_loc_conf \<Rightarrow> int \<Rightarrow> string \<Rightarrow> string \<Rightarrow> string \<Rightarrow> nat" where
  "blob_total lcf depth base_url hosts ctx_json =
    (let tmpl = str_of (lc_cache_key_template lcf); marker = str_of (lc_include_error_marker lcf);
         has_tmpl = length tmpl > 0
     in length ''{\"maxDepth\":'' + mesi_json_uint_len depth
        + (length '',\"defaultUrl\":'' + 2 + mesi_json_escaped_len base_url)
        + (length '',\"allowedHosts\":'' + 2 + mesi_json_escaped_len hosts)
        + (length '',\"blockPrivateIPs\":'' + bool_len (lc_block_private_ips lcf))
        + (length '',\"allowPrivateIPsForAllowedHosts\":'' + bool_len (lc_allow_private_ips_for_allowed lcf))
        + (if lc_timeout_seconds lcf \<noteq> -1
           then length '',\"timeoutSeconds\":'' + mesi_json_uint_len (lc_timeout_seconds lcf) else 0)
        + (if lc_max_response_size lcf \<noteq> -1
           then length '',\"maxResponseSize\":'' + mesi_json_off_len (lc_max_response_size lcf) else 0)
        + (if lc_max_concurrent_requests lcf \<noteq> -1
           then length '',\"maxConcurrentRequests\":'' + mesi_json_uint_len (lc_max_concurrent_requests lcf) else 0)
        + (if lc_max_workers lcf \<noteq> -1
           then length '',\"maxWorkers\":'' + mesi_json_uint_len (lc_max_workers lcf) else 0)
        + (if lc_debug lcf \<noteq> -1 then length '',\"debug\":'' + bool_len (lc_debug lcf) else 0)
        + (if lc_parse_on_header lcf \<noteq> -1
           then length '',\"parseOnHeader\":'' + bool_len (lc_parse_on_header lcf) else 0)
        + (if lc_include_error_marker lcf \<noteq> None
           then length '',\"includeErrorMarker\":'' + 2 + mesi_json_escaped_len marker else 0)
        + (if has_tmpl then length '',\"cacheKeyTemplate\":'' + 2 + mesi_json_escaped_len tmpl else 0)
        + (if has_tmpl \<and> ctx_json \<noteq> [] then length '',\"requestCtx\":'' + length ctx_json else 0)
        + 1 + 1)"

text \<open>Second pass: the bytes, statement by statement.\<close>

definition blob_chunks :: "ngx_loc_conf \<Rightarrow> int \<Rightarrow> string \<Rightarrow> string \<Rightarrow> string \<Rightarrow> string list" where
  "blob_chunks lcf depth base_url hosts ctx_json =
    (let tmpl = str_of (lc_cache_key_template lcf); marker = str_of (lc_include_error_marker lcf);
         has_tmpl = length tmpl > 0
     in [''{\"maxDepth\":'', mesi_json_write_uint depth,
         '',\"defaultUrl\":'', mesi_json_append_str base_url,
         '',\"allowedHosts\":'', mesi_json_append_str hosts,
         '',\"blockPrivateIPs\":'', bool_text (lc_block_private_ips lcf),
         '',\"allowPrivateIPsForAllowedHosts\":'', bool_text (lc_allow_private_ips_for_allowed lcf)]
        @ (if lc_timeout_seconds lcf \<noteq> -1
           then ['',\"timeoutSeconds\":'', mesi_json_write_uint (lc_timeout_seconds lcf)] else [])
        @ (if lc_max_response_size lcf \<noteq> -1
           then ['',\"maxResponseSize\":'', mesi_json_write_off (lc_max_response_size lcf)] else [])
        @ (if lc_max_concurrent_requests lcf \<noteq> -1
           then ['',\"maxConcurrentRequests\":'', mesi_json_write_uint (lc_max_concurrent_requests lcf)] else [])
        @ (if lc_max_workers lcf \<noteq> -1
           then ['',\"maxWorkers\":'', mesi_json_write_uint (lc_max_workers lcf)] else [])
        @ (if lc_debug lcf \<noteq> -1 then ['',\"debug\":'', bool_text (lc_debug lcf)] else [])
        @ (if lc_parse_on_header lcf \<noteq> -1
           then ['',\"parseOnHeader\":'', bool_text (lc_parse_on_header lcf)] else [])
        @ (if lc_include_error_marker lcf \<noteq> None
           then ['',\"includeErrorMarker\":'', mesi_json_append_str marker] else [])
        @ (if has_tmpl then ['',\"cacheKeyTemplate\":'', mesi_json_append_str tmpl] else [])
        @ (if has_tmpl \<and> ctx_json \<noteq> [] then ['',\"requestCtx\":'', ctx_json] else [])
        @ [''}'', [CHR 0x00]])"

definition ngx_build_parse_json_config ::
  "ngx_loc_conf \<Rightarrow> int \<Rightarrow> string \<Rightarrow> string \<Rightarrow> string \<Rightarrow> string option" where
  "ngx_build_parse_json_config lcf depth base_url hosts ctx_json =
    write_chunks (blob_total lcf depth base_url hosts ctx_json)
      (blob_chunks lcf depth base_url hosts ctx_json)"

end
