(* ===== verification/Ngx_Parse.thy ===== *)
theory Ngx_Parse
  imports Ngx_Json Apache_Header
begin

text \<open>
  The worker of the nginx module and \<open>parse\<close>, the function that hands a page to
  libgomesi: \<open>ngx_http_mesi_thread_init\<close>, \<open>ngx_http_mesi_thread_exit\<close>, the
  range guards, the set-up of the shared cache, and the choice of the entry point.  The library
  is the parameter of \<open>Apache_Worker\<close>; the pool never runs out of memory.
\<close>

subsection \<open>The worker\<close>

record ngx_worker =
  nw_open :: bool
  nw_sym :: "symbol \<Rightarrow> bool"
  nw_cache :: bool
  nw_last_backend :: string
  nw_calls :: "(bool \<times> lib_call) list"

definition ngx_call :: "lib_call \<Rightarrow> ngx_worker \<Rightarrow> ngx_worker" where
  "ngx_call c w = w\<lparr>nw_calls := nw_calls w @ [(nw_open w, c)]\<rparr>"

definition ngx_initial_worker :: ngx_worker where
  "ngx_initial_worker =
    \<lparr> nw_open = False, nw_sym = (\<lambda>_. False), nw_cache = False, nw_last_backend = [], nw_calls = [] \<rparr>"

text \<open>The result says whether \<open>NGX_OK\<close> was returned.\<close>

definition ngx_http_mesi_thread_init :: "bool \<Rightarrow> (symbol \<Rightarrow> bool) \<Rightarrow> ngx_worker \<Rightarrow> bool \<times> ngx_worker" where
  "ngx_http_mesi_thread_init dlopen_ok exports w =
    (if \<not> dlopen_ok then (False, w\<lparr>nw_open := False\<rparr>)
     else let w1 = w\<lparr>nw_open := True, nw_sym := (nw_sym w)(Parse := exports Parse)\<rparr>
          in if \<not> exports Parse then (False, w1)
             else (True, w1\<lparr>nw_sym := (nw_sym w1)
                     (ParseWithConfig := exports ParseWithConfig,
                      ParseWithConfigEx := exports ParseWithConfigEx,
                      ParseWithConfigCtx := exports ParseWithConfigCtx,
                      ParseJson := exports ParseJson,
                      InitCache := exports InitCache,
                      InitCacheWithConfig := exports InitCacheWithConfig,
                      FreeCache := exports FreeCache)\<rparr>))"

definition ngx_http_mesi_thread_exit :: "ngx_worker \<Rightarrow> ngx_worker" where
  "ngx_http_mesi_thread_exit w =
    (let w1 = (if nw_sym w FreeCache then ngx_call CallFreeCache w else w)
     in if nw_open w1 then w1\<lparr>nw_open := False, nw_cache := False, nw_last_backend := []\<rparr> else w1)"

subsection \<open>The guards and the cache\<close>

text \<open>The first guard that fires, by the directive it names.\<close>

definition ngx_guard_fails :: "ngx_loc_conf \<Rightarrow> string option" where
  "ngx_guard_fails lcf =
    (if lc_max_depth lcf < 0 \<or> lc_max_depth lcf > NGX_MAX_MAX_DEPTH then Some ''mesi_max_depth''
     else if lc_timeout_seconds lcf \<noteq> -1
             \<and> (lc_timeout_seconds lcf < 1 \<or> lc_timeout_seconds lcf > NGX_MAX_TIMEOUT_SECONDS)
       then Some ''mesi_timeout''
     else if lc_max_response_size lcf \<noteq> -1
             \<and> (lc_max_response_size lcf < 0 \<or> lc_max_response_size lcf > NGX_MAX_MAX_RESPONSE_SIZE)
       then Some ''mesi_max_response_size''
     else if lc_max_concurrent_requests lcf \<noteq> -1
             \<and> (lc_max_concurrent_requests lcf < 0
                 \<or> lc_max_concurrent_requests lcf > NGX_MAX_MAX_CONCURRENT_REQUESTS)
       then Some ''mesi_max_concurrent_requests''
     else if lc_max_workers lcf \<noteq> -1
             \<and> (lc_max_workers lcf < 0 \<or> lc_max_workers lcf > NGX_MAX_MAX_WORKERS)
       then Some ''mesi_max_workers''
     else None)"

text \<open>
  The lengths are equal when \<open>ngx_strncmp\<close> is reached, so it finds the two equal when they
  agree up to a NUL.
\<close>

definition ngx_same_backend :: "ngx_worker \<Rightarrow> string \<Rightarrow> bool" where
  "ngx_same_backend w backend \<longleftrightarrow>
     length (nw_last_backend w) = length backend
     \<and> ngx_str_to_cstr (nw_last_backend w) = ngx_str_to_cstr backend"

definition ngx_init_with_config :: "string \<Rightarrow> string option \<Rightarrow> ngx_loc_conf \<Rightarrow> ngx_worker \<Rightarrow> ngx_worker option" where
  "ngx_init_with_config backend config_json lcf w =
    (case config_json of
       None \<Rightarrow> None
     | Some cfg \<Rightarrow>
         Some (ngx_call (CallInitCacheWithConfig backend (s32 (lc_cache_size lcf)) (s32 (lc_cache_ttl lcf)) cfg) w))"

text \<open>
  The cache set-up at the head of \<open>parse\<close>; the return codes of the library are only
  logged.  No result means that the blob was written outside its allocation.
\<close>

definition ngx_setup_cache :: "ngx_loc_conf \<Rightarrow> ngx_worker \<Rightarrow> ngx_worker option" where
  "ngx_setup_cache lcf w =
    (let setting = str_of (lc_cache_backend lcf)
     in if length setting > 0 \<and> (\<not> nw_cache w \<or> \<not> ngx_same_backend w setting) then
          (let backend = ngx_str_to_cstr setting
           in map_option (\<lambda>w'. w'\<lparr>nw_cache := True, nw_last_backend := setting\<rparr>)
                (if backend = ''memcached'' then
                   (if \<not> nw_sym w InitCacheWithConfig then Some w
                    else ngx_init_with_config backend (ngx_build_memcached_config_json lcf) lcf w)
                 else if backend = ''redis'' then
                   (if \<not> nw_sym w InitCacheWithConfig then Some w
                    else ngx_init_with_config backend (ngx_build_redis_config_json lcf) lcf w)
                 else if nw_sym w InitCache
                   then Some (ngx_call (CallInitCache backend (s32 (lc_cache_size lcf)) (s32 (lc_cache_ttl lcf))) w)
                 else Some w))
        else Some w)"

subsection \<open>The request\<close>

text \<open>
  The fields of the request the module reads and writes: the header entries of the request
  and of the response, \<open>headers_in.host\<close> (a pointer), whether it is the main request.
\<close>

record ngx_request =
  rq_schema :: string
  rq_host :: "string option"
  rq_headers_in :: "ngx_header list"
  rq_is_main :: bool
  rq_header_only :: bool
  rq_content_length :: int
  rq_status :: nat
  rq_content_type :: string
  rq_content_encoding :: "string option"
  rq_headers_out :: "ngx_header list"
  rq_in_memory :: bool

definition ngx_base_url :: "ngx_request \<Rightarrow> string option" where
  "ngx_base_url r = map_option (\<lambda>host. rq_schema r @ ''://'' @ host @ ''/'') (rq_host r)"

subsection \<open>Choosing the entry point\<close>

definition ngx_configured :: "ngx_loc_conf \<Rightarrow> bool" where
  "ngx_configured lcf \<longleftrightarrow>
     lc_timeout_seconds lcf \<noteq> -1 \<or> lc_max_response_size lcf \<noteq> -1
     \<or> lc_max_concurrent_requests lcf \<noteq> -1 \<or> lc_max_workers lcf \<noteq> -1
     \<or> lc_debug lcf \<noteq> -1 \<or> lc_parse_on_header lcf \<noteq> -1 \<or> lc_include_error_marker lcf \<noteq> None"

text \<open>
  An outcome: the message of the library (\<open>None\<close> is NULL) or the early return of an empty
  response, with the worker.
\<close>

datatype ngx_outcome = Message "string option" | EmptyResponse

type_synonym ngx_step = "(ngx_outcome \<times> ngx_worker) option"

definition ngx_parse_json :: "golib \<Rightarrow> ngx_loc_conf \<Rightarrow> ngx_request \<Rightarrow> string \<Rightarrow> string \<Rightarrow> string \<Rightarrow> ngx_worker \<Rightarrow> ngx_step" where
  "ngx_parse_json gl lcf r input base_url hosts w =
    (case ngx_build_request_ctx_json (rq_headers_in r) (str_of (lc_cache_key_template lcf)) of
       None \<Rightarrow> None
     | Some ctx_json \<Rightarrow>
         (case ngx_build_parse_json_config lcf (lc_max_depth lcf) base_url hosts ctx_json of
            None \<Rightarrow> None
          | Some cfg \<Rightarrow>
              Some (Message (parse_json gl input cfg), ngx_call (CallParseJson input cfg) w)))"

definition ngx_parse_ctx :: "golib \<Rightarrow> ngx_loc_conf \<Rightarrow> ngx_request \<Rightarrow> string \<Rightarrow> string \<Rightarrow> string \<Rightarrow> ngx_worker \<Rightarrow> ngx_step" where
  "ngx_parse_ctx gl lcf r input base_url hosts w =
    (case ngx_build_request_ctx_json (rq_headers_in r) (str_of (lc_cache_key_template lcf)) of
       None \<Rightarrow> None
     | Some ctx_json \<Rightarrow>
         (let depth = s32 (lc_max_depth lcf);
              tmpl = ngx_str_to_cstr (str_of (lc_cache_key_template lcf));
              bp = s32 (lc_block_private_ips lcf);
              ap = s32 (lc_allow_private_ips_for_allowed lcf)
          in Some (Message (parse_with_config_ctx gl input depth base_url hosts bp ap tmpl ctx_json),
                   ngx_call (CallParseWithConfigCtx input depth base_url hosts bp ap tmpl ctx_json) w)))"

definition ngx_parse_positional :: "golib \<Rightarrow> ngx_loc_conf \<Rightarrow> string \<Rightarrow> string \<Rightarrow> string \<Rightarrow> ngx_worker \<Rightarrow> ngx_outcome \<times> ngx_worker" where
  "ngx_parse_positional gl lcf input base_url hosts w =
    (let depth = s32 (lc_max_depth lcf);
         bp = s32 (lc_block_private_ips lcf);
         ap = s32 (lc_allow_private_ips_for_allowed lcf)
     in if nw_sym w ParseWithConfigEx then
          (Message (parse_with_config_ex gl input depth base_url hosts bp ap),
           ngx_call (CallParseWithConfigEx input depth base_url hosts bp ap) w)
        else if nw_sym w ParseWithConfig then
          (Message (parse_with_config gl input depth base_url hosts bp),
           ngx_call (CallParseWithConfig input depth base_url hosts bp) w)
        else if length (str_of (lc_allowed_hosts lcf)) > 0 then (EmptyResponse, w)
        else (Message (parse gl input depth base_url), ngx_call (CallParse input depth base_url) w))"

definition ngx_dispatch :: "golib \<Rightarrow> ngx_loc_conf \<Rightarrow> ngx_request \<Rightarrow> string \<Rightarrow> string \<Rightarrow> string \<Rightarrow> ngx_worker \<Rightarrow> ngx_step" where
  "ngx_dispatch gl lcf r input base_url hosts w =
    (if ngx_configured lcf \<and> nw_sym w ParseJson then ngx_parse_json gl lcf r input base_url hosts w
     else if length (str_of (lc_cache_key_template lcf)) > 0 \<and> nw_sym w ParseWithConfigCtx then
       (case ngx_parse_ctx gl lcf r input base_url hosts w of
          Some (Message None, w1) \<Rightarrow> Some (ngx_parse_positional gl lcf input base_url hosts w1)
        | res \<Rightarrow> res)
     else Some (ngx_parse_positional gl lcf input base_url hosts w))"

text \<open>
  \<open>parse\<close>: the response text.  No result means an access outside an allocation or
  through a NULL pointer.
\<close>

definition ngx_parse :: "golib \<Rightarrow> ngx_loc_conf \<Rightarrow> ngx_request \<Rightarrow> string \<Rightarrow> ngx_worker \<Rightarrow> (string \<times> ngx_worker) option" where
  "ngx_parse gl lcf r input w =
    (if ngx_guard_fails lcf \<noteq> None then Some ([], w)
     else case ngx_setup_cache lcf w of
            None \<Rightarrow> None
          | Some w1 \<Rightarrow>
              (case ngx_base_url r of
                 None \<Rightarrow> None
               | Some base_url \<Rightarrow>
                   (case ngx_dispatch gl lcf r (ngx_str_to_cstr input) (ngx_str_to_cstr base_url)
                           (ngx_str_to_cstr (str_of (lc_allowed_hosts lcf))) w1 of
                      None \<Rightarrow> None
                    | Some (EmptyResponse, w2) \<Rightarrow> Some ([], w2)
                    | Some (Message None, w2) \<Rightarrow> Some ([], w2)
                    | Some (Message (Some message), w2) \<Rightarrow> Some (message, w2))))"

end
