(* ===== verification/Ngx_Filter.thy ===== *)
theory Ngx_Filter
  imports Ngx_Parse
begin

text \<open>
  The header and body filters of the nginx module with the checks they use.  A buffer is its
  bytes between \<open>pos\<close> and \<open>last\<close> with the \<open>last_buf\<close> flag, a chain is a list
  of buffers, and \<open>in == NULL\<close> is the empty chain.  The accumulated body is kept with its
  capacity, and a copy beyond it has no result.
\<close>

subsection \<open>Checks on the response\<close>

text \<open>One turn of the loop per list element: \<open>value->data + start\<close> is the rest.\<close>

function ngx_signals_loop :: "string \<Rightarrow> bool" where
  "ngx_signals_loop v =
    (let elem = takeWhile (\<lambda>c. c \<noteq> CHR '','') v;
         rest = dropWhile (\<lambda>c. c \<noteq> CHR '','') v;
         body = dropWhile mesi_is_header_space elem;
         trimmed = rev (dropWhile mesi_is_header_space (rev body))
     in if length trimmed = length ''dca=esi'' \<and> strncaseeq trimmed ''dca=esi'' (length ''dca=esi'') then True
        else if rest = [] then False
        else ngx_signals_loop (tl rest))"
  by pat_completeness auto
termination
proof (relation "measure length")
  fix v rest :: string
  assume "rest = dropWhile (\<lambda>c. c \<noteq> CHR '','') v" "rest \<noteq> []"
  then have "length rest \<le> length v" "0 < length rest" by (auto simp: length_dropWhile_le)
  then show "(tl rest, v) \<in> measure length" by (cases rest) auto
qed simp

declare ngx_signals_loop.simps [simp del]

definition ngx_mesi_header_signals_esi :: "string \<Rightarrow> bool" where
  "ngx_mesi_header_signals_esi value = (if length value = 0 then False else ngx_signals_loop value)"

fun ngx_http_mesi_has_esi_header :: "ngx_header list \<Rightarrow> bool" where
  "ngx_http_mesi_has_esi_header [] = False"
| "ngx_http_mesi_has_esi_header ((hash, key, val) # hs) =
     (if hash = 0 then ngx_http_mesi_has_esi_header hs
      else if length key = length ''Edge-control''
              \<and> strncaseeq key ''Edge-control'' (length ''Edge-control'')
              \<and> ngx_mesi_header_signals_esi val then True
      else ngx_http_mesi_has_esi_header hs)"

text \<open>\<open>ngx_strlow\<close> into a copy, then \<open>ngx_strnstr\<close>, which stops at a NUL.\<close>

definition ngx_test_is_html :: "ngx_request \<Rightarrow> bool" where
  "ngx_test_is_html r =
    (if length (rq_content_type r) = 0 then False
     else contains (ngx_str_to_cstr (map lower (rq_content_type r))) ''text/html'')"

definition ngx_test_content_compression :: "ngx_request \<Rightarrow> bool" where
  "ngx_test_content_compression r =
    (if rq_content_encoding r = None \<or> length (the (rq_content_encoding r)) = 0 then False else True)"

subsection \<open>The header filter\<close>

record ngx_ctx =
  cx_acc :: string
  cx_cap :: nat
  cx_done :: bool
  cx_pass :: bool

definition ngx_new_ctx :: ngx_ctx where
  "ngx_new_ctx = \<lparr> cx_acc = [], cx_cap = 0, cx_done = False, cx_pass = False \<rparr>"

text \<open>
  What the header filter does: it refuses with 502, or it hands the request, as it has changed
  it, with the context of the module to the next filter.
\<close>

datatype ngx_head = BadGateway | NextHead ngx_request "ngx_ctx option"

definition ngx_http_html_mesi_head_filter ::
  "ngx_loc_conf \<Rightarrow> ngx_worker \<Rightarrow> ngx_request \<Rightarrow> ngx_ctx option \<Rightarrow> ngx_head" where
  "ngx_http_html_mesi_head_filter lcf w r ctx =
    (if lc_enable_mesi lcf = 0 then NextHead r ctx
     else if rq_header_only r \<or> rq_content_length r = 0 then NextHead r ctx
     else if ngx_test_content_compression r then NextHead r ctx
     else if \<not> ngx_test_is_html r then NextHead r ctx
     else if rq_status r > 400 then NextHead r ctx
     else if lc_parse_on_header lcf \<noteq> -1 \<and> lc_parse_on_header lcf \<noteq> 0
             \<and> \<not> ngx_http_mesi_has_esi_header (rq_headers_out r) then NextHead r ctx
     else if lc_max_body_size lcf > 0 \<and> rq_content_length r > lc_max_body_size lcf then
       (if lc_on_oversize lcf = NGX_ON_OVERSIZE_ERROR then BadGateway else NextHead r ctx)
     else if length (str_of (lc_allowed_hosts lcf)) > 0 \<and> \<not> nw_sym w ParseWithConfig
       then NextHead (r\<lparr>rq_status := 500\<rparr>) ctx
     else let r1 = r\<lparr>rq_headers_out := rq_headers_out r @ [(1, ''Surrogate-Capability'', ''ESI/1.0'')]\<rparr>;
              ctx1 = (case ctx of None \<Rightarrow> ngx_new_ctx | Some c \<Rightarrow> c);
              r2 = r1\<lparr>rq_in_memory := True\<rparr>;
              r3 = (if rq_is_main r2 then r2\<lparr>rq_content_length := -1\<rparr> else r2)
          in NextHead r3 (Some ctx1))"

subsection \<open>The body filter\<close>

record ngx_buf =
  nb_data :: string
  nb_last :: bool

text \<open>\<open>while (new_cap < new_len) new_cap *= 2\<close>\<close>

partial_function (option) ngx_cap_loop :: "nat \<Rightarrow> nat \<Rightarrow> nat option" where
  "ngx_cap_loop new_len new_cap =
     (if new_cap < new_len then ngx_cap_loop new_len (new_cap * 2) else Some new_cap)"

text \<open>A larger block, at most the limit, with the bytes held so far copied into it.\<close>

definition ngx_grow :: "nat \<Rightarrow> ngx_loc_conf \<Rightarrow> nat \<Rightarrow> ngx_ctx \<Rightarrow> ngx_ctx option" where
  "ngx_grow pagesize lcf new_len ctx =
    (if new_len > cx_cap ctx then
       (case ngx_cap_loop new_len (if cx_cap ctx \<noteq> 0 then cx_cap ctx else pagesize) of
          None \<Rightarrow> None
        | Some c \<Rightarrow>
            (let new_cap = (if lc_max_body_size lcf > 0 \<and> int c > lc_max_body_size lcf
                            then nat (lc_max_body_size lcf) else c)
             in if length (cx_acc ctx) \<le> new_cap then Some (ctx\<lparr>cx_cap := new_cap\<rparr>) else None))
     else Some ctx)"

definition ngx_append :: "string \<Rightarrow> ngx_ctx \<Rightarrow> ngx_ctx option" where
  "ngx_append s ctx =
    (if length (cx_acc ctx) + length s \<le> cx_cap ctx then Some (ctx\<lparr>cx_acc := cx_acc ctx @ s\<rparr>) else None)"

text \<open>One buffer: its bytes are kept, or the body goes over the limit with it.\<close>

datatype ngx_take = Kept ngx_ctx | OverError | OverPass

definition ngx_take_buf :: "nat \<Rightarrow> ngx_loc_conf \<Rightarrow> ngx_buf \<Rightarrow> ngx_ctx \<Rightarrow> ngx_take option" where
  "ngx_take_buf pagesize lcf b ctx =
    (let sz = length (nb_data b)
     in if sz > 0 \<and> \<not> cx_done ctx then
          (let new_len = length (cx_acc ctx) + sz
           in if lc_max_body_size lcf > 0 \<and> int new_len > lc_max_body_size lcf then
                Some (if lc_on_oversize lcf = NGX_ON_OVERSIZE_ERROR then OverError else OverPass)
              else map_option Kept (Option.bind (ngx_grow pagesize lcf new_len ctx) (ngx_append (nb_data b))))
        else Some (Kept ctx))"

text \<open>
  What the filter does with the output: hand a chain to the next filter, keep everything
  (\<open>NGX_OK\<close> at the end) or abort (\<open>NGX_ERROR\<close>); with the context, the worker, the
  request, and the buffers of the incoming chain as the filter leaves them.
\<close>

datatype ngx_out = NextBody "ngx_buf list" | Nothing | Abort

record ngx_result_state =
  rs_out :: ngx_out
  rs_ctx :: ngx_ctx
  rs_worker :: ngx_worker
  rs_request :: ngx_request
  rs_in :: "ngx_buf list"

fun ngx_body_loop ::
  "nat \<Rightarrow> golib \<Rightarrow> ngx_loc_conf \<Rightarrow> ngx_request \<Rightarrow> ngx_buf list \<Rightarrow> ngx_buf list \<Rightarrow> ngx_ctx \<Rightarrow> ngx_worker
    \<Rightarrow> ngx_result_state option" where
  "ngx_body_loop pagesize gl lcf r used [] ctx w =
     Some \<lparr> rs_out = Nothing, rs_ctx = ctx, rs_worker = w, rs_request = r, rs_in = used \<rparr>"
| "ngx_body_loop pagesize gl lcf r used (b # cl) ctx w =
     (case ngx_take_buf pagesize lcf b ctx of
        None \<Rightarrow> None
      | Some OverError \<Rightarrow>
          Some \<lparr> rs_out = Abort, rs_ctx = ctx, rs_worker = w, rs_request = r, rs_in = used @ b # cl \<rparr>
      | Some OverPass \<Rightarrow>
          Some \<lparr> rs_out = NextBody (if length (cx_acc ctx) > 0
                                then \<lparr> nb_data = cx_acc ctx, nb_last = False \<rparr> # b # cl else b # cl),
                 rs_ctx = ctx\<lparr>cx_pass := True\<rparr>, rs_worker = w, rs_request = r, rs_in = used @ b # cl \<rparr>
      | Some (Kept ctx1) \<Rightarrow>
          (let b' = b\<lparr>nb_data := []\<rparr>
           in if nb_last b \<and> \<not> cx_done ctx1 then
                (case ngx_parse gl lcf r (cx_acc ctx1) w of
                   None \<Rightarrow> None
                 | Some (parsed, w1) \<Rightarrow>
                     Some \<lparr> rs_out = NextBody [\<lparr> nb_data = parsed, nb_last = True \<rparr>],
                            rs_ctx = ctx1\<lparr>cx_done := True\<rparr>, rs_worker = w1,
                            rs_request = r\<lparr>rq_content_length := int (length parsed)\<rparr>,
                            rs_in = used @ b' # cl \<rparr>)
              else ngx_body_loop pagesize gl lcf r (used @ [b']) cl ctx1 w))"

text \<open>The context is the one the header filter has set, if it has.\<close>

definition ngx_http_html_mesi_body_filter ::
  "nat \<Rightarrow> golib \<Rightarrow> ngx_loc_conf \<Rightarrow> ngx_request \<Rightarrow> ngx_buf list \<Rightarrow> ngx_ctx option \<Rightarrow> ngx_worker
    \<Rightarrow> (ngx_out \<times> ngx_ctx option \<times> ngx_worker \<times> ngx_request \<times> ngx_buf list) option" where
  "ngx_http_html_mesi_body_filter pagesize gl lcf r cl ctx w =
    (if lc_enable_mesi lcf = 0 then Some (NextBody cl, ctx, w, r, cl)
     else if ctx = None \<or> \<not> nw_open w then Some (NextBody cl, ctx, w, r, cl)
     else if cx_pass (the ctx) then Some (NextBody cl, ctx, w, r, cl)
     else case ngx_body_loop pagesize gl lcf r [] cl (the ctx) w of
            None \<Rightarrow> None
          | Some s \<Rightarrow>
              Some (if rs_out s = Nothing \<and> cl = [] then NextBody [] else rs_out s,
                    Some (rs_ctx s), rs_worker s, rs_request s, rs_in s))"

end
