(* ===== verification/Ngx_Config_Lemmas.thy ===== *)
theory Ngx_Config_Lemmas
  imports Ngx_Config
begin

text \<open>
  Facts about the nginx configuration: both digit loops are decimal parsers, the merge refines
  the inheritance of \<open>Mesi_Scopes\<close>, and every configuration that loads is valid.
\<close>

subsection \<open>The digit loops\<close>

definition plain_digits :: "string \<Rightarrow> string option" where
  "plain_digits s = (if s \<noteq> [] \<and> (\<forall>c \<in> set s. is_digit c) then Some s else None)"

lemma plain_digits_show: "plain_digits (show_nat n) = Some (show_nat n)"
  using show_nat_digits [of n] by (simp add: plain_digits_def)

lemma cap_loop_exact:
  assumes "int v \<le> hi" and "hi < 2 ^ 59"
  shows "digits_then_cap d hi arg ds (int v) = Inr w \<longleftrightarrow>
    (\<forall>c \<in> set ds. is_digit c) \<and> w = int (foldl (\<lambda>v c. v * 10 + digit_val c) v ds) \<and> w \<le> hi"
  using assms(1)
proof (induction ds arbitrary: v)
  case Nil
  then show ?case by auto
next
  case (Cons c cs)
  show ?case
  proof (cases "is_digit c")
    case True
    let ?v = "v * 10 + digit_val c"
    have "digit_val c < 10" using True by (rule digit_val_bound)
    moreover have "int v < 2 ^ 59" using Cons.prems assms(2) by linarith
    ultimately have step: "s64 (s64 (int v * 10) + int (digit_val c)) = int ?v" by simp
    have mono: "int ?v \<le> int (foldl (\<lambda>v c. v * 10 + digit_val c) ?v cs)"
      using foldl_digits_mono by (simp only: of_nat_le_iff)
    show ?thesis
    proof (cases "int ?v > hi")
      case True
      with step mono \<open>is_digit c\<close> show ?thesis by (simp add: Let_def)
    next
      case False
      with step Cons.IH [of ?v] \<open>is_digit c\<close> show ?thesis by (simp add: Let_def not_less)
    qed
  qed simp
qed

lemma guard_loop_off:
  assumes "\<forall>c \<in> set ds. is_digit c"
  shows "digits_with_guard d hi arg ds val =
    (case off_loop hi ds val of None \<Rightarrow> Inl (ValueOutOfRange d arg) | Some v \<Rightarrow> Inr v)"
  using assms by (induction ds arbitrary: val) (auto simp: Let_def)

text \<open>With a cap of at least nine the guarded loop never ends above it.\<close>

lemma guard_final:
  assumes "9 \<le> hi" and "hi < 2 ^ 63" and "\<forall>c \<in> set ds. is_digit c"
  shows "off_loop hi ds 0 = Some w \<Longrightarrow> w \<le> hi"
proof -
  have "off_loop hi ds (int v) = Some w \<Longrightarrow> int v \<le> hi \<Longrightarrow> w \<le> hi" for v
    using assms(3)
  proof (induction ds arbitrary: v)
    case (Cons c cs)
    let ?v = "v * 10 + digit_val c"
    have d: "digit_val c < 10" using Cons.prems(3) by (simp add: digit_val_bound)
    have g: "\<not> int v > c_div (s64 (hi - int (digit_val c))) 10"
      using Cons.prems(1) by (auto simp: Let_def split: if_splits)
    then have le: "int ?v \<le> hi"
      using off_guard [of hi "int (digit_val c)" "int v"] assms(1,2) d by auto
    then have "int v * 10 + int (digit_val c) < 2 ^ 63" using assms(2) by simp
    then have "s64 (s64 (int v * 10) + int (digit_val c)) = int ?v" by (subst (2) s64_id) auto
    with g Cons.prems le Cons.IH [of ?v] show ?case by (simp add: Let_def)
  qed simp
  from this [of 0] assms(1) show "off_loop hi ds 0 = Some w \<Longrightarrow> w \<le> hi" by simp
qed

lemma guard_loop_bad:
  "c \<in> set ds \<Longrightarrow> \<not> is_digit c \<Longrightarrow> \<exists>e. digits_with_guard d hi arg ds val = Inl e"
  by (induction ds arbitrary: val) (auto simp: Let_def)

definition ngx_cap_parse :: "string \<Rightarrow> int \<Rightarrow> int \<Rightarrow> string \<Rightarrow> ngx_error + int" where
  "ngx_cap_parse d lo hi arg =
    (if arg = [] then Inl (NoArgument d)
     else case digits_then_cap d hi arg arg 0 of
            Inl e \<Rightarrow> Inl e | Inr v \<Rightarrow> if v < lo then Inl (ValueOutOfRange d arg) else Inr v)"

definition ngx_guard_parse :: "string \<Rightarrow> int \<Rightarrow> int \<Rightarrow> string \<Rightarrow> ngx_error + int" where
  "ngx_guard_parse d lo hi arg =
    (if arg = [] then Inl (NoArgument d) else digits_with_guard d hi arg arg 0)"

lemma ngx_cap_iff:
  assumes "0 \<le> hi" and "hi < 2 ^ 59"
  shows "ngx_cap_parse d lo hi arg = Inr v \<longleftrightarrow>
    (\<exists>ds. plain_digits arg = Some ds \<and> True \<and> v = int (digits_val ds) \<and> lo \<le> v \<and> v \<le> hi)"
proof (cases "arg = []")
  case True
  then show ?thesis by (simp add: ngx_cap_parse_def plain_digits_def)
next
  case False
  note loop = cap_loop_exact [of 0 hi d arg arg, OF _ assms(2)]
  show ?thesis
  proof (cases "digits_then_cap d hi arg arg 0")
    case (Inl e)
    with False loop assms(1) show ?thesis
      by (auto simp: ngx_cap_parse_def plain_digits_def digits_val_def)
  next
    case (Inr w)
    with False loop [of w] assms(1) show ?thesis
      by (auto simp: ngx_cap_parse_def plain_digits_def digits_val_def)
  qed
qed

lemma ngx_guard_iff:
  assumes "9 \<le> hi" and "hi < 2 ^ 63" and "lo \<le> 0"
  shows "ngx_guard_parse d lo hi arg = Inr v \<longleftrightarrow>
    (\<exists>ds. plain_digits arg = Some ds \<and> True \<and> v = int (digits_val ds) \<and> lo \<le> v \<and> v \<le> hi)"
proof (cases "arg \<noteq> [] \<and> (\<forall>c \<in> set arg. is_digit c)")
  case True
  then have digits: "\<forall>c \<in> set arg. is_digit c" by simp
  have small: "w \<le> hi" if "off_loop hi arg 0 = Some w" for w
    using that guard_final [OF assms(1,2) digits] by simp
  show ?thesis
    using True assms off_loop_digits [of hi arg] guard_loop_off [OF digits, of d hi arg 0] small
    by (auto simp: ngx_guard_parse_def plain_digits_def split: option.splits)
next
  case False
  with guard_loop_bad [of _ arg d hi arg 0] show ?thesis
    by (auto simp: ngx_guard_parse_def plain_digits_def)
qed

interpretation ngx_cap: decimal_parser "ngx_cap_parse d" plain_digits "\<lambda>s. s" "\<lambda>_. True"
    "\<lambda>lo hi. 0 \<le> hi \<and> hi < 2 ^ 59"
  by unfold_locales (use ngx_cap_iff in \<open>simp_all add: plain_digits_show\<close>)

interpretation ngx_guard: decimal_parser "ngx_guard_parse d" plain_digits "\<lambda>s. s" "\<lambda>_. True"
    "\<lambda>lo hi. 9 \<le> hi \<and> hi < 2 ^ 63 \<and> lo \<le> 0"
  by unfold_locales (use ngx_guard_iff in \<open>simp_all add: plain_digits_show\<close>)

text \<open>The setters in terms of the two parsers.\<close>

definition set_field :: "bool \<Rightarrow> ngx_error + int \<Rightarrow> (int \<Rightarrow> ngx_loc_conf) \<Rightarrow> ngx_loc_conf \<Rightarrow> ngx_result" where
  "set_field dup parsed upd lcf =
    (if dup then (Some Duplicate, lcf)
     else case parsed of Inl e \<Rightarrow> (Some e, lcf) | Inr v \<Rightarrow> (None, upd v))"

lemma cap_nonneg:
  assumes "0 \<le> hi" "hi < 2 ^ 59" "digits_then_cap d hi arg ds 0 = Inr w"
  shows "0 \<le> w"
  using cap_loop_exact [of 0 hi d arg ds w] assms by auto

lemma setters_parse:
  "ngx_http_mesi_set_max_depth c a =
    set_field (lc_max_depth c \<noteq> -1) (ngx_cap_parse ''mesi_max_depth'' 0 NGX_MAX_MAX_DEPTH a)
      (\<lambda>v. c\<lparr>lc_max_depth := v\<rparr>) c"
  "ngx_http_mesi_set_timeout c a =
    set_field (lc_timeout_seconds c \<noteq> -1) (ngx_cap_parse ''mesi_timeout'' 1 NGX_MAX_TIMEOUT_SECONDS a)
      (\<lambda>v. c\<lparr>lc_timeout_seconds := v\<rparr>) c"
  "ngx_http_mesi_set_max_response_size c a =
    set_field (lc_max_response_size c \<noteq> -1)
      (ngx_guard_parse ''mesi_max_response_size'' 0 NGX_MAX_MAX_RESPONSE_SIZE a)
      (\<lambda>v. c\<lparr>lc_max_response_size := v\<rparr>) c"
  "ngx_http_mesi_set_max_concurrent_requests c a =
    set_field (lc_max_concurrent_requests c \<noteq> -1)
      (ngx_guard_parse ''mesi_max_concurrent_requests'' 0 NGX_MAX_MAX_CONCURRENT_REQUESTS a)
      (\<lambda>v. c\<lparr>lc_max_concurrent_requests := v\<rparr>) c"
  "ngx_http_mesi_set_max_workers c a =
    set_field (lc_max_workers c \<noteq> -1) (ngx_guard_parse ''mesi_max_workers'' 0 NGX_MAX_MAX_WORKERS a)
      (\<lambda>v. c\<lparr>lc_max_workers := v\<rparr>) c"
  "ngx_http_mesi_set_max_body_size c a =
    set_field (lc_max_body_size c \<noteq> -1) (ngx_guard_parse ''mesi_max_body_size'' 0 NGX_MAX_MAX_BODY_SIZE a)
      (\<lambda>v. c\<lparr>lc_max_body_size := v\<rparr>) c"
  using cap_nonneg [of NGX_MAX_MAX_DEPTH "''mesi_max_depth''" a a]
  by (auto simp: ngx_http_mesi_set_max_depth_def ngx_http_mesi_set_timeout_def
      ngx_http_mesi_set_max_response_size_def ngx_http_mesi_set_max_concurrent_requests_def
      ngx_http_mesi_set_max_workers_def ngx_http_mesi_set_max_body_size_def
      set_field_def ngx_cap_parse_def ngx_guard_parse_def split: sum.split)

lemma set_cap_exact:
  assumes "0 \<le> hi" and "hi < 2 ^ 59"
  shows "set_field dup (ngx_cap_parse d lo hi a) upd c = (None, c') \<longleftrightarrow>
    \<not> dup \<and> (\<exists>ds. plain_digits a = Some ds \<and> lo \<le> int (digits_val ds) \<and> int (digits_val ds) \<le> hi
      \<and> c' = upd (int (digits_val ds)))"
proof -
  have "set_field dup (ngx_cap_parse d lo hi a) upd c = (None, c') \<longleftrightarrow>
      \<not> dup \<and> (\<exists>v. ngx_cap_parse d lo hi a = Inr v \<and> c' = upd v)"
    by (auto simp: set_field_def split: sum.split)
  then show ?thesis unfolding ngx_cap_iff [OF assms] by blast
qed

lemma set_guard_exact:
  assumes "9 \<le> hi" and "hi < 2 ^ 63"
  shows "set_field dup (ngx_guard_parse d 0 hi a) upd c = (None, c') \<longleftrightarrow>
    \<not> dup \<and> (\<exists>ds. plain_digits a = Some ds \<and> int (digits_val ds) \<le> hi \<and> c' = upd (int (digits_val ds)))"
proof -
  have "set_field dup (ngx_guard_parse d 0 hi a) upd c = (None, c') \<longleftrightarrow>
      \<not> dup \<and> (\<exists>v. ngx_guard_parse d 0 hi a = Inr v \<and> c' = upd v)"
    by (auto simp: set_field_def split: sum.split)
  then show ?thesis unfolding ngx_guard_iff [OF assms order_refl] by auto
qed

subsection \<open>Validity\<close>

definition ngx_tri :: "int \<Rightarrow> bool" where
  "ngx_tri v \<longleftrightarrow> v = -1 \<or> v = 0 \<or> v = 1"

definition ngx_opt :: "int \<Rightarrow> int \<Rightarrow> int \<Rightarrow> bool" where
  "ngx_opt lo hi v \<longleftrightarrow> v = -1 \<or> (lo \<le> v \<and> v \<le> hi)"

text \<open>A block as the directives can leave it: numbers in range or unset.\<close>

definition ngx_block_ok :: "ngx_loc_conf \<Rightarrow> bool" where
  "ngx_block_ok c \<longleftrightarrow>
     ngx_tri (lc_enable_mesi c) \<and> ngx_opt 0 NGX_MAX_MAX_DEPTH (lc_max_depth c)
     \<and> ngx_opt 1 NGX_MAX_TIMEOUT_SECONDS (lc_timeout_seconds c)
     \<and> ngx_opt 0 NGX_MAX_MAX_RESPONSE_SIZE (lc_max_response_size c)
     \<and> ngx_opt 0 NGX_MAX_MAX_CONCURRENT_REQUESTS (lc_max_concurrent_requests c)
     \<and> ngx_opt 0 NGX_MAX_MAX_WORKERS (lc_max_workers c)
     \<and> ngx_opt 0 NGX_MAX_MAX_BODY_SIZE (lc_max_body_size c)
     \<and> -1 \<le> lc_cache_size c \<and> -1 \<le> lc_cache_ttl c \<and> -1 \<le> lc_cache_redis_db c
     \<and> ngx_tri (lc_block_private_ips c) \<and> ngx_tri (lc_allow_private_ips_for_allowed c)
     \<and> ngx_tri (lc_debug c) \<and> ngx_tri (lc_parse_on_header c)
     \<and> (lc_on_oversize c = NGX_CONF_UNSET_UINT \<or> lc_on_oversize c = NGX_ON_OVERSIZE_PASS
        \<or> lc_on_oversize c = NGX_ON_OVERSIZE_ERROR)"

lemma block_ok_create: "ngx_block_ok ngx_http_mesi_create_loc_conf"
  by (simp add: ngx_block_ok_def ngx_http_mesi_create_loc_conf_def ngx_tri_def ngx_opt_def)

lemma set_field_ok:
  assumes "ngx_block_ok c" and "\<And>v. parsed = Inr v \<Longrightarrow> ngx_block_ok (upd v)"
  shows "ngx_block_ok (snd (set_field dup parsed upd c))"
  using assms by (simp add: set_field_def split: sum.split)

lemma number_fields_ok:
  assumes "ngx_block_ok c"
  shows "ngx_opt 0 NGX_MAX_MAX_DEPTH v \<Longrightarrow> ngx_block_ok (c\<lparr>lc_max_depth := v\<rparr>)"
    "ngx_opt 1 NGX_MAX_TIMEOUT_SECONDS v \<Longrightarrow> ngx_block_ok (c\<lparr>lc_timeout_seconds := v\<rparr>)"
    "ngx_opt 0 NGX_MAX_MAX_RESPONSE_SIZE v \<Longrightarrow> ngx_block_ok (c\<lparr>lc_max_response_size := v\<rparr>)"
    "ngx_opt 0 NGX_MAX_MAX_CONCURRENT_REQUESTS v \<Longrightarrow> ngx_block_ok (c\<lparr>lc_max_concurrent_requests := v\<rparr>)"
    "ngx_opt 0 NGX_MAX_MAX_WORKERS v \<Longrightarrow> ngx_block_ok (c\<lparr>lc_max_workers := v\<rparr>)"
    "ngx_opt 0 NGX_MAX_MAX_BODY_SIZE v \<Longrightarrow> ngx_block_ok (c\<lparr>lc_max_body_size := v\<rparr>)"
  using assms by (simp_all add: ngx_block_ok_def)

lemma cap_range:
  "0 \<le> hi \<Longrightarrow> hi < 2 ^ 59 \<Longrightarrow> ngx_cap_parse d lo hi a = Inr v \<Longrightarrow> ngx_opt lo hi v"
  using ngx_cap.parse_range [where lo = lo and hi = hi and d = d and arg = a and v = v] by (simp add: ngx_opt_def)

lemma guard_range:
  "9 \<le> hi \<Longrightarrow> hi < 2 ^ 63 \<Longrightarrow> ngx_guard_parse d 0 hi a = Inr v \<Longrightarrow> ngx_opt 0 hi v"
  using ngx_guard.parse_range [where lo = 0 and hi = hi and d = d and arg = a and v = v] by (simp add: ngx_opt_def)

lemma setters_ok:
  assumes "ngx_block_ok c"
  shows "ngx_block_ok (snd (ngx_http_mesi_set_max_depth c a))"
    "ngx_block_ok (snd (ngx_http_mesi_set_timeout c a))"
    "ngx_block_ok (snd (ngx_http_mesi_set_max_response_size c a))"
    "ngx_block_ok (snd (ngx_http_mesi_set_max_concurrent_requests c a))"
    "ngx_block_ok (snd (ngx_http_mesi_set_max_workers c a))"
    "ngx_block_ok (snd (ngx_http_mesi_set_max_body_size c a))"
  unfolding setters_parse
  by (intro set_field_ok assms number_fields_ok; (erule cap_range [rotated 2] guard_range [rotated 2]; simp))+

lemma slots_ok:
  "ngx_block_ok c \<Longrightarrow> ngx_block_ok stored \<Longrightarrow> ngx_block_ok (snd (slot_num unset old stored c))"
  "ngx_block_ok c \<Longrightarrow> ngx_block_ok stored \<Longrightarrow> ngx_block_ok (snd (slot_str s stored c))"
  by (simp_all add: slot_num_def slot_str_def)

lemma other_fields_ok:
  assumes "ngx_block_ok c"
  shows "ngx_block_ok (c\<lparr>lc_enable_mesi := of_bool b\<rparr>)" "ngx_block_ok (c\<lparr>lc_debug := of_bool b\<rparr>)"
    "ngx_block_ok (c\<lparr>lc_parse_on_header := of_bool b\<rparr>)"
    "ngx_block_ok (c\<lparr>lc_block_private_ips := of_bool b\<rparr>)"
    "ngx_block_ok (c\<lparr>lc_allow_private_ips_for_allowed := of_bool b\<rparr>)"
    "ngx_block_ok (c\<lparr>lc_cache_size := int n\<rparr>)" "ngx_block_ok (c\<lparr>lc_cache_ttl := int n\<rparr>)"
    "ngx_block_ok (c\<lparr>lc_cache_redis_db := int n\<rparr>)"
    "ngx_block_ok (c\<lparr>lc_on_oversize := (if b then NGX_ON_OVERSIZE_ERROR else NGX_ON_OVERSIZE_PASS)\<rparr>)"
    "ngx_block_ok (c\<lparr>lc_include_error_marker := s\<rparr>)" "ngx_block_ok (c\<lparr>lc_cache_backend := s\<rparr>)"
    "ngx_block_ok (c\<lparr>lc_cache_memcached_servers := s\<rparr>)" "ngx_block_ok (c\<lparr>lc_cache_redis_addr := s\<rparr>)"
    "ngx_block_ok (c\<lparr>lc_cache_redis_password := s\<rparr>)" "ngx_block_ok (c\<lparr>lc_allowed_hosts := s\<rparr>)"
    "ngx_block_ok (c\<lparr>lc_cache_key_template := s\<rparr>)"
  using assms by (simp_all add: ngx_block_ok_def ngx_tri_def)

lemma ngx_run_directive_ok: "ngx_block_ok c \<Longrightarrow> ngx_block_ok (snd (ngx_run_directive c d))"
  by (cases d) (simp_all only: ngx_run_directive.simps setters_ok slots_ok other_fields_ok)

lemma ngx_load_block_ok: "ngx_block_ok c \<Longrightarrow> ngx_load_block c ds = Inr c' \<Longrightarrow> ngx_block_ok c'"
proof (induction ds arbitrary: c)
  case (Cons d ds)
  from Cons.prems(1) have "ngx_block_ok (snd (ngx_run_directive c d))" by (rule ngx_run_directive_ok)
  with Cons show ?case by (auto split: prod.splits option.splits)
qed simp

subsection \<open>Merging is inheritance with defaults\<close>

text \<open>Inheritance alone: the inner block's setting, or the outer one's.\<close>

definition inherit_num :: "int \<Rightarrow> int \<Rightarrow> int" where
  "inherit_num outer inner = (if inner = -1 then outer else inner)"

definition inherit_str :: "string option \<Rightarrow> string option \<Rightarrow> string option" where
  "inherit_str outer inner = (if inner = None then outer else inner)"

definition ngx_inherit :: "ngx_loc_conf \<Rightarrow> ngx_loc_conf \<Rightarrow> ngx_loc_conf" where
  "ngx_inherit p c =
    \<lparr> lc_enable_mesi = inherit_num (lc_enable_mesi p) (lc_enable_mesi c),
      lc_max_depth = inherit_num (lc_max_depth p) (lc_max_depth c),
      lc_timeout_seconds = inherit_num (lc_timeout_seconds p) (lc_timeout_seconds c),
      lc_max_response_size = inherit_num (lc_max_response_size p) (lc_max_response_size c),
      lc_max_concurrent_requests = inherit_num (lc_max_concurrent_requests p) (lc_max_concurrent_requests c),
      lc_max_workers = inherit_num (lc_max_workers p) (lc_max_workers c),
      lc_cache_backend = inherit_str (lc_cache_backend p) (lc_cache_backend c),
      lc_cache_size = inherit_num (lc_cache_size p) (lc_cache_size c),
      lc_cache_ttl = inherit_num (lc_cache_ttl p) (lc_cache_ttl c),
      lc_cache_memcached_servers = inherit_str (lc_cache_memcached_servers p) (lc_cache_memcached_servers c),
      lc_cache_redis_addr = inherit_str (lc_cache_redis_addr p) (lc_cache_redis_addr c),
      lc_cache_redis_password = inherit_str (lc_cache_redis_password p) (lc_cache_redis_password c),
      lc_cache_redis_db = inherit_num (lc_cache_redis_db p) (lc_cache_redis_db c),
      lc_block_private_ips = inherit_num (lc_block_private_ips p) (lc_block_private_ips c),
      lc_allowed_hosts = inherit_str (lc_allowed_hosts p) (lc_allowed_hosts c),
      lc_allow_private_ips_for_allowed =
        inherit_num (lc_allow_private_ips_for_allowed p) (lc_allow_private_ips_for_allowed c),
      lc_cache_key_template = inherit_str (lc_cache_key_template p) (lc_cache_key_template c),
      lc_max_body_size = inherit_num (lc_max_body_size p) (lc_max_body_size c),
      lc_on_oversize =
        (if lc_on_oversize c = NGX_CONF_UNSET_UINT then lc_on_oversize p else lc_on_oversize c),
      lc_debug = inherit_num (lc_debug p) (lc_debug c),
      lc_parse_on_header = inherit_num (lc_parse_on_header p) (lc_parse_on_header c),
      lc_include_error_marker = inherit_str (lc_include_error_marker p) (lc_include_error_marker c) \<rparr>"

lemma inherit_simps [simp]:
  "inherit_num (-1) v = v" "inherit_num v (-1) = v" "inherit_str None s = s" "inherit_str s None = s"
  "inherit_num (inherit_num u v) w = inherit_num u (inherit_num v w)"
  "inherit_str (inherit_str r s) t = inherit_str r (inherit_str s t)"
  by (auto simp: inherit_num_def inherit_str_def)

interpretation ngx_scopes: config_scopes ngx_inherit ngx_http_mesi_create_loc_conf "\<lambda>_. True"
  by unfold_locales (simp_all add: ngx_inherit_def ngx_http_mesi_create_loc_conf_def)

interpretation ngx_hosts: scope_field ngx_inherit ngx_http_mesi_create_loc_conf "\<lambda>_. True"
    lc_allowed_hosts "\<lambda>s. s \<noteq> None"
  by unfold_locales (simp add: ngx_inherit_def inherit_str_def)

interpretation ngx_block: scope_field ngx_inherit ngx_http_mesi_create_loc_conf "\<lambda>_. True"
    lc_block_private_ips "\<lambda>v. v \<noteq> -1"
  by unfold_locales (simp add: ngx_inherit_def inherit_num_def)

interpretation ngx_depth: scope_field ngx_inherit ngx_http_mesi_create_loc_conf "\<lambda>_. True"
    lc_max_depth "\<lambda>v. v \<noteq> -1"
  by unfold_locales (simp add: ngx_inherit_def inherit_num_def)

interpretation ngx_marker: scope_field ngx_inherit ngx_http_mesi_create_loc_conf "\<lambda>_. True"
    lc_include_error_marker "\<lambda>s. s \<noteq> None"
  by unfold_locales (simp add: ngx_inherit_def inherit_str_def)

text \<open>The defaults, for what no block sets.\<close>

definition ngx_resolve :: "ngx_loc_conf \<Rightarrow> ngx_loc_conf" where
  "ngx_resolve c = c
    \<lparr> lc_enable_mesi := inherit_num 0 (lc_enable_mesi c),
      lc_max_depth := inherit_num NGX_DEFAULT_MAX_DEPTH (lc_max_depth c),
      lc_cache_backend := inherit_str (Some []) (lc_cache_backend c),
      lc_cache_size := inherit_num 10000 (lc_cache_size c),
      lc_cache_ttl := inherit_num 30 (lc_cache_ttl c),
      lc_cache_memcached_servers := inherit_str (Some []) (lc_cache_memcached_servers c),
      lc_cache_redis_addr := inherit_str (Some []) (lc_cache_redis_addr c),
      lc_cache_redis_password := inherit_str (Some []) (lc_cache_redis_password c),
      lc_cache_redis_db := inherit_num 0 (lc_cache_redis_db c),
      lc_block_private_ips := inherit_num 1 (lc_block_private_ips c),
      lc_allowed_hosts := inherit_str (Some []) (lc_allowed_hosts c),
      lc_allow_private_ips_for_allowed := inherit_num 0 (lc_allow_private_ips_for_allowed c),
      lc_cache_key_template := inherit_str (Some []) (lc_cache_key_template c),
      lc_max_body_size := inherit_num 0 (lc_max_body_size c),
      lc_on_oversize := (if lc_on_oversize c = NGX_CONF_UNSET_UINT then NGX_ON_OVERSIZE_PASS
                         else lc_on_oversize c) \<rparr>"

lemma merge_value_inherit:
  "ngx_merge_value c p d = inherit_num d (inherit_num p c)"
  "ngx_merge_str_value c' p' d' = inherit_str (Some d') (inherit_str p' c')"
  by (auto simp: ngx_merge_value_def ngx_merge_str_value_def inherit_num_def inherit_str_def)

lemma merge_is_resolve: "ngx_merge_values p c = ngx_resolve (ngx_inherit p c)"
  by (simp add: ngx_merge_values_def ngx_resolve_def ngx_inherit_def merge_value_inherit
      ngx_merge_uint_value_def inherit_str_def [of "lc_include_error_marker p"])

lemma inherit_twice [simp]:
  "inherit_num d (inherit_num d v) = inherit_num d v" "inherit_str e (inherit_str e s) = inherit_str e s"
  by (simp_all add: inherit_num_def inherit_str_def)

lemma resolve_inner: "ngx_resolve (ngx_inherit (ngx_resolve p) c) = ngx_resolve (ngx_inherit p c)"
  by (simp add: ngx_resolve_def ngx_inherit_def NGX_CONF_UNSET_UINT_def)

lemma merge_chain_snoc:
  "ngx_merge_chain p (cs @ [c]) = (case ngx_merge_chain p cs of Inl e \<Rightarrow> Inl e
     | Inr q \<Rightarrow> (case ngx_http_mesi_merge_loc_conf q c of (Some e, _) \<Rightarrow> Inl e | (None, conf) \<Rightarrow> Inr conf))"
  by (induction cs arbitrary: p) (auto split: prod.split option.split sum.split)

lemma merge_loc_conf_value: "snd (ngx_http_mesi_merge_loc_conf p c) = ngx_merge_values p c"
  by (simp add: ngx_http_mesi_merge_loc_conf_def Let_def split: option.split)

lemma merge_chain_refines:
  "ngx_merge_chain p (cs @ [c]) = Inr conf \<Longrightarrow> conf = ngx_resolve (ngx_scopes.effective (p # cs @ [c]))"
proof (induction cs arbitrary: c conf rule: rev_induct)
  case Nil
  then have "conf = ngx_merge_values p c"
    using merge_loc_conf_value [of p c] by (auto split: prod.splits option.splits)
  moreover have "ngx_scopes.effective [p, c] = ngx_inherit p c"
    using ngx_scopes.effective_snoc [of "[p]" c] ngx_scopes.effective_snoc [of "[]" p]
    by (simp add: ngx_scopes.effective_Nil ngx_scopes.merge_unset_left)
  ultimately show ?case by (simp add: merge_is_resolve)
next
  case (snoc d cs)
  obtain q where q: "ngx_merge_chain p (cs @ [d]) = Inr q" and m: "ngx_http_mesi_merge_loc_conf q c = (None, conf)"
    using snoc.prems unfolding merge_chain_snoc [of p "cs @ [d]"]
    by (auto split: sum.splits prod.splits option.splits)
  have "conf = ngx_merge_values q c" using m merge_loc_conf_value [of q c] by simp
  then show ?case
    using snoc.IH [OF q] ngx_scopes.effective_snoc [of "p # cs @ [d]" c]
    by (simp add: merge_is_resolve resolve_inner)
qed

subsection \<open>What a loaded configuration satisfies\<close>

lemma hosts_scan_token: "ngx_hosts_scan s \<noteq> [] \<longleftrightarrow> mesi_has_hostname_token s"
  by (induction s rule: ngx_hosts_scan.induct)
     (auto simp: mesi_has_hostname_token.simps(2) ngx_unicode_space_eq Let_def)

definition ngx_conf_ok :: "ngx_loc_conf \<Rightarrow> bool" where
  "ngx_conf_ok c \<longleftrightarrow>
     ngx_block_ok c
     \<and> (lc_enable_mesi c = 0 \<or> lc_enable_mesi c = 1)
     \<and> 0 \<le> lc_max_depth c \<and> 0 \<le> lc_max_body_size c \<and> 0 \<le> lc_cache_redis_db c
     \<and> (lc_block_private_ips c = 0 \<or> lc_block_private_ips c = 1)
     \<and> (lc_allow_private_ips_for_allowed c = 0 \<or> lc_allow_private_ips_for_allowed c = 1)
     \<and> (lc_on_oversize c = NGX_ON_OVERSIZE_PASS \<or> lc_on_oversize c = NGX_ON_OVERSIZE_ERROR)
     \<and> length (str_of (lc_cache_key_template c)) \<le> NGX_MAX_CACHE_KEY_TEMPLATE
     \<and> (\<forall>ch \<in> set (str_of (lc_cache_key_template c)). 32 \<le> byte ch \<and> byte ch \<noteq> 127)
     \<and> (str_of (lc_allowed_hosts c) \<noteq> [] \<longrightarrow> mesi_has_hostname_token (str_of (lc_allowed_hosts c)))"

lemma inherit_range:
  "ngx_tri u \<Longrightarrow> ngx_tri v \<Longrightarrow> ngx_tri (inherit_num u v)"
  "ngx_opt lo hi u \<Longrightarrow> ngx_opt lo hi v \<Longrightarrow> ngx_opt lo hi (inherit_num u v)"
  "-1 \<le> u \<Longrightarrow> -1 \<le> v \<Longrightarrow> -1 \<le> inherit_num u v"
  by (simp_all add: inherit_num_def)

lemma default_range:
  "ngx_tri v \<Longrightarrow> inherit_num 0 v = 0 \<or> inherit_num 0 v = 1"
  "ngx_tri v \<Longrightarrow> inherit_num 1 v = 0 \<or> inherit_num 1 v = 1"
  "ngx_opt 0 hi v \<Longrightarrow> 0 \<le> inherit_num 0 v" "ngx_opt 0 hi v \<Longrightarrow> 0 \<le> inherit_num 5 v"
  "-1 \<le> v \<Longrightarrow> 0 \<le> inherit_num 0 v"
  by (auto simp: inherit_num_def ngx_tri_def ngx_opt_def)

lemma defaults_ok:
  "ngx_tri 0" "ngx_tri 1" "ngx_opt 0 NGX_MAX_MAX_DEPTH NGX_DEFAULT_MAX_DEPTH" "ngx_opt 0 NGX_MAX_MAX_BODY_SIZE 0"
  by (simp_all add: ngx_tri_def ngx_opt_def)

lemma inherit_block_ok: "ngx_block_ok p \<Longrightarrow> ngx_block_ok c \<Longrightarrow> ngx_block_ok (ngx_inherit p c)"
  by (auto simp: ngx_block_ok_def ngx_inherit_def inherit_range)

lemma resolve_block_ok:
  assumes "ngx_block_ok c"
  shows "ngx_block_ok (ngx_resolve c)" "lc_enable_mesi (ngx_resolve c) \<in> {0, 1}"
    "0 \<le> lc_max_depth (ngx_resolve c)" "0 \<le> lc_max_body_size (ngx_resolve c)"
    "0 \<le> lc_cache_redis_db (ngx_resolve c)" "lc_block_private_ips (ngx_resolve c) \<in> {0, 1}"
    "lc_allow_private_ips_for_allowed (ngx_resolve c) \<in> {0, 1}"
    "lc_on_oversize (ngx_resolve c) \<in> {NGX_ON_OVERSIZE_PASS, NGX_ON_OVERSIZE_ERROR}"
proof -
  note ok = assms [unfolded ngx_block_ok_def]
  show "ngx_block_ok (ngx_resolve c)"
    unfolding ngx_block_ok_def using ok
    by (auto simp: ngx_resolve_def inherit_range(1) [OF defaults_ok(1)] inherit_range(1) [OF defaults_ok(2)]
        inherit_range(3) inherit_range(2) [OF defaults_ok(3), unfolded NGX_DEFAULT_MAX_DEPTH_def NGX_MAX_MAX_DEPTH_def]
        inherit_range(2) [OF defaults_ok(4), simplified])
  show "lc_enable_mesi (ngx_resolve c) \<in> {0, 1}" "lc_block_private_ips (ngx_resolve c) \<in> {0, 1}"
    "lc_allow_private_ips_for_allowed (ngx_resolve c) \<in> {0, 1}"
    using ok default_range(1,2) by (simp_all add: ngx_resolve_def)
  show "0 \<le> lc_max_depth (ngx_resolve c)"
    using ok default_range(4) [where hi = NGX_MAX_MAX_DEPTH] by (simp add: ngx_resolve_def)
  show "0 \<le> lc_max_body_size (ngx_resolve c)"
    using ok default_range(3) [where hi = NGX_MAX_MAX_BODY_SIZE] by (simp add: ngx_resolve_def)
  show "0 \<le> lc_cache_redis_db (ngx_resolve c)"
    using ok default_range(5) by (simp add: ngx_resolve_def)
  show "lc_on_oversize (ngx_resolve c) \<in> {NGX_ON_OVERSIZE_PASS, NGX_ON_OVERSIZE_ERROR}"
    using ok by (auto simp: ngx_resolve_def)
qed

lemma merge_conf_ok:
  assumes "ngx_block_ok p" and "ngx_block_ok c" and "ngx_http_mesi_merge_loc_conf p c = (None, conf)"
  shows "ngx_conf_ok conf"
proof -
  have conf: "conf = ngx_merge_values p c" using merge_loc_conf_value [of p c] assms(3) by simp
  have ok: "ngx_block_ok (ngx_inherit p c)" using assms(1,2) by (rule inherit_block_ok)
  note r = resolve_block_ok [OF ok, folded merge_is_resolve, folded conf]
  have "length (str_of (lc_cache_key_template conf)) \<le> NGX_MAX_CACHE_KEY_TEMPLATE
      \<and> (\<forall>ch \<in> set (str_of (lc_cache_key_template conf)). 32 \<le> byte ch \<and> byte ch \<noteq> 127)
      \<and> (str_of (lc_allowed_hosts conf) \<noteq> [] \<longrightarrow> ngx_hosts_scan (str_of (lc_allowed_hosts conf)) \<noteq> [])"
    using assms(3) conf
    by (auto simp: ngx_http_mesi_merge_loc_conf_def Let_def find_None_iff not_less split: if_splits option.splits)
  with r show ?thesis by (simp add: ngx_conf_ok_def hosts_scan_token)
qed

lemma merge_chain_ok:
  assumes "ngx_block_ok p" and "\<forall>c \<in> set cs. ngx_block_ok c" and "cs \<noteq> []" and "ngx_merge_chain p cs = Inr conf"
  shows "ngx_conf_ok conf"
  using assms
proof (induction cs arbitrary: p)
  case (Cons c cs)
  obtain q where m: "ngx_http_mesi_merge_loc_conf p c = (None, q)" and rest: "ngx_merge_chain q cs = Inr conf"
    using Cons.prems(4) by (auto split: prod.splits option.splits)
  have q: "ngx_conf_ok q" using merge_conf_ok [OF _ _ m] Cons.prems by simp
  show ?case
  proof (cases "cs = []")
    case True
    with rest q show ?thesis by simp
  next
    case False
    with Cons.IH [of q] rest q Cons.prems(2) show ?thesis by (simp add: ngx_conf_ok_def)
  qed
qed simp

subsection \<open>Properties\<close>

text \<open>Whatever the directives of the nested blocks, a configuration that loads is valid: every
  number is unset or in range, the depth and the body limit are set, the template is short and
  has no control characters, and a host list, when there is one, names a host for the library.  The number
  of the Redis database is only known not to be negative and the backend may be any text: the
  documented range 0 to 15 and the four documented names are checked by no directive.\<close>

theorem nginx_loaded_config_valid:
  assumes "\<forall>c \<in> set (main # blocks). \<exists>ds. ngx_load_block ngx_http_mesi_create_loc_conf ds = Inr c"
    and "blocks \<noteq> []" and "ngx_merge_chain main blocks = Inr conf"
  shows "ngx_conf_ok conf"
proof -
  have "\<forall>c \<in> set (main # blocks). ngx_block_ok c"
    using assms(1) ngx_load_block_ok [OF block_ok_create] by blast
  with assms(2,3) merge_chain_ok [of main blocks conf] show ?thesis by simp
qed

theorem nginx_loaded_config_valid_witness:
  "ngx_conf_ok (ngx_merge_values ngx_http_mesi_create_loc_conf
     (ngx_http_mesi_create_loc_conf\<lparr>lc_max_depth := 7\<rparr>))"
proof (rule nginx_loaded_config_valid [where main = ngx_http_mesi_create_loc_conf
      and blocks = "[ngx_http_mesi_create_loc_conf\<lparr>lc_max_depth := 7\<rparr>]"])
  have "ngx_load_block ngx_http_mesi_create_loc_conf [] = Inr ngx_http_mesi_create_loc_conf" by simp
  moreover have "ngx_load_block ngx_http_mesi_create_loc_conf [NMaxDepth ''7'']
      = Inr (ngx_http_mesi_create_loc_conf\<lparr>lc_max_depth := 7\<rparr>)"
    by (simp add: ngx_http_mesi_set_max_depth_def ngx_http_mesi_create_loc_conf_def is_digit_def
        digit_val_def)
  ultimately show "\<forall>c \<in> set (ngx_http_mesi_create_loc_conf # [ngx_http_mesi_create_loc_conf\<lparr>lc_max_depth := 7\<rparr>]).
      \<exists>ds. ngx_load_block ngx_http_mesi_create_loc_conf ds = Inr c"
    by (simp only: list.set ball_simps insert_iff empty_iff simp_thms) blast
  show "ngx_merge_chain ngx_http_mesi_create_loc_conf [ngx_http_mesi_create_loc_conf\<lparr>lc_max_depth := 7\<rparr>]
    = Inr (ngx_merge_values ngx_http_mesi_create_loc_conf (ngx_http_mesi_create_loc_conf\<lparr>lc_max_depth := 7\<rparr>))"
    by (simp add: ngx_http_mesi_merge_loc_conf_def ngx_merge_values_def ngx_merge_str_value_def
        ngx_http_mesi_create_loc_conf_def str_of_def)
qed simp

text \<open>The merge of nginx refines plain inheritance: the configuration of a location is the
  inheritance of all blocks around it, outermost first, with the defaults filled in once for
  what no block sets, although the code fills them in at every level.\<close>

theorem nginx_merge_refines_inheritance:
  assumes "ngx_merge_chain main (blocks @ [location]) = Inr conf"
  shows "conf = ngx_resolve (ngx_scopes.effective (main # blocks @ [location]))"
  using assms by (rule merge_chain_refines)

theorem nginx_merge_refines_inheritance_witness:
  "ngx_merge_values ngx_http_mesi_create_loc_conf (ngx_http_mesi_create_loc_conf\<lparr>lc_max_depth := 7\<rparr>)
   = ngx_resolve (ngx_scopes.effective
       (ngx_http_mesi_create_loc_conf # [] @ [ngx_http_mesi_create_loc_conf\<lparr>lc_max_depth := 7\<rparr>]))"
  by (rule nginx_merge_refines_inheritance)
     (simp add: ngx_http_mesi_merge_loc_conf_def ngx_merge_values_def ngx_merge_str_value_def
        ngx_http_mesi_create_loc_conf_def str_of_def)

text \<open>Each numeric setter of nginx stores exactly the value of a digits-only argument in its
  range, on an unset field, and rejects everything else without touching the configuration.\<close>

theorem nginx_setters_exact:
  "(ngx_http_mesi_set_max_depth c a = (None, c') \<longleftrightarrow>
      lc_max_depth c = -1 \<and> (\<exists>ds. plain_digits a = Some ds \<and> int (digits_val ds) \<le> 10000
        \<and> c' = c\<lparr>lc_max_depth := int (digits_val ds)\<rparr>))
   \<and> (ngx_http_mesi_set_timeout c a = (None, c') \<longleftrightarrow>
      lc_timeout_seconds c = -1 \<and> (\<exists>ds. plain_digits a = Some ds \<and> 1 \<le> int (digits_val ds)
        \<and> int (digits_val ds) \<le> 86400 \<and> c' = c\<lparr>lc_timeout_seconds := int (digits_val ds)\<rparr>))
   \<and> (ngx_http_mesi_set_max_body_size c a = (None, c') \<longleftrightarrow>
      lc_max_body_size c = -1 \<and> (\<exists>ds. plain_digits a = Some ds
        \<and> int (digits_val ds) \<le> 9223372036854775806 \<and> c' = c\<lparr>lc_max_body_size := int (digits_val ds)\<rparr>))
   \<and> (fst (ngx_http_mesi_set_max_body_size c a) \<noteq> None \<longrightarrow> snd (ngx_http_mesi_set_max_body_size c a) = c)"
proof (intro conjI)
  show "fst (ngx_http_mesi_set_max_body_size c a) \<noteq> None \<longrightarrow> snd (ngx_http_mesi_set_max_body_size c a) = c"
    unfolding setters_parse by (simp add: set_field_def split: sum.split)
qed (simp_all add: setters_parse set_cap_exact set_guard_exact)

theorem nginx_setters_exact_witness:
  "let c = ngx_http_mesi_create_loc_conf; c' = c\<lparr>lc_max_depth := 7\<rparr>; a = ''7''
   in (ngx_http_mesi_set_max_depth c a = (None, c') \<longleftrightarrow>
      lc_max_depth c = -1 \<and> (\<exists>ds. plain_digits a = Some ds \<and> int (digits_val ds) \<le> 10000
        \<and> c' = c\<lparr>lc_max_depth := int (digits_val ds)\<rparr>))
   \<and> (ngx_http_mesi_set_timeout c a = (None, c') \<longleftrightarrow>
      lc_timeout_seconds c = -1 \<and> (\<exists>ds. plain_digits a = Some ds \<and> 1 \<le> int (digits_val ds)
        \<and> int (digits_val ds) \<le> 86400 \<and> c' = c\<lparr>lc_timeout_seconds := int (digits_val ds)\<rparr>))
   \<and> (ngx_http_mesi_set_max_body_size c a = (None, c') \<longleftrightarrow>
      lc_max_body_size c = -1 \<and> (\<exists>ds. plain_digits a = Some ds
        \<and> int (digits_val ds) \<le> 9223372036854775806 \<and> c' = c\<lparr>lc_max_body_size := int (digits_val ds)\<rparr>))
   \<and> (fst (ngx_http_mesi_set_max_body_size c a) \<noteq> None \<longrightarrow> snd (ngx_http_mesi_set_max_body_size c a) = c)"
  unfolding Let_def by (rule nginx_setters_exact)

end
