(* ===== verification/Ngx_Json_Lemmas.thy ===== *)
theory Ngx_Json_Lemmas
  imports Ngx_Json Ngx_Config_Lemmas
begin

text \<open>
  Proofs about the writers of the nginx module: the escaping helpers are the shared string
  quoter, the two passes of every writer agree, and what is written reads back.
\<close>

subsection \<open>Helpers\<close>

lemma write_escaped_eq: "mesi_json_write_escaped s = concat (map escape_byte s)"
  by (induction s) (auto simp: escape_byte_def)

lemma append_str_eq: "mesi_json_append_str s = quote_full s"
  by (simp add: mesi_json_append_str_def write_escaped_eq mesi_json_string_def)

lemma escaped_len_exact: "mesi_json_escaped_len s = length (mesi_json_write_escaped s)"
  by (induction s) auto

lemma length_append_str: "length (mesi_json_append_str s) = 2 + mesi_json_escaped_len s"
  by (simp add: mesi_json_append_str_def escaped_len_exact)

lemma rev_uint_digits: "0 \<le> v \<Longrightarrow> rev (uint_digits v) = show_nat (nat v)"
proof (induction v rule: uint_digits.induct)
  case (1 v)
  have m: "v - v div 10 * 10 = v mod 10" by (simp add: minus_div_mult_eq_mod)
  have d: "char_of (nat (48 + v mod 10)) = digit_char (nat v mod 10)"
    using 1(2) by (simp add: digit_char_def nat_add_distrib nat_mod_distrib)
  have w: "(48 + v mod 10) mod 256 = 48 + v mod 10"
    by (intro mod_pos_pos_trivial) (auto intro: order.strict_trans2)
  show ?case
  proof (cases "v div 10 > 0")
    case True
    then have "\<not> nat v < 10" by linarith
    moreover have "nat (v div 10) = nat v div 10" by (simp add: nat_div_distrib)
    ultimately show ?thesis
      using 1 True by (subst uint_digits.simps, subst show_nat.simps) (simp add: m d w)
  next
    case False
    then have "nat v < 10" using 1(2) by linarith
    with False 1(2) show ?thesis
      by (subst uint_digits.simps, subst show_nat.simps)
         (simp add: digit_char_def nat_add_distrib mod_pos_pos_trivial)
  qed
qed

lemma write_uint_eq: "0 \<le> v \<Longrightarrow> mesi_json_write_uint v = show_int v"
  by (simp add: mesi_json_write_uint_def show_int_def rev_uint_digits)

lemma write_off_eq: "0 \<le> v \<Longrightarrow> mesi_json_write_off v = show_int v"
  by (simp add: mesi_json_write_off_def show_int_def rev_uint_digits)

lemma uint_len_exact: "0 \<le> v \<Longrightarrow> mesi_json_uint_len v = length (show_int v)"
proof -
  have "0 \<le> v \<Longrightarrow> mesi_json_uint_len v = length (show_nat (nat v))" for v
  proof (induction v rule: mesi_json_uint_len.induct)
    case (1 v)
    have "nat (v div 10) = nat v div 10" using 1(2) by (simp add: nat_div_distrib)
    with 1 show ?case
      by (subst mesi_json_uint_len.simps, subst show_nat.simps) (auto simp: nat_less_iff)
  qed
  then show "0 \<le> v \<Longrightarrow> ?thesis" by (simp add: show_int_def)
qed

lemma off_len_exact: "0 \<le> v \<Longrightarrow> mesi_json_off_len v = length (show_int v)"
  by (simp add: mesi_json_off_len_def uint_len_exact)

text \<open>The local array of twenty digits is large enough for every 64-bit value.\<close>

lemma uint_digits_fit: "0 \<le> v \<Longrightarrow> v < 2 ^ 63 \<Longrightarrow> length (uint_digits v) \<le> 19"
proof -
  assume v: "0 \<le> v" "v < 2 ^ 63"
  then have "length (show_nat (nat v)) \<le> 19" by (intro length_show_nat_le) (auto simp: nat_less_iff)
  with rev_uint_digits [OF v(1)] show ?thesis by (metis length_rev)
qed

lemma ngx_contains_eq: "ngx_http_mesi_contains s t = contains s t"
proof
  assume "ngx_http_mesi_contains s t"
  then have "\<exists>i. take (length t) (drop i s) = t"
    by (simp only: ngx_http_mesi_contains_def Let_def split: if_splits) blast+
  then obtain i where i: "take (length t) (drop i s) = t" by blast
  have "s = take i s @ take (length t) (drop i s) @ drop (length t) (drop i s)"
    by (simp only: append_take_drop_id)
  with i show "contains s t" unfolding contains_iff by metis
next
  assume "contains s t"
  then obtain u v where s: "s = u @ t @ v" by (auto simp: contains_iff)
  have u: "length u \<in> set [0..<length s - length t + 1]" and t: "take (length t) (drop (length u) s) = t"
    by (auto simp: s)
  have "\<not> length s < length t" by (simp add: s)
  then show "ngx_http_mesi_contains s t"
    unfolding ngx_http_mesi_contains_def Let_def using u t by (simp only: if_False) (rule bexI)
qed

lemma put_bytes_overflow: "cap b < length (bytes b) + length s \<Longrightarrow> length (bytes b) \<le> cap b \<Longrightarrow> put_bytes s b = None"
  by (induction s arbitrary: b) auto

lemma write_chunks_exact:
  "length (concat chunks) \<le> n \<Longrightarrow> write_chunks n chunks = Some (butlast (concat chunks))"
proof -
  have "run_all (map put_bytes chunks) b = Some (b\<lparr>bytes := bytes b @ concat chunks\<rparr>)"
    if "length (bytes b) + length (concat chunks) \<le> cap b" for b
    using that
    by (induction chunks arbitrary: b) (simp_all add: run_all.simps put_bytes_fits)
  then show "length (concat chunks) \<le> n \<Longrightarrow> ?thesis" by (simp add: write_chunks_def)
qed

subsection \<open>The request context\<close>

fun ngx_kept_headers :: "ngx_header list \<Rightarrow> (string \<times> json) list" where
  "ngx_kept_headers [] = []"
| "ngx_kept_headers ((hash, key, val) # hs) =
     (if hash = 0 \<or> strcaseeq key ''Cookie'' then ngx_kept_headers hs
      else (key, JStr val) # ngx_kept_headers hs)"

definition ngx_ctx_value :: "ngx_header list \<Rightarrow> json" where
  "ngx_ctx_value headers =
    JObj [(''headers'', JObj (ngx_kept_headers headers)),
          (''cookies'', JArr (map cookie_json
             (concat (map (\<lambda>(hash, key, val). cookie_pairs val)
                (filter (\<lambda>(hash, key, val). hash \<noteq> 0 \<and> strcaseeq key ''Cookie'') headers)))))]"

definition ngx_wants_ctx :: "string \<Rightarrow> bool" where
  "ngx_wants_ctx t \<longleftrightarrow> contains t ''${header:'' \<or> contains t ''${cookie:''"

lemma is_cookie_iff: "ngx_is_cookie key \<longleftrightarrow> strcaseeq key ''Cookie''"
proof -
  have "map lower ''cookie'' = map lower ''Cookie''" by code_simp
  then have "strcaseeq key ''cookie'' = strcaseeq key ''Cookie''" by (simp only: strcaseeq_def)
  then show ?thesis
    using strcaseeq_length [of key "''Cookie''"]
    by (auto simp: ngx_is_cookie_def strncaseeq_def)
qed

lemma all_cookies_eq: "all_cookies headers =
    concat (map (\<lambda>(hash, key, val). cookie_pairs val)
      (filter (\<lambda>(hash, key, val). hash \<noteq> 0 \<and> strcaseeq key ''Cookie'') headers))"
  by (induction headers rule: all_cookies.induct) (simp_all add: is_cookie_iff ngx_cookies_def)

lemma header_chunks_text:
  "concat (header_chunks headers n) =
     sep_text (n = 0) (map (\<lambda>(k, v). quote_full k @ '':'' @ render quote_full v) (ngx_kept_headers headers))"
  by (induction headers n rule: header_chunks.induct)
     (simp_all add: is_cookie_iff sep_text_Cons append_str_eq)

lemma cookie_chunks_text:
  "concat (cookie_chunks cs n) = sep_text (n = 0) (map (\<lambda>c. render quote_full (cookie_json c)) cs)"
  by (induction cs n rule: cookie_chunks.induct)
     (simp_all add: sep_text_Cons append_str_eq cookie_json_def key_quotes)

text \<open>The first pass counts what the second one writes.\<close>

lemma cookie_chunks_append:
  "cookie_chunks (cs @ ds) n = cookie_chunks cs n @ cookie_chunks ds (n + length cs)"
  by (induction cs n rule: cookie_chunks.induct) simp_all

lemma measure_cookies_exact:
  "measure_cookies cs sz n = (sz + length (concat (cookie_chunks cs n)), n + length cs)"
  by (induction cs sz n rule: measure_cookies.induct) (simp_all add: length_append_str)

lemma measure_headers_exact:
  "measure_headers headers sz nh nc =
     sz + length (concat (header_chunks headers nh)) + length (concat (cookie_chunks (all_cookies headers) nc))"
  by (induction headers sz nh nc rule: measure_headers.induct)
     (simp_all add: measure_cookies_exact length_append_str cookie_chunks_append)

lemma ngx_ctx_exact:
  assumes "ngx_wants_ctx template"
  shows "ngx_build_request_ctx_json headers template = Some (render quote_full (ngx_ctx_value headers))"
proof -
  let ?chunks = "[''{\"headers\":{''] @ header_chunks headers 0 @ [''},\"cookies\":['']
             @ cookie_chunks (all_cookies headers) 0 @ ['']'', ''}'', [CHR 0x00]]"
  have "template \<noteq> []" using assms by (auto simp: ngx_wants_ctx_def)
  then have "ngx_build_request_ctx_json headers template
      = write_chunks (measure_headers headers (12 + 13 + 2 + 1) 0 0) ?chunks"
    using assms by (simp add: ngx_build_request_ctx_json_def ngx_contains_eq ngx_wants_ctx_def)
  also have "\<dots> = Some (butlast (concat ?chunks))"
    by (rule write_chunks_exact) (simp add: measure_headers_exact)
  also have "butlast (concat ?chunks) = render quote_full (ngx_ctx_value headers)"
    by (simp add: header_chunks_text cookie_chunks_text all_cookies_eq ngx_ctx_value_def
        key_quotes sep_text_def butlast_append comp_def)
  finally show ?thesis .
qed

lemma ngx_ctx_none: "\<not> ngx_wants_ctx template \<Longrightarrow> ngx_build_request_ctx_json headers template = Some []"
  by (simp add: ngx_build_request_ctx_json_def ngx_contains_eq ngx_wants_ctx_def)

subsection \<open>The ParseJson blob\<close>

text \<open>What the blob has to say; unlike Apache, an empty marker is rendered when it is set.\<close>

definition ngx_blob_members :: "ngx_loc_conf \<Rightarrow> int \<Rightarrow> string \<Rightarrow> string \<Rightarrow> json option \<Rightarrow> (string \<times> json) list" where
  "ngx_blob_members lcf depth base_url hosts ctx =
     [(''maxDepth'', JInt depth), (''defaultUrl'', JStr base_url), (''allowedHosts'', JStr hosts),
      (''blockPrivateIPs'', JBool (lc_block_private_ips lcf \<noteq> 0)),
      (''allowPrivateIPsForAllowedHosts'', JBool (lc_allow_private_ips_for_allowed lcf \<noteq> 0))]
     @ opt_member (lc_timeout_seconds lcf \<noteq> -1) ''timeoutSeconds'' (JInt (lc_timeout_seconds lcf))
     @ opt_member (lc_max_response_size lcf \<noteq> -1) ''maxResponseSize'' (JInt (lc_max_response_size lcf))
     @ opt_member (lc_max_concurrent_requests lcf \<noteq> -1) ''maxConcurrentRequests''
         (JInt (lc_max_concurrent_requests lcf))
     @ opt_member (lc_max_workers lcf \<noteq> -1) ''maxWorkers'' (JInt (lc_max_workers lcf))
     @ opt_member (lc_debug lcf \<noteq> -1) ''debug'' (JBool (lc_debug lcf \<noteq> 0))
     @ opt_member (lc_parse_on_header lcf \<noteq> -1) ''parseOnHeader'' (JBool (lc_parse_on_header lcf \<noteq> 0))
     @ opt_member (lc_include_error_marker lcf \<noteq> None) ''includeErrorMarker''
         (JStr (str_of (lc_include_error_marker lcf)))
     @ opt_member (str_of (lc_cache_key_template lcf) \<noteq> []) ''cacheKeyTemplate''
         (JStr (str_of (lc_cache_key_template lcf)))
     @ (case ctx of None \<Rightarrow> [] | Some j \<Rightarrow>
          opt_member (str_of (lc_cache_key_template lcf) \<noteq> []) ''requestCtx'' j)"

text \<open>The numbers of a blob are written by routines for values that are not negative.\<close>

definition blob_numbers_ok :: "ngx_loc_conf \<Rightarrow> int \<Rightarrow> bool" where
  "blob_numbers_ok lcf depth \<longleftrightarrow> 0 \<le> depth \<and> -1 \<le> lc_timeout_seconds lcf
     \<and> -1 \<le> lc_max_response_size lcf \<and> -1 \<le> lc_max_concurrent_requests lcf \<and> -1 \<le> lc_max_workers lcf"

lemma ngx_opt_lower: "ngx_opt lo hi v \<Longrightarrow> 0 \<le> lo \<Longrightarrow> -1 \<le> v"
  by (auto simp: ngx_opt_def)

lemma conf_ok_numbers:
  assumes "ngx_conf_ok lcf"
  shows "blob_numbers_ok lcf (lc_max_depth lcf)"
proof -
  have "0 \<le> lc_max_depth lcf" and ok: "ngx_block_ok lcf" using assms by (simp_all add: ngx_conf_ok_def)
  moreover have "-1 \<le> lc_timeout_seconds lcf" "-1 \<le> lc_max_response_size lcf"
    "-1 \<le> lc_max_concurrent_requests lcf" "-1 \<le> lc_max_workers lcf"
    using ok unfolding ngx_block_ok_def by (blast intro: ngx_opt_lower zero_le_one order_refl)+
  ultimately show ?thesis by (simp only: blob_numbers_ok_def simp_thms)
qed

lemma bool_len_exact: "bool_len b = length (bool_text b)"
  by (simp add: bool_len_def bool_text_def)

lemma length_optional: "length (concat (if b then xs else [])) = (if b then length (concat xs) else 0)"
  by simp

lemma concat_optional: "concat (if b then xs else []) = (if b then concat xs else [])"
  by simp

lemma blob_measured:
  assumes "blob_numbers_ok lcf depth"
  shows "blob_total lcf depth base_url hosts ctx = length (concat (blob_chunks lcf depth base_url hosts ctx))"
proof -
  have u: "mesi_json_uint_len v = length (mesi_json_write_uint v)"
    "mesi_json_off_len v = length (mesi_json_write_off v)" if "-1 \<le> v" "v \<noteq> -1" for v
    using that by (simp_all add: uint_len_exact off_len_exact write_uint_eq write_off_eq)
  have d: "mesi_json_uint_len depth = length (mesi_json_write_uint depth)"
    using assms by (simp add: blob_numbers_ok_def uint_len_exact write_uint_eq)
  have "lc_timeout_seconds lcf \<noteq> -1 \<Longrightarrow>
          mesi_json_uint_len (lc_timeout_seconds lcf) = length (mesi_json_write_uint (lc_timeout_seconds lcf))"
    "lc_max_response_size lcf \<noteq> -1 \<Longrightarrow>
          mesi_json_off_len (lc_max_response_size lcf) = length (mesi_json_write_off (lc_max_response_size lcf))"
    "lc_max_concurrent_requests lcf \<noteq> -1 \<Longrightarrow>
          mesi_json_uint_len (lc_max_concurrent_requests lcf)
            = length (mesi_json_write_uint (lc_max_concurrent_requests lcf))"
    "lc_max_workers lcf \<noteq> -1 \<Longrightarrow>
          mesi_json_uint_len (lc_max_workers lcf) = length (mesi_json_write_uint (lc_max_workers lcf))"
    using assms u by (auto simp: blob_numbers_ok_def)
  with d show ?thesis
    unfolding blob_total_def blob_chunks_def Let_def concat_append length_append length_optional
    by (simp add: bool_len_exact length_append_str cong: if_cong split del: if_split)
qed

lemma blob_chunks_render:
  assumes "blob_numbers_ok lcf depth" and "ctx_text (Some ctx) j"
  shows "concat (blob_chunks lcf depth base_url hosts ctx)
    = render quote_full (JObj (ngx_blob_members lcf depth base_url hosts j)) @ [CHR 0x00]"
proof -
  have n: "mesi_json_write_uint depth = show_int depth"
    "lc_timeout_seconds lcf \<noteq> -1 \<Longrightarrow> mesi_json_write_uint (lc_timeout_seconds lcf) = show_int (lc_timeout_seconds lcf)"
    "lc_max_response_size lcf \<noteq> -1 \<Longrightarrow> mesi_json_write_off (lc_max_response_size lcf) = show_int (lc_max_response_size lcf)"
    "lc_max_concurrent_requests lcf \<noteq> -1 \<Longrightarrow>
       mesi_json_write_uint (lc_max_concurrent_requests lcf) = show_int (lc_max_concurrent_requests lcf)"
    "lc_max_workers lcf \<noteq> -1 \<Longrightarrow> mesi_json_write_uint (lc_max_workers lcf) = show_int (lc_max_workers lcf)"
    using assms(1) by (simp_all add: blob_numbers_ok_def write_uint_eq write_off_eq)
  have b: "bool_text v = (if v \<noteq> 0 then ''true'' else ''false'')" for v by (simp add: bool_text_def)
  show ?thesis
  proof (cases j)
    case None
    with assms(2) have "ctx = []" by (simp add: ctx_text_def nonempty_def)
    with None n show ?thesis
      unfolding blob_chunks_def Let_def concat_append concat_optional
      by (simp add: ngx_blob_members_def commas_Cons concat_opt_member key_quotes append_str_eq b
          cong: if_cong split del: if_split)
  next
    case (Some v)
    with assms(2) nonempty_render [of v] have "ctx = render quote_full v" "ctx \<noteq> []"
      by (simp_all add: ctx_text_def nonempty_def)
    with Some n show ?thesis
      unfolding blob_chunks_def Let_def concat_append concat_optional
      by (simp add: ngx_blob_members_def commas_Cons concat_opt_member key_quotes append_str_eq b
          cong: if_cong split del: if_split)
  qed
qed

lemma ngx_blob_exact:
  assumes "blob_numbers_ok lcf depth" and "ctx_text (Some ctx) j"
  shows "ngx_build_parse_json_config lcf depth base_url hosts ctx
    = Some (render quote_full (JObj (ngx_blob_members lcf depth base_url hosts j)))"
proof -
  have "ngx_build_parse_json_config lcf depth base_url hosts ctx
      = Some (butlast (concat (blob_chunks lcf depth base_url hosts ctx)))"
    unfolding ngx_build_parse_json_config_def
    by (rule write_chunks_exact) (simp only: blob_measured [OF assms(1)] order_refl)
  then show ?thesis by (simp only: blob_chunks_render [OF assms] butlast_snoc)
qed

subsection \<open>The cache configuration blobs\<close>

text \<open>The server list by its specification: the non-empty parts between blanks.\<close>

fun split_blanks :: "string \<Rightarrow> string list" where
  "split_blanks [] = [[]]"
| "split_blanks (c # cs) =
     (if c = CHR '' '' then [] # split_blanks cs
      else case split_blanks cs of [] \<Rightarrow> [[c]] | x # xs \<Rightarrow> (c # x) # xs)"

definition server_words :: "string \<Rightarrow> string list" where
  "server_words s = filter (\<lambda>w. w \<noteq> []) (split_blanks s)"

lemma split_blanks_span:
  "split_blanks s = takeWhile (\<lambda>c. c \<noteq> CHR '' '') s #
     (case dropWhile (\<lambda>c. c \<noteq> CHR '' '') s of [] \<Rightarrow> [] | x # xs \<Rightarrow> split_blanks xs)"
  by (induction s) auto

lemma server_words_blank: "server_words (CHR '' '' # s) = server_words s"
  by (simp add: server_words_def)

lemma server_words_skip: "server_words (dropWhile (\<lambda>c. c = CHR '' '') s) = server_words s"
  by (induction s) (auto simp: server_words_blank)

lemma server_words_word:
  assumes "c \<noteq> CHR '' ''"
  shows "server_words (c # s) = (c # takeWhile (\<lambda>c. c \<noteq> CHR '' '') s)
    # server_words (dropWhile (\<lambda>c. c \<noteq> CHR '' '') s)"
proof -
  have drop: "server_words (dropWhile (\<lambda>c. c \<noteq> CHR '' '') s)
      = filter (\<lambda>w. w \<noteq> []) (case dropWhile (\<lambda>c. c \<noteq> CHR '' '') s of [] \<Rightarrow> [] | x # xs \<Rightarrow> split_blanks xs)"
  proof (cases "dropWhile (\<lambda>c. c \<noteq> CHR '' '') s")
    case Nil
    show ?thesis unfolding Nil by (simp add: server_words_def)
  next
    case (Cons x xs)
    then have "x = CHR '' ''" using dropWhile_hd by fastforce
    then show ?thesis unfolding Cons by (simp add: server_words_def)
  qed
  have "dropWhile (\<lambda>c. c \<noteq> CHR '' '') (c # s) = dropWhile (\<lambda>c. c \<noteq> CHR '' '') s"
    and "takeWhile (\<lambda>c. c \<noteq> CHR '' '') (c # s) = c # takeWhile (\<lambda>c. c \<noteq> CHR '' '') s"
    using assms by simp_all
  then show ?thesis
    unfolding drop unfolding server_words_def split_blanks_span [of "c # s"] using assms by simp
qed

lemma count_in_token: "count_tokens s True = count_tokens (dropWhile (\<lambda>c. c \<noteq> CHR '' '') s) False"
  by (induction s) auto

lemma count_skip: "count_tokens (dropWhile (\<lambda>c. c = CHR '' '') s) False = count_tokens s False"
  by (induction s) auto

lemma take_tokens_words: "take_tokens (count_tokens s False) s = server_words s"
proof (induction s rule: length_induct)
  case (1 s)
  show ?case
  proof (cases "dropWhile (\<lambda>c. c = CHR '' '') s")
    case Nil
    have "count_tokens s False = 0" and "server_words s = []"
      using count_skip [of s] server_words_skip [of s] unfolding Nil by (simp_all add: server_words_def)
    then show ?thesis by simp
  next
    case (Cons c cs)
    let ?rest = "dropWhile (\<lambda>c. c \<noteq> CHR '' '') cs"
    have c: "c \<noteq> CHR '' ''" using Cons dropWhile_hd by fastforce
    have n: "count_tokens s False = Suc (count_tokens ?rest False)"
      using c count_skip [of s] by (simp add: Cons count_in_token)
    have w: "server_words s = (c # takeWhile (\<lambda>c. c \<noteq> CHR '' '') cs) # server_words ?rest"
      using server_words_skip [of s] server_words_word [OF c, of cs] by (simp add: Cons)
    have "length ?rest \<le> length cs" by (rule length_dropWhile_le)
    also have "\<dots> < length (c # cs)" by simp
    also have "\<dots> \<le> length s" using length_dropWhile_le [of "\<lambda>c. c = CHR '' ''" s] by (simp add: Cons)
    finally have "take_tokens (count_tokens ?rest False) ?rest = server_words ?rest" using 1 by blast
    with c show ?thesis by (simp add: n w Cons)
  qed
qed

lemma server_chunks_text: "concat (server_chunks ts first) = sep_text first (map quote_min ts)"
  by (induction ts first rule: server_chunks.induct) (simp_all add: sep_text_Cons)

lemma server_chunks_fit:
  "length (concat (server_chunks ts True)) \<le> (if length ts > 1 then length ts - 1 else 0)
     + sum_list (map (\<lambda>t. length t * 2 + 2) ts)"
proof -
  have q: "length (quote_min t) \<le> length t * 2 + 2" for t using quote_min_fits [of t] by simp
  have rest: "length (concat (server_chunks ts False)) \<le> length ts + sum_list (map (\<lambda>t. length t * 2 + 2) ts)" for ts
  proof (induction ts)
    case (Cons t ts)
    with q [of t] show ?case by simp
  qed simp
  show ?thesis
  proof (cases ts)
    case (Cons t us)
    with q [of t] rest [of us] show ?thesis by simp
  qed simp
qed

definition memcached_servers_of :: "ngx_loc_conf \<Rightarrow> string list" where
  "memcached_servers_of lcf = server_words (ngx_str_to_cstr (str_of (lc_cache_memcached_servers lcf)))"

lemma count_is_length: "count_tokens s False = length (server_words s)"
proof -
  have "length (take_tokens n q) = n" for n q by (induction n q rule: take_tokens.induct) (simp_all add: Let_def)
  from this [of "count_tokens s False" s] show ?thesis by (simp add: take_tokens_words)
qed

lemma take_words: "take_tokens (length (server_words s)) s = server_words s"
  using take_tokens_words [of s] by (simp only: count_is_length)

lemma ngx_memcached_exact:
  "ngx_build_memcached_config_json lcf
     = Some (render quote_min (JObj [(''servers'', JArr (map JStr (memcached_servers_of lcf)))]))"
proof (cases "str_of (lc_cache_memcached_servers lcf) = []")
  case True
  then show ?thesis
    by (simp add: ngx_build_memcached_config_json_def memcached_servers_of_def ngx_str_to_cstr_def
        server_words_def key_quotes)
next
  case False
  let ?s = "ngx_str_to_cstr (str_of (lc_cache_memcached_servers lcf))"
  let ?ts = "memcached_servers_of lcf"
  let ?chunks = "[''{\"servers\":[''] @ server_chunks ?ts True @ ['']'', ''}'', [CHR 0x00]]"
  have "ngx_build_memcached_config_json lcf = write_chunks ((12 + 2 + 1)
      + (if length ?ts > 1 then length ?ts - 1 else 0) + sum_list (map (\<lambda>t. length t * 2 + 2) ?ts)) ?chunks"
    using False
    unfolding ngx_build_memcached_config_json_def Let_def count_is_length take_words
      memcached_servers_of_def by (simp only: if_False)
  also have "\<dots> = Some (butlast (concat ?chunks))"
    by (rule write_chunks_exact) (use server_chunks_fit [of ?ts] in simp)
  also have "butlast (concat ?chunks) = render quote_min (JObj [(''servers'', JArr (map JStr ?ts))])"
    by (simp add: server_chunks_text key_quotes sep_text_def butlast_append comp_def)
  finally show ?thesis .
qed

definition ngx_redis_addr :: "ngx_loc_conf \<Rightarrow> string" where
  "ngx_redis_addr lcf = (if str_of (lc_cache_redis_addr lcf) \<noteq> []
     then ngx_str_to_cstr (str_of (lc_cache_redis_addr lcf)) else ''localhost:6379'')"

definition ngx_redis_password :: "ngx_loc_conf \<Rightarrow> string" where
  "ngx_redis_password lcf = ngx_str_to_cstr (str_of (lc_cache_redis_password lcf))"

definition ngx_redis_db :: "ngx_loc_conf \<Rightarrow> int" where
  "ngx_redis_db lcf = s32 (max 0 (lc_cache_redis_db lcf))"

definition ngx_redis_value :: "ngx_loc_conf \<Rightarrow> json" where
  "ngx_redis_value lcf =
    JObj [(''redisAddr'', JStr (ngx_redis_addr lcf)), (''redisPassword'', JStr (ngx_redis_password lcf)),
          (''redisDB'', JInt (ngx_redis_db lcf))]"

text \<open>
  The allocation leaves two bytes for the database number; every byte of the address and the
  password that needs no escape leaves one more.
\<close>

definition plain_bytes :: "string \<Rightarrow> nat" where
  "plain_bytes s = length (filter (\<lambda>c. c \<noteq> CHR 0x22 \<and> c \<noteq> CHR 0x5C) s)"

definition ngx_redis_fits :: "ngx_loc_conf \<Rightarrow> bool" where
  "ngx_redis_fits lcf \<longleftrightarrow> length (show_int (ngx_redis_db lcf))
     \<le> 2 + plain_bytes (ngx_redis_addr lcf) + plain_bytes (ngx_redis_password lcf)"

lemma plain_bytes_escaped: "length (concat (map escape_min s)) + plain_bytes s = length s * 2"
  by (induction s) (simp_all add: plain_bytes_def escape_min_def)

lemma ngx_redis_exact:
  "ngx_build_redis_config_json lcf
     = (if ngx_redis_fits lcf then Some (render quote_min (ngx_redis_value lcf)) else None)"
proof -
  let ?a = "ngx_redis_addr lcf" and ?p = "ngx_redis_password lcf"
  let ?e = "\<lambda>s. concat (map escape_min s)"
  let ?head = "''{\"redisAddr\":\"'' @ ?e ?a @ ''\",\"redisPassword\":\"'' @ ?e ?p"
  let ?tail = "''\",\"redisDB\":'' @ show_int (ngx_redis_db lcf) @ ''}''"
  have db: "s32 (if lc_cache_redis_db lcf < 0 then 0 else lc_cache_redis_db lcf) = ngx_redis_db lcf"
    by (simp add: ngx_redis_db_def max_def)
  have "ngx_build_redis_config_json lcf
      = (if length ?head \<le> 49 + length ?a * 2 + length ?p * 2
            \<and> length ?head + length ?tail < 49 + length ?a * 2 + length ?p * 2
         then Some (?head @ ?tail) else None)"
    unfolding ngx_build_redis_config_json_def Let_def db
    by (simp only: ngx_redis_addr_def ngx_redis_password_def)
  moreover have "length ?head \<le> 49 + length ?a * 2 + length ?p * 2
      \<and> length ?head + length ?tail < 49 + length ?a * 2 + length ?p * 2 \<longleftrightarrow> ngx_redis_fits lcf"
    using plain_bytes_escaped [of ?a] plain_bytes_escaped [of ?p]
    by (simp add: ngx_redis_fits_def) linarith
  moreover have "?head @ ?tail = render quote_min (ngx_redis_value lcf)"
    by (simp add: ngx_redis_value_def key_quotes quote_min_def [of ?a] quote_min_def [of ?p])
  ultimately show ?thesis by simp
qed

lemma redis_documented_fits: "lc_cache_redis_db lcf \<le> 15 \<Longrightarrow> ngx_redis_fits lcf"
proof -
  assume "lc_cache_redis_db lcf \<le> 15"
  then have db: "0 \<le> ngx_redis_db lcf" "ngx_redis_db lcf \<le> 15" by (auto simp: ngx_redis_db_def max_def)
  then have "length (show_int (ngx_redis_db lcf)) \<le> 2"
    unfolding show_int_def by (simp add: length_show_nat_le nat_less_iff)
  then show ?thesis by (simp add: ngx_redis_fits_def)
qed

subsection \<open>The two servers write the same texts\<close>

definition apache_view :: "ngx_loc_conf \<Rightarrow> int \<Rightarrow> string \<Rightarrow> string \<Rightarrow> string \<Rightarrow> parse_json_config" where
  "apache_view lcf depth base_url hosts ctx =
    \<lparr> pj_depth = depth, pj_base_url = Some base_url, pj_allowed_hosts = Some hosts,
      pj_block_private_ips = lc_block_private_ips lcf,
      pj_allow_private_for_allowed = lc_allow_private_ips_for_allowed lcf,
      pj_request_ctx_json = Some ctx, pj_timeout_seconds = lc_timeout_seconds lcf,
      pj_max_response_size = lc_max_response_size lcf,
      pj_max_concurrent_requests = lc_max_concurrent_requests lcf, pj_max_workers = lc_max_workers lcf,
      pj_debug = lc_debug lcf, pj_parse_on_header = lc_parse_on_header lcf,
      pj_include_error_marker = lc_include_error_marker lcf,
      pj_cache_key_template = lc_cache_key_template lcf \<rparr>"

lemma members_agree:
  assumes "lc_include_error_marker lcf \<noteq> Some []"
  shows "ngx_blob_members lcf depth base_url hosts j = blob_members (apache_view lcf depth base_url hosts ctx) j"
proof -
  have "nonempty s \<longleftrightarrow> str_of s \<noteq> []" for s by (cases s) (simp_all add: nonempty_def str_of_def)
  moreover have "nonempty (lc_include_error_marker lcf) \<longleftrightarrow> lc_include_error_marker lcf \<noteq> None"
    using assms by (cases "lc_include_error_marker lcf") (auto simp: nonempty_def)
  moreover have "str_of (Some t) = t" for t by (simp add: str_of_def)
  ultimately show ?thesis
    unfolding ngx_blob_members_def blob_members_def apache_view_def parse_json_config.simps
    by (simp only:)
qed

definition header_table :: "ngx_header list \<Rightarrow> table" where
  "header_table headers =
     map (\<lambda>(hash, key, val). (Some key, Some val)) (filter (\<lambda>(hash, key, val). hash \<noteq> 0) headers)"

definition cookie_headers :: "ngx_header list \<Rightarrow> ngx_header list" where
  "cookie_headers headers = filter (\<lambda>(hash, key, val). hash \<noteq> 0 \<and> strcaseeq key ''Cookie'') headers"

lemma kept_agree: "kept_headers (header_table headers) = ngx_kept_headers headers"
  by (induction headers rule: ngx_kept_headers.induct) (auto simp: header_table_def)

lemma cookie_lookup:
  "table_get (header_table headers) ''Cookie'' =
     (case cookie_headers headers of [] \<Rightarrow> None | (hash, key, val) # _ \<Rightarrow> Some val)"
  by (induction headers) (auto simp: table_get_def header_table_def cookie_headers_def)

lemma ctx_values_agree:
  assumes "length (cookie_headers headers) \<le> 1"
  shows "ctx_value (Some (header_table headers)) = ngx_ctx_value headers"
proof -
  have "(case table_get (header_table headers) ''Cookie'' of None \<Rightarrow> [] | Some c \<Rightarrow> cookie_pairs c)
      = concat (map (\<lambda>(hash, key, val). cookie_pairs val) (cookie_headers headers))"
    using assms unfolding cookie_lookup by (cases "cookie_headers headers") (auto split: prod.split)
  then show ?thesis
    unfolding ctx_value_def ngx_ctx_value_def kept_agree Let_def option.case
    by (simp only: cookie_headers_def)
qed

subsection \<open>Properties\<close>

text \<open>C37: the request context of nginx is always built inside the allocation its first pass
  measured; when the template asks for headers or cookies it is JSON that reads back to the visible
  headers in order and the cookies of every \<open>Cookie\<close> header, and it is empty otherwise.\<close>

theorem nginx_request_ctx_exact:
  "\<exists>text. ngx_build_request_ctx_json headers template = Some text
     \<and> (if ngx_wants_ctx template then json_read text = Some (ngx_ctx_value headers) else text = [])"
proof (cases "ngx_wants_ctx template")
  case True
  from ngx_ctx_exact [OF True, of headers] True show ?thesis
    by (simp add: apq.json_read_render del: render.simps)
next
  case False
  from ngx_ctx_none [OF False, of headers] False show ?thesis by simp
qed

text \<open>C34: for every configuration that loads, the \<open>ParseJson\<close> blob of nginx is written
  inside the allocation its first pass measured, and a JSON reader gets back exactly the depth, base
  URL, host list, policy flags and the optional keys of the directives that are set.\<close>

theorem nginx_parse_blob_reads_back:
  assumes "ngx_conf_ok lcf" and "ctx_text (Some ctx) j"
  shows "\<exists>text. ngx_build_parse_json_config lcf (lc_max_depth lcf) base_url hosts ctx = Some text
     \<and> json_read text = Some (JObj (ngx_blob_members lcf (lc_max_depth lcf) base_url hosts j))"
  using ngx_blob_exact [OF conf_ok_numbers [OF assms(1)] assms(2), of base_url hosts]
  by (simp add: apq.json_read_render del: render.simps)

theorem nginx_parse_blob_reads_back_witness:
  "let lcf = ngx_merge_values ngx_http_mesi_create_loc_conf (ngx_http_mesi_create_loc_conf\<lparr>lc_timeout_seconds := 5\<rparr>)
   in \<exists>text. ngx_build_parse_json_config lcf (lc_max_depth lcf) ''http://a/'' [] [] = Some text
     \<and> json_read text = Some (JObj (ngx_blob_members lcf (lc_max_depth lcf) ''http://a/'' [] None))"
  unfolding Let_def
  by (rule nginx_parse_blob_reads_back)
     (simp_all add: ngx_conf_ok_def ngx_block_ok_def ngx_tri_def ngx_opt_def ngx_merge_values_def
        ngx_merge_value_def ngx_merge_uint_value_def ngx_merge_str_value_def
        ngx_http_mesi_create_loc_conf_def str_of_def ctx_text_def nonempty_def)

text \<open>For an address and a password without control characters, which the directives do not refuse
  and the writer would leave unescaped, the cache blob for Redis stays in its allocation exactly when the digits of the
  database number fit the two bytes reserved for them and the slack of the address and the
  password; then it reads back to the server, the password and the number.  The documented range
  of 0 to 15 always fits, but the directive accepts any number.\<close>

theorem nginx_redis_blob_bounds:
  assumes "no_controls (ngx_redis_addr lcf)" and "no_controls (ngx_redis_password lcf)"
  shows "case ngx_build_redis_config_json lcf of
           None \<Rightarrow> \<not> ngx_redis_fits lcf \<and> lc_cache_redis_db lcf > 15
         | Some text \<Rightarrow> ngx_redis_fits lcf \<and> json_read text = Some (ngx_redis_value lcf)"
proof -
  have "all_strings no_controls (ngx_redis_value lcf)" using assms by (simp add: ngx_redis_value_def)
  moreover have "\<not> ngx_redis_fits lcf \<Longrightarrow> lc_cache_redis_db lcf > 15"
    using redis_documented_fits [of lcf] by linarith
  ultimately show ?thesis
    by (simp add: ngx_redis_exact minq.json_read_render del: render.simps)
qed

theorem nginx_redis_blob_bounds_witness:
  "let lcf = ngx_http_mesi_create_loc_conf\<lparr>lc_cache_redis_addr := Some ''a'', lc_cache_redis_db := 99999\<rparr>
   in case ngx_build_redis_config_json lcf of
           None \<Rightarrow> \<not> ngx_redis_fits lcf \<and> lc_cache_redis_db lcf > 15
         | Some text \<Rightarrow> ngx_redis_fits lcf \<and> json_read text = Some (ngx_redis_value lcf)"
  unfolding Let_def
  by (rule nginx_redis_blob_bounds)
     (simp_all add: ngx_redis_addr_def ngx_redis_password_def ngx_http_mesi_create_loc_conf_def str_of_def
        ngx_str_to_cstr_def no_controls_def)

text \<open>A short address and a number of five digits write past the allocation.\<close>

lemma redis_db_overflow:
  "ngx_build_redis_config_json
     (ngx_http_mesi_create_loc_conf\<lparr>lc_cache_redis_addr := Some ''a'', lc_cache_redis_db := 99999\<rparr>) = None"
proof -
  let ?lcf = "ngx_http_mesi_create_loc_conf\<lparr>lc_cache_redis_addr := Some ''a'', lc_cache_redis_db := 99999\<rparr>"
  have "ngx_redis_db ?lcf = 99999" by (simp add: ngx_redis_db_def)
  moreover have "length (show_int 99999) = 5" by (simp add: show_int_def show_nat.simps)
  moreover have "plain_bytes (ngx_redis_addr ?lcf) = 1"
    by (simp add: ngx_redis_addr_def str_of_def ngx_str_to_cstr_def plain_bytes_def)
  moreover have "plain_bytes (ngx_redis_password ?lcf) = 0"
    by (simp add: ngx_redis_password_def ngx_http_mesi_create_loc_conf_def str_of_def ngx_str_to_cstr_def plain_bytes_def)
  ultimately have "\<not> ngx_redis_fits ?lcf" unfolding ngx_redis_fits_def by simp
  then show ?thesis by (simp add: ngx_redis_exact)
qed

text \<open>The server list for memcached is always built inside its allocation, and reads back
  to the words of the directive, whatever the spacing, when they hold no control characters.\<close>

theorem nginx_memcached_blob_reads_back:
  assumes "\<forall>w \<in> set (memcached_servers_of lcf). no_controls w"
  shows "Option.bind (ngx_build_memcached_config_json lcf) json_read
    = Some (JObj [(''servers'', JArr (map JStr (memcached_servers_of lcf)))])"
  using assms by (simp add: ngx_memcached_exact minq.json_read_render del: render.simps)

theorem nginx_memcached_blob_reads_back_witness:
  "let lcf = ngx_http_mesi_create_loc_conf\<lparr>lc_cache_memcached_servers := Some '' a:1  b:2''\<rparr>
   in Option.bind (ngx_build_memcached_config_json lcf) json_read
    = Some (JObj [(''servers'', JArr (map JStr (memcached_servers_of lcf)))])"
  unfolding Let_def
  by (rule nginx_memcached_blob_reads_back)
     (simp add: memcached_servers_of_def server_words_def ngx_str_to_cstr_def str_of_def no_controls_def
        ngx_http_mesi_create_loc_conf_def)

text \<open>C38: the Apache and the nginx module hand the library the same texts: for equal settings (an
  error marker that is not the empty string, at most one \<open>Cookie\<close> header) the blob and
  the request context of both are equal byte for byte, although one grows its buffer and the
  other measures first.\<close>

theorem servers_write_same_texts:
  assumes "ngx_conf_ok lcf" and "lc_include_error_marker lcf \<noteq> Some []"
    and "length (cookie_headers headers) \<le> 1" and "cache_key_template conf = lc_cache_key_template lcf"
    and "ngx_build_request_ctx_json headers (str_of (lc_cache_key_template lcf)) = Some ctx"
  shows "build_request_ctx_json (Some (header_table headers)) conf = Some ctx
    \<and> ngx_build_parse_json_config lcf (lc_max_depth lcf) base_url hosts ctx
        = Some (mesi_build_parse_json_config (apache_view lcf (lc_max_depth lcf) base_url hosts ctx))"
proof -
  let ?t = "str_of (lc_cache_key_template lcf)"
  define j where "j = (if ngx_wants_ctx ?t then Some (ngx_ctx_value headers) else None)"
  have wants: "template_wants_ctx (cache_key_template conf) = ngx_wants_ctx ?t"
    by (cases "lc_cache_key_template lcf")
       (auto simp: template_wants_ctx_def ngx_wants_ctx_def assms(4) str_of_def nonempty_def)
  have ctx: "ctx_text (Some ctx) j"
    using assms(5) ngx_ctx_exact [of ?t headers] ngx_ctx_none [of ?t headers]
    by (auto simp: j_def ctx_text_def nonempty_def)
  have "build_request_ctx_json (Some (header_table headers)) conf = Some ctx"
    using assms(5) wants ctx_values_agree [OF assms(3)] ngx_ctx_exact [of ?t headers] ngx_ctx_none [of ?t headers]
      build_ctx_exact [of conf "Some (header_table headers)"] build_ctx_none [of conf "Some (header_table headers)"]
    by (cases "ngx_wants_ctx ?t") simp_all
  moreover have "mesi_build_parse_json_config (apache_view lcf (lc_max_depth lcf) base_url hosts ctx)
      = render quote_full (JObj (blob_members (apache_view lcf (lc_max_depth lcf) base_url hosts ctx) j))"
    by (rule blob_is_render) (simp add: apache_view_def ctx)
  ultimately show ?thesis
    using ngx_blob_exact [OF conf_ok_numbers [OF assms(1)] ctx, of base_url hosts] members_agree [OF assms(2)]
    by (simp del: render.simps)
qed

theorem servers_write_same_texts_witness:
  "let lcf = ngx_merge_values ngx_http_mesi_create_loc_conf (ngx_http_mesi_create_loc_conf\<lparr>lc_timeout_seconds := 5\<rparr>);
       conf = create_server_config\<lparr>cache_key_template := Some []\<rparr>
   in build_request_ctx_json (Some (header_table [])) conf = Some []
    \<and> ngx_build_parse_json_config lcf (lc_max_depth lcf) ''http://a/'' [] []
        = Some (mesi_build_parse_json_config (apache_view lcf (lc_max_depth lcf) ''http://a/'' [] []))"
  unfolding Let_def
  by (rule servers_write_same_texts [where headers = "[]"])
     (simp_all add: ngx_conf_ok_def ngx_block_ok_def ngx_tri_def ngx_opt_def ngx_merge_values_def
        ngx_merge_value_def ngx_merge_uint_value_def ngx_merge_str_value_def cookie_headers_def
        ngx_http_mesi_create_loc_conf_def str_of_def ngx_build_request_ctx_json_def create_server_config_def)

end
