(* ===== verification/Ngx_Parse_Lemmas.thy ===== *)
theory Ngx_Parse_Lemmas
  imports Ngx_Parse Ngx_Json_Lemmas Apache_Calls
begin

text \<open>
  What \<open>parse\<close> of the nginx module does for a configuration that has loaded: its guards do
  not fire, it always returns, and every call it makes to the library carries the page and the
  configuration.  \<open>ngx_carries\<close> is the contract of a parse call, as \<open>carries\<close> is
  for Apache.
\<close>

subsection \<open>The guards\<close>

lemma ngx_opt_in_range: "ngx_opt lo hi v \<Longrightarrow> \<not> (v \<noteq> -1 \<and> (v < lo \<or> v > hi))"
  by (auto simp: ngx_opt_def)

lemma conf_ok_block: "ngx_conf_ok lcf \<Longrightarrow> ngx_block_ok lcf"
  by (simp add: ngx_conf_ok_def)

lemma conf_ok_fields:
  assumes "ngx_conf_ok lcf"
  shows "0 \<le> lc_max_depth lcf" "lc_max_depth lcf \<le> NGX_MAX_MAX_DEPTH"
    and "ngx_opt 1 NGX_MAX_TIMEOUT_SECONDS (lc_timeout_seconds lcf)"
    and "ngx_opt 0 NGX_MAX_MAX_RESPONSE_SIZE (lc_max_response_size lcf)"
    and "ngx_opt 0 NGX_MAX_MAX_CONCURRENT_REQUESTS (lc_max_concurrent_requests lcf)"
    and "ngx_opt 0 NGX_MAX_MAX_WORKERS (lc_max_workers lcf)"
proof -
  show "0 \<le> lc_max_depth lcf" using assms by (simp add: ngx_conf_ok_def)
  have "ngx_opt 0 NGX_MAX_MAX_DEPTH (lc_max_depth lcf)"
    using conf_ok_block [OF assms] unfolding ngx_block_ok_def by blast
  with \<open>0 \<le> lc_max_depth lcf\<close> show "lc_max_depth lcf \<le> NGX_MAX_MAX_DEPTH" unfolding ngx_opt_def by linarith
qed (use conf_ok_block [OF assms] in \<open>unfold ngx_block_ok_def, blast+\<close>)

lemma guards_pass:
  assumes "ngx_conf_ok lcf"
  shows "ngx_guard_fails lcf = None"
proof -
  note f = conf_ok_fields [OF assms]
  have d: "\<not> (lc_max_depth lcf < 0 \<or> lc_max_depth lcf > NGX_MAX_MAX_DEPTH)" using f(1,2) by linarith
  show ?thesis
    unfolding ngx_guard_fails_def
    by (simp only: d f(3-6) [THEN ngx_opt_in_range] if_False)
qed

lemma flag_value:
  assumes "ngx_conf_ok lcf"
  shows "s32 (lc_max_depth lcf) = lc_max_depth lcf" "s32 (lc_block_private_ips lcf) = lc_block_private_ips lcf"
    "s32 (lc_allow_private_ips_for_allowed lcf) = lc_allow_private_ips_for_allowed lcf"
proof -
  show "s32 (lc_max_depth lcf) = lc_max_depth lcf"
    by (rule s32_id) (use conf_ok_fields(1,2) [OF assms] in \<open>simp_all\<close>)
  have "lc_block_private_ips lcf = 0 \<or> lc_block_private_ips lcf = 1"
    and "lc_allow_private_ips_for_allowed lcf = 0 \<or> lc_allow_private_ips_for_allowed lcf = 1"
    using assms by (simp_all add: ngx_conf_ok_def)
  then show "s32 (lc_block_private_ips lcf) = lc_block_private_ips lcf"
    "s32 (lc_allow_private_ips_for_allowed lcf) = lc_allow_private_ips_for_allowed lcf"
    by auto
qed

subsection \<open>The shared cache\<close>

text \<open>The Redis blob is the one writer that does not always fit.\<close>

definition ngx_cache_safe :: "ngx_loc_conf \<Rightarrow> bool" where
  "ngx_cache_safe lcf \<longleftrightarrow> ngx_str_to_cstr (str_of (lc_cache_backend lcf)) = ''redis'' \<longrightarrow> ngx_redis_fits lcf"

fun is_cache_call :: "lib_call \<Rightarrow> bool" where
  "is_cache_call (CallInitCache _ _ _) = True"
| "is_cache_call (CallInitCacheWithConfig _ _ _ _) = True"
| "is_cache_call _ = False"

definition cache_step :: "ngx_worker \<Rightarrow> ngx_worker \<Rightarrow> bool" where
  "cache_step w w1 \<longleftrightarrow> nw_open w1 = nw_open w \<and> nw_sym w1 = nw_sym w
     \<and> (\<exists>cs. nw_calls w1 = nw_calls w @ map (Pair (nw_open w)) cs \<and> length cs \<le> 1 \<and> (\<forall>c \<in> set cs. is_cache_call c))"

lemma cache_step_none: "cache_step w w"
  by (auto simp: cache_step_def intro: exI [where x = "[]"])

lemma cache_step_call: "is_cache_call c \<Longrightarrow> cache_step w (ngx_call c w)"
  by (auto simp: cache_step_def ngx_call_def intro: exI [where x = "[c]"])

lemma cache_step_flag: "cache_step w w1 \<Longrightarrow> cache_step w (w1\<lparr>nw_cache := b, nw_last_backend := s\<rparr>)"
  by (simp add: cache_step_def)

lemma setup_cache_step:
  assumes "ngx_cache_safe lcf"
  shows "\<exists>w1. ngx_setup_cache lcf w = Some w1 \<and> cache_step w w1"
proof -
  let ?b = "ngx_str_to_cstr (str_of (lc_cache_backend lcf))"
  have i: "\<exists>w1. ngx_init_with_config b (Some t) lcf w = Some w1 \<and> cache_step w w1" for b t
    by (simp add: ngx_init_with_config_def cache_step_call)
  have m: "\<exists>w1. ngx_init_with_config b (ngx_build_memcached_config_json lcf) lcf w = Some w1 \<and> cache_step w w1" for b
    unfolding ngx_memcached_exact by (rule i)
  have r: "\<exists>w1. ngx_init_with_config b (ngx_build_redis_config_json lcf) lcf w = Some w1 \<and> cache_step w w1"
    if "?b = ''redis''" for b
    using that assms i unfolding ngx_redis_exact by (simp add: ngx_cache_safe_def)
  have c: "cache_step w (ngx_call (CallInitCache x y z) w)" for x y z
    by (simp add: cache_step_call)
  have "\<exists>w1. (if ?b = ''memcached'' then
                   (if \<not> nw_sym w InitCacheWithConfig then Some w
                    else ngx_init_with_config ?b (ngx_build_memcached_config_json lcf) lcf w)
                 else if ?b = ''redis'' then
                   (if \<not> nw_sym w InitCacheWithConfig then Some w
                    else ngx_init_with_config ?b (ngx_build_redis_config_json lcf) lcf w)
                 else if nw_sym w InitCache
                   then Some (ngx_call (CallInitCache ?b (s32 (lc_cache_size lcf)) (s32 (lc_cache_ttl lcf))) w)
                 else Some w) = Some w1 \<and> cache_step w w1"
    using m r c cache_step_none by auto
  then show ?thesis
    unfolding ngx_setup_cache_def Let_def using cache_step_none cache_step_flag by fastforce
qed

lemma setup_cache_again:
  assumes "ngx_setup_cache lcf w = Some w1"
  shows "ngx_setup_cache lcf w1 = Some w1"
proof (cases "length (str_of (lc_cache_backend lcf)) > 0 \<and> (\<not> nw_cache w \<or> \<not> ngx_same_backend w (str_of (lc_cache_backend lcf)))")
  case True
  with assms have "nw_cache w1" "nw_last_backend w1 = str_of (lc_cache_backend lcf)"
    unfolding ngx_setup_cache_def Let_def by auto
  then show ?thesis by (simp add: ngx_setup_cache_def ngx_same_backend_def)
next
  case False
  with assms show ?thesis unfolding ngx_setup_cache_def Let_def by (simp only: if_False option.inject)
qed

subsection \<open>The contract of a parse call\<close>

definition ngx_base :: "ngx_request \<Rightarrow> string" where
  "ngx_base r = ngx_str_to_cstr (str_of (ngx_base_url r))"

definition ngx_hosts :: "ngx_loc_conf \<Rightarrow> string" where
  "ngx_hosts lcf = ngx_str_to_cstr (str_of (lc_allowed_hosts lcf))"

text \<open>The request context that goes with the template of the location.\<close>

definition ngx_ctx_json :: "ngx_loc_conf \<Rightarrow> ngx_request \<Rightarrow> json option" where
  "ngx_ctx_json lcf r =
    (if ngx_wants_ctx (str_of (lc_cache_key_template lcf)) then Some (ngx_ctx_value (rq_headers_in r)) else None)"

fun ngx_carries :: "ngx_loc_conf \<Rightarrow> ngx_request \<Rightarrow> string \<Rightarrow> lib_call \<Rightarrow> bool" where
  "ngx_carries lcf r html (CallParse h d u) \<longleftrightarrow>
     h = html \<and> d = lc_max_depth lcf \<and> u = ngx_base r \<and> str_of (lc_allowed_hosts lcf) = []"
| "ngx_carries lcf r html (CallParseWithConfig h d u hs bp) \<longleftrightarrow>
     h = html \<and> d = lc_max_depth lcf \<and> u = ngx_base r \<and> hs = ngx_hosts lcf \<and> bp = lc_block_private_ips lcf"
| "ngx_carries lcf r html (CallParseWithConfigEx h d u hs bp ap) \<longleftrightarrow>
     h = html \<and> d = lc_max_depth lcf \<and> u = ngx_base r \<and> hs = ngx_hosts lcf \<and> bp = lc_block_private_ips lcf
     \<and> ap = lc_allow_private_ips_for_allowed lcf"
| "ngx_carries lcf r html (CallParseWithConfigCtx h d u hs bp ap tmpl ctx) \<longleftrightarrow>
     h = html \<and> d = lc_max_depth lcf \<and> u = ngx_base r \<and> hs = ngx_hosts lcf \<and> bp = lc_block_private_ips lcf
     \<and> ap = lc_allow_private_ips_for_allowed lcf \<and> tmpl = ngx_str_to_cstr (str_of (lc_cache_key_template lcf))
     \<and> ctx_text (Some ctx) (ngx_ctx_json lcf r)"
| "ngx_carries lcf r html (CallParseJson h blob) \<longleftrightarrow>
     h = html
     \<and> blob = render quote_full
         (JObj (ngx_blob_members lcf (lc_max_depth lcf) (ngx_base r) (ngx_hosts lcf) (ngx_ctx_json lcf r)))"
| "ngx_carries lcf r html _ \<longleftrightarrow> False"

lemma ngx_ctx_text:
  "\<exists>s. ngx_build_request_ctx_json (rq_headers_in r) (str_of (lc_cache_key_template lcf)) = Some s
     \<and> ctx_text (Some s) (ngx_ctx_json lcf r)"
proof (cases "ngx_wants_ctx (str_of (lc_cache_key_template lcf))")
  case True
  from ngx_ctx_exact [OF this, of "rq_headers_in r"] True show ?thesis
    by (simp add: ctx_text_def ngx_ctx_json_def)
next
  case False
  from ngx_ctx_none [OF this, of "rq_headers_in r"] False show ?thesis
    by (simp add: ctx_text_def nonempty_def ngx_ctx_json_def)
qed

subsection \<open>The dispatcher keeps the contract\<close>

fun ngx_entry :: "lib_call \<Rightarrow> symbol" where
  "ngx_entry (CallParse _ _ _) = Parse"
| "ngx_entry (CallParseWithConfig _ _ _ _ _) = ParseWithConfig"
| "ngx_entry (CallParseWithConfigEx _ _ _ _ _ _) = ParseWithConfigEx"
| "ngx_entry (CallParseWithConfigCtx _ _ _ _ _ _ _ _) = ParseWithConfigCtx"
| "ngx_entry (CallParseJson _ _) = ParseJson"
| "ngx_entry CallFreeString = FreeString"
| "ngx_entry (CallInitCache _ _ _) = InitCache"
| "ngx_entry (CallInitCacheWithConfig _ _ _ _) = InitCacheWithConfig"
| "ngx_entry CallFreeCache = FreeCache"
| "ngx_entry (CallInitHTTPClient _) = InitHTTPClient"
| "ngx_entry CallFreeHTTPClient = FreeHTTPClient"

definition ngx_good_call :: "ngx_loc_conf \<Rightarrow> ngx_request \<Rightarrow> string \<Rightarrow> ngx_worker \<Rightarrow> lib_call \<Rightarrow> bool" where
  "ngx_good_call lcf r html w c \<longleftrightarrow> ngx_carries lcf r html c \<and> nw_sym w (ngx_entry c)"

definition ngx_unprotectable :: "ngx_loc_conf \<Rightarrow> ngx_worker \<Rightarrow> bool" where
  "ngx_unprotectable lcf w \<longleftrightarrow> str_of (lc_allowed_hosts lcf) \<noteq> []
     \<and> \<not> nw_sym w ParseWithConfig \<and> \<not> nw_sym w ParseWithConfigEx"

definition ngx_answered :: "golib \<Rightarrow> ngx_worker \<Rightarrow> lib_call list \<Rightarrow> ngx_outcome \<times> ngx_worker \<Rightarrow> bool" where
  "ngx_answered gl w cs res \<longleftrightarrow>
     snd res = w\<lparr>nw_calls := nw_calls w @ map (Pair (nw_open w)) cs\<rparr>
     \<and> fst res = (if cs = [] then EmptyResponse else Message (lib_answer gl (last cs)))"

lemma positional_answered:
  assumes "ngx_conf_ok lcf" and "nw_sym w Parse"
  shows "\<exists>cs. ngx_answered gl w cs (ngx_parse_positional gl lcf html (ngx_base r) (ngx_hosts lcf) w)
     \<and> length cs \<le> 1 \<and> (\<forall>c \<in> set cs. ngx_good_call lcf r html w c) \<and> (cs = [] \<longrightarrow> ngx_unprotectable lcf w)"
proof -
  note v = flag_value [OF assms(1)]
  consider "nw_sym w ParseWithConfigEx" | "\<not> nw_sym w ParseWithConfigEx" "nw_sym w ParseWithConfig"
    | "ngx_unprotectable lcf w"
    | "\<not> nw_sym w ParseWithConfigEx" "\<not> nw_sym w ParseWithConfig" "str_of (lc_allowed_hosts lcf) = []"
    unfolding ngx_unprotectable_def by blast
  then show ?thesis
  proof cases
    case 1
    then show ?thesis
      by (intro exI [where x = "[CallParseWithConfigEx html (lc_max_depth lcf) (ngx_base r) (ngx_hosts lcf)
            (lc_block_private_ips lcf) (lc_allow_private_ips_for_allowed lcf)]"])
         (simp add: ngx_parse_positional_def ngx_answered_def ngx_good_call_def ngx_call_def v Let_def)
  next
    case 2
    then show ?thesis
      by (intro exI [where x = "[CallParseWithConfig html (lc_max_depth lcf) (ngx_base r) (ngx_hosts lcf)
            (lc_block_private_ips lcf)]"])
         (simp add: ngx_parse_positional_def ngx_answered_def ngx_good_call_def ngx_call_def v Let_def)
  next
    case 3
    then show ?thesis
      by (intro exI [where x = "[]"])
         (simp add: ngx_parse_positional_def ngx_answered_def ngx_unprotectable_def Let_def)
  next
    case 4
    with assms(2) show ?thesis
      by (intro exI [where x = "[CallParse html (lc_max_depth lcf) (ngx_base r)]"])
         (simp add: ngx_parse_positional_def ngx_answered_def ngx_good_call_def ngx_call_def v Let_def)
  qed
qed

lemma answered_twice:
  assumes "ngx_answered gl w [c] (Message None, w1)" and "ngx_answered gl w1 cs res" and "cs \<noteq> []"
  shows "ngx_answered gl w (c # cs) res"
  using assms by (simp add: ngx_answered_def)

lemma good_call_later: "nw_sym w1 = nw_sym w \<Longrightarrow> ngx_good_call lcf r html w1 c = ngx_good_call lcf r html w c"
  by (simp add: ngx_good_call_def)

lemma parse_json_answered:
  assumes "ngx_conf_ok lcf" and "nw_sym w ParseJson"
  shows "\<exists>c res. ngx_parse_json gl lcf r html (ngx_base r) (ngx_hosts lcf) w = Some res
     \<and> ngx_answered gl w [c] res \<and> ngx_good_call lcf r html w c"
proof -
  obtain s where s: "ngx_build_request_ctx_json (rq_headers_in r) (str_of (lc_cache_key_template lcf)) = Some s"
    and j: "ctx_text (Some s) (ngx_ctx_json lcf r)" using ngx_ctx_text by blast
  obtain blob where t: "ngx_build_parse_json_config lcf (lc_max_depth lcf) (ngx_base r) (ngx_hosts lcf) s = Some blob"
    and blob: "blob = render quote_full
      (JObj (ngx_blob_members lcf (lc_max_depth lcf) (ngx_base r) (ngx_hosts lcf) (ngx_ctx_json lcf r)))"
    using ngx_blob_exact [OF conf_ok_numbers [OF assms(1)] j] by blast
  have "ngx_good_call lcf r html w (CallParseJson html blob)"
    using assms(2) blob by (simp only: ngx_good_call_def ngx_carries.simps ngx_entry.simps simp_thms)
  moreover have "ngx_answered gl w [CallParseJson html blob]
      (Message (parse_json gl html blob), ngx_call (CallParseJson html blob) w)"
    by (simp add: ngx_answered_def ngx_call_def)
  ultimately show ?thesis unfolding ngx_parse_json_def s t option.case by blast
qed

lemma parse_ctx_answered:
  assumes "ngx_conf_ok lcf" and "nw_sym w ParseWithConfigCtx"
  shows "\<exists>c res. ngx_parse_ctx gl lcf r html (ngx_base r) (ngx_hosts lcf) w = Some res
     \<and> ngx_answered gl w [c] res \<and> ngx_good_call lcf r html w c"
proof -
  obtain s where s: "ngx_build_request_ctx_json (rq_headers_in r) (str_of (lc_cache_key_template lcf)) = Some s"
    and j: "ctx_text (Some s) (ngx_ctx_json lcf r)" using ngx_ctx_text by blast
  let ?c = "CallParseWithConfigCtx html (lc_max_depth lcf) (ngx_base r) (ngx_hosts lcf)
          (lc_block_private_ips lcf) (lc_allow_private_ips_for_allowed lcf)
          (ngx_str_to_cstr (str_of (lc_cache_key_template lcf))) s"
  have "ngx_parse_ctx gl lcf r html (ngx_base r) (ngx_hosts lcf) w = Some (Message (lib_answer gl ?c), ngx_call ?c w)"
    by (simp add: ngx_parse_ctx_def s flag_value [OF assms(1)] Let_def)
  moreover have "ngx_answered gl w [?c] (Message (lib_answer gl ?c), ngx_call ?c w)"
    by (simp add: ngx_answered_def ngx_call_def)
  moreover have "ngx_good_call lcf r html w ?c" using j by (simp add: ngx_good_call_def assms(2))
  ultimately show ?thesis by blast
qed

text \<open>
  The calls of a dispatch: at most two, each in order, and none only when there is no entry
  point that can enforce the host list.
\<close>

definition ngx_dispatched :: "golib \<Rightarrow> ngx_loc_conf \<Rightarrow> ngx_request \<Rightarrow> string \<Rightarrow> ngx_worker \<Rightarrow> lib_call list
    \<Rightarrow> ngx_outcome \<times> ngx_worker \<Rightarrow> bool" where
  "ngx_dispatched gl lcf r html w cs res \<longleftrightarrow>
     snd res = w\<lparr>nw_calls := nw_calls w @ map (Pair (nw_open w)) cs\<rparr>
     \<and> length cs \<le> 2 \<and> (\<forall>c \<in> set cs. ngx_good_call lcf r html w c)
     \<and> (if fst res = EmptyResponse then ngx_unprotectable lcf w
        else cs \<noteq> [] \<and> fst res = Message (lib_answer gl (last cs)))"

lemma answered_dispatched:
  "ngx_answered gl w cs res \<Longrightarrow> length cs \<le> 2 \<Longrightarrow> \<forall>c \<in> set cs. ngx_good_call lcf r html w c \<Longrightarrow>
    (cs = [] \<Longrightarrow> ngx_unprotectable lcf w) \<Longrightarrow> ngx_dispatched gl lcf r html w cs res"
  by (auto simp: ngx_answered_def ngx_dispatched_def)

lemma retry_dispatched:
  assumes "ngx_conf_ok lcf" and "nw_sym w Parse"
    and c: "ngx_answered gl w [c] (Message None, w1)" "ngx_good_call lcf r html w c"
  shows "\<exists>cs. ngx_dispatched gl lcf r html w cs (ngx_parse_positional gl lcf html (ngx_base r) (ngx_hosts lcf) w1)"
proof -
  from c(1) have w1: "w1 = w\<lparr>nw_calls := nw_calls w @ [(nw_open w, c)]\<rparr>" by (simp add: ngx_answered_def)
  then have sym: "nw_sym w1 = nw_sym w" "nw_open w1 = nw_open w" by simp_all
  have p: "nw_sym w1 Parse" using assms(2) by (simp add: sym)
  obtain cs where cs: "ngx_answered gl w1 cs (ngx_parse_positional gl lcf html (ngx_base r) (ngx_hosts lcf) w1)"
    "length cs \<le> 1" "\<forall>c \<in> set cs. ngx_good_call lcf r html w1 c" "cs = [] \<longrightarrow> ngx_unprotectable lcf w1"
    using positional_answered [OF assms(1) p] by blast
  have u: "ngx_unprotectable lcf w1 = ngx_unprotectable lcf w" by (simp add: ngx_unprotectable_def sym)
  have "ngx_dispatched gl lcf r html w (c # cs) (ngx_parse_positional gl lcf html (ngx_base r) (ngx_hosts lcf) w1)"
    using cs c(2) u unfolding ngx_dispatched_def ngx_answered_def good_call_later [OF sym(1)]
    by (auto simp: w1)
  then show ?thesis by blast
qed

lemma dispatch_dispatched:
  assumes "ngx_conf_ok lcf" and "nw_sym w Parse"
  shows "\<exists>res cs. ngx_dispatch gl lcf r html (ngx_base r) (ngx_hosts lcf) w = Some res
     \<and> ngx_dispatched gl lcf r html w cs res"
proof -
  consider "ngx_configured lcf \<and> nw_sym w ParseJson"
    | "\<not> (ngx_configured lcf \<and> nw_sym w ParseJson)"
      "length (str_of (lc_cache_key_template lcf)) > 0 \<and> nw_sym w ParseWithConfigCtx"
    | "\<not> (ngx_configured lcf \<and> nw_sym w ParseJson)"
      "\<not> (length (str_of (lc_cache_key_template lcf)) > 0 \<and> nw_sym w ParseWithConfigCtx)" by blast
  then show ?thesis
  proof cases
    case 1
    then obtain c res where "ngx_parse_json gl lcf r html (ngx_base r) (ngx_hosts lcf) w = Some res"
      "ngx_answered gl w [c] res" "ngx_good_call lcf r html w c"
      using parse_json_answered [OF assms(1)] by blast
    with 1 show ?thesis
      using answered_dispatched [of gl w "[c]" res] by (fastforce simp: ngx_dispatch_def)
  next
    case 2
    then obtain c out w1 where c: "ngx_parse_ctx gl lcf r html (ngx_base r) (ngx_hosts lcf) w = Some (out, w1)"
      "ngx_answered gl w [c] (out, w1)" "ngx_good_call lcf r html w c"
      using parse_ctx_answered [OF assms(1)] by fastforce
    have d: "ngx_dispatched gl lcf r html w [c] (out, w1)"
      using answered_dispatched [of gl w "[c]" "(out, w1)"] c by simp
    show ?thesis
    proof (cases "out = Message None")
      case True
      have "ngx_dispatch gl lcf r html (ngx_base r) (ngx_hosts lcf) w
          = Some (ngx_parse_positional gl lcf html (ngx_base r) (ngx_hosts lcf) w1)"
        unfolding ngx_dispatch_def if_not_P [OF 2(1)] if_P [OF 2(2)] c(1) True by simp
      with retry_dispatched [OF assms, of gl c w1 r html] c True show ?thesis by blast
    next
      case False
      then have "ngx_dispatch gl lcf r html (ngx_base r) (ngx_hosts lcf) w = Some (out, w1)"
        unfolding ngx_dispatch_def if_not_P [OF 2(1)] if_P [OF 2(2)] c(1)
        by (simp split: ngx_outcome.split option.split)
      with d show ?thesis by blast
    qed
  next
    case 3
    obtain cs where cs: "ngx_answered gl w cs (ngx_parse_positional gl lcf html (ngx_base r) (ngx_hosts lcf) w)"
      "length cs \<le> 1" "\<forall>c \<in> set cs. ngx_good_call lcf r html w c" "cs = [] \<longrightarrow> ngx_unprotectable lcf w"
      using positional_answered [OF assms] by blast
    have "ngx_dispatched gl lcf r html w cs (ngx_parse_positional gl lcf html (ngx_base r) (ngx_hosts lcf) w)"
      by (rule answered_dispatched) (use cs in auto)
    moreover have "ngx_dispatch gl lcf r html (ngx_base r) (ngx_hosts lcf) w
        = Some (ngx_parse_positional gl lcf html (ngx_base r) (ngx_hosts lcf) w)"
      unfolding ngx_dispatch_def using 3 by (simp only: if_False)
    ultimately show ?thesis by blast
  qed
qed

subsection \<open>A whole parse\<close>

text \<open>
  The relation between the worker before and after: the library stays as it is, at most one
  cache call and then the parse calls are added.
\<close>

definition ngx_parsed :: "golib \<Rightarrow> ngx_loc_conf \<Rightarrow> ngx_request \<Rightarrow> string \<Rightarrow> ngx_worker \<Rightarrow> string \<Rightarrow> ngx_worker \<Rightarrow> bool" where
  "ngx_parsed gl lcf r page w out w' \<longleftrightarrow>
     nw_open w' = nw_open w \<and> nw_sym w' = nw_sym w
     \<and> (\<exists>inits parses. nw_calls w' = nw_calls w @ map (Pair (nw_open w)) (inits @ parses)
          \<and> length inits \<le> 1 \<and> (\<forall>c \<in> set inits. is_cache_call c)
          \<and> length parses \<le> 2 \<and> (\<forall>c \<in> set parses. ngx_good_call lcf r (ngx_str_to_cstr page) w c)
          \<and> (ngx_unprotectable lcf w \<and> out = []
              \<or> parses \<noteq> [] \<and> out = str_of (lib_answer gl (last parses))))"

lemma outcome_text:
  assumes "ngx_dispatched gl lcf r html w cs res"
  shows "\<exists>out. (case res of (EmptyResponse, w2) \<Rightarrow> Some ([], w2) | (Message None, w2) \<Rightarrow> Some ([], w2)
        | (Message (Some m), w2) \<Rightarrow> Some (m, w2)) = Some (out, snd res)
      \<and> (ngx_unprotectable lcf w \<and> out = [] \<or> cs \<noteq> [] \<and> out = str_of (lib_answer gl (last cs)))"
proof (cases "fst res")
  case EmptyResponse
  with assms show ?thesis by (cases res) (simp add: ngx_dispatched_def)
next
  case (Message m)
  with assms have m: "m = lib_answer gl (last cs)" and "cs \<noteq> []" by (simp_all add: ngx_dispatched_def)
  obtain w2 where "res = (Message m, w2)" using Message by (cases res) simp
  then show ?thesis using \<open>cs \<noteq> []\<close> unfolding m [symmetric] by (cases m) (simp_all add: str_of_def)
qed

lemma parse_parsed:
  assumes "ngx_conf_ok lcf" and "ngx_cache_safe lcf" and "rq_host r \<noteq> None" and "nw_sym w Parse"
  shows "\<exists>out w'. ngx_parse gl lcf r page w = Some (out, w') \<and> ngx_parsed gl lcf r page w out w'"
proof -
  let ?html = "ngx_str_to_cstr page"
  obtain w1 where w1: "ngx_setup_cache lcf w = Some w1" and step: "cache_step w w1"
    using setup_cache_step [OF assms(2)] by blast
  obtain inits where inits: "nw_calls w1 = nw_calls w @ map (Pair (nw_open w)) inits" "length inits \<le> 1"
      "\<forall>c \<in> set inits. is_cache_call c" and same: "nw_sym w1 = nw_sym w" "nw_open w1 = nw_open w"
    using step unfolding cache_step_def by blast
  have "nw_sym w1 Parse" using assms(4) by (simp add: same)
  then obtain res cs where d: "ngx_dispatch gl lcf r ?html (ngx_base r) (ngx_hosts lcf) w1 = Some res"
      "ngx_dispatched gl lcf r ?html w1 cs res"
    using dispatch_dispatched [OF assms(1)] by blast
  obtain out where out: "(case res of (EmptyResponse, w2) \<Rightarrow> Some ([], w2) | (Message None, w2) \<Rightarrow> Some ([], w2)
        | (Message (Some m), w2) \<Rightarrow> Some (m, w2)) = Some (out, snd res)"
      "ngx_unprotectable lcf w1 \<and> out = [] \<or> cs \<noteq> [] \<and> out = str_of (lib_answer gl (last cs))"
    using outcome_text [OF d(2)] by blast
  obtain base where b: "ngx_base_url r = Some base" "ngx_base r = ngx_str_to_cstr base"
    using assms(3) by (auto simp: ngx_base_url_def ngx_base_def str_of_def)
  have "ngx_parse gl lcf r page w = Some (out, snd res)"
    unfolding ngx_parse_def guards_pass [OF assms(1)] w1 b(1) option.case
      ngx_hosts_def [symmetric] b(2) [symmetric] d(1)
    using out(1) by (simp split: prod.splits)
  moreover have "ngx_parsed gl lcf r page w out (snd res)"
    unfolding ngx_parsed_def
  proof (intro conjI exI)
    show "nw_calls (snd res) = nw_calls w @ map (Pair (nw_open w)) (inits @ cs)"
      using d(2) inits(1) same(2) by (simp add: ngx_dispatched_def)
  qed (use d(2) inits same out(2) in
        \<open>simp_all add: ngx_dispatched_def ngx_unprotectable_def good_call_later [OF same(1)]\<close>)
  ultimately show ?thesis by blast
qed

subsection \<open>Concrete inputs\<close>

definition ngx_sample_conf :: ngx_loc_conf where
  "ngx_sample_conf = ngx_merge_values ngx_http_mesi_create_loc_conf
     (ngx_http_mesi_create_loc_conf\<lparr>lc_enable_mesi := 1, lc_timeout_seconds := 5, lc_max_body_size := 100,
        lc_cache_backend := Some ''memory''\<rparr>)"

definition ngx_sample_golib :: golib where
  "ngx_sample_golib =
    \<lparr> init_cache_rc = (\<lambda>_ _ _. 0), init_cache_with_config_rc = (\<lambda>_ _ _ _. 0),
      parse = (\<lambda>h _ _. Some h), parse_with_config = (\<lambda>h _ _ _ _. Some h),
      parse_with_config_ex = (\<lambda>h _ _ _ _ _. Some h), parse_with_config_ctx = (\<lambda>h _ _ _ _ _ _ _. Some h),
      parse_json = (\<lambda>h _. Some h) \<rparr>"

definition ngx_sample_worker :: ngx_worker where
  "ngx_sample_worker = snd (ngx_http_mesi_thread_init True (\<lambda>_. True) ngx_initial_worker)"

definition ngx_sample_request :: ngx_request where
  "ngx_sample_request = \<lparr> rq_schema = ''http'', rq_host = Some ''a.b'', rq_headers_in = [], rq_is_main = True,
     rq_header_only = False, rq_content_length = -1, rq_status = 200, rq_content_type = ''text/html'',
     rq_content_encoding = None, rq_headers_out = [], rq_in_memory = False \<rparr>"

lemmas ngx_sample_conf_defs = ngx_sample_conf_def ngx_merge_values_def ngx_merge_value_def
  ngx_merge_uint_value_def ngx_merge_str_value_def ngx_http_mesi_create_loc_conf_def

lemma ngx_sample_conf_ok: "ngx_conf_ok ngx_sample_conf"
  by (simp add: ngx_sample_conf_defs ngx_conf_ok_def ngx_block_ok_def ngx_tri_def ngx_opt_def str_of_def)

lemma ngx_sample_safe: "ngx_cache_safe ngx_sample_conf"
  by (simp add: ngx_sample_conf_defs ngx_cache_safe_def str_of_def ngx_str_to_cstr_def)

lemma ngx_sample_host: "rq_host ngx_sample_request \<noteq> None"
  by (simp add: ngx_sample_request_def)

lemma ngx_sample_sym: "nw_sym ngx_sample_worker s \<longleftrightarrow> s \<notin> {FreeString, InitHTTPClient, FreeHTTPClient}"
  by (cases s) (simp_all add: ngx_sample_worker_def ngx_http_mesi_thread_init_def ngx_initial_worker_def Let_def)

subsection \<open>Properties\<close>

text \<open>For a configuration that has loaded and whose cache blob fits its allocation
  (\<open>ngx_cache_safe\<close>), and a request with a Host header, \<open>parse\<close> of nginx returns; it makes at
  most one cache call and at most two parse calls, these through resolved symbols, and every parse
  call gets the page, the depth, the base URL, the host list and the address policy of the
  location.  The response is the answer to the last call, empty when that is NULL; it is empty with
  no call only when a host list is set that no entry point can enforce.\<close>

theorem nginx_parse_contract:
  assumes "ngx_conf_ok lcf" and "ngx_cache_safe lcf" and "rq_host r \<noteq> None" and "nw_sym w Parse"
  shows "\<exists>out w' inits parses. ngx_parse gl lcf r page w = Some (out, w')
     \<and> nw_calls w' = nw_calls w @ map (Pair (nw_open w)) (inits @ parses)
     \<and> length inits \<le> 1 \<and> (\<forall>c \<in> set inits. is_cache_call c)
     \<and> length parses \<le> 2
     \<and> (\<forall>c \<in> set parses. ngx_carries lcf r (ngx_str_to_cstr page) c \<and> nw_sym w (ngx_entry c))
     \<and> (ngx_unprotectable lcf w \<and> out = []
         \<or> parses \<noteq> [] \<and> out = str_of (lib_answer gl (last parses)))"
proof -
  from parse_parsed [OF assms, of gl page] obtain out w'
    where "ngx_parse gl lcf r page w = Some (out, w')" "ngx_parsed gl lcf r page w out w'" by blast
  then show ?thesis unfolding ngx_parsed_def ngx_good_call_def by blast
qed

theorem nginx_parse_contract_witness:
  "\<exists>out w' inits parses. ngx_parse ngx_sample_golib ngx_sample_conf ngx_sample_request ''<p>'' ngx_sample_worker = Some (out, w')
     \<and> nw_calls w' = nw_calls ngx_sample_worker @ map (Pair (nw_open ngx_sample_worker)) (inits @ parses)
     \<and> length inits \<le> 1 \<and> (\<forall>c \<in> set inits. is_cache_call c)
     \<and> length parses \<le> 2
     \<and> (\<forall>c \<in> set parses. ngx_carries ngx_sample_conf ngx_sample_request (ngx_str_to_cstr ''<p>'') c
          \<and> nw_sym ngx_sample_worker (ngx_entry c))
     \<and> (ngx_unprotectable ngx_sample_conf ngx_sample_worker \<and> out = []
         \<or> parses \<noteq> [] \<and> out = str_of (lib_answer ngx_sample_golib (last parses)))"
  by (rule nginx_parse_contract) (simp_all add: ngx_sample_conf_ok ngx_sample_safe ngx_sample_host ngx_sample_sym)

text \<open>The shared cache of an nginx worker is set up once per backend: setting it up again
  under the same configuration makes no call and changes nothing.\<close>

theorem nginx_cache_setup_idempotent:
  assumes "ngx_setup_cache lcf w = Some w1"
  shows "ngx_setup_cache lcf w1 = Some w1"
  using assms by (rule setup_cache_again)

theorem nginx_cache_setup_idempotent_witness:
  "let w1 = (ngx_call (CallInitCache ''memory'' 10000 30) ngx_sample_worker)
         \<lparr>nw_cache := True, nw_last_backend := ''memory''\<rparr>
   in ngx_setup_cache ngx_sample_conf w1 = Some w1"
  unfolding Let_def
  by (rule nginx_cache_setup_idempotent [where w = ngx_sample_worker])
     (simp add: ngx_setup_cache_def Let_def ngx_sample_conf_defs ngx_sample_sym str_of_def ngx_str_to_cstr_def
        ngx_sample_worker_def ngx_http_mesi_thread_init_def ngx_initial_worker_def)

end
