(* ===== verification/Ngx_Filter_Lemmas.thy ===== *)
theory Ngx_Filter_Lemmas
  imports Ngx_Filter Ngx_Parse_Lemmas
begin

text \<open>
  Proofs about the filters of the nginx module: the accumulated body stays in its allocation and
  the allocation below the limit, every buffer that is kept is released, and a response depends
  on the bytes of its body, not on how they are cut into buffers and chains.
\<close>

subsection \<open>Checks on the response\<close>

lemma ngx_signals_step:
  "ngx_signals_loop v \<longleftrightarrow>
     map lower (trim_space (takeWhile (\<lambda>c. c \<noteq> CHR '','') v)) = ''dca=esi''
     \<or> (dropWhile (\<lambda>c. c \<noteq> CHR '','') v \<noteq> [] \<and> ngx_signals_loop (tl (dropWhile (\<lambda>c. c \<noteq> CHR '','') v)))"
  unfolding ngx_signals_loop.simps [of v] Let_def elem_match trim_space_def by auto

text \<open>Apache walks a pointer, nginx works with indices; both take the same decision.\<close>

lemma ngx_signals_eq: "ngx_signals_loop v = signals_loop v"
proof (induction v rule: ngx_signals_loop.induct)
  case (1 v)
  let ?e = "map lower (trim_space (takeWhile (\<lambda>c. c \<noteq> CHR '','') v)) = ''dca=esi''"
  let ?d = "dropWhile (\<lambda>c. c \<noteq> CHR '','') v"
  have "ngx_signals_loop (tl ?d) = signals_loop (tl ?d)" if "\<not> ?e" "?d \<noteq> []"
    using 1 that unfolding elem_match trim_space_def by blast
  then show ?case
    unfolding ngx_signals_step [of v] signals_loop_step [of v] by blast
qed

lemma ngx_header_signals_eq: "ngx_mesi_header_signals_esi v = mesi_header_signals_esi (Some v)"
proof (cases v)
  case Nil
  have "\<not> signals_loop []" by (subst signals_loop.simps) simp
  with Nil show ?thesis by (simp add: ngx_mesi_header_signals_esi_def mesi_header_signals_esi_def)
next
  case (Cons c cs)
  then show ?thesis by (simp add: ngx_mesi_header_signals_esi_def mesi_header_signals_esi_def ngx_signals_eq)
qed

lemma edge_control_name:
  "length key = length ''Edge-control'' \<and> strncaseeq key ''Edge-control'' (length ''Edge-control'')
     \<longleftrightarrow> strcaseeq key ''Edge-control''"
  using strcaseeq_length [of key "''Edge-control''"] by (auto simp: strncaseeq_def)

lemma has_esi_header_iff:
  "ngx_http_mesi_has_esi_header hs \<longleftrightarrow>
     (\<exists>(hash, key, val) \<in> set hs. hash \<noteq> 0 \<and> strcaseeq key ''Edge-control'' \<and> is_esi_response val)"
proof (induction hs rule: ngx_http_mesi_has_esi_header.induct)
  case (2 hash key val hs)
  have "ngx_mesi_header_signals_esi val = is_esi_response val"
    unfolding ngx_header_signals_eq by (simp add: mesi_header_signals_esi_def signals_is_esi)
  with 2 edge_control_name [of key] show ?case by auto
qed simp

subsection \<open>Accumulation\<close>

definition within :: "ngx_loc_conf \<Rightarrow> nat \<Rightarrow> bool" where
  "within lcf n \<longleftrightarrow> \<not> (lc_max_body_size lcf > 0 \<and> int n > lc_max_body_size lcf)"

text \<open>The invariant of the context: the bytes fit the block, the block fits the limit.\<close>

definition ctx_ok :: "ngx_loc_conf \<Rightarrow> ngx_ctx \<Rightarrow> bool" where
  "ctx_ok lcf ctx \<longleftrightarrow> length (cx_acc ctx) \<le> cx_cap ctx \<and> within lcf (cx_cap ctx)"

lemma new_ctx_ok: "ctx_ok lcf ngx_new_ctx"
  by (auto simp: ctx_ok_def within_def ngx_new_ctx_def)

lemma within_le: "within lcf n \<Longrightarrow> m \<le> n \<Longrightarrow> within lcf m"
  by (auto simp: within_def)

lemma cap_loop_result: "0 < new_cap \<Longrightarrow> \<exists>c. ngx_cap_loop new_len new_cap = Some c \<and> new_len \<le> c"
proof (induction "new_len - new_cap" arbitrary: new_cap rule: less_induct)
  case less
  show ?case
  proof (cases "new_cap < new_len")
    case True
    then have "new_len - new_cap * 2 < new_len - new_cap" using less.prems by linarith
    from less.hyps [OF this] less.prems True show ?thesis
      by (simp add: ngx_cap_loop.simps [of new_len new_cap])
  qed (simp add: ngx_cap_loop.simps)
qed

lemma grow_ok:
  assumes "ctx_ok lcf ctx" and "0 < pagesize" and "within lcf n" and "length (cx_acc ctx) \<le> n"
  shows "\<exists>c. ngx_grow pagesize lcf n ctx = Some (ctx\<lparr>cx_cap := c\<rparr>) \<and> n \<le> c \<and> within lcf c"
proof (cases "n > cx_cap ctx")
  case False
  with assms(1) show ?thesis
    by (intro exI [where x = "cx_cap ctx"]) (simp add: ngx_grow_def ctx_ok_def)
next
  case True
  have "0 < (if cx_cap ctx \<noteq> 0 then cx_cap ctx else pagesize)" using assms(2) by simp
  from cap_loop_result [OF this, of n] obtain c
    where c: "ngx_cap_loop n (if cx_cap ctx \<noteq> 0 then cx_cap ctx else pagesize) = Some c" "n \<le> c" by blast
  let ?c = "if lc_max_body_size lcf > 0 \<and> int c > lc_max_body_size lcf then nat (lc_max_body_size lcf) else c"
  have "n \<le> ?c" and "within lcf ?c" using c(2) assms(3) by (auto simp: within_def)
  moreover have "ngx_grow pagesize lcf n ctx = Some (ctx\<lparr>cx_cap := ?c\<rparr>)"
    using True c(1) \<open>n \<le> ?c\<close> assms(4) by (simp add: ngx_grow_def Let_def)
  ultimately show ?thesis by blast
qed

lemma take_buf_cases:
  assumes "ctx_ok lcf ctx" and "0 < pagesize" and "\<not> cx_done ctx"
  shows "within lcf (length (cx_acc ctx) + length (nb_data b)) \<Longrightarrow>
      \<exists>c. ngx_take_buf pagesize lcf b ctx = Some (Kept (ctx\<lparr>cx_acc := cx_acc ctx @ nb_data b, cx_cap := c\<rparr>))
        \<and> ctx_ok lcf (ctx\<lparr>cx_acc := cx_acc ctx @ nb_data b, cx_cap := c\<rparr>)"
    and "\<not> within lcf (length (cx_acc ctx) + length (nb_data b)) \<Longrightarrow>
      ngx_take_buf pagesize lcf b ctx
        = Some (if lc_on_oversize lcf = NGX_ON_OVERSIZE_ERROR then OverError else OverPass)"
proof -
  let ?n = "length (cx_acc ctx) + length (nb_data b)"
  show "\<exists>c. ngx_take_buf pagesize lcf b ctx = Some (Kept (ctx\<lparr>cx_acc := cx_acc ctx @ nb_data b, cx_cap := c\<rparr>))
        \<and> ctx_ok lcf (ctx\<lparr>cx_acc := cx_acc ctx @ nb_data b, cx_cap := c\<rparr>)" if w: "within lcf ?n"
  proof (cases "nb_data b = []")
    case True
    with assms(1,3) show ?thesis
      by (intro exI [where x = "cx_cap ctx"]) (simp add: ngx_take_buf_def)
  next
    case False
    obtain c where "ngx_grow pagesize lcf ?n ctx = Some (ctx\<lparr>cx_cap := c\<rparr>)" "?n \<le> c" "within lcf c"
      using grow_ok [OF assms(1,2) w] by auto
    moreover have "\<not> (lc_max_body_size lcf > 0 \<and> int ?n > lc_max_body_size lcf)"
      using w by (simp add: within_def)
    ultimately show ?thesis
      using False assms(3)
      by (intro exI [where x = c]) (auto simp: ngx_take_buf_def ngx_append_def ctx_ok_def Let_def)
  qed
  show "ngx_take_buf pagesize lcf b ctx
        = Some (if lc_on_oversize lcf = NGX_ON_OVERSIZE_ERROR then OverError else OverPass)" if w: "\<not> within lcf ?n"
  proof -
    have "length (nb_data b) > 0" using w assms(1) by (auto simp: ctx_ok_def dest: within_le)
    with w assms(3) show ?thesis by (simp add: ngx_take_buf_def within_def)
  qed
qed

subsection \<open>One chain\<close>

definition bytes_of :: "ngx_buf list \<Rightarrow> string" where
  "bytes_of cl = concat (map nb_data cl)"

lemma bytes_of_simps [simp]:
  "bytes_of [] = []" "bytes_of (b # cl) = nb_data b @ bytes_of cl"
  "bytes_of (cl @ cl') = bytes_of cl @ bytes_of cl'"
  by (simp_all add: bytes_of_def)

definition drained :: "ngx_buf \<Rightarrow> ngx_buf" where
  "drained b = b\<lparr>nb_data := []\<rparr>"

lemma loop_keeps:
  assumes "ctx_ok lcf ctx" and "0 < pagesize" and "\<not> cx_done ctx"
    and "\<forall>b \<in> set cl. \<not> nb_last b" and "within lcf (length (cx_acc ctx) + length (bytes_of cl))"
  shows "\<exists>c. ngx_body_loop pagesize gl lcf r used cl ctx w
      = Some \<lparr> rs_out = Nothing, rs_ctx = ctx\<lparr>cx_acc := cx_acc ctx @ bytes_of cl, cx_cap := c\<rparr>,
          rs_worker = w, rs_request = r, rs_in = used @ map drained cl \<rparr>
      \<and> ctx_ok lcf (ctx\<lparr>cx_acc := cx_acc ctx @ bytes_of cl, cx_cap := c\<rparr>)"
  using assms
proof (induction cl arbitrary: ctx used)
  case Nil
  then show ?case by (intro exI [where x = "cx_cap ctx"]) simp
next
  case (Cons b cl)
  have "within lcf (length (cx_acc ctx) + length (nb_data b))"
    by (rule within_le [OF Cons.prems(5)]) simp
  from take_buf_cases(1) [OF Cons.prems(1-3) this] obtain c
    where t: "ngx_take_buf pagesize lcf b ctx = Some (Kept (ctx\<lparr>cx_acc := cx_acc ctx @ nb_data b, cx_cap := c\<rparr>))"
      and ok: "ctx_ok lcf (ctx\<lparr>cx_acc := cx_acc ctx @ nb_data b, cx_cap := c\<rparr>)" by blast
  from Cons.IH [OF ok Cons.prems(2), of "used @ [drained b]"] Cons.prems show ?case
    by (simp add: t drained_def add.assoc)
qed

lemma loop_parses:
  assumes "ctx_ok lcf ctx" and "0 < pagesize" and "\<not> cx_done ctx"
    and "\<forall>b \<in> set pre. \<not> nb_last b" and "nb_last l"
    and "within lcf (length (cx_acc ctx) + length (bytes_of (pre @ [l])))"
  shows "\<exists>ctx1. ngx_body_loop pagesize gl lcf r used (pre @ [l]) ctx w
      = (case ngx_parse gl lcf r (cx_acc ctx @ bytes_of (pre @ [l])) w of
           None \<Rightarrow> None
         | Some (parsed, w1) \<Rightarrow>
             Some \<lparr> rs_out = NextBody [\<lparr> nb_data = parsed, nb_last = True \<rparr>], rs_ctx = ctx1, rs_worker = w1,
               rs_request = r\<lparr>rq_content_length := int (length parsed)\<rparr>, rs_in = used @ map drained (pre @ [l]) \<rparr>)
      \<and> ctx_ok lcf ctx1 \<and> cx_done ctx1"
  using assms
proof (induction pre arbitrary: ctx used)
  case Nil
  then have "within lcf (length (cx_acc ctx) + length (nb_data l))" by simp
  from take_buf_cases(1) [OF Nil.prems(1-3) this] obtain c
    where t: "ngx_take_buf pagesize lcf l ctx = Some (Kept (ctx\<lparr>cx_acc := cx_acc ctx @ nb_data l, cx_cap := c\<rparr>))"
      and ok: "ctx_ok lcf (ctx\<lparr>cx_acc := cx_acc ctx @ nb_data l, cx_cap := c\<rparr>)" by blast
  show ?case
    using Nil.prems ok
    by (intro exI [where x = "ctx\<lparr>cx_acc := cx_acc ctx @ nb_data l, cx_cap := c, cx_done := True\<rparr>"])
       (simp add: t drained_def ctx_ok_def split: option.split)
next
  case (Cons b pre)
  have "within lcf (length (cx_acc ctx) + length (nb_data b))"
    by (rule within_le [OF Cons.prems(6)]) simp
  from take_buf_cases(1) [OF Cons.prems(1-3) this] obtain c
    where t: "ngx_take_buf pagesize lcf b ctx = Some (Kept (ctx\<lparr>cx_acc := cx_acc ctx @ nb_data b, cx_cap := c\<rparr>))"
      and ok: "ctx_ok lcf (ctx\<lparr>cx_acc := cx_acc ctx @ nb_data b, cx_cap := c\<rparr>)" by blast
  have e: "(used @ [drained b]) @ map drained (pre @ [l]) = used @ map drained ((b # pre) @ [l])" by simp
  from Cons.IH [OF ok Cons.prems(2), of "used @ [drained b]", unfolded e] Cons.prems show ?case
    by (simp add: t add.assoc drained_def [symmetric])
qed

text \<open>A body over the limit: it is aborted, or everything held goes out with the rest.\<close>

definition oversize_end :: "ngx_loc_conf \<Rightarrow> string \<Rightarrow> ngx_worker \<Rightarrow> ngx_request \<Rightarrow> ngx_result_state \<Rightarrow> bool" where
  "oversize_end lcf page w r s \<longleftrightarrow> rs_worker s = w \<and> rs_request s = r
     \<and> (if lc_on_oversize lcf = NGX_ON_OVERSIZE_ERROR then rs_out s = Abort
        else cx_pass (rs_ctx s) \<and> (\<exists>out. rs_out s = NextBody out \<and> bytes_of out = page))"

lemma loop_over:
  assumes "ctx_ok lcf ctx" and "0 < pagesize" and "\<not> cx_done ctx"
    and "\<forall>b \<in> set (butlast cl). \<not> nb_last b"
    and "\<not> within lcf (length (cx_acc ctx) + length (bytes_of cl))"
  shows "\<exists>s. ngx_body_loop pagesize gl lcf r used cl ctx w = Some s
     \<and> oversize_end lcf (cx_acc ctx @ bytes_of cl) w r s \<and> ctx_ok lcf (rs_ctx s)"
  using assms
proof (induction cl arbitrary: ctx used)
  case Nil
  then have "within lcf (length (cx_acc ctx))" by (auto simp: ctx_ok_def intro: within_le)
  with Nil show ?case by simp
next
  case (Cons b cl)
  show ?case
  proof (cases "within lcf (length (cx_acc ctx) + length (nb_data b))")
    case False
    from take_buf_cases(2) [OF Cons.prems(1-3) False] Cons.prems(1) show ?thesis
      by (auto simp: oversize_end_def ctx_ok_def)
  next
    case True
    from take_buf_cases(1) [OF Cons.prems(1-3) this] obtain c
      where t: "ngx_take_buf pagesize lcf b ctx = Some (Kept (ctx\<lparr>cx_acc := cx_acc ctx @ nb_data b, cx_cap := c\<rparr>))"
        and ok: "ctx_ok lcf (ctx\<lparr>cx_acc := cx_acc ctx @ nb_data b, cx_cap := c\<rparr>)" by blast
    have "cl \<noteq> []" using True Cons.prems(5) by auto
    with Cons.prems(4) have "\<not> nb_last b" "\<forall>b \<in> set (butlast cl). \<not> nb_last b" by auto
    with Cons.IH [OF ok Cons.prems(2), of "used @ [drained b]"] Cons.prems(3,5) show ?thesis
      by (simp add: t drained_def add.assoc)
  qed
qed

subsection \<open>A whole body\<close>

text \<open>
  The chains of a response, one call of the body filter after the other: the bytes that leave the
  filter, whether the response is still alive, and the worker.
\<close>

fun ngx_run ::
  "nat \<Rightarrow> golib \<Rightarrow> ngx_loc_conf \<Rightarrow> ngx_request \<Rightarrow> ngx_buf list list \<Rightarrow> ngx_ctx option \<Rightarrow> ngx_worker
    \<Rightarrow> (string \<times> bool \<times> ngx_worker) option" where
  "ngx_run pagesize gl lcf r [] ctx w = Some ([], True, w)"
| "ngx_run pagesize gl lcf r (cl # cls) ctx w =
     (case ngx_http_html_mesi_body_filter pagesize gl lcf r cl ctx w of
        None \<Rightarrow> None
      | Some (Abort, ctx1, w1, r1, cl1) \<Rightarrow> Some ([], False, w1)
      | Some (Nothing, ctx1, w1, r1, cl1) \<Rightarrow> ngx_run pagesize gl lcf r1 cls ctx1 w1
      | Some (NextBody out, ctx1, w1, r1, cl1) \<Rightarrow>
          map_option (\<lambda>(s, ok, w2). (bytes_of out @ s, ok, w2)) (ngx_run pagesize gl lcf r1 cls ctx1 w1))"

definition ngx_idle :: "ngx_loc_conf \<Rightarrow> ngx_ctx option \<Rightarrow> ngx_worker \<Rightarrow> bool" where
  "ngx_idle lcf ctx w \<longleftrightarrow> lc_enable_mesi lcf = 0 \<or> ctx = None \<or> \<not> nw_open w \<or> cx_pass (the ctx)"

lemma run_idle: "ngx_idle lcf ctx w \<Longrightarrow> ngx_run pagesize gl lcf r cls ctx w = Some (bytes_of (concat cls), True, w)"
proof (induction cls)
  case (Cons cl cls)
  from Cons.prems have "ngx_http_html_mesi_body_filter pagesize gl lcf r cl ctx w = Some (NextBody cl, ctx, w, r, cl)"
    by (auto simp: ngx_http_html_mesi_body_filter_def ngx_idle_def)
  with Cons show ?case by simp
qed simp

lemma run_flushes: "concat cls = [] \<Longrightarrow> ngx_run pagesize gl lcf r cls ctx w = Some ([], True, w)"
  by (induction cls) (auto simp: ngx_http_html_mesi_body_filter_def)

lemma active_filter:
  assumes "\<not> ngx_idle lcf (Some ctx) w"
  shows "ngx_http_html_mesi_body_filter pagesize gl lcf r cl (Some ctx) w =
    (case ngx_body_loop pagesize gl lcf r [] cl ctx w of
       None \<Rightarrow> None
     | Some s \<Rightarrow> Some (if rs_out s = Nothing \<and> cl = [] then NextBody [] else rs_out s,
                    Some (rs_ctx s), rs_worker s, rs_request s, rs_in s))"
  using assms by (simp add: ngx_http_html_mesi_body_filter_def ngx_idle_def)

text \<open>The abstract filter, on a page rather than on buffers.\<close>

definition page_outcome ::
  "golib \<Rightarrow> ngx_loc_conf \<Rightarrow> ngx_request \<Rightarrow> string \<Rightarrow> ngx_worker \<Rightarrow> (string \<times> bool \<times> ngx_worker) option" where
  "page_outcome gl lcf r page w =
    (if within lcf (length page) then map_option (\<lambda>(out, w1). (out, True, w1)) (ngx_parse gl lcf r page w)
     else if lc_on_oversize lcf = NGX_ON_OVERSIZE_ERROR then Some ([], False, w)
     else Some (page, True, w))"

lemma run_over:
  assumes "\<not> ngx_idle lcf (Some ctx) w" and "ctx_ok lcf ctx" and "0 < pagesize" and "\<not> cx_done ctx"
    and "\<forall>b \<in> set (butlast cl). \<not> nb_last b"
    and "\<not> within lcf (length (cx_acc ctx) + length (bytes_of cl))"
  shows "ngx_run pagesize gl lcf r (cl # cls) (Some ctx) w
    = page_outcome gl lcf r (cx_acc ctx @ bytes_of (cl @ concat cls)) w"
proof -
  obtain s where s: "ngx_body_loop pagesize gl lcf r [] cl ctx w = Some s"
    "oversize_end lcf (cx_acc ctx @ bytes_of cl) w r s"
    using loop_over [OF assms(2-6)] by blast
  have n: "\<not> within lcf (length (cx_acc ctx @ bytes_of (cl @ concat cls)))"
    using assms(6) within_le [of lcf "length (cx_acc ctx @ bytes_of (cl @ concat cls))"
        "length (cx_acc ctx) + length (bytes_of cl)"] by auto
  show ?thesis
  proof (cases "lc_on_oversize lcf = NGX_ON_OVERSIZE_ERROR")
    case True
    with s n show ?thesis
      by (simp add: active_filter [OF assms(1)] oversize_end_def page_outcome_def)
  next
    case False
    with s(2) obtain out where out: "rs_out s = NextBody out" "bytes_of out = cx_acc ctx @ bytes_of cl"
      and s': "rs_worker s = w" "rs_request s = r" "cx_pass (rs_ctx s)" by (auto simp: oversize_end_def)
    have "ngx_idle lcf (Some (rs_ctx s)) w" using s'(3) by (simp add: ngx_idle_def)
    from run_idle [OF this, of pagesize gl r cls] False s(1) n out s' show ?thesis
      by (simp add: active_filter [OF assms(1)] page_outcome_def)
  qed
qed

lemma run_last:
  assumes "\<not> ngx_idle lcf (Some ctx) w" and "ctx_ok lcf ctx" and "0 < pagesize" and "\<not> cx_done ctx"
    and "\<forall>b \<in> set pre. \<not> nb_last b" and "nb_last l" and "concat cls = []"
  shows "ngx_run pagesize gl lcf r ((pre @ [l]) # cls) (Some ctx) w
    = page_outcome gl lcf r (cx_acc ctx @ bytes_of (pre @ [l])) w"
proof (cases "within lcf (length (cx_acc ctx) + length (bytes_of (pre @ [l])))")
  case False
  from run_over [OF assms(1-4) _ False, of gl r cls] assms(5) show ?thesis
    unfolding assms(7) by (simp del: ngx_run.simps)
next
  case True
  from loop_parses [OF assms(2-6) True] obtain ctx1
    where "ngx_body_loop pagesize gl lcf r [] (pre @ [l]) ctx w
      = (case ngx_parse gl lcf r (cx_acc ctx @ bytes_of (pre @ [l])) w of
           None \<Rightarrow> None
         | Some (parsed, w1) \<Rightarrow>
             Some \<lparr> rs_out = NextBody [\<lparr> nb_data = parsed, nb_last = True \<rparr>], rs_ctx = ctx1, rs_worker = w1,
               rs_request = r\<lparr>rq_content_length := int (length parsed)\<rparr>, rs_in = [] @ map drained (pre @ [l]) \<rparr>)"
    by blast
  with True run_flushes [OF assms(7)] show ?thesis
    by (simp add: active_filter [OF assms(1)] page_outcome_def split: option.split)
qed

lemma run_page:
  assumes "ctx_ok lcf ctx" and "0 < pagesize" and "\<not> cx_done ctx" and "\<not> ngx_idle lcf (Some ctx) w"
    and "concat cls = pre @ [l]" and "\<forall>b \<in> set pre. \<not> nb_last b" and "nb_last l"
  shows "ngx_run pagesize gl lcf r cls (Some ctx) w = page_outcome gl lcf r (cx_acc ctx @ bytes_of (concat cls)) w"
  using assms
proof (induction cls arbitrary: ctx pre)
  case Nil
  then show ?case by simp
next
  case (Cons cl cls)
  show ?case
  proof (cases "concat cls = []")
    case True
    with Cons.prems(5) have cl: "cl = pre @ [l]" by simp
    from run_last [OF Cons.prems(4,1-3,6,7) True, of gl r] show ?thesis
      unfolding concat.simps(2) True cl by (simp del: ngx_run.simps)
  next
    case False
    then obtain pre' where pre': "concat cls = pre' @ [l]" and pre: "pre = cl @ pre'"
      using Cons.prems(5) by (metis append.assoc append_butlast_last_id butlast_append butlast_snoc concat.simps(2) last_appendR last_snoc)
    have nl: "\<forall>b \<in> set cl. \<not> nb_last b" "\<forall>b \<in> set pre'. \<not> nb_last b" using Cons.prems(6) pre by auto
    show ?thesis
    proof (cases "within lcf (length (cx_acc ctx) + length (bytes_of cl))")
      case out: False
      have "\<forall>b \<in> set (butlast cl). \<not> nb_last b" using nl(1) in_set_butlastD by fastforce
      from run_over [OF Cons.prems(4,1-3) this out] show ?thesis by simp
    next
      case True
      from loop_keeps [OF Cons.prems(1-3) nl(1) True, of gl r "[]" w] obtain c
        where c: "ngx_body_loop pagesize gl lcf r [] cl ctx w
            = Some \<lparr> rs_out = Nothing, rs_ctx = ctx\<lparr>cx_acc := cx_acc ctx @ bytes_of cl, cx_cap := c\<rparr>,
                rs_worker = w, rs_request = r, rs_in = [] @ map drained cl \<rparr>"
          and ok: "ctx_ok lcf (ctx\<lparr>cx_acc := cx_acc ctx @ bytes_of cl, cx_cap := c\<rparr>)" by blast
      have act: "\<not> ngx_idle lcf (Some (ctx\<lparr>cx_acc := cx_acc ctx @ bytes_of cl, cx_cap := c\<rparr>)) w"
        using Cons.prems(4) by (simp add: ngx_idle_def)
      have "ngx_run pagesize gl lcf r (cl # cls) (Some ctx) w
          = ngx_run pagesize gl lcf r cls (Some (ctx\<lparr>cx_acc := cx_acc ctx @ bytes_of cl, cx_cap := c\<rparr>)) w"
        by (cases "ngx_run pagesize gl lcf r cls (Some (ctx\<lparr>cx_acc := cx_acc ctx @ bytes_of cl, cx_cap := c\<rparr>)) w")
           (auto simp: active_filter [OF Cons.prems(4)] c)
      with Cons.IH [OF ok Cons.prems(2) _ act pre' nl(2) Cons.prems(7)] Cons.prems(3) show ?thesis by simp
    qed
  qed
qed

text \<open>
  A body none of whose buffers has \<open>last_buf\<close> (nginx sets only
  \<open>last_in_chain\<close> at the end of a subrequest) never leaves the filter.
\<close>

lemma run_without_last:
  assumes "ctx_ok lcf ctx" and "0 < pagesize" and "\<not> cx_done ctx" and "\<not> ngx_idle lcf (Some ctx) w"
    and "\<forall>b \<in> set (concat cls). \<not> nb_last b"
    and "within lcf (length (cx_acc ctx) + length (bytes_of (concat cls)))"
  shows "ngx_run pagesize gl lcf r cls (Some ctx) w = Some ([], True, w)"
  using assms
proof (induction cls arbitrary: ctx)
  case (Cons cl cls)
  have nl: "\<forall>b \<in> set cl. \<not> nb_last b" using Cons.prems(5) by simp
  have "within lcf (length (cx_acc ctx) + length (bytes_of cl))"
    by (rule within_le [OF Cons.prems(6)]) simp
  from loop_keeps [OF Cons.prems(1-3) nl this, of gl r "[]" w] obtain c
    where c: "ngx_body_loop pagesize gl lcf r [] cl ctx w
        = Some \<lparr> rs_out = Nothing, rs_ctx = ctx\<lparr>cx_acc := cx_acc ctx @ bytes_of cl, cx_cap := c\<rparr>,
            rs_worker = w, rs_request = r, rs_in = [] @ map drained cl \<rparr>"
      and ok: "ctx_ok lcf (ctx\<lparr>cx_acc := cx_acc ctx @ bytes_of cl, cx_cap := c\<rparr>)" by blast
  have act: "\<not> ngx_idle lcf (Some (ctx\<lparr>cx_acc := cx_acc ctx @ bytes_of cl, cx_cap := c\<rparr>)) w"
    using Cons.prems(4) by (simp add: ngx_idle_def)
  have "ngx_run pagesize gl lcf r cls (Some (ctx\<lparr>cx_acc := cx_acc ctx @ bytes_of cl, cx_cap := c\<rparr>)) w
      = Some ([], True, w)"
    using Cons.prems by (intro Cons.IH ok act) (simp_all add: add.assoc)
  then show ?case by (auto simp: active_filter [OF Cons.prems(4)] c)
qed simp

subsection \<open>Any chain\<close>

lemma take_buf_total:
  assumes "ctx_ok lcf ctx" and "0 < pagesize"
  shows "\<exists>t. ngx_take_buf pagesize lcf b ctx = Some t \<and> (\<forall>c. t = Kept c \<longrightarrow> ctx_ok lcf c)"
proof (cases "cx_done ctx")
  case True
  with assms(1) show ?thesis by (simp add: ngx_take_buf_def)
next
  case False
  with take_buf_cases [OF assms False, of b] show ?thesis
    by (cases "within lcf (length (cx_acc ctx) + length (nb_data b))") auto
qed

text \<open>What every call preserves, whatever the chain, when \<open>parse\<close> returns.\<close>

definition loop_good :: "ngx_loc_conf \<Rightarrow> ngx_worker \<Rightarrow> ngx_request \<Rightarrow> ngx_buf list \<Rightarrow> ngx_result_state \<Rightarrow> bool" where
  "loop_good lcf w r done_in s \<longleftrightarrow> ctx_ok lcf (rs_ctx s)
     \<and> nw_sym (rs_worker s) = nw_sym w \<and> rq_host (rs_request s) = rq_host r
     \<and> (rs_out s = Nothing \<longrightarrow> rs_in s = done_in)"

lemma loop_total:
  assumes "ctx_ok lcf ctx" and "0 < pagesize"
    and "\<And>page. \<exists>out w'. ngx_parse gl lcf r page w = Some (out, w') \<and> nw_sym w' = nw_sym w"
  shows "\<exists>s. ngx_body_loop pagesize gl lcf r used cl ctx w = Some s \<and> loop_good lcf w r (used @ map drained cl) s"
  using assms(1)
proof (induction cl arbitrary: ctx used)
  case Nil
  then show ?case by (simp add: loop_good_def)
next
  case (Cons b cl)
  obtain t where t: "ngx_take_buf pagesize lcf b ctx = Some t" "\<And>c. t = Kept c \<Longrightarrow> ctx_ok lcf c"
    using take_buf_total [OF Cons.prems assms(2)] by blast
  show ?case
  proof (cases t)
    case (Kept c)
    with t have ok: "ctx_ok lcf c" by blast
    obtain out w' where p: "ngx_parse gl lcf r (cx_acc c) w = Some (out, w')" "nw_sym w' = nw_sym w"
      using assms(3) by blast
    show ?thesis
    proof (cases "nb_last b \<and> \<not> cx_done c")
      case True
      with p ok t(1) Kept show ?thesis by (simp add: loop_good_def ctx_ok_def)
    next
      case False
      then have "ngx_body_loop pagesize gl lcf r used (b # cl) ctx w
          = ngx_body_loop pagesize gl lcf r (used @ [drained b]) cl c w"
        using t(1) Kept by (auto simp: drained_def)
      with Cons.IH [OF ok, of "used @ [drained b]"] show ?thesis by simp
    qed
  next
    case OverError
    with t(1) Cons.prems show ?thesis by (simp add: loop_good_def)
  next
    case OverPass
    with t(1) Cons.prems show ?thesis by (simp add: loop_good_def ctx_ok_def)
  qed
qed

text \<open>The states of a response: any chains, in any order.\<close>

inductive ngx_reach ::
  "nat \<Rightarrow> golib \<Rightarrow> ngx_loc_conf \<Rightarrow> ngx_worker \<Rightarrow> ngx_request \<Rightarrow> ngx_worker \<Rightarrow> ngx_request \<Rightarrow> ngx_ctx \<Rightarrow> bool"
  for pagesize gl lcf w0 r0 where
  reach_new: "ngx_reach pagesize gl lcf w0 r0 w0 r0 ngx_new_ctx"
| reach_chain: "ngx_reach pagesize gl lcf w0 r0 w r ctx \<Longrightarrow>
    ngx_http_html_mesi_body_filter pagesize gl lcf r cl (Some ctx) w = Some (out, Some ctx', w', r', cl') \<Longrightarrow>
    ngx_reach pagesize gl lcf w0 r0 w' r' ctx'"

inductive_cases reach_cases: "ngx_reach pagesize gl lcf w0 r0 w r ctx"

lemma body_filter_total:
  assumes "ngx_conf_ok lcf" and "ngx_cache_safe lcf" and "rq_host r \<noteq> None" and "nw_sym w Parse"
    and "0 < pagesize" and "ctx_ok lcf ctx"
  shows "\<exists>out ctx' w' r' cl'.
      ngx_http_html_mesi_body_filter pagesize gl lcf r cl (Some ctx) w = Some (out, Some ctx', w', r', cl')
      \<and> ctx_ok lcf ctx' \<and> nw_sym w' = nw_sym w \<and> rq_host r' = rq_host r"
proof (cases "ngx_idle lcf (Some ctx) w")
  case True
  with assms(6) show ?thesis by (auto simp: ngx_http_html_mesi_body_filter_def ngx_idle_def)
next
  case False
  have "\<exists>out w'. ngx_parse gl lcf r page w = Some (out, w') \<and> nw_sym w' = nw_sym w" for page
    using parse_parsed [OF assms(1-4), of gl page] by (auto simp: ngx_parsed_def)
  from loop_total [OF assms(6,5) this, of "[]" cl] obtain s
    where "ngx_body_loop pagesize gl lcf r [] cl ctx w = Some s" "loop_good lcf w r ([] @ map drained cl) s" by blast
  then show ?thesis by (simp add: active_filter [OF False] loop_good_def)
qed

lemma reach_invariant:
  assumes "ngx_reach pagesize gl lcf w0 r0 w r ctx"
    and "ngx_conf_ok lcf" and "ngx_cache_safe lcf" and "rq_host r0 \<noteq> None" and "nw_sym w0 Parse" and "0 < pagesize"
  shows "ctx_ok lcf ctx \<and> nw_sym w Parse \<and> rq_host r \<noteq> None"
  using assms(1)
proof induction
  case reach_new
  then show ?case using assms(4,5) by (simp add: new_ctx_ok)
next
  case (reach_chain w r ctx cl out ctx' w' r' cl')
  from body_filter_total [OF assms(2,3) _ _ assms(6), of r w ctx gl cl] reach_chain show ?case by auto
qed

end
