(* ===== verification/Ngx_Response.thy ===== *)
theory Ngx_Response
  imports Ngx_Filter_Lemmas
begin

text \<open>
  A whole response through the nginx module: the header filter, then the body filter on every
  chain.  \<open>ngx_processes\<close> says which responses are processed, \<open>page_outcome\<close> what a
  client gets for a page.  Here are the properties of the filters.
\<close>

subsection \<open>The header filter\<close>

definition declared_over :: "ngx_loc_conf \<Rightarrow> ngx_request \<Rightarrow> bool" where
  "declared_over lcf r \<longleftrightarrow> lc_max_body_size lcf > 0 \<and> rq_content_length r > lc_max_body_size lcf"

definition ngx_eligible :: "ngx_loc_conf \<Rightarrow> ngx_request \<Rightarrow> bool" where
  "ngx_eligible lcf r \<longleftrightarrow>
     lc_enable_mesi lcf \<noteq> 0 \<and> \<not> rq_header_only r \<and> rq_content_length r \<noteq> 0
     \<and> (rq_content_encoding r = None \<or> rq_content_encoding r = Some [])
     \<and> contains (ngx_str_to_cstr (map lower (rq_content_type r))) ''text/html'' \<and> rq_status r \<le> 400
     \<and> (lc_parse_on_header lcf = 1 \<longrightarrow>
          (\<exists>(hash, key, val) \<in> set (rq_headers_out r).
             hash \<noteq> 0 \<and> strcaseeq key ''Edge-control'' \<and> is_esi_response val))"

definition hosts_enforceable :: "ngx_loc_conf \<Rightarrow> ngx_worker \<Rightarrow> bool" where
  "hosts_enforceable lcf w \<longleftrightarrow> str_of (lc_allowed_hosts lcf) = [] \<or> nw_sym w ParseWithConfig"

definition ngx_processes :: "ngx_loc_conf \<Rightarrow> ngx_worker \<Rightarrow> ngx_request \<Rightarrow> bool" where
  "ngx_processes lcf w r \<longleftrightarrow> ngx_eligible lcf r \<and> \<not> declared_over lcf r \<and> hosts_enforceable lcf w"

definition advertised :: "ngx_request \<Rightarrow> ngx_request" where
  "advertised r = r\<lparr>rq_headers_out := rq_headers_out r @ [(1, ''Surrogate-Capability'', ''ESI/1.0'')],
     rq_in_memory := True, rq_content_length := (if rq_is_main r then -1 else rq_content_length r)\<rparr>"

lemma is_html_contains:
  "ngx_test_is_html r = contains (ngx_str_to_cstr (map lower (rq_content_type r))) ''text/html''"
  by (simp add: ngx_test_is_html_def ngx_str_to_cstr_def)

lemma compression_iff:
  "ngx_test_content_compression r \<longleftrightarrow> \<not> (rq_content_encoding r = None \<or> rq_content_encoding r = Some [])"
  by (cases "rq_content_encoding r") (auto simp: ngx_test_content_compression_def)

lemma parse_on_header_value:
  "ngx_conf_ok lcf \<Longrightarrow> lc_parse_on_header lcf \<noteq> -1 \<and> lc_parse_on_header lcf \<noteq> 0 \<longleftrightarrow> lc_parse_on_header lcf = 1"
proof -
  assume "ngx_conf_ok lcf"
  then have "ngx_tri (lc_parse_on_header lcf)" using conf_ok_block unfolding ngx_block_ok_def by blast
  then show ?thesis by (auto simp: ngx_tri_def)
qed

lemma first_refusal:
  "(if a then x else if b then x else if c then x else if d then x else if e then x else if f then x else y)
     = (if \<not> (\<not> a \<and> \<not> b \<and> \<not> c \<and> \<not> d \<and> \<not> e \<and> \<not> f) then x else y)"
  by simp

lemma head_filter_cases:
  assumes "ngx_conf_ok lcf"
  shows "ngx_http_html_mesi_head_filter lcf w r None =
    (if \<not> ngx_eligible lcf r then NextHead r None
     else if declared_over lcf r then
       (if lc_on_oversize lcf = NGX_ON_OVERSIZE_ERROR then BadGateway else NextHead r None)
     else if \<not> hosts_enforceable lcf w then NextHead (r\<lparr>rq_status := 500\<rparr>) None
     else NextHead (advertised r) (Some ngx_new_ctx))"
proof -
  have h: "length (str_of (lc_allowed_hosts lcf)) > 0 \<and> \<not> nw_sym w ParseWithConfig \<longleftrightarrow> \<not> hosts_enforceable lcf w"
    by (auto simp: hosts_enforceable_def)
  have sc: "lc_parse_on_header lcf \<noteq> -1 \<and> lc_parse_on_header lcf \<noteq> 0
        \<and> \<not> ngx_http_mesi_has_esi_header (rq_headers_out r) \<longleftrightarrow>
      \<not> (lc_parse_on_header lcf = 1 \<longrightarrow> ngx_http_mesi_has_esi_header (rq_headers_out r))"
    using parse_on_header_value [OF assms] by blast
  have a: "(let r1 = r\<lparr>rq_headers_out := rq_headers_out r @ [(1, ''Surrogate-Capability'', ''ESI/1.0'')]\<rparr>;
              ctx1 = (case None of None \<Rightarrow> ngx_new_ctx | Some c \<Rightarrow> c);
              r2 = r1\<lparr>rq_in_memory := True\<rparr>;
              r3 = (if rq_is_main r2 then r2\<lparr>rq_content_length := -1\<rparr> else r2)
          in NextHead r3 (Some ctx1)) = NextHead (advertised r) (Some ngx_new_ctx)"
    by (cases r) (simp add: advertised_def)
  have e: "ngx_eligible lcf r \<longleftrightarrow> lc_enable_mesi lcf \<noteq> 0
      \<and> \<not> (rq_header_only r \<or> rq_content_length r = 0) \<and> \<not> ngx_test_content_compression r
      \<and> \<not> \<not> ngx_test_is_html r \<and> \<not> rq_status r > 400
      \<and> \<not> \<not> (lc_parse_on_header lcf = 1 \<longrightarrow> ngx_http_mesi_has_esi_header (rq_headers_out r))"
    unfolding ngx_eligible_def is_html_contains compression_iff has_esi_header_iff not_less by blast
  show ?thesis
    unfolding ngx_http_html_mesi_head_filter_def h sc a first_refusal e declared_over_def ..
qed

subsection \<open>The response\<close>

text \<open>The status, the bytes the client gets, whether the response is complete, the worker.\<close>

definition ngx_response ::
  "nat \<Rightarrow> golib \<Rightarrow> ngx_loc_conf \<Rightarrow> ngx_request \<Rightarrow> ngx_buf list list \<Rightarrow> ngx_worker
    \<Rightarrow> (nat \<times> string \<times> bool \<times> ngx_worker) option" where
  "ngx_response pagesize gl lcf r cls w =
    (case ngx_http_html_mesi_head_filter lcf w r None of
       BadGateway \<Rightarrow> Some (502, [], True, w)
     | NextHead r1 ctx \<Rightarrow> map_option (Pair (rq_status r1)) (ngx_run pagesize gl lcf r1 cls ctx w))"

lemma parse_advertised: "ngx_parse gl lcf (advertised r) page w = ngx_parse gl lcf r page w"
proof -
  have "ngx_base_url (advertised r) = ngx_base_url r" by (simp add: ngx_base_url_def advertised_def)
  moreover have "ngx_dispatch gl lcf (advertised r) = ngx_dispatch gl lcf r"
    by (intro ext) (simp add: ngx_dispatch_def ngx_parse_json_def ngx_parse_ctx_def advertised_def)
  ultimately show ?thesis by (simp only: ngx_parse_def)
qed

text \<open>The chains of a body: buffers, the last of which and only that has \<open>last_buf\<close>.\<close>

definition complete_body :: "ngx_buf list list \<Rightarrow> bool" where
  "complete_body cls \<longleftrightarrow> concat cls \<noteq> [] \<and> nb_last (last (concat cls))
     \<and> (\<forall>b \<in> set (butlast (concat cls)). \<not> nb_last b)"

lemma complete_body_split:
  assumes "complete_body cls"
  obtains pre l where "concat cls = pre @ [l]" "\<forall>b \<in> set pre. \<not> nb_last b" "nb_last l"
  using that [OF append_butlast_last_id [symmetric]] assms unfolding complete_body_def by blast

lemma response_processed:
  assumes "ngx_conf_ok lcf" and "0 < pagesize" and "nw_open w" and "ngx_processes lcf w r" and "complete_body cls"
  shows "ngx_response pagesize gl lcf r cls w
    = map_option (Pair (rq_status r)) (page_outcome gl lcf r (bytes_of (concat cls)) w)"
proof -
  have h: "ngx_http_html_mesi_head_filter lcf w r None = NextHead (advertised r) (Some ngx_new_ctx)"
    using assms(4) by (simp add: head_filter_cases [OF assms(1)] ngx_processes_def)
  have "lc_enable_mesi lcf \<noteq> 0" using assms(4) by (simp add: ngx_processes_def ngx_eligible_def)
  then have act: "\<not> ngx_idle lcf (Some ngx_new_ctx) w" and nd: "\<not> cx_done ngx_new_ctx"
    using assms(3) by (simp_all add: ngx_idle_def ngx_new_ctx_def)
  obtain pre l where b: "concat cls = pre @ [l]" "\<forall>b \<in> set pre. \<not> nb_last b" "nb_last l"
    using complete_body_split [OF assms(5)] .
  have "ngx_run pagesize gl lcf (advertised r) cls (Some ngx_new_ctx) w
      = page_outcome gl lcf (advertised r) (cx_acc ngx_new_ctx @ bytes_of (concat cls)) w"
    by (rule run_page [OF new_ctx_ok assms(2) nd act b])
  also have "\<dots> = page_outcome gl lcf r (bytes_of (concat cls)) w"
    by (simp add: page_outcome_def parse_advertised ngx_new_ctx_def)
  finally show ?thesis by (simp add: ngx_response_def h) (simp add: advertised_def)
qed

lemma response_unprocessed:
  assumes "ngx_conf_ok lcf" and "\<not> ngx_processes lcf w r \<or> \<not> nw_open w"
    and "\<not> (ngx_eligible lcf r \<and> declared_over lcf r \<and> lc_on_oversize lcf = NGX_ON_OVERSIZE_ERROR)"
  shows "\<exists>status. ngx_response pagesize gl lcf r cls w = Some (status, bytes_of (concat cls), True, w)
     \<and> (status = rq_status r \<or> status = 500 \<and> \<not> hosts_enforceable lcf w)"
proof -
  have i: "ngx_run pagesize gl lcf r1 cls ctx w = Some (bytes_of (concat cls), True, w)"
    if "ctx = None \<or> \<not> nw_open w" for ctx r1
    by (rule run_idle) (use that in \<open>auto simp: ngx_idle_def\<close>)
  have st: "rq_status (advertised r) = rq_status r" by (simp add: advertised_def)
  show ?thesis
    unfolding ngx_response_def head_filter_cases [OF assms(1)]
    using assms(2,3) i st by (auto simp: ngx_processes_def)
qed

subsection \<open>The life of a worker\<close>

text \<open>The module never asks for the shared HTTP client.\<close>

fun is_client_call :: "lib_call \<Rightarrow> bool" where
  "is_client_call (CallInitHTTPClient _) = True"
| "is_client_call CallFreeHTTPClient = True"
| "is_client_call _ = False"

definition ngx_extends :: "ngx_worker \<Rightarrow> ngx_worker \<Rightarrow> bool" where
  "ngx_extends w w' \<longleftrightarrow> nw_open w' = nw_open w \<and> nw_sym w' = nw_sym w
     \<and> (\<exists>cs. nw_calls w' = nw_calls w @ map (Pair (nw_open w)) cs \<and> filter is_client_call cs = [])"

named_theorems extends \<open>steps that only add library calls\<close>

lemma extends_refl [extends]: "ngx_extends w w"
  by (auto simp: ngx_extends_def intro: exI [where x = "[]"])

lemma extends_trans:
  assumes "ngx_extends w w1" and "ngx_extends w1 w2"
  shows "ngx_extends w w2"
proof -
  from assms obtain cs ds where "nw_calls w1 = nw_calls w @ map (Pair (nw_open w)) cs"
    "nw_calls w2 = nw_calls w1 @ map (Pair (nw_open w1)) ds"
    and c: "filter is_client_call cs = []" "filter is_client_call ds = []" unfolding ngx_extends_def by blast
  with assms have "nw_calls w2 = nw_calls w @ map (Pair (nw_open w)) (cs @ ds)" by (simp add: ngx_extends_def)
  moreover have "filter is_client_call (cs @ ds) = []" using c by simp
  ultimately show ?thesis using assms unfolding ngx_extends_def by (metis (no_types))
qed

lemma extends_call [extends]: "\<not> is_client_call c \<Longrightarrow> ngx_extends w (ngx_call c w)"
  by (auto simp: ngx_extends_def ngx_call_def intro: exI [where x = "[c]"])

lemma extends_flag: "ngx_extends w w1 \<Longrightarrow> ngx_extends w (w1\<lparr>nw_cache := b, nw_last_backend := s\<rparr>)"
  by (simp add: ngx_extends_def)

lemma extends_with_config: "ngx_init_with_config b t lcf w = Some w2 \<Longrightarrow> ngx_extends w w2"
  by (cases t) (auto simp: ngx_init_with_config_def extends)

lemma extends_setup:
  assumes "ngx_setup_cache lcf w = Some w1"
  shows "ngx_extends w w1"
proof (cases "length (str_of (lc_cache_backend lcf)) > 0
    \<and> (\<not> nw_cache w \<or> \<not> ngx_same_backend w (str_of (lc_cache_backend lcf)))")
  case False
  with assms have "w1 = w" unfolding ngx_setup_cache_def Let_def by (simp only: if_False option.inject)
  then show ?thesis by (simp add: extends)
next
  case True
  let ?b = "ngx_str_to_cstr (str_of (lc_cache_backend lcf))"
  obtain w2 where w1: "w1 = w2\<lparr>nw_cache := True, nw_last_backend := str_of (lc_cache_backend lcf)\<rparr>"
    and w2: "Some w2 = Some w \<or> (\<exists>t. ngx_init_with_config ?b t lcf w = Some w2)
      \<or> w2 = ngx_call (CallInitCache ?b (s32 (lc_cache_size lcf)) (s32 (lc_cache_ttl lcf))) w"
    using assms True unfolding ngx_setup_cache_def Let_def by (auto split: if_split_asm)
  from w2 have "ngx_extends w w2" using extends_with_config by (auto simp: extends)
  then show ?thesis unfolding w1 by (rule extends_flag)
qed

lemma extends_positional [extends]:
  "ngx_extends w (snd (ngx_parse_positional gl lcf html u hs w))"
  by (simp add: ngx_parse_positional_def Let_def extends)

lemma extends_dispatch:
  assumes "ngx_dispatch gl lcf r html u hs w = Some res"
  shows "ngx_extends w (snd res)"
proof -
  have j: "ngx_parse_json gl lcf r html u hs w = Some res' \<Longrightarrow> ngx_extends w (snd res')" for res'
    by (auto simp: ngx_parse_json_def extends split: option.splits)
  have c: "ngx_parse_ctx gl lcf r html u hs w = Some res' \<Longrightarrow> ngx_extends w (snd res')" for res'
    by (auto simp: ngx_parse_ctx_def Let_def extends split: option.splits)
  note p = extends_positional [of _ gl lcf html u hs]
  show ?thesis
  proof (cases "ngx_configured lcf \<and> nw_sym w ParseJson")
    case True
    with assms j show ?thesis by (simp add: ngx_dispatch_def)
  next
    case nj: False
    show ?thesis
    proof (cases "length (str_of (lc_cache_key_template lcf)) > 0 \<and> nw_sym w ParseWithConfigCtx")
      case False
      with assms have "res = ngx_parse_positional gl lcf html u hs w"
        unfolding ngx_dispatch_def if_not_P [OF nj] if_not_P [OF False] by simp
      then show ?thesis by (simp add: p)
    next
      case True
      have d: "(case ngx_parse_ctx gl lcf r html u hs w of
          Some (Message None, w1) \<Rightarrow> Some (ngx_parse_positional gl lcf html u hs w1) | res \<Rightarrow> res) = Some res"
        using assms unfolding ngx_dispatch_def if_not_P [OF nj] if_P [OF True] .
      then obtain out w1 where o: "ngx_parse_ctx gl lcf r html u hs w = Some (out, w1)"
        by (cases "ngx_parse_ctx gl lcf r html u hs w") auto
      have "ngx_extends w w1" using c [OF o] by simp
      show ?thesis
      proof (cases "out = Message None")
        case True
        with d o have "res = ngx_parse_positional gl lcf html u hs w1" by simp
        with extends_trans [OF \<open>ngx_extends w w1\<close> p] show ?thesis by simp
      next
        case False
        with d o have "res = (out, w1)" by (simp split: ngx_outcome.splits option.splits)
        with \<open>ngx_extends w w1\<close> show ?thesis by simp
      qed
    qed
  qed
qed

lemma extends_parse: "ngx_parse gl lcf r page w = Some (out, w') \<Longrightarrow> ngx_extends w w'"
proof -
  assume p: "ngx_parse gl lcf r page w = Some (out, w')"
  show ?thesis
  proof (cases "ngx_guard_fails lcf")
    case (Some d)
    with p show ?thesis by (simp add: ngx_parse_def extends)
  next
    case None
    with p obtain w1 u res where w1: "ngx_setup_cache lcf w = Some w1"
      and d: "ngx_dispatch gl lcf r (ngx_str_to_cstr page) (ngx_str_to_cstr u)
            (ngx_str_to_cstr (str_of (lc_allowed_hosts lcf))) w1 = Some res" and "w' = snd res"
      unfolding ngx_parse_def by (auto split: option.splits prod.splits ngx_outcome.splits)
    with extends_trans [OF extends_setup [OF w1] extends_dispatch [OF d]] show ?thesis by simp
  qed
qed

lemma extends_loop: "ngx_body_loop pagesize gl lcf r used cl ctx w = Some s \<Longrightarrow> ngx_extends w (rs_worker s)"
proof (induction cl arbitrary: used ctx)
  case Nil
  then show ?case by (auto simp: extends)
next
  case (Cons b cl)
  then show ?case
    by (auto simp: extends Let_def dest: extends_parse split: option.splits ngx_take.splits if_splits)
qed

lemma filter_extends:
  assumes "ngx_http_html_mesi_body_filter pagesize gl lcf r cl ctx w = Some (out, ctx', w', r', cl')"
  shows "ngx_extends w w' \<and> (nw_open w \<or> w' = w)"
  using assms unfolding ngx_http_html_mesi_body_filter_def
  by (auto simp: extends dest: extends_loop split: if_splits option.splits)

text \<open>
  A worker: started, then any calls of the body filter for any locations, requests and
  contexts.
\<close>

inductive ngx_life :: "(symbol \<Rightarrow> bool) \<Rightarrow> golib \<Rightarrow> ngx_worker \<Rightarrow> bool" for syms gl where
  life_start: "ngx_http_mesi_thread_init True syms ngx_initial_worker = (True, w) \<Longrightarrow> ngx_life syms gl w"
| life_body: "ngx_life syms gl w \<Longrightarrow>
    ngx_http_html_mesi_body_filter pagesize gl lcf r cl ctx w = Some (out, ctx', w', r', cl') \<Longrightarrow>
    ngx_life syms gl w'"

lemma life_invariant:
  "ngx_life syms gl w \<Longrightarrow> nw_open w \<and> nw_sym w Parse \<and> (\<forall>(mapped, c) \<in> set (nw_calls w). mapped)
     \<and> filter is_client_call (map snd (nw_calls w)) = []"
proof (induction rule: ngx_life.induct)
  case (life_start w)
  then show ?case
    by (auto simp: ngx_http_mesi_thread_init_def ngx_initial_worker_def Let_def split: if_splits)
next
  case (life_body w pagesize lcf r cl ctx out ctx' w' r' cl')
  from filter_extends [OF life_body(2)] obtain cs where "nw_open w' = nw_open w" "nw_sym w' = nw_sym w"
    "nw_calls w' = nw_calls w @ map (Pair (nw_open w)) cs" "filter is_client_call cs = []"
    unfolding ngx_extends_def by blast
  with life_body(3) show ?case by (auto simp: comp_def)
qed

subsection \<open>Properties\<close>

text \<open>C19: the response of the nginx filters refines the abstract filter on pages: however a body is
  cut into buffers and chains, it is parsed whole exactly once when it is within the limit, and
  over the limit it is aborted or passed on unchanged, as \<open>mesi_on_oversize\<close> says.\<close>

theorem nginx_response_refines_page:
  assumes "ngx_conf_ok lcf" and "0 < pagesize" and "nw_open w" and "ngx_processes lcf w r" and "complete_body cls"
  shows "ngx_response pagesize gl lcf r cls w
    = map_option (Pair (rq_status r)) (page_outcome gl lcf r (bytes_of (concat cls)) w)"
  using assms by (rule response_processed)

theorem nginx_response_refines_page_witness:
  "let cls = [[\<lparr>nb_data = ''<p'', nb_last = False\<rparr>], [], [\<lparr>nb_data = ''>'', nb_last = True\<rparr>]]
   in ngx_response 4096 ngx_sample_golib ngx_sample_conf ngx_sample_request cls ngx_sample_worker
    = map_option (Pair (rq_status ngx_sample_request))
        (page_outcome ngx_sample_golib ngx_sample_conf ngx_sample_request (bytes_of (concat cls)) ngx_sample_worker)"
  unfolding Let_def
proof (rule nginx_response_refines_page)
  have "contains (ngx_str_to_cstr (map lower ''text/html'')) ''text/html''" by code_simp
  then show "ngx_processes ngx_sample_conf ngx_sample_worker ngx_sample_request"
    by (simp add: ngx_processes_def ngx_eligible_def declared_over_def hosts_enforceable_def
        ngx_sample_request_def ngx_sample_conf_defs ngx_sample_sym)
qed (simp_all add: ngx_sample_conf_ok complete_body_def ngx_sample_worker_def ngx_http_mesi_thread_init_def
      ngx_initial_worker_def Let_def)

text \<open>A response that nginx does not process (not HTML, compressed, an error, without the
  \<open>Edge-control\<close> signal when it is asked for, declared over the limit in pass mode, or with
  a host list that cannot be enforced) reaches the client byte for byte and makes no library call;
  only the unenforceable host list changes its status, to 500.\<close>

theorem nginx_unprocessed_untouched:
  assumes "ngx_conf_ok lcf" and "\<not> ngx_processes lcf w r \<or> \<not> nw_open w"
    and "\<not> (ngx_eligible lcf r \<and> declared_over lcf r \<and> lc_on_oversize lcf = NGX_ON_OVERSIZE_ERROR)"
  shows "\<exists>status. ngx_response pagesize gl lcf r cls w = Some (status, bytes_of (concat cls), True, w)
     \<and> (status = rq_status r \<or> status = 500 \<and> \<not> hosts_enforceable lcf w)"
  using assms by (rule response_unprocessed)

theorem nginx_unprocessed_untouched_witness:
  "let r = ngx_sample_request\<lparr>rq_status := 404\<rparr>
   in \<exists>status. ngx_response 4096 ngx_sample_golib ngx_sample_conf r [[\<lparr>nb_data = ''x'', nb_last = True\<rparr>]] ngx_sample_worker
        = Some (status, bytes_of (concat [[\<lparr>nb_data = ''x'', nb_last = True\<rparr>]]), True, ngx_sample_worker)
     \<and> (status = rq_status r \<or> status = 500 \<and> \<not> hosts_enforceable ngx_sample_conf ngx_sample_worker)"
  unfolding Let_def
  by (rule nginx_unprocessed_untouched)
     (simp_all add: ngx_sample_conf_ok ngx_processes_def ngx_eligible_def)

text \<open>For a request with a Host header and a location whose cache blob fits its allocation
  (\<open>ngx_cache_safe\<close>), in every state a response can reach, whatever chains come, the body filter of nginx
  returns without a write outside its block, and the block never grows over the configured
  limit.\<close>

theorem nginx_body_filter_safe:
  assumes "ngx_reach pagesize gl lcf w0 r0 w r ctx"
    and "ngx_conf_ok lcf" and "ngx_cache_safe lcf" and "rq_host r0 \<noteq> None" and "nw_sym w0 Parse" and "0 < pagesize"
  shows "\<exists>out ctx' w' r' cl'.
      ngx_http_html_mesi_body_filter pagesize gl lcf r cl (Some ctx) w = Some (out, Some ctx', w', r', cl')
      \<and> length (cx_acc ctx') \<le> cx_cap ctx'
      \<and> \<not> (lc_max_body_size lcf > 0 \<and> int (cx_cap ctx') > lc_max_body_size lcf)"
proof -
  from reach_invariant [OF assms] have i: "ctx_ok lcf ctx" "nw_sym w Parse" "rq_host r \<noteq> None" by blast+
  from body_filter_total [OF assms(2,3) i(3,2) assms(6) i(1), of gl cl] show ?thesis
    unfolding ctx_ok_def within_def by blast
qed

theorem nginx_body_filter_safe_witness:
  "\<exists>out ctx' w' r' cl'.
      ngx_http_html_mesi_body_filter 4096 ngx_sample_golib ngx_sample_conf ngx_sample_request
        [\<lparr>nb_data = ''<p>'', nb_last = True\<rparr>] (Some ngx_new_ctx) ngx_sample_worker = Some (out, Some ctx', w', r', cl')
      \<and> length (cx_acc ctx') \<le> cx_cap ctx'
      \<and> \<not> (lc_max_body_size ngx_sample_conf > 0 \<and> int (cx_cap ctx') > lc_max_body_size ngx_sample_conf)"
  by (rule nginx_body_filter_safe [OF reach_new])
     (simp_all add: ngx_sample_conf_ok ngx_sample_safe ngx_sample_host ngx_sample_sym)

text \<open>C39: progress of the upstream: when the body filter of nginx keeps a chain, it has consumed
  every buffer of it, so each can be reused for the rest of the body.\<close>

theorem nginx_kept_buffers_released:
  assumes "ngx_http_html_mesi_body_filter pagesize gl lcf r cl ctx w = Some (Nothing, ctx', w', r', cl')"
  shows "cl' = map drained cl"
proof -
  have "ngx_body_loop pagesize gl lcf r used cl c w = Some s \<Longrightarrow> rs_out s = Nothing \<Longrightarrow>
      rs_in s = used @ map drained cl" for used c s
    by (induction cl arbitrary: used c)
       (auto simp: drained_def Let_def split: option.splits ngx_take.splits if_splits)
  from this [where used = "[]"] show ?thesis
    using assms unfolding ngx_http_html_mesi_body_filter_def
    by (auto split: if_splits option.splits)
qed

theorem nginx_kept_buffers_released_witness:
  "let cl = [\<lparr>nb_data = [], nb_last = False\<rparr>]
   in ngx_http_html_mesi_body_filter 4096 ngx_sample_golib ngx_sample_conf ngx_sample_request cl
        (Some ngx_new_ctx) ngx_sample_worker
      = Some (Nothing, Some ngx_new_ctx, ngx_sample_worker, ngx_sample_request, cl)
     \<and> cl = map drained cl"
  unfolding Let_def
proof
  show e: "ngx_http_html_mesi_body_filter 4096 ngx_sample_golib ngx_sample_conf ngx_sample_request
        [\<lparr>nb_data = [], nb_last = False\<rparr>] (Some ngx_new_ctx) ngx_sample_worker
      = Some (Nothing, Some ngx_new_ctx, ngx_sample_worker, ngx_sample_request, [\<lparr>nb_data = [], nb_last = False\<rparr>])"
    by (simp add: ngx_http_html_mesi_body_filter_def ngx_take_buf_def ngx_sample_conf_defs ngx_new_ctx_def
        ngx_sample_worker_def ngx_http_mesi_thread_init_def ngx_initial_worker_def Let_def)
  show "[\<lparr>nb_data = [], nb_last = False\<rparr>] = map drained [\<lparr>nb_data = [], nb_last = False\<rparr>]"
    by (rule nginx_kept_buffers_released [OF e])
qed

text \<open>The decision to process a page on its \<open>Edge-control\<close> header is the same in both
  servers and the one of the Go core: nginx accepts exactly when some visible header of that name
  has a value Apache's check accepts.\<close>

theorem nginx_header_check_agrees:
  "ngx_http_mesi_has_esi_header hs \<longleftrightarrow>
     (\<exists>(hash, key, val) \<in> set hs. hash \<noteq> 0 \<and> strcaseeq key ''Edge-control'' \<and> mesi_header_signals_esi (Some val))"
  by (simp add: has_esi_header_iff mesi_header_signals_esi_def signals_is_esi)

text \<open>C40: over the whole life of an nginx worker, up to and including its exit, the library is
  called only while it is mapped.\<close>

theorem nginx_library_calls_mapped:
  assumes "ngx_life syms gl w"
  shows "list_all fst (nw_calls (ngx_http_mesi_thread_exit w))"
  using life_invariant [OF assms] by (auto simp: ngx_http_mesi_thread_exit_def ngx_call_def Let_def list_all_iff)

theorem nginx_library_calls_mapped_witness:
  "list_all fst (nw_calls (ngx_http_mesi_thread_exit ngx_sample_worker))"
proof (rule nginx_library_calls_mapped)
  show "ngx_life (\<lambda>_. True) ngx_sample_golib ngx_sample_worker"
    by (rule life_start) (simp add: ngx_sample_worker_def ngx_http_mesi_thread_init_def Let_def)
qed

end
