(* ===== verification/Go_Nginx.thy ===== *)
theory Go_Nginx
  imports Go_Cache Ngx_Response
begin

text \<open>
  The nginx module composed with the library: what \<open>parse\<close> returns is what the core makes of the
  page under the configuration of the location, with the cache that the worker has set up and no
  shared client, since the module never asks for one.
\<close>

subsection \<open>The settings of a request\<close>

definition ngx_settings :: "ngx_loc_conf \<Rightarrow> ngx_request \<Rightarrow> wire_settings" where
  "ngx_settings lcf r =
    \<lparr> ws_depth = lc_max_depth lcf, ws_url = ngx_base r, ws_hosts = ngx_hosts lcf,
      ws_block = (lc_block_private_ips lcf \<noteq> 0), ws_allow = (lc_allow_private_ips_for_allowed lcf \<noteq> 0),
      ws_timeout = given (lc_timeout_seconds lcf), ws_max_response_size = given (lc_max_response_size lcf),
      ws_max_concurrent = given (lc_max_concurrent_requests lcf), ws_max_workers = given (lc_max_workers lcf),
      ws_debug = given_flag (lc_debug lcf), ws_parse_on_header = given_flag (lc_parse_on_header lcf),
      ws_marker = lc_include_error_marker lcf,
      ws_template = str_of (lc_cache_key_template lcf), ws_ctx = ngx_ctx_json lcf r \<rparr>"

lemma str_member_is_opt: "str_member k s = opt_member (s \<noteq> None) k (JStr (str_of s))"
  by (cases s) (simp_all add: str_member_def opt_member_def str_of_def)

lemma ngx_wire:
  "wire_members (ngx_settings lcf r)
    = ngx_blob_members lcf (lc_max_depth lcf) (ngx_base r) (ngx_hosts lcf) (ngx_ctx_json lcf r)"
  unfolding wire_members_def ngx_settings_def wire_settings.simps template_members given_member
    str_member_is_opt ngx_blob_members_def
  by simp

lemma contains_Nil: "contains [] (c # s) = False"
  by (simp add: contains_def)

lemma ngx_ctx_empty: "str_of (lc_cache_key_template lcf) = [] \<Longrightarrow> ngx_ctx_json lcf r = None"
  by (simp add: ngx_ctx_json_def ngx_wants_ctx_def contains_Nil)

lemma cstr_id: "CHR 0x00 \<notin> set s \<Longrightarrow> ngx_str_to_cstr s = s"
  by (auto simp: ngx_str_to_cstr_def takeWhile_eq_all_conv)

lemma ngx_template_cstr:
  assumes "ngx_conf_ok lcf"
  shows "ngx_str_to_cstr (str_of (lc_cache_key_template lcf)) = str_of (lc_cache_key_template lcf)"
  using assms by (intro cstr_id) (auto simp: ngx_conf_ok_def)

lemma ngx_carries_delivers:
  assumes "ngx_conf_ok lcf" and "ngx_carries lcf r html c"
  shows "delivers (ngx_settings lcf r) html c"
  using assms(2) ngx_template_cstr [OF assms(1)]
  by (cases c) (simp_all add: wire_blob_def ngx_wire del: render.simps, simp_all add: ngx_settings_def)

lemma ngx_given_range: "ngx_opt lo hi v \<Longrightarrow> in_range (given v) lo hi"
  by (auto simp: ngx_opt_def given_def in_range_def)

lemma ngx_numbers:
  assumes "ngx_conf_ok lcf"
  shows "wire_numbers_ok (ngx_settings lcf r)"
  using conf_ok_fields(1,2) [OF assms] conf_ok_fields(3-) [OF assms, THEN ngx_given_range]
  by (simp add: wire_numbers_ok_def ngx_settings_def go_limits)

lemma shallow_ngx_ctx: "shallow 9999 (ngx_ctx_value h)"
proof -
  have "\<forall>(k, v) \<in> set (ngx_kept_headers h). shallow 9997 v"
    by (induction h rule: ngx_kept_headers.induct) simp_all
  then show ?thesis by (simp add: ngx_ctx_value_def cookie_json_def)
qed

text \<open>The texts of a request that Go reads as nginx wrote them.\<close>

definition ngx_texts_ok :: "ngx_loc_conf \<Rightarrow> ngx_request \<Rightarrow> bool" where
  "ngx_texts_ok lcf r \<longleftrightarrow> utf8_valid (ngx_base r) \<and> utf8_valid (ngx_hosts lcf)
     \<and> go_text (str_of (lc_include_error_marker lcf)) \<and> utf8_valid (str_of (lc_cache_key_template lcf))"

lemma cstr_no_nul: "CHR 0x00 \<notin> set (ngx_str_to_cstr s)"
  by (auto simp: ngx_str_to_cstr_def dest: set_takeWhileD)

lemma ngx_texts:
  assumes "ngx_conf_ok lcf" and "ngx_texts_ok lcf r"
  shows "wire_texts_ok (ngx_settings lcf r)"
proof -
  have "CHR 0x00 \<notin> set (str_of (lc_cache_key_template lcf))" using assms(1) by (auto simp: ngx_conf_ok_def)
  moreover have "CHR 0x00 \<notin> set (ngx_base r)" "CHR 0x00 \<notin> set (ngx_hosts lcf)"
    unfolding ngx_base_def ngx_hosts_def by (rule cstr_no_nul)+
  moreover have "shallow 9999 j" if "ngx_ctx_json lcf r = Some j" for j
    using that shallow_ngx_ctx by (auto simp: ngx_ctx_json_def split: if_splits)
  ultimately show ?thesis
    using assms(2) by (simp add: ngx_texts_ok_def wire_texts_ok_def ngx_settings_def go_text_def)
qed

subsection \<open>A parse against the library\<close>

definition ngx_library :: "ngx_worker \<Rightarrow> go_state" where
  "ngx_library w = go_run (map snd (nw_calls w))"

definition ngx_full_library :: "ngx_worker \<Rightarrow> bool" where
  "ngx_full_library w \<longleftrightarrow> nw_sym w Parse \<and> nw_sym w ParseWithConfigEx \<and> nw_sym w ParseWithConfigCtx \<and> nw_sym w ParseJson"

lemma full_library_dispatch:
  assumes conf: "ngx_conf_ok lcf" and txt_ok: "ngx_texts_ok lcf r" and full: "ngx_full_library w"
  shows "\<exists>w2. ngx_dispatch (go_library core ord st) lcf r html (ngx_base r) (ngx_hosts lcf) w
    = Some (Message (Some (c_string (core (html, core_config ord st (ngx_settings lcf r))))), w2)"
proof -
  have answer: "lib_answer (go_library core ord st) c = Some (c_string (core (html, core_config ord st (delivered c (ngx_settings lcf r)))))"
    if "ngx_carries lcf r html c" for c
    using delivers_core [OF ngx_carries_delivers [OF conf that] ngx_numbers [OF conf] ngx_texts [OF conf txt_ok]]
    by (simp add: go_answers go_answer_def)
  have one: "\<exists>w2. res = (Message (Some (c_string (core (html, core_config ord st (delivered c (ngx_settings lcf r)))))), w2)"
    if "ngx_answered (go_library core ord st) w [c] res" "ngx_good_call lcf r html w c" for c res
    using that answer [of c] by (cases res) (simp add: ngx_answered_def ngx_good_call_def)
  consider "ngx_configured lcf" | "\<not> ngx_configured lcf" "str_of (lc_cache_key_template lcf) \<noteq> []"
    | "\<not> ngx_configured lcf" "str_of (lc_cache_key_template lcf) = []" by blast
  then show ?thesis
  proof cases
    case 1
    obtain s j where s: "ngx_build_request_ctx_json (rq_headers_in r) (str_of (lc_cache_key_template lcf)) = Some s"
      and j: "ctx_text (Some s) (ngx_ctx_json lcf r)" using ngx_ctx_text by blast
    obtain blob where t: "ngx_build_parse_json_config lcf (lc_max_depth lcf) (ngx_base r) (ngx_hosts lcf) s = Some blob"
      and blob: "blob = render quote_full
        (JObj (ngx_blob_members lcf (lc_max_depth lcf) (ngx_base r) (ngx_hosts lcf) (ngx_ctx_json lcf r)))"
      using ngx_blob_exact [OF conf_ok_numbers [OF conf] j] by blast
    have "ngx_carries lcf r html (CallParseJson html blob)"
      using blob by (simp only: ngx_carries.simps simp_thms)
    from answer [OF this] have "parse_json (go_library core ord st) html blob
        = Some (c_string (core (html, core_config ord st (ngx_settings lcf r))))" by simp
    with 1 full s t show ?thesis
      by (simp add: ngx_dispatch_def ngx_full_library_def ngx_parse_json_def)
  next
    case 2
    have same: "drop_optional (ngx_settings lcf r) = ngx_settings lcf r"
      using 2(1) by (simp add: drop_optional_def ngx_settings_def ngx_configured_def given_def given_flag_def)
    obtain s where s: "ngx_build_request_ctx_json (rq_headers_in r) (str_of (lc_cache_key_template lcf)) = Some s"
      and j: "ctx_text (Some s) (ngx_ctx_json lcf r)" using ngx_ctx_text by blast
    let ?c = "CallParseWithConfigCtx html (lc_max_depth lcf) (ngx_base r) (ngx_hosts lcf)
          (lc_block_private_ips lcf) (lc_allow_private_ips_for_allowed lcf)
          (ngx_str_to_cstr (str_of (lc_cache_key_template lcf))) s"
    have "ngx_carries lcf r html ?c" using j by simp
    from answer [OF this] have "lib_answer (go_library core ord st) ?c
        = Some (c_string (core (html, core_config ord st (ngx_settings lcf r))))" by (simp add: same)
    with 2 full s show ?thesis
      by (simp add: ngx_dispatch_def ngx_full_library_def ngx_parse_ctx_def flag_value [OF conf] Let_def)
  next
    case 3
    have same: "drop_template (drop_optional (ngx_settings lcf r)) = ngx_settings lcf r"
      using 3 ngx_ctx_empty [OF 3(2)]
      by (simp add: wire_drop ngx_settings_def ngx_configured_def given_def given_flag_def)
    let ?c = "CallParseWithConfigEx html (lc_max_depth lcf) (ngx_base r) (ngx_hosts lcf)
          (lc_block_private_ips lcf) (lc_allow_private_ips_for_allowed lcf)"
    have "ngx_carries lcf r html ?c" by simp
    from answer [OF this] have "lib_answer (go_library core ord st) ?c
        = Some (c_string (core (html, core_config ord st (ngx_settings lcf r))))" by (simp add: same)
    with 3 full show ?thesis
      by (simp add: ngx_dispatch_def ngx_full_library_def ngx_parse_positional_def flag_value [OF conf] Let_def)
  qed
qed

lemma no_client: "filter is_client_call cs = [] \<Longrightarrow> gs_client (go_run cs) = None"
proof (induction cs rule: rev_induct)
  case Nil
  then show ?case by (simp add: go_initial_def)
next
  case (snoc c cs)
  then show ?case by (cases c) simp_all
qed

lemma parse_reaches_core:
  assumes "ngx_conf_ok lcf" and "rq_host r \<noteq> None" and "ngx_texts_ok lcf r" and "ngx_full_library w"
    and "ngx_setup_cache lcf w = Some w1"
  shows "\<exists>w'. ngx_parse (go_library core ord st) lcf r page w
    = Some (c_string (core (ngx_str_to_cstr page, core_config ord st (ngx_settings lcf r))), w')"
proof -
  obtain base where b: "ngx_base_url r = Some base" "ngx_base r = ngx_str_to_cstr base"
    using assms(2) by (auto simp: ngx_base_url_def ngx_base_def str_of_def)
  have "ngx_full_library w1"
    using extends_setup [OF assms(5)] assms(4) by (simp add: ngx_extends_def ngx_full_library_def)
  from full_library_dispatch [OF assms(1,3) this]
  obtain w2 where "ngx_dispatch (go_library core ord st) lcf r (ngx_str_to_cstr page) (ngx_base r) (ngx_hosts lcf) w1
    = Some (Message (Some (c_string (core (ngx_str_to_cstr page, core_config ord st (ngx_settings lcf r))))), w2)" by blast
  then show ?thesis
    unfolding ngx_parse_def guards_pass [OF assms(1)] assms(5) b(1) option.case
      ngx_hosts_def [symmetric] b(2) [symmetric]
    by simp
qed

lemma life_no_client:
  assumes "ngx_life syms gl w" and "ngx_setup_cache lcf w = Some w1"
  shows "gs_client (ngx_library w1) = None"
proof -
  obtain cs where "nw_calls w1 = nw_calls w @ map (Pair (nw_open w)) cs" "filter is_client_call cs = []"
    using extends_setup [OF assms(2)] unfolding ngx_extends_def by blast
  moreover have "filter is_client_call (map snd (nw_calls w)) = []" using life_invariant [OF assms(1)] by blast
  ultimately show ?thesis unfolding ngx_library_def by (intro no_client) (simp add: comp_def)
qed

text \<open>The library as nginx uses it: a cache, but no client.\<close>

definition cache_only :: "go_state \<Rightarrow> go_state" where
  "cache_only st = go_initial\<lparr>gs_cache := gs_cache st, gs_cache_ttl := gs_cache_ttl st\<rparr>"

lemma core_config_no_client: "gs_client st = None \<Longrightarrow> core_config ord st w = core_config ord (cache_only st) w"
  by (rule core_config_cong) (simp_all add: cache_only_def go_initial_def)

subsection \<open>Properties\<close>

text \<open>C5: end to end: in any state of a worker, with a library that exports every symbol, an HTML
  response within the limit leaves nginx as what the core makes of the whole body under exactly the
  configuration of the location, whichever entry point was chosen, however the body was cut into
  buffers, with the cache of the worker and with no HTTP client shared between requests.\<close>

theorem nginx_response_is_core:
  assumes "ngx_life syms gl0 w" and "ngx_conf_ok lcf" and "0 < pagesize" and "ngx_processes lcf w r"
    and "complete_body cls" and "within lcf (length (bytes_of (concat cls)))"
    and "rq_host r \<noteq> None" and "ngx_texts_ok lcf r" and "ngx_full_library w"
    and "ngx_setup_cache lcf w = Some w1"
  shows "\<exists>w'. ngx_response pagesize (go_library core ord (ngx_library w1)) lcf r cls w
    = Some (rq_status r,
        c_string (core (ngx_str_to_cstr (bytes_of (concat cls)),
                        core_config ord (cache_only (ngx_library w1)) (ngx_settings lcf r))), True, w')"
proof -
  have "nw_open w" using life_invariant [OF assms(1)] by blast
  note resp = response_processed [OF assms(2,3) this assms(4,5)]
  obtain w' where "ngx_parse (go_library core ord (ngx_library w1)) lcf r (bytes_of (concat cls)) w
      = Some (c_string (core (ngx_str_to_cstr (bytes_of (concat cls)),
          core_config ord (ngx_library w1) (ngx_settings lcf r))), w')"
    using parse_reaches_core [OF assms(2,7-10)] by blast
  then show ?thesis
    using assms(6) unfolding resp page_outcome_def core_config_no_client [OF life_no_client [OF assms(1,10)]]
    by simp
qed

definition ngx_sample_set_up :: ngx_worker where
  "ngx_sample_set_up = (ngx_call (CallInitCache ''memory'' 10000 30) ngx_sample_worker)
     \<lparr>nw_cache := True, nw_last_backend := ''memory''\<rparr>"

lemma ngx_sample_settings: "ngx_base ngx_sample_request = ''http://a.b/''"
  by (simp add: ngx_base_def ngx_base_url_def ngx_sample_request_def str_of_def ngx_str_to_cstr_def)

text \<open>The hypotheses at the sample worker, location and request.\<close>

lemma ngx_sample_life: "ngx_life (\<lambda>_. True) ngx_sample_golib ngx_sample_worker"
  by (rule life_start) (simp add: ngx_sample_worker_def ngx_http_mesi_thread_init_def Let_def)

lemma ngx_sample_processes: "ngx_processes ngx_sample_conf ngx_sample_worker ngx_sample_request"
proof -
  have "contains (ngx_str_to_cstr (map lower ''text/html'')) ''text/html''" by code_simp
  then show ?thesis
    by (simp add: ngx_processes_def ngx_eligible_def declared_over_def hosts_enforceable_def
        ngx_sample_request_def ngx_sample_conf_defs ngx_sample_sym)
qed

lemma ngx_sample_texts: "ngx_texts_ok ngx_sample_conf ngx_sample_request"
proof -
  have "utf8_valid ''http://a.b/''" by code_simp
  then show ?thesis
    unfolding ngx_texts_ok_def ngx_sample_settings
    by (simp add: ngx_sample_conf_defs ngx_hosts_def str_of_def ngx_str_to_cstr_def)
qed

lemma ngx_sample_cache: "ngx_setup_cache ngx_sample_conf ngx_sample_worker = Some ngx_sample_set_up"
proof -
  have m: "ngx_str_to_cstr ''memory'' = ''memory''" by code_simp
  have w: "\<not> nw_cache ngx_sample_worker"
    by (simp add: ngx_sample_worker_def ngx_http_mesi_thread_init_def ngx_initial_worker_def Let_def)
  have c: "str_of (lc_cache_backend ngx_sample_conf) = ''memory''" "lc_cache_size ngx_sample_conf = 10000"
    "lc_cache_ttl ngx_sample_conf = 30"
    by (simp_all add: ngx_sample_conf_defs str_of_def)
  show ?thesis by (simp add: ngx_setup_cache_def Let_def c m w ngx_sample_sym ngx_sample_set_up_def)
qed

lemma ngx_sample_page:
  "complete_body [[\<lparr>nb_data = ''<p>'', nb_last = True\<rparr>]]"
  "bytes_of (concat [[\<lparr>nb_data = ''<p>'', nb_last = True\<rparr>]]) = ''<p>''" "ngx_str_to_cstr ''<p>'' = ''<p>''"
  "within ngx_sample_conf (length (bytes_of (concat [[\<lparr>nb_data = ''<p>'', nb_last = True\<rparr>]])))" "ngx_full_library ngx_sample_worker" "rq_status ngx_sample_request = 200"
  "rq_host ngx_sample_request \<noteq> None"
  using ngx_sample_host
  by (simp_all add: ngx_str_to_cstr_def bytes_of_def complete_body_def within_def ngx_sample_conf_defs
      ngx_full_library_def ngx_sample_sym ngx_sample_request_def)

theorem nginx_response_is_core_witness:
  "\<exists>w'. ngx_response 4096 (go_library fst id (ngx_library ngx_sample_set_up)) ngx_sample_conf ngx_sample_request
      [[\<lparr>nb_data = ''<p>'', nb_last = True\<rparr>]] ngx_sample_worker
    = Some (200, c_string (fst (''<p>'',
        core_config id (cache_only (ngx_library ngx_sample_set_up)) (ngx_settings ngx_sample_conf ngx_sample_request))), True, w')"
  using nginx_response_is_core [OF ngx_sample_life ngx_sample_conf_ok _ ngx_sample_processes ngx_sample_page(1,4,7)
      ngx_sample_texts ngx_sample_page(5) ngx_sample_cache, of 4096 fst id]
  by (simp add: ngx_sample_page(2,3,6))

end
