(* ===== verification/Php_Options.thy ===== *)
theory Php_Options
  imports Ngx_Json_Lemmas
begin

text \<open>
  \<open>php-ext/mesi.c\<close>, first part: how \<open>parse_with_config\<close> reads its configuration
  array.  A PHP value is a \<open>zval\<close>, an array the list of its entries in order; a PHP string
  is its bytes and may hold NULs, \<open>zcstr\<close> is what C string functions see of it.  Every
  option has one definition, run in the order of the code; each either rejects the call with the
  warning it raises or stores the value.
\<close>

subsection \<open>PHP values\<close>

text \<open>Floats, objects and the other types the code only tells apart from the ones below are
  \<open>ZOther\<close>.  A \<open>zend_long\<close> has 64 bits and is a C \<open>long\<close>.\<close>

datatype zkey = KInt int | KStr string

datatype zval =
    ZNull
  | ZBool bool
  | ZLong int
  | ZStr string
  | ZArr "(zkey \<times> zval) list"
  | ZOther

type_synonym hash_table = "(zkey \<times> zval) list"

definition zend_hash_str_find :: "hash_table \<Rightarrow> string \<Rightarrow> zval option" where
  "zend_hash_str_find ht key = map_of ht (KStr key)"

definition zcstr :: "string \<Rightarrow> string" where
  "zcstr s = takeWhile (\<lambda>c. c \<noteq> CHR 0x00) s"

subsection \<open>Warnings\<close>

text \<open>The \<open>E_WARNING\<close>s of the extension: one constructor per message form, with its arguments.\<close>

datatype php_warning =
    MaxDepthRange string int
  | WrongType string
  | UnsupportedBackend string
  | NotInRange string int
  | NeedsBackend string string
  | BadHostPort string string
  | BadCharacters string
  | Required string
  | HasNul string
  | HasControls string
  | NoHostname
  | KeyNotString string
  | BadKey string string
  | BadValue string string
  | ValueType string string
  | BadMode string
  | BodyOverLimit nat int
  | CacheBlobFailed string
  | CacheInitFailed string int int string
  | CtxAllocFailed
  | CtxRenderFailed
  | ParseBlobFailed
  | OptionIgnored string
  | ConfigRejected
  | InvalidMaxDepth string

subsection \<open>Limits and validators\<close>

definition PHP_MAX_MAX_DEPTH :: int where
  "PHP_MAX_MAX_DEPTH = 10000"

definition PHP_MAX_TIMEOUT_SECONDS :: int where
  "PHP_MAX_TIMEOUT_SECONDS = 86400"

definition PHP_DEFAULT_TIMEOUT_SECONDS :: int where
  "PHP_DEFAULT_TIMEOUT_SECONDS = 30"

definition PHP_MAX_MAX_RESPONSE_SIZE :: int where
  "PHP_MAX_MAX_RESPONSE_SIZE = 9223372036854775806"

definition PHP_MAX_MAX_CONCURRENT_REQUESTS :: int where
  "PHP_MAX_MAX_CONCURRENT_REQUESTS = 999999999"

definition PHP_MAX_MAX_WORKERS :: int where
  "PHP_MAX_MAX_WORKERS = 999999999"

lemmas php_limits = PHP_MAX_MAX_DEPTH_def PHP_MAX_TIMEOUT_SECONDS_def PHP_DEFAULT_TIMEOUT_SECONDS_def
  PHP_MAX_MAX_RESPONSE_SIZE_def PHP_MAX_MAX_CONCURRENT_REQUESTS_def PHP_MAX_MAX_WORKERS_def

text \<open>The warning, when the depth is rejected.\<close>

definition mesi_reject_max_depth :: "string \<Rightarrow> int \<Rightarrow> php_warning option" where
  "mesi_reject_max_depth fn depth =
    (if depth \<ge> 0 \<and> depth \<le> PHP_MAX_MAX_DEPTH then None else Some (MaxDepthRange fn depth))"

fun mesi_is_safe_string :: "string \<Rightarrow> bool" where
  "mesi_is_safe_string [] = True"
| "mesi_is_safe_string (p # ps) =
     (if byte p < 0x20 then False
      else if byte p = 0x7f then False
      else if p = CHR '' '' \<or> p = CHR 0x09 then False
      else if p = CHR 0x22 \<or> p = CHR 0x5C then False
      else mesi_is_safe_string ps)"

fun mesi_is_safe_cookie_value :: "string \<Rightarrow> bool" where
  "mesi_is_safe_cookie_value [] = True"
| "mesi_is_safe_cookie_value (p # ps) =
     (if byte p < 0x20 then False
      else if byte p = 0x7f then False
      else if p = CHR 0x22 \<or> p = CHR 0x5C then False
      else mesi_is_safe_cookie_value ps)"

definition LONG_MAX :: int where
  "LONG_MAX = 2 ^ 63 - 1"

fun uint_loop :: "int \<Rightarrow> string \<Rightarrow> int \<Rightarrow> int option" where
  "uint_loop hi [] v = Some v"
| "uint_loop hi (p # ps) v =
     (if \<not> is_digit p then None
      else if v > c_div LONG_MAX 10 - 10 then None
      else let v' = s64 (s64 (v * 10) + int (digit_val p))
           in if v' > hi then None else uint_loop hi ps v')"

text \<open>The value stored through \<open>out\<close>; \<open>None\<close> is the return value 0.\<close>

definition mesi_parse_uint_bounded :: "string \<Rightarrow> int \<Rightarrow> int \<Rightarrow> int option" where
  "mesi_parse_uint_bounded arg lo hi =
    (if arg = [] then None
     else if \<not> is_digit (hd arg) then None
     else case uint_loop hi arg 0 of
            None \<Rightarrow> None
          | Some v \<Rightarrow> if v < lo then None else Some v)"

text \<open>\<open>strrchr (s, ':')\<close> splits at the last colon.\<close>

definition parse_host_port :: "string \<Rightarrow> bool" where
  "parse_host_port s =
    (if s = [] then False
     else if \<not> mesi_is_safe_string s then False
     else case last_colon s of
            None \<Rightarrow> False
          | Some (host, port) \<Rightarrow>
              if host = [] \<or> port = [] then False
              else mesi_parse_uint_bounded port 1 65535 \<noteq> None)"

text \<open>A read past the end of the bytes finds the terminating NUL.\<close>

definition byte_at :: "string \<Rightarrow> nat \<Rightarrow> nat" where
  "byte_at p i = (if i < length p then byte (p ! i) else 0)"

definition mesi_unicode_ws_len :: "string \<Rightarrow> nat" where
  "mesi_unicode_ws_len p =
    (if byte_at p 0 = 0xC2 \<and> (byte_at p 1 = 0x85 \<or> byte_at p 1 = 0xA0) then 2
     else if byte_at p 0 = 0xE1 \<and> byte_at p 1 = 0x9A \<and> byte_at p 2 = 0x80 then 3
     else if byte_at p 0 = 0xE2 \<and> byte_at p 1 = 0x80
             \<and> ((byte_at p 2 \<ge> 0x80 \<and> byte_at p 2 \<le> 0x8A) \<or> byte_at p 2 = 0xA8 \<or> byte_at p 2 = 0xA9 \<or> byte_at p 2 = 0xAF) then 3
     else if byte_at p 0 = 0xE2 \<and> byte_at p 1 = 0x81 \<and> byte_at p 2 = 0x9F then 3
     else if byte_at p 0 = 0xE3 \<and> byte_at p 1 = 0x80 \<and> byte_at p 2 = 0x80 then 3
     else 0)"

function mesi_allowed_hosts_has_token :: "string \<Rightarrow> bool" where
  "mesi_allowed_hosts_has_token [] = False"
| "mesi_allowed_hosts_has_token (c # cs) =
     (if c = CHR '' '' then mesi_allowed_hosts_has_token cs
      else if byte c = 0xC2 \<or> byte c = 0xE1 \<or> byte c = 0xE2 \<or> byte c = 0xE3 then
        (let n = mesi_unicode_ws_len (c # cs)
         in if n > 0 then mesi_allowed_hosts_has_token (drop n (c # cs)) else True)
      else True)"
  by pat_completeness auto
termination by (relation "measure length") auto

declare mesi_allowed_hosts_has_token.simps(2) [simp del]

subsection \<open>The options\<close>

text \<open>The local variables of \<open>parse_with_config\<close> that the options set.\<close>

record php_opts =
  po_cache_backend :: string
  po_cache_size :: int
  po_cache_ttl :: int
  po_redis_addr :: "string option"
  po_redis_password :: "string option"
  po_redis_db :: int
  po_redis_db_set :: bool
  po_memcached_servers :: "hash_table option"
  po_block_private_ips :: bool
  po_shared_http_client :: bool
  po_allow_private :: bool
  po_allowed_hosts :: string
  po_key_template :: "string option"
  po_request_headers :: "hash_table option"
  po_request_cookies :: "hash_table option"
  po_timeout :: int
  po_timeout_set :: bool
  po_max_response_size :: int
  po_max_response_size_set :: bool
  po_max_concurrent :: int
  po_max_concurrent_set :: bool
  po_max_workers :: int
  po_max_workers_set :: bool
  po_max_body_size :: int
  po_on_oversize :: string
  po_debug :: bool
  po_debug_set :: bool
  po_marker :: string
  po_marker_set :: bool

definition php_default_opts :: php_opts where
  "php_default_opts =
    \<lparr> po_cache_backend = [], po_cache_size = 0, po_cache_ttl = 0, po_redis_addr = None,
      po_redis_password = None, po_redis_db = 0, po_redis_db_set = False, po_memcached_servers = None,
      po_block_private_ips = True, po_shared_http_client = True, po_allow_private = False,
      po_allowed_hosts = [], po_key_template = None, po_request_headers = None,
      po_request_cookies = None, po_timeout = PHP_DEFAULT_TIMEOUT_SECONDS, po_timeout_set = False,
      po_max_response_size = 0, po_max_response_size_set = False, po_max_concurrent = 0,
      po_max_concurrent_set = False, po_max_workers = 0, po_max_workers_set = False,
      po_max_body_size = 0, po_on_oversize = ''pass'', po_debug = False, po_debug_set = False,
      po_marker = [], po_marker_set = False \<rparr>"

type_synonym php_step = "php_opts \<Rightarrow> php_warning + php_opts"

definition opt_cache_backend :: "zval \<Rightarrow> php_step" where
  "opt_cache_backend val o1 =
    (case val of
       ZStr s \<Rightarrow>
         (let raw = zcstr s
          in if raw \<noteq> '''' \<and> raw \<noteq> ''memory'' \<and> raw \<noteq> ''redis'' \<and> raw \<noteq> ''memcached''
             then Inl (UnsupportedBackend raw)
             else Inr (o1\<lparr>po_cache_backend := raw\<rparr>))
     | _ \<Rightarrow> Inl (WrongType ''cache_backend''))"

definition opt_cache_size :: "zval \<Rightarrow> php_step" where
  "opt_cache_size val o1 =
    (case val of
       ZLong v \<Rightarrow> (if v < 1 \<or> v > 1000000 then Inl (NotInRange ''cache_size'' v)
                  else Inr (o1\<lparr>po_cache_size := v\<rparr>))
     | _ \<Rightarrow> Inl (WrongType ''cache_size''))"

definition opt_cache_ttl :: "zval \<Rightarrow> php_step" where
  "opt_cache_ttl val o1 =
    (case val of
       ZLong v \<Rightarrow> (if v < 0 \<or> v > 86400 then Inl (NotInRange ''cache_ttl'' v)
                  else Inr (o1\<lparr>po_cache_ttl := v\<rparr>))
     | _ \<Rightarrow> Inl (WrongType ''cache_ttl''))"

definition opt_redis_addr :: "zval \<Rightarrow> php_step" where
  "opt_redis_addr val o1 =
    (if po_cache_backend o1 \<noteq> ''redis''
     then Inl (NeedsBackend ''cache_redis_addr'' (po_cache_backend o1))
     else case val of
            ZStr s \<Rightarrow> (if \<not> parse_host_port (zcstr s) then Inl (BadHostPort ''cache_redis_addr'' (zcstr s))
                     else Inr (o1\<lparr>po_redis_addr := Some (zcstr s)\<rparr>))
          | _ \<Rightarrow> Inl (WrongType ''cache_redis_addr''))"

definition opt_redis_password :: "zval \<Rightarrow> php_step" where
  "opt_redis_password val o1 =
    (if po_cache_backend o1 \<noteq> ''redis''
     then Inl (NeedsBackend ''cache_redis_password'' (po_cache_backend o1))
     else case val of
            ZStr s \<Rightarrow> (if \<not> mesi_is_safe_string (zcstr s) then Inl (BadCharacters ''cache_redis_password'')
                     else Inr (o1\<lparr>po_redis_password := Some (zcstr s)\<rparr>))
          | _ \<Rightarrow> Inl (WrongType ''cache_redis_password''))"

definition opt_redis_db :: "zval \<Rightarrow> php_step" where
  "opt_redis_db val o1 =
    (if po_cache_backend o1 \<noteq> ''redis''
     then Inl (NeedsBackend ''cache_redis_db'' (po_cache_backend o1))
     else case val of
            ZLong v \<Rightarrow> (if v < 0 \<or> v > 15 then Inl (NotInRange ''cache_redis_db'' v)
                       else Inr (o1\<lparr>po_redis_db := v, po_redis_db_set := True\<rparr>))
          | _ \<Rightarrow> Inl (WrongType ''cache_redis_db''))"

fun check_servers :: "hash_table \<Rightarrow> php_warning option" where
  "check_servers [] = None"
| "check_servers ((k, elt) # es) =
     (case elt of
        ZStr s \<Rightarrow> (if \<not> parse_host_port (zcstr s) then Some (BadHostPort ''cache_memcached_servers'' (zcstr s))
                 else check_servers es)
      | _ \<Rightarrow> Some (BadHostPort ''cache_memcached_servers'' ''<non-string>''))"

definition opt_memcached_servers :: "zval \<Rightarrow> php_step" where
  "opt_memcached_servers val o1 =
    (if po_cache_backend o1 \<noteq> ''memcached''
     then Inl (NeedsBackend ''cache_memcached_servers'' (po_cache_backend o1))
     else case val of
            ZArr ht \<Rightarrow>
              (if length ht = 0 then Inl (Required ''cache_memcached_servers'')
               else case check_servers ht of
                      Some w \<Rightarrow> Inl w
                    | None \<Rightarrow> Inr (o1\<lparr>po_memcached_servers := Some ht\<rparr>))
          | _ \<Rightarrow> Inl (WrongType ''cache_memcached_servers''))"

definition opt_block_private_ips :: "zval \<Rightarrow> php_step" where
  "opt_block_private_ips val o1 =
    (case val of
       ZBool b \<Rightarrow> Inr (o1\<lparr>po_block_private_ips := b\<rparr>)
     | ZLong v \<Rightarrow> Inr (o1\<lparr>po_block_private_ips := (v \<noteq> 0)\<rparr>)
     | _ \<Rightarrow> Inl (WrongType ''block_private_ips''))"

definition opt_shared_http_client :: "zval \<Rightarrow> php_step" where
  "opt_shared_http_client val o1 =
    (case val of
       ZBool b \<Rightarrow> Inr (o1\<lparr>po_shared_http_client := b\<rparr>)
     | ZLong v \<Rightarrow> Inr (o1\<lparr>po_shared_http_client := (v \<noteq> 0)\<rparr>)
     | _ \<Rightarrow> Inl (WrongType ''shared_http_client''))"

definition opt_allowed_hosts :: "zval \<Rightarrow> php_step" where
  "opt_allowed_hosts val o1 =
    (case val of
       ZStr raw \<Rightarrow>
         (if CHR 0x00 \<in> set raw then Inl (HasNul ''allowed_hosts'')
          else if \<exists>c \<in> set raw. byte c < 0x20 \<or> byte c = 0x7f then Inl (HasControls ''allowed_hosts'')
          else if length raw > 0 \<and> \<not> mesi_allowed_hosts_has_token (zcstr raw) then Inl NoHostname
          else Inr (o1\<lparr>po_allowed_hosts := zcstr raw\<rparr>))
     | _ \<Rightarrow> Inl (WrongType ''allowed_hosts''))"

definition opt_allow_private :: "zval \<Rightarrow> php_step" where
  "opt_allow_private val o1 =
    (case val of
       ZBool b \<Rightarrow> Inr (o1\<lparr>po_allow_private := b\<rparr>)
     | ZLong v \<Rightarrow> Inr (o1\<lparr>po_allow_private := (v \<noteq> 0)\<rparr>)
     | _ \<Rightarrow> Inl (WrongType ''allow_private_ips_for_allowed_hosts''))"

definition opt_key_template :: "zval \<Rightarrow> php_step" where
  "opt_key_template val o1 =
    (case val of
       ZStr raw \<Rightarrow>
         (if length raw = 0 then Inr (o1\<lparr>po_key_template := None\<rparr>)
          else if CHR 0x00 \<in> set raw then Inl (HasNul ''cache_key_template'')
          else if \<not> mesi_is_safe_string (zcstr raw) then Inl (BadCharacters ''cache_key_template'')
          else Inr (o1\<lparr>po_key_template := Some (zcstr raw)\<rparr>))
     | _ \<Rightarrow> Inl (WrongType ''cache_key_template''))"

fun check_header_values :: "string \<Rightarrow> hash_table \<Rightarrow> php_warning option" where
  "check_header_values key [] = None"
| "check_header_values key ((k, elt) # es) =
     (case elt of
        ZStr s \<Rightarrow> (if \<not> mesi_is_safe_string (zcstr s) then Some (BadValue ''request_headers'' key)
                 else check_header_values key es)
      | _ \<Rightarrow> Some (ValueType ''request_headers'' key))"

fun check_headers :: "hash_table \<Rightarrow> php_warning option" where
  "check_headers [] = None"
| "check_headers ((k, hv) # hs) =
     (case k of
        KInt i \<Rightarrow> Some (KeyNotString ''request_headers'')
      | KStr key \<Rightarrow>
          (if length key = 0 \<or> \<not> mesi_is_safe_string (zcstr key) then Some (BadKey ''request_headers'' (zcstr key))
           else case hv of
                  ZStr s \<Rightarrow> (if \<not> mesi_is_safe_string (zcstr s)
                           then Some (BadValue ''request_headers'' (zcstr key)) else check_headers hs)
                | ZArr inner \<Rightarrow> (case check_header_values (zcstr key) inner of
                                 Some w \<Rightarrow> Some w | None \<Rightarrow> check_headers hs)
                | _ \<Rightarrow> Some (ValueType ''request_headers'' (zcstr key))))"

definition opt_request_headers :: "zval \<Rightarrow> php_step" where
  "opt_request_headers val o1 =
    (case val of
       ZArr ht \<Rightarrow> (case check_headers ht of
                   Some w \<Rightarrow> Inl w | None \<Rightarrow> Inr (o1\<lparr>po_request_headers := Some ht\<rparr>))
     | _ \<Rightarrow> Inl (WrongType ''request_headers''))"

fun check_cookies :: "hash_table \<Rightarrow> php_warning option" where
  "check_cookies [] = None"
| "check_cookies ((k, hv) # hs) =
     (case k of
        KInt i \<Rightarrow> Some (KeyNotString ''request_cookies'')
      | KStr key \<Rightarrow>
          (if length key = 0 \<or> \<not> mesi_is_safe_string (zcstr key) then Some (BadKey ''request_cookies'' (zcstr key))
           else case hv of
                  ZStr s \<Rightarrow> (if \<not> mesi_is_safe_cookie_value (zcstr s)
                           then Some (BadValue ''request_cookies'' (zcstr key)) else check_cookies hs)
                | _ \<Rightarrow> Some (ValueType ''request_cookies'' (zcstr key))))"

definition opt_request_cookies :: "zval \<Rightarrow> php_step" where
  "opt_request_cookies val o1 =
    (case val of
       ZArr ht \<Rightarrow> (case check_cookies ht of
                   Some w \<Rightarrow> Inl w | None \<Rightarrow> Inr (o1\<lparr>po_request_cookies := Some ht\<rparr>))
     | _ \<Rightarrow> Inl (WrongType ''request_cookies''))"

definition opt_timeout :: "zval \<Rightarrow> php_step" where
  "opt_timeout val o1 =
    (case val of
       ZLong v \<Rightarrow> (if v < 1 \<or> v > PHP_MAX_TIMEOUT_SECONDS then Inl (NotInRange ''timeout'' v)
                  else Inr (o1\<lparr>po_timeout := v, po_timeout_set := True\<rparr>))
     | _ \<Rightarrow> Inl (WrongType ''timeout''))"

definition opt_max_response_size :: "zval \<Rightarrow> php_step" where
  "opt_max_response_size val o1 =
    (case val of
       ZLong v \<Rightarrow> (if v < 0 \<or> v > PHP_MAX_MAX_RESPONSE_SIZE then Inl (NotInRange ''max_response_size'' v)
                  else Inr (o1\<lparr>po_max_response_size := v, po_max_response_size_set := True\<rparr>))
     | _ \<Rightarrow> Inl (WrongType ''max_response_size''))"

definition opt_max_concurrent :: "zval \<Rightarrow> php_step" where
  "opt_max_concurrent val o1 =
    (case val of
       ZLong v \<Rightarrow> (if v < 0 \<or> v > PHP_MAX_MAX_CONCURRENT_REQUESTS
                  then Inl (NotInRange ''max_concurrent_requests'' v)
                  else Inr (o1\<lparr>po_max_concurrent := v, po_max_concurrent_set := True\<rparr>))
     | _ \<Rightarrow> Inl (WrongType ''max_concurrent_requests''))"

definition opt_max_workers :: "zval \<Rightarrow> php_step" where
  "opt_max_workers val o1 =
    (case val of
       ZLong v \<Rightarrow> (if v < 0 \<or> v > PHP_MAX_MAX_WORKERS then Inl (NotInRange ''max_workers'' v)
                  else Inr (o1\<lparr>po_max_workers := v, po_max_workers_set := True\<rparr>))
     | _ \<Rightarrow> Inl (WrongType ''max_workers''))"

definition opt_max_body_size :: "zval \<Rightarrow> php_step" where
  "opt_max_body_size val o1 =
    (case val of
       ZLong v \<Rightarrow> (if v < 0 then Inl (NotInRange ''max_body_size'' v)
                  else Inr (o1\<lparr>po_max_body_size := v\<rparr>))
     | _ \<Rightarrow> Inl (WrongType ''max_body_size''))"

definition opt_on_oversize :: "zval \<Rightarrow> php_step" where
  "opt_on_oversize val o1 =
    (case val of
       ZStr s \<Rightarrow> (if zcstr s \<noteq> ''pass'' \<and> zcstr s \<noteq> ''error'' then Inl (BadMode (zcstr s))
                else Inr (o1\<lparr>po_on_oversize := zcstr s\<rparr>))
     | _ \<Rightarrow> Inl (WrongType ''on_oversize''))"

definition opt_debug :: "zval \<Rightarrow> php_step" where
  "opt_debug val o1 =
    (case val of
       ZBool b \<Rightarrow> Inr (o1\<lparr>po_debug := b, po_debug_set := True\<rparr>)
     | _ \<Rightarrow> Inl (WrongType ''debug''))"

definition opt_marker :: "zval \<Rightarrow> php_step" where
  "opt_marker val o1 =
    (case val of
       ZStr s \<Rightarrow> (if length (zcstr s) \<noteq> length s then Inl (HasNul ''include_error_marker'')
                else Inr (o1\<lparr>po_marker := zcstr s, po_marker_set := True\<rparr>))
     | _ \<Rightarrow> Inl (WrongType ''include_error_marker''))"

definition require_redis_addr :: php_step where
  "require_redis_addr o1 =
    (if po_cache_backend o1 = ''redis'' \<and> po_redis_addr o1 = None
     then Inl (Required ''cache_redis_addr'') else Inr o1)"

definition require_servers :: php_step where
  "require_servers o1 =
    (if po_cache_backend o1 = ''memcached'' \<and> po_memcached_servers o1 = None
     then Inl (Required ''cache_memcached_servers'') else Inr o1)"

subsection \<open>Reading the array\<close>

text \<open>\<open>val = zend_hash_str_find (...); if (val != NULL) ...\<close>\<close>

definition with_key :: "hash_table \<Rightarrow> string \<times> (zval \<Rightarrow> php_step) \<Rightarrow> php_step" where
  "with_key config entry o1 =
    (case zend_hash_str_find config (fst entry) of None \<Rightarrow> Inr o1 | Some val \<Rightarrow> snd entry val o1)"

text \<open>The options in the order of the code.\<close>

definition php_options :: "(string \<times> (zval \<Rightarrow> php_step)) list" where
  "php_options =
    [(''cache_backend'', opt_cache_backend),
     (''cache_size'', opt_cache_size),
     (''cache_ttl'', opt_cache_ttl),
     (''cache_redis_addr'', opt_redis_addr),
     (''cache_redis_password'', opt_redis_password),
     (''cache_redis_db'', opt_redis_db),
     (''cache_memcached_servers'', opt_memcached_servers),
     (''block_private_ips'', opt_block_private_ips),
     (''shared_http_client'', opt_shared_http_client),
     (''allowed_hosts'', opt_allowed_hosts),
     (''allow_private_ips_for_allowed_hosts'', opt_allow_private),
     (''cache_key_template'', opt_key_template),
     (''request_headers'', opt_request_headers),
     (''request_cookies'', opt_request_cookies),
     (''timeout'', opt_timeout),
     (''max_response_size'', opt_max_response_size),
     (''max_concurrent_requests'', opt_max_concurrent),
     (''max_workers'', opt_max_workers),
     (''max_body_size'', opt_max_body_size),
     (''on_oversize'', opt_on_oversize),
     (''debug'', opt_debug),
     (''include_error_marker'', opt_marker)]"

fun run_steps :: "php_step list \<Rightarrow> php_step" where
  "run_steps [] o1 = Inr o1"
| "run_steps (f # fs) o1 = (case f o1 of Inl w \<Rightarrow> Inl w | Inr o2 \<Rightarrow> run_steps fs o2)"

definition php_read_config :: "hash_table \<Rightarrow> php_warning + php_opts" where
  "php_read_config config =
    run_steps (map (with_key config) php_options @ [require_redis_addr, require_servers]) php_default_opts"

end
