(* ===== verification/Php_Json.thy ===== *)
theory Php_Json
  imports Php_Options
begin

text \<open>
  The JSON writers of the PHP extension: the bounded writer (\<open>mesi_putc\<close>,
  \<open>mesi_appendf\<close>) behind \<open>build_parse_json_blob\<close> and
  \<open>build_cache_config_json\<close>, and the growing one (\<open>mesi_dyn_ensure\<close>) behind the request
  context.  A statement ends in one of three ways: \<open>Done\<close> with the new buffer, \<open>Full\<close> when it
  returns 0 (no room, or no memory), \<open>Stuck\<close> when it would access memory outside the buffer,
  follow a pointer that is not there, or not return.
\<close>

subsection \<open>Writer statements\<close>

datatype 'b wr = Done 'b | Full | Stuck

fun wr_bind :: "'a wr \<Rightarrow> ('a \<Rightarrow> 'b wr) \<Rightarrow> 'b wr" where
  "wr_bind (Done b) f = f b"
| "wr_bind Full f = Full"
| "wr_bind Stuck f = Stuck"

text \<open>\<open>if (!stmt) return 0;\<close> over a list of statements.\<close>

fun wr_all :: "('b \<Rightarrow> 'b wr) list \<Rightarrow> 'b \<Rightarrow> 'b wr" where
  "wr_all [] b = Done b"
| "wr_all (f # fs) b = wr_bind (f b) (wr_all fs)"

text \<open>
  The escaping loop and the quoted string, over the routine that stores one byte: the code has
  them twice, word for word, once for each buffer.
\<close>

fun escape_with :: "(char \<Rightarrow> 'b \<Rightarrow> 'b wr) \<Rightarrow> string \<Rightarrow> 'b \<Rightarrow> 'b wr" where
  "escape_with put [] b = Done b"
| "escape_with put (p # ps) b =
     wr_bind
       (if p = CHR 0x22 then wr_all [put CHR 0x5C, put CHR 0x22] b
        else if p = CHR 0x5C then wr_all [put CHR 0x5C, put CHR 0x5C] b
        else if byte p < 0x20 then
          wr_all [put CHR 0x5C, put CHR ''u'', put CHR ''0'', put CHR ''0'',
                  put (hex_digits ! (byte p div 16 mod 16)), put (hex_digits ! (byte p mod 16))] b
        else put p b)
       (escape_with put ps)"

definition quote_with :: "(char \<Rightarrow> 'b \<Rightarrow> 'b wr) \<Rightarrow> string \<Rightarrow> 'b \<Rightarrow> 'b wr" where
  "quote_with put src = wr_all [put CHR 0x22, escape_with put src, put CHR 0x22]"

text \<open>A literal stored byte by byte.\<close>

definition put_text :: "(char \<Rightarrow> 'b \<Rightarrow> 'b wr) \<Rightarrow> string \<Rightarrow> 'b \<Rightarrow> 'b wr" where
  "put_text put s = wr_all (map put s)"

subsection \<open>The bounded buffer\<close>

text \<open>The buffer is the list of the bytes before \<open>*pos\<close>; \<open>sz\<close> is its capacity.\<close>

definition mesi_putc :: "nat \<Rightarrow> char \<Rightarrow> string \<Rightarrow> string wr" where
  "mesi_putc sz c b = (if length b + 1 \<ge> sz then Full else Done (b @ [c]))"

definition php_json_append_escape :: "nat \<Rightarrow> string \<Rightarrow> string \<Rightarrow> string wr" where
  "php_json_append_escape sz = escape_with (mesi_putc sz)"

definition php_json_append_str :: "nat \<Rightarrow> string \<Rightarrow> string \<Rightarrow> string wr" where
  "php_json_append_str sz = quote_with (mesi_putc sz)"

text \<open>\<open>vsnprintf\<close> of a text that fits is stored with its NUL; otherwise the call fails.\<close>

definition snprintf_at :: "nat \<Rightarrow> string \<Rightarrow> string \<Rightarrow> string wr" where
  "snprintf_at sz txt b = (if length txt \<ge> sz - length b then Full else Done (b @ txt))"

definition mesi_appendf :: "nat \<Rightarrow> string \<Rightarrow> string \<Rightarrow> string wr" where
  "mesi_appendf sz txt b = (if length b \<ge> sz then Full else snprintf_at sz txt b)"

text \<open>\<open>memcpy (out + pos, txt, n)\<close> checks nothing.\<close>

definition memcpy_at :: "nat \<Rightarrow> string \<Rightarrow> string \<Rightarrow> string wr" where
  "memcpy_at sz txt b = (if length b + length txt > sz then Stuck else Done (b @ txt))"

text \<open>\<open>if (pos + n >= cap) return -1\<close>, then plain stores.\<close>

definition guarded_put :: "nat \<Rightarrow> nat \<Rightarrow> string \<Rightarrow> string \<Rightarrow> string wr" where
  "guarded_put sz n txt b = (if length b + n \<ge> sz then Full else memcpy_at sz txt b)"

subsection \<open>The ParseJson blob\<close>

definition php_blob_cap :: "string \<Rightarrow> php_opts \<Rightarrow> string \<Rightarrow> string \<Rightarrow> nat" where
  "php_blob_cap default_url o1 tmpl ctx_json =
    (let has_tmpl = (tmpl \<noteq> []); has_ctx = (has_tmpl \<and> ctx_json \<noteq> [])
     in 360 + length default_url * 6 + length (po_allowed_hosts o1) * 6
        + (if has_tmpl then length tmpl * 6 else 0) + (if has_ctx then length ctx_json else 0)
        + (if po_marker_set o1 then length (po_marker o1) * 6 else 0))"

definition true_false :: "bool \<Rightarrow> string" where
  "true_false b = (if b then ''true'' else ''false'')"

definition php_blob_steps :: "nat \<Rightarrow> int \<Rightarrow> string \<Rightarrow> php_opts \<Rightarrow> string \<Rightarrow> string \<Rightarrow> (string \<Rightarrow> string wr) list" where
  "php_blob_steps sz depth default_url o1 tmpl ctx_json =
    (let has_tmpl = (tmpl \<noteq> []); has_ctx = (has_tmpl \<and> ctx_json \<noteq> [])
     in [mesi_appendf sz (''{\"maxDepth\":'' @ show_int depth @ '',\"defaultUrl\":''),
         php_json_append_str sz default_url,
         mesi_appendf sz '',\"allowedHosts\":'',
         php_json_append_str sz (po_allowed_hosts o1),
         mesi_appendf sz ('',\"blockPrivateIPs\":'' @ true_false (po_block_private_ips o1)
           @ '',\"allowPrivateIPsForAllowedHosts\":'' @ true_false (po_allow_private o1))]
        @ (if po_timeout_set o1
           then [mesi_appendf sz ('',\"timeoutSeconds\":'' @ show_int (po_timeout o1))] else [])
        @ (if po_max_response_size_set o1
           then [mesi_appendf sz ('',\"maxResponseSize\":'' @ show_int (po_max_response_size o1))] else [])
        @ (if po_max_concurrent_set o1
           then [mesi_appendf sz ('',\"maxConcurrentRequests\":'' @ show_int (po_max_concurrent o1))] else [])
        @ (if po_max_workers_set o1
           then [mesi_appendf sz ('',\"maxWorkers\":'' @ show_int (po_max_workers o1))] else [])
        @ (if po_debug_set o1
           then [mesi_appendf sz ('',\"debug\":'' @ true_false (po_debug o1))] else [])
        @ (if po_marker_set o1
           then [mesi_appendf sz '',\"includeErrorMarker\":'', php_json_append_str sz (po_marker o1)] else [])
        @ (if has_tmpl
           then [mesi_appendf sz '',\"cacheKeyTemplate\":'', php_json_append_str sz tmpl]
                @ (if has_ctx then [mesi_appendf sz ('',\"requestCtx\":'' @ ctx_json)] else [])
           else [])
        @ [mesi_appendf sz ''}''])"

text \<open>\<open>heap n\<close>: an allocation of \<open>n\<close> bytes succeeds.  \<open>Full\<close> is the result NULL.\<close>

definition build_parse_json_blob ::
  "(nat \<Rightarrow> bool) \<Rightarrow> int \<Rightarrow> string \<Rightarrow> php_opts \<Rightarrow> string \<Rightarrow> string \<Rightarrow> string wr" where
  "build_parse_json_blob heap depth default_url o1 tmpl ctx_json =
    (let sz = php_blob_cap default_url o1 tmpl ctx_json
     in if \<not> heap sz then Full
        else wr_all (php_blob_steps sz depth default_url o1 tmpl ctx_json) [])"

subsection \<open>The cache configuration\<close>

definition MESI_CFG_MAX :: nat where
  "MESI_CFG_MAX = 4096"

fun php_server_steps :: "nat \<Rightarrow> hash_table \<Rightarrow> bool \<Rightarrow> (string \<Rightarrow> string wr) list" where
  "php_server_steps sz [] first = []"
| "php_server_steps sz ((k, val) # vals) first =
     (case val of
        ZStr s \<Rightarrow> (if first then [] else [guarded_put sz 1 '',''])
                 @ [php_json_append_str sz (zcstr s)]
                 @ php_server_steps sz vals False
      | _ \<Rightarrow> [\<lambda>b. Full])"

text \<open>\<open>Full\<close> is the return value -1.\<close>

definition php_build_cache_config_json :: "nat \<Rightarrow> php_opts \<Rightarrow> string wr" where
  "php_build_cache_config_json sz o1 =
    (let backend = po_cache_backend o1
     in if backend = [] \<or> backend = ''memory'' then (if sz < 3 then Full else Done ''{}'')
        else if backend = ''redis'' then
          (if sz < 32 then Full
           else wr_all
             ([memcpy_at sz ''{\"redisAddr\":'',
               (case po_redis_addr o1 of Some addr \<Rightarrow> php_json_append_str sz addr | None \<Rightarrow> \<lambda>b. Stuck),
               memcpy_at sz '',\"redisPassword\":'',
               php_json_append_str sz (case po_redis_password o1 of Some pw \<Rightarrow> pw | None \<Rightarrow> [])]
              @ (if po_redis_db_set o1
                 then [snprintf_at sz ('',\"redisDB\":'' @ show_int (po_redis_db o1))] else [])
              @ [guarded_put sz 2 ''}'']) [])
        else if backend = ''memcached'' then
          (case po_memcached_servers o1 of
             None \<Rightarrow> Full
           | Some ht \<Rightarrow>
               (if sz < 16 then Full
                else wr_all ([memcpy_at sz ''{\"servers\":[''] @ php_server_steps sz ht True
                             @ [guarded_put sz 2 '']}'']) []))
        else Full)"

subsection \<open>The growing buffer\<close>

definition mesi_dyn_ensure :: "(nat \<Rightarrow> bool) \<Rightarrow> nat \<Rightarrow> jbuf \<Rightarrow> jbuf wr" where
  "mesi_dyn_ensure heap n b =
    (if length (bytes b) + n < cap b then Done b
     else case grow_loop (length (bytes b) + n) (if cap b \<noteq> 0 then cap b * 2 else 256) of
            None \<Rightarrow> Stuck
          | Some new_cap \<Rightarrow> if heap new_cap then Done (b\<lparr>cap := new_cap\<rparr>) else Full)"

text \<open>\<open>(*buf)[(*pos)++] = c\<close>\<close>

definition dyn_store :: "char \<Rightarrow> jbuf \<Rightarrow> jbuf wr" where
  "dyn_store c b = (if length (bytes b) < cap b then Done (b\<lparr>bytes := bytes b @ [c]\<rparr>) else Stuck)"

definition mesi_dyn_putc :: "(nat \<Rightarrow> bool) \<Rightarrow> char \<Rightarrow> jbuf \<Rightarrow> jbuf wr" where
  "mesi_dyn_putc heap c b = wr_bind (mesi_dyn_ensure heap 2 b) (dyn_store c)"

definition mesi_dyn_json_append_escape :: "(nat \<Rightarrow> bool) \<Rightarrow> string \<Rightarrow> jbuf \<Rightarrow> jbuf wr" where
  "mesi_dyn_json_append_escape heap = escape_with (mesi_dyn_putc heap)"

definition mesi_dyn_json_append_str :: "(nat \<Rightarrow> bool) \<Rightarrow> string \<Rightarrow> jbuf \<Rightarrow> jbuf wr" where
  "mesi_dyn_json_append_str heap = quote_with (mesi_dyn_putc heap)"

subsection \<open>The request context\<close>

definition key_step :: "(nat \<Rightarrow> bool) \<Rightarrow> zkey \<Rightarrow> jbuf \<Rightarrow> jbuf wr" where
  "key_step heap k = (case k of KStr key \<Rightarrow> mesi_dyn_json_append_str heap (zcstr key) | KInt i \<Rightarrow> \<lambda>b. Stuck)"

definition str_step :: "(nat \<Rightarrow> bool) \<Rightarrow> zval \<Rightarrow> jbuf \<Rightarrow> jbuf wr" where
  "str_step heap v = (case v of ZStr s \<Rightarrow> mesi_dyn_json_append_str heap (zcstr s) | _ \<Rightarrow> \<lambda>b. Stuck)"

definition comma_step :: "(nat \<Rightarrow> bool) \<Rightarrow> bool \<Rightarrow> (jbuf \<Rightarrow> jbuf wr) list" where
  "comma_step heap first = (if first then [] else [mesi_dyn_putc heap CHR '',''])"

fun inner_steps :: "(nat \<Rightarrow> bool) \<Rightarrow> hash_table \<Rightarrow> bool \<Rightarrow> (jbuf \<Rightarrow> jbuf wr) list" where
  "inner_steps heap [] first = []"
| "inner_steps heap ((k, elt) # es) first =
     comma_step heap first @ [str_step heap elt] @ inner_steps heap es False"

definition header_value_steps :: "(nat \<Rightarrow> bool) \<Rightarrow> zval \<Rightarrow> (jbuf \<Rightarrow> jbuf wr) list" where
  "header_value_steps heap hv =
    (case hv of
       ZStr s \<Rightarrow> [str_step heap hv]
     | ZArr inner \<Rightarrow> [mesi_dyn_putc heap CHR ''[''] @ inner_steps heap inner True @ [mesi_dyn_putc heap CHR '']'']
     | _ \<Rightarrow> [\<lambda>b. Stuck])"

fun php_header_steps :: "(nat \<Rightarrow> bool) \<Rightarrow> hash_table \<Rightarrow> bool \<Rightarrow> (jbuf \<Rightarrow> jbuf wr) list" where
  "php_header_steps heap [] first = []"
| "php_header_steps heap ((k, hv) # hs) first =
     comma_step heap first
     @ [key_step heap k, mesi_dyn_putc heap CHR '':''] @ header_value_steps heap hv
     @ php_header_steps heap hs False"

fun php_cookie_steps :: "(nat \<Rightarrow> bool) \<Rightarrow> hash_table \<Rightarrow> bool \<Rightarrow> (jbuf \<Rightarrow> jbuf wr) list" where
  "php_cookie_steps heap [] first = []"
| "php_cookie_steps heap ((k, hv) # hs) first =
     comma_step heap first
     @ [put_text (mesi_dyn_putc heap) ''{\"name\":'', key_step heap k,
        put_text (mesi_dyn_putc heap) '',\"value\":'', str_step heap hv, mesi_dyn_putc heap CHR ''}'']
     @ php_cookie_steps heap hs False"

definition table_of :: "hash_table option \<Rightarrow> hash_table" where
  "table_of t = (case t of None \<Rightarrow> [] | Some ht \<Rightarrow> ht)"

text \<open>After the first allocation of 256 bytes; \<open>Full\<close> is the jump to \<open>ctx_oom\<close>.\<close>

definition php_request_ctx :: "(nat \<Rightarrow> bool) \<Rightarrow> php_opts \<Rightarrow> string wr" where
  "php_request_ctx heap o1 =
    wr_bind
      (wr_all
         ([put_text (mesi_dyn_putc heap) ''{\"headers\":{'']
          @ php_header_steps heap (table_of (po_request_headers o1)) True
          @ [put_text (mesi_dyn_putc heap) ''},\"cookies\":['']
          @ php_cookie_steps heap (table_of (po_request_cookies o1)) True
          @ [put_text (mesi_dyn_putc heap) '']}'', mesi_dyn_ensure heap 1])
         \<lparr>bytes = [], cap = 256\<rparr>)
      (\<lambda>b. wr_bind (dyn_store CHR 0x00 b) (\<lambda>b'. Done (bytes b)))"

end
