(* ===== verification/Php_Parse.thy ===== *)
theory Php_Parse
  imports Php_Json
begin

text \<open>
  The functions of the PHP extension: \<open>parse\<close>, \<open>parse_with_config\<close> after its options are read, and the
  start and end of the module.  The static variables of \<open>mesi.c\<close> and the calls made into
  libgomesi are the record \<open>php_state\<close>; the environment says which allocations succeed, what
  the look-up of \<open>ParseJson\<close> finds, and what the library returns.  The library is linked, so it
  is always mapped.
\<close>

record php_env =
  env_heap :: "nat \<Rightarrow> bool"
  env_dladdr :: bool
  env_dlopen :: bool
  env_exports :: "symbol \<Rightarrow> bool"
  env_lib :: golib

text \<open>The fields of \<open>g_cache_state\<close> come first.\<close>

record php_state =
  g_backend :: string
  g_size :: int
  g_ttl :: int
  g_cfg_json :: string
  g_http_block_private_ips :: bool
  g_http_shared_client :: bool
  g_parse_json :: bool
  g_parse_json_resolved :: bool
  g_parse_json_handle :: bool
  php_calls :: "lib_call list"

definition php_initial :: php_state where
  "php_initial =
    \<lparr> g_backend = [], g_size = -1, g_ttl = -1, g_cfg_json = [], g_http_block_private_ips = False,
      g_http_shared_client = True, g_parse_json = False, g_parse_json_resolved = False,
      g_parse_json_handle = False, php_calls = [] \<rparr>"

definition php_call :: "lib_call \<Rightarrow> php_state \<Rightarrow> php_state" where
  "php_call c g = g\<lparr>php_calls := php_calls g @ [c]\<rparr>"

subsection \<open>The remembered cache configuration\<close>

definition MESI_BACKEND_MAX :: nat where
  "MESI_BACKEND_MAX = 16"

definition mesi_cache_state_matches :: "string \<Rightarrow> int \<Rightarrow> int \<Rightarrow> string \<Rightarrow> php_state \<Rightarrow> bool" where
  "mesi_cache_state_matches backend size1 ttl cfg_json g =
    (if backend = [] \<and> g_backend g = []
     then g_size g = size1 \<and> g_ttl g = ttl \<and> g_cfg_json g = cfg_json
     else g_backend g = backend \<and> g_size g = size1 \<and> g_ttl g = ttl \<and> g_cfg_json g = cfg_json)"

text \<open>\<open>strncpy\<close> into the arrays, with the last byte set to NUL.\<close>

definition mesi_cache_state_record :: "string \<Rightarrow> int \<Rightarrow> int \<Rightarrow> string \<Rightarrow> php_state \<Rightarrow> php_state" where
  "mesi_cache_state_record backend size1 ttl cfg_json g =
    g\<lparr>g_backend := take (MESI_BACKEND_MAX - 1) backend, g_size := size1, g_ttl := ttl,
      g_cfg_json := take (MESI_CFG_MAX - 1) cfg_json\<rparr>"

subsection \<open>The optional entry point\<close>

definition mesi_resolve_parse_json :: "php_env \<Rightarrow> php_state \<Rightarrow> php_state" where
  "mesi_resolve_parse_json env g =
    (if g_parse_json_resolved g then g
     else let g1 = g\<lparr>g_parse_json_resolved := True\<rparr>
          in if \<not> env_dladdr env then g1
             else if \<not> env_dlopen env then g1
             else if env_exports env ParseJson
               then g1\<lparr>g_parse_json := True, g_parse_json_handle := True\<rparr>
             else g1)"

subsection \<open>Results\<close>

datatype php_value = PFalse | PStr string

type_synonym php_outcome = "php_value \<times> php_warning list \<times> php_state"

subsection \<open>parse\<close>

definition php_parse :: "php_env \<Rightarrow> string \<Rightarrow> int \<Rightarrow> string \<Rightarrow> php_state \<Rightarrow> php_outcome" where
  "php_parse env input depth default_url g =
    (case mesi_reject_max_depth ''parse'' depth of
       Some w \<Rightarrow> (PFalse, [w], g)
     | None \<Rightarrow>
         (let g1 = php_call (CallParse (zcstr input) (s32 depth) (zcstr default_url)) g
          in case parse (env_lib env) (zcstr input) (s32 depth) (zcstr default_url) of
               None \<Rightarrow> (PFalse, [InvalidMaxDepth ''parse''], g1)
             | Some r \<Rightarrow> (PStr r, [], php_call CallFreeString g1)))"

subsection \<open>parse_with_config, step by step\<close>

text \<open>The limit on the body; \<open>Some\<close> is an early return.\<close>

definition php_body_limit :: "php_opts \<Rightarrow> string \<Rightarrow> (php_value \<times> php_warning) option" where
  "php_body_limit o1 input =
    (if po_max_body_size o1 > 0 then
       (let body_len = length (zcstr input)
        in if int body_len > po_max_body_size o1 then
             (if po_on_oversize o1 = ''error''
              then Some (PFalse, BodyOverLimit body_len (po_max_body_size o1))
              else Some (PStr input, BodyOverLimit body_len (po_max_body_size o1)))
           else None)
     else None)"

text \<open>The cache: \<open>None\<close> is a write outside the buffer, the warning one that ends the call.\<close>

definition php_setup_cache :: "php_env \<Rightarrow> php_opts \<Rightarrow> php_state \<Rightarrow> (php_warning option \<times> php_state) option" where
  "php_setup_cache env o1 g =
    (let backend = po_cache_backend o1;
         size1 = (if po_cache_size o1 = 0 then 10000 else po_cache_size o1);
         ttl = po_cache_ttl o1
     in case php_build_cache_config_json MESI_CFG_MAX o1 of
          Stuck \<Rightarrow> None
        | Full \<Rightarrow> Some (Some (CacheBlobFailed backend), g)
        | Done config_json \<Rightarrow>
            if mesi_cache_state_matches backend size1 ttl config_json g then Some (None, g)
            else let g1 = php_call (CallInitCacheWithConfig backend (s32 size1) (s32 ttl) config_json) g
                 in if init_cache_with_config_rc (env_lib env) backend (s32 size1) (s32 ttl) config_json \<noteq> 0
                    then Some (Some (CacheInitFailed backend size1 ttl config_json), g1)
                    else Some (None, mesi_cache_state_record backend size1 ttl config_json g1))"

definition php_setup_client :: "php_opts \<Rightarrow> php_state \<Rightarrow> php_state" where
  "php_setup_client o1 g =
    (if po_shared_http_client o1 then
       (if \<not> g_http_shared_client g \<or> po_block_private_ips o1 \<noteq> g_http_block_private_ips g
        then (php_call (CallInitHTTPClient (if po_block_private_ips o1 then 1 else 0)) g)
               \<lparr>g_http_block_private_ips := po_block_private_ips o1, g_http_shared_client := True\<rparr>
        else g)
     else if g_http_shared_client g
       then (php_call CallFreeHTTPClient g)\<lparr>g_http_shared_client := False\<rparr>
     else g)"

text \<open>The template and the request context, or the warning that ends the call.\<close>

definition php_context :: "php_env \<Rightarrow> php_opts \<Rightarrow> (php_warning + string \<times> string) option" where
  "php_context env o1 =
    (case po_key_template o1 of
       None \<Rightarrow> Some (Inr ([], []))
     | Some tmpl \<Rightarrow>
         if po_cache_backend o1 \<noteq> [] then
           (if \<not> env_heap env 256 then Some (Inl CtxAllocFailed)
            else case php_request_ctx (env_heap env) o1 of
                   Stuck \<Rightarrow> None
                 | Full \<Rightarrow> Some (Inl CtxRenderFailed)
                 | Done ctx_json \<Rightarrow> Some (Inr (tmpl, ctx_json)))
         else Some (Inr ([], [])))"

definition php_configured :: "php_opts \<Rightarrow> bool" where
  "php_configured o1 \<longleftrightarrow>
     po_timeout_set o1 \<or> po_max_response_size_set o1 \<or> po_max_concurrent_set o1 \<or> po_max_workers_set o1
     \<or> po_debug_set o1 \<or> po_marker_set o1"

text \<open>What is lost without \<open>ParseJson\<close>, each with its warning.\<close>

definition php_ignored :: "php_opts \<Rightarrow> php_warning list" where
  "php_ignored o1 =
    (if po_timeout_set o1 then [OptionIgnored ''timeout''] else [])
    @ (if po_max_response_size_set o1 then [OptionIgnored ''max_response_size''] else [])
    @ (if po_max_concurrent_set o1 then [OptionIgnored ''max_concurrent_requests''] else [])
    @ (if po_max_workers_set o1 then [OptionIgnored ''max_workers''] else [])
    @ (if po_debug_set o1 then [OptionIgnored ''debug''] else [])
    @ (if po_marker_set o1 then [OptionIgnored ''include_error_marker''] else [])"

definition php_finish :: "bool \<Rightarrow> string option \<Rightarrow> php_warning list \<Rightarrow> php_state \<Rightarrow> php_outcome" where
  "php_finish used_parse_json result ws g =
    (case result of
       None \<Rightarrow> (PFalse, ws @ [if used_parse_json then ConfigRejected else InvalidMaxDepth ''parse_with_config''], g)
     | Some r \<Rightarrow> (PStr r, ws, php_call CallFreeString g))"

definition php_positional ::
  "php_env \<Rightarrow> string \<Rightarrow> int \<Rightarrow> string \<Rightarrow> php_opts \<Rightarrow> string \<Rightarrow> string \<Rightarrow> php_warning list \<Rightarrow> php_state \<Rightarrow> php_outcome" where
  "php_positional env input depth default_url o1 tmpl ctx_json ws g =
    (let bp = (if po_block_private_ips o1 then 1 else 0);
         ap = (if po_allow_private o1 then 1 else 0);
         d = s32 depth
     in php_finish False
          (parse_with_config_ctx (env_lib env) input d default_url (po_allowed_hosts o1) bp ap tmpl ctx_json) ws
          (php_call (CallParseWithConfigCtx input d default_url (po_allowed_hosts o1) bp ap tmpl ctx_json) g))"

definition php_dispatch ::
  "php_env \<Rightarrow> string \<Rightarrow> int \<Rightarrow> string \<Rightarrow> php_opts \<Rightarrow> string \<Rightarrow> string \<Rightarrow> php_state \<Rightarrow> php_outcome option" where
  "php_dispatch env input depth default_url o1 tmpl ctx_json g =
    (if php_configured o1 then
       (let g1 = mesi_resolve_parse_json env g
        in if g_parse_json g1 then
             (case build_parse_json_blob (env_heap env) depth default_url o1 tmpl ctx_json of
                Stuck \<Rightarrow> None
              | Full \<Rightarrow> Some (PFalse, [ParseBlobFailed], g1)
              | Done blob \<Rightarrow>
                  Some (php_finish True (parse_json (env_lib env) input blob) []
                          (php_call (CallParseJson input blob) g1)))
           else Some (php_positional env input depth default_url o1 tmpl ctx_json (php_ignored o1) g1))
     else Some (php_positional env input depth default_url o1 tmpl ctx_json [] g))"

text \<open>
  \<open>parse_with_config\<close>.  No result means an access outside a buffer (or a loop that does not end).
\<close>

definition php_parse_with_config ::
  "php_env \<Rightarrow> string \<Rightarrow> int \<Rightarrow> string \<Rightarrow> hash_table \<Rightarrow> php_state \<Rightarrow> php_outcome option" where
  "php_parse_with_config env input depth default_url config g =
    (case mesi_reject_max_depth ''parse_with_config'' depth of
       Some w \<Rightarrow> Some (PFalse, [w], g)
     | None \<Rightarrow>
         (case php_read_config config of
            Inl w \<Rightarrow> Some (PFalse, [w], g)
          | Inr o1 \<Rightarrow>
              (case php_body_limit o1 input of
                 Some (v, w) \<Rightarrow> Some (v, [w], g)
               | None \<Rightarrow>
                   (case php_setup_cache env o1 g of
                      None \<Rightarrow> None
                    | Some (Some w, g1) \<Rightarrow> Some (PFalse, [w], g1)
                    | Some (None, g1) \<Rightarrow>
                        (let g2 = php_setup_client o1 g1
                         in case php_context env o1 of
                              None \<Rightarrow> None
                            | Some (Inl w) \<Rightarrow> Some (PFalse, [w], g2)
                            | Some (Inr (tmpl, ctx_json)) \<Rightarrow>
                                php_dispatch env (zcstr input) depth (zcstr default_url) o1 tmpl ctx_json g2)))))"

subsection \<open>Start and end of the module\<close>

definition php_minit :: "php_env \<Rightarrow> php_state \<Rightarrow> php_state" where
  "php_minit env g = mesi_resolve_parse_json env (php_call (CallInitHTTPClient 0) g)"

definition php_mshutdown :: "php_state \<Rightarrow> php_state" where
  "php_mshutdown g =
    (let g1 = (php_call CallFreeHTTPClient g)\<lparr>g_http_shared_client := False\<rparr>;
         g2 = php_call CallFreeCache g1;
         g3 = (if g_parse_json_handle g2 then g2\<lparr>g_parse_json_handle := False\<rparr> else g2)
     in g3\<lparr>g_parse_json := False, g_parse_json_resolved := False,
           g_backend := [], g_size := -1, g_ttl := -1, g_cfg_json := []\<rparr>)"

text \<open>
  The states between the start and the end of a module: any calls of the two functions, with any
  allocations succeeding in each.
\<close>

inductive php_live :: "php_env \<Rightarrow> php_state \<Rightarrow> bool" for env where
  started: "php_live env (php_minit env php_initial)"
| parsed: "php_live env g \<Longrightarrow> php_parse (env\<lparr>env_heap := h\<rparr>) input depth default_url g = (v, ws, g') \<Longrightarrow> php_live env g'"
| parsed_config:
    "php_live env g \<Longrightarrow>
       php_parse_with_config (env\<lparr>env_heap := h\<rparr>) input depth default_url config g = Some (v, ws, g')
       \<Longrightarrow> php_live env g'"

end
