(* ===== verification/Php_Options_Lemmas.thy ===== *)
theory Php_Options_Lemmas
  imports Php_Options
begin

text \<open>
  What the options of the PHP extension accept.  The validators are characterised first (safe
  strings, the decimal parser, \<open>host:port\<close>, the host list); then every option is shown to meet its
  rule, and the whole array is accepted exactly when every key in it meets its rule.
\<close>

subsection \<open>C strings and validators\<close>

lemma zcstr_no_nul [simp]: "CHR 0x00 \<notin> set (zcstr s)"
  using set_takeWhileD [of "CHR 0x00" "\<lambda>c. c \<noteq> CHR 0x00" s] by (auto simp: zcstr_def)

lemma zcstr_id: "CHR 0x00 \<notin> set s \<Longrightarrow> zcstr s = s"
  unfolding zcstr_def by (induction s) auto

lemma zcstr_length: "length (zcstr s) = length s \<longleftrightarrow> CHR 0x00 \<notin> set s"
proof
  assume "length (zcstr s) = length s"
  moreover have "zcstr s @ dropWhile (\<lambda>c. c \<noteq> CHR 0x00) s = s" by (simp add: zcstr_def)
  ultimately have "zcstr s = s" by (metis append_eq_append_conv append_Nil2)
  then show "CHR 0x00 \<notin> set s" using zcstr_no_nul [of s] by simp
qed (simp add: zcstr_id)

text \<open>A byte that needs no escaping in JSON, is no white space and no control character.\<close>

definition plain_byte :: "char \<Rightarrow> bool" where
  "plain_byte c \<longleftrightarrow> 0x20 < byte c \<and> byte c \<noteq> 0x7f \<and> c \<noteq> CHR 0x22 \<and> c \<noteq> CHR 0x5C"

definition plain_text :: "string \<Rightarrow> bool" where
  "plain_text s \<longleftrightarrow> (\<forall>c \<in> set s. plain_byte c)"

lemma byte_space: "byte c = 0x20 \<longleftrightarrow> c = CHR '' ''"
proof
  assume "byte c = 0x20"
  then have "byte c = byte CHR '' ''" by simp
  then show "c = CHR '' ''" by (simp only: of_char_eq_iff)
qed simp

lemma plain_byte_alt:
  "plain_byte c \<longleftrightarrow> \<not> byte c < 0x20 \<and> byte c \<noteq> 0x7f \<and> c \<noteq> CHR '' '' \<and> c \<noteq> CHR 0x22 \<and> c \<noteq> CHR 0x5C"
  using byte_space [of c] unfolding plain_byte_def by linarith

lemma reject_unless: "(if P then False else Q) \<longleftrightarrow> \<not> P \<and> Q"
  by simp

lemma plain_text_Cons: "plain_text (c # cs) \<longleftrightarrow> plain_byte c \<and> plain_text cs"
  by (simp add: plain_text_def)

lemma safe_string_iff: "mesi_is_safe_string s = plain_text s"
proof (induction s)
  case (Cons c cs)
  have "\<not> byte c < 0x20 \<Longrightarrow> c \<noteq> CHR 0x09" by auto
  then show ?case
    unfolding mesi_is_safe_string.simps plain_text_Cons plain_byte_alt Cons reject_unless by argo
qed (simp add: plain_text_def)

lemma plain_no_controls: "plain_text s \<Longrightarrow> no_controls s"
  unfolding plain_text_def plain_byte_def no_controls_def by (blast intro: less_imp_le)

definition cookie_text :: "string \<Rightarrow> bool" where
  "cookie_text s \<longleftrightarrow> (\<forall>c \<in> set s. plain_byte c \<or> c = CHR '' '')"

lemma cookie_text_Cons: "cookie_text (c # cs) \<longleftrightarrow> (plain_byte c \<or> c = CHR '' '') \<and> cookie_text cs"
  by (simp add: cookie_text_def)

lemma safe_cookie_iff: "mesi_is_safe_cookie_value s = cookie_text s"
proof (induction s)
  case (Cons c cs)
  have "c = CHR '' '' \<Longrightarrow> \<not> byte c < 0x20 \<and> byte c \<noteq> 0x7f \<and> c \<noteq> CHR 0x22 \<and> c \<noteq> CHR 0x5C" by simp
  then show ?case
    unfolding mesi_is_safe_cookie_value.simps cookie_text_Cons plain_byte_alt Cons reject_unless by argo
qed (simp add: cookie_text_def)

subsection \<open>The decimal parser\<close>

lemma uint_loop_exact:
  assumes "int v \<le> hi" and "hi < 2 ^ 59"
  shows "uint_loop hi ds (int v) = Some w \<longleftrightarrow>
    (\<forall>c \<in> set ds. is_digit c) \<and> w = int (foldl (\<lambda>v c. v * 10 + digit_val c) v ds) \<and> w \<le> hi"
  using assms(1)
proof (induction ds arbitrary: v)
  case Nil
  then show ?case by auto
next
  case (Cons c cs)
  show ?case
  proof (cases "is_digit c")
    case True
    let ?v = "v * 10 + digit_val c"
    have "digit_val c < 10" using True by (rule digit_val_bound)
    moreover have v: "int v < 2 ^ 59" using Cons.prems assms(2) by linarith
    ultimately have step: "s64 (s64 (int v * 10) + int (digit_val c)) = int ?v" by simp
    have guard: "\<not> int v > c_div LONG_MAX 10 - 10" using v by (simp add: LONG_MAX_def)
    have mono: "int ?v \<le> int (foldl (\<lambda>v c. v * 10 + digit_val c) ?v cs)"
      using foldl_digits_mono by (simp only: of_nat_le_iff)
    show ?thesis
    proof (cases "int ?v > hi")
      case True
      with step mono guard \<open>is_digit c\<close> show ?thesis by (simp add: Let_def)
    next
      case False
      with step guard Cons.IH [of ?v] \<open>is_digit c\<close> show ?thesis by (simp add: Let_def not_less)
    qed
  qed simp
qed

definition php_uint_parse :: "int \<Rightarrow> int \<Rightarrow> string \<Rightarrow> unit + int" where
  "php_uint_parse lo hi arg =
    (case mesi_parse_uint_bounded arg lo hi of None \<Rightarrow> Inl () | Some v \<Rightarrow> Inr v)"

lemma php_uint_iff:
  assumes "0 \<le> hi" and "hi < 2 ^ 59"
  shows "php_uint_parse lo hi arg = Inr v \<longleftrightarrow>
    (\<exists>ds. plain_digits arg = Some ds \<and> True \<and> v = int (digits_val ds) \<and> lo \<le> v \<and> v \<le> hi)"
proof (cases "arg = [] \<or> \<not> is_digit (hd arg)")
  case True
  then have "\<not> (arg \<noteq> [] \<and> (\<forall>c \<in> set arg. is_digit c))" by (cases arg) auto
  with True show ?thesis
    unfolding php_uint_parse_def mesi_parse_uint_bounded_def plain_digits_def by auto
next
  case False
  note loop = uint_loop_exact [of 0 hi arg, OF _ assms(2)]
  show ?thesis
  proof (cases "uint_loop hi arg 0")
    case None
    with False loop assms(1) show ?thesis
      by (auto simp: php_uint_parse_def mesi_parse_uint_bounded_def plain_digits_def digits_val_def)
  next
    case (Some w)
    with False loop [of w] assms(1) show ?thesis
      by (auto simp: php_uint_parse_def mesi_parse_uint_bounded_def plain_digits_def digits_val_def)
  qed
qed

interpretation php_uint: decimal_parser php_uint_parse plain_digits "\<lambda>s. s" "\<lambda>_. True"
    "\<lambda>lo hi. 0 \<le> hi \<and> hi < 2 ^ 59"
  by unfold_locales (use php_uint_iff in \<open>simp_all add: plain_digits_show\<close>)

lemma uint_accepts:
  assumes "0 \<le> hi" and "hi < 2 ^ 59"
  shows "mesi_parse_uint_bounded arg lo hi \<noteq> None \<longleftrightarrow>
    arg \<noteq> [] \<and> (\<forall>c \<in> set arg. is_digit c) \<and> lo \<le> int (digits_val arg) \<and> int (digits_val arg) \<le> hi"
proof -
  have "mesi_parse_uint_bounded arg lo hi \<noteq> None \<longleftrightarrow> (\<exists>v. php_uint_parse lo hi arg = Inr v)"
    by (auto simp: php_uint_parse_def split: option.splits)
  then show ?thesis
    using php_uint.parse_iff [where lo = lo and hi = hi and arg = arg] assms by (auto simp: plain_digits_def)
qed

subsection \<open>Endpoints\<close>

lemma last_colon_iff:
  "last_colon s = Some (host, port) \<longleftrightarrow> s = host @ CHR '':'' # port \<and> CHR '':'' \<notin> set port"
proof
  let ?t = "takeWhile (\<lambda>c. c \<noteq> CHR '':'') (rev s)"
  let ?d = "dropWhile (\<lambda>c. c \<noteq> CHR '':'') (rev s)"
  assume l: "last_colon s = Some (host, port)"
  then have mem: "CHR '':'' \<in> set s" and p: "port = rev ?t" and h: "host = take (length s - length port - 1) s"
    by (auto simp: last_colon_def Let_def split: if_splits)
  from mem have "?d \<noteq> []" by simp
  then obtain c d where d: "?d = c # d" by (cases ?d) auto
  then have c: "c = CHR '':''" using dropWhile_hd [OF d] by simp
  have "rev s = ?t @ c # d" using d takeWhile_dropWhile_id [of _ "rev s"] by metis
  then have s: "s = rev d @ CHR '':'' # port" using p c by (metis append.assoc append_Cons append_Nil rev.simps(2) rev_append rev_rev_ident)
  then have "host = rev d" using h by simp
  moreover have "CHR '':'' \<notin> set port" using p by (auto dest: set_takeWhileD)
  ultimately show "s = host @ CHR '':'' # port \<and> CHR '':'' \<notin> set port" using s by simp
next
  assume "s = host @ CHR '':'' # port \<and> CHR '':'' \<notin> set port"
  moreover from this have "takeWhile (\<lambda>c. c \<noteq> CHR '':'') (rev port @ CHR '':'' # rev host) = rev port"
    by (subst takeWhile_append2) auto
  ultimately show "last_colon s = Some (host, port)" by (simp add: last_colon_def Let_def)
qed

text \<open>A host and a port in range, with no byte that would need escaping.\<close>

definition endpoint :: "string \<Rightarrow> bool" where
  "endpoint s \<longleftrightarrow> plain_text s \<and>
     (\<exists>host port. s = host @ CHR '':'' # port \<and> host \<noteq> [] \<and> port \<noteq> [] \<and> (\<forall>c \<in> set port. is_digit c)
        \<and> 1 \<le> digits_val port \<and> digits_val port \<le> 65535)"

lemma digit_not_colon: "\<not> is_digit CHR '':''"
  by (simp add: is_digit_def)

lemma host_port_iff: "parse_host_port s = endpoint s"
proof -
  have port: "mesi_parse_uint_bounded p 1 65535 \<noteq> None \<longleftrightarrow>
      p \<noteq> [] \<and> (\<forall>c \<in> set p. is_digit c) \<and> 1 \<le> digits_val p \<and> digits_val p \<le> 65535" for p
    by (subst uint_accepts) auto
  show ?thesis
  proof
    assume l: "parse_host_port s"
    then obtain h p where hp: "last_colon s = Some (h, p)" "h \<noteq> []" "mesi_parse_uint_bounded p 1 65535 \<noteq> None"
      by (auto simp: parse_host_port_def split: if_splits option.splits)
    have "plain_text s" using l unfolding parse_host_port_def safe_string_iff reject_unless by simp
    with hp port [of p] show "endpoint s" unfolding last_colon_iff endpoint_def by blast
  next
    assume "endpoint s"
    then obtain h p where e: "plain_text s" "s = h @ CHR '':'' # p" "h \<noteq> []" "p \<noteq> []" "\<forall>c \<in> set p. is_digit c"
        "1 \<le> digits_val p" "digits_val p \<le> 65535"
      unfolding endpoint_def by blast
    then have "CHR '':'' \<notin> set p" using digit_not_colon by blast
    with e(2) have "last_colon s = Some (h, p)" unfolding last_colon_iff by blast
    moreover have "s \<noteq> []" using e(2) by simp
    ultimately show "parse_host_port s"
      using e port [of p] unfolding parse_host_port_def safe_string_iff by (simp only: option.case prod.case) simp
  qed
qed

subsection \<open>The host list\<close>

lemma unicode_ws_len_eq: "mesi_unicode_ws_len p = mesi_unicode_space p"
proof (cases "length p \<le> 2")
  case True
  then consider "p = []" | a where "p = [a]" | a b where "p = [a, b]"
    by (cases p; cases "tl p"; cases "tl (tl p)") auto
  then show ?thesis
    by cases (simp_all add: mesi_unicode_ws_len_def mesi_unicode_space_def byte_at_def)
next
  case False
  then obtain a b c r where p: "p = a # b # c # r" by (cases p; cases "tl p"; cases "tl (tl p)") auto
  have at: "byte_at p 0 = byte a" "byte_at p 1 = byte b" "byte_at p 2 = byte c"
    "p ! 0 = a" "p ! 1 = b" "p ! 2 = c" "2 \<le> length p" "3 \<le> length p"
    by (simp_all add: p byte_at_def)
  show ?thesis
    unfolding mesi_unicode_ws_len_def mesi_unicode_space_def Let_def at by (simp only: simp_thms at)
qed

lemma unicode_space_lead:
  "0 < mesi_unicode_space (c # cs) \<Longrightarrow> byte c = 0xC2 \<or> byte c = 0xE1 \<or> byte c = 0xE2 \<or> byte c = 0xE3"
  by (simp add: mesi_unicode_space_def Let_def split: if_splits)

lemma php_has_token_eq:
  "no_controls s \<Longrightarrow> mesi_allowed_hosts_has_token s = mesi_has_hostname_token s"
proof (induction s rule: mesi_has_hostname_token.induct)
  case (2 c cs)
  have asc: "ascii_space c \<longleftrightarrow> c = CHR '' ''" using 2(3) by (auto simp: ascii_space_def no_controls_def)
  have d: "no_controls (drop n (c # cs))" for n
    using 2(3) set_drop_subset [of n "c # cs"] by (auto simp: no_controls_def)
  have cs: "no_controls cs" using 2(3) by (simp add: no_controls_def)
  show ?case
  proof (cases "c = CHR '' ''")
    case True
    with 2 asc cs show ?thesis
      by (simp add: mesi_allowed_hosts_has_token.simps(2) mesi_has_hostname_token.simps(2))
  next
    case False
    with 2(2) [of "mesi_unicode_space (c # cs)"] d asc unicode_space_lead [of c cs] show ?thesis
      by (auto simp: mesi_allowed_hosts_has_token.simps(2) mesi_has_hostname_token.simps(2)
          unicode_ws_len_eq Let_def)
  qed
qed simp

subsection \<open>The rules\<close>

definition long_in :: "int \<Rightarrow> int \<Rightarrow> zval \<Rightarrow> bool" where
  "long_in lo hi v \<longleftrightarrow> (\<exists>n. v = ZLong n \<and> lo \<le> n \<and> n \<le> hi)"

definition flag_value :: "zval \<Rightarrow> bool" where
  "flag_value v \<longleftrightarrow> (\<exists>b. v = ZBool b) \<or> (\<exists>n. v = ZLong n)"

definition endpoint_value :: "zval \<Rightarrow> bool" where
  "endpoint_value v \<longleftrightarrow> (\<exists>s. v = ZStr s \<and> endpoint (zcstr s))"

definition servers_value :: "hash_table \<Rightarrow> bool" where
  "servers_value ht \<longleftrightarrow> ht \<noteq> [] \<and> (\<forall>(k, v) \<in> set ht. endpoint_value v)"

text \<open>A list of hosts: printable, and either empty or with at least one host in it.\<close>

definition hosts_value :: "string \<Rightarrow> bool" where
  "hosts_value s \<longleftrightarrow> (\<forall>c \<in> set s. 0x20 \<le> byte c \<and> byte c \<noteq> 0x7f) \<and> (s \<noteq> [] \<longrightarrow> mesi_has_hostname_token s)"

definition plain_value :: "zval \<Rightarrow> bool" where
  "plain_value v \<longleftrightarrow> (\<exists>s. v = ZStr s \<and> plain_text (zcstr s))"

definition name_key :: "zkey \<Rightarrow> bool" where
  "name_key k \<longleftrightarrow> (\<exists>s. k = KStr s \<and> s \<noteq> [] \<and> plain_text (zcstr s))"

definition headers_value :: "hash_table \<Rightarrow> bool" where
  "headers_value ht \<longleftrightarrow> (\<forall>(k, v) \<in> set ht. name_key k
     \<and> (plain_value v \<or> (\<exists>inner. v = ZArr inner \<and> (\<forall>(i, e) \<in> set inner. plain_value e))))"

definition cookies_value :: "hash_table \<Rightarrow> bool" where
  "cookies_value ht \<longleftrightarrow> (\<forall>(k, v) \<in> set ht. name_key k \<and> (\<exists>s. v = ZStr s \<and> cookie_text (zcstr s)))"

text \<open>What each key may hold, given the backend; only \<open>cache_backend\<close> itself is not here.\<close>

definition php_rules :: "(string \<times> (string \<Rightarrow> zval \<Rightarrow> bool)) list" where
  "php_rules =
    [(''cache_size'', \<lambda>b. long_in 1 1000000),
     (''cache_ttl'', \<lambda>b. long_in 0 86400),
     (''cache_redis_addr'', \<lambda>b v. b = ''redis'' \<and> endpoint_value v),
     (''cache_redis_password'', \<lambda>b v. b = ''redis'' \<and> plain_value v),
     (''cache_redis_db'', \<lambda>b v. b = ''redis'' \<and> long_in 0 15 v),
     (''cache_memcached_servers'', \<lambda>b v. b = ''memcached'' \<and> (\<exists>ht. v = ZArr ht \<and> servers_value ht)),
     (''block_private_ips'', \<lambda>b. flag_value),
     (''shared_http_client'', \<lambda>b. flag_value),
     (''allowed_hosts'', \<lambda>b v. \<exists>s. v = ZStr s \<and> hosts_value s),
     (''allow_private_ips_for_allowed_hosts'', \<lambda>b. flag_value),
     (''cache_key_template'', \<lambda>b v. \<exists>s. v = ZStr s \<and> plain_text s),
     (''request_headers'', \<lambda>b v. \<exists>ht. v = ZArr ht \<and> headers_value ht),
     (''request_cookies'', \<lambda>b v. \<exists>ht. v = ZArr ht \<and> cookies_value ht),
     (''timeout'', \<lambda>b. long_in 1 86400),
     (''max_response_size'', \<lambda>b. long_in 0 9223372036854775806),
     (''max_concurrent_requests'', \<lambda>b. long_in 0 999999999),
     (''max_workers'', \<lambda>b. long_in 0 999999999),
     (''max_body_size'', \<lambda>b v. \<exists>n. v = ZLong n \<and> 0 \<le> n),
     (''on_oversize'', \<lambda>b v. \<exists>s. v = ZStr s \<and> zcstr s \<in> {''pass'', ''error''}),
     (''debug'', \<lambda>b v. \<exists>x. v = ZBool x),
     (''include_error_marker'', \<lambda>b v. \<exists>s. v = ZStr s \<and> CHR 0x00 \<notin> set s)]"

subsection \<open>The loops over arrays\<close>

lemma check_servers_iff: "check_servers ht = None \<longleftrightarrow> (\<forall>(k, v) \<in> set ht. endpoint_value v)"
  by (induction ht rule: check_servers.induct)
     (auto simp: endpoint_value_def host_port_iff split: zval.splits)

lemma check_header_values_iff: "check_header_values key ht = None \<longleftrightarrow> (\<forall>(k, v) \<in> set ht. plain_value v)"
  by (induction key ht rule: check_header_values.induct)
     (auto simp: plain_value_def safe_string_iff split: zval.splits)

lemma plain_value_simps [simp]:
  "plain_value (ZStr s) = plain_text (zcstr s)" "\<not> plain_value ZNull" "\<not> plain_value (ZBool b)"
  "\<not> plain_value (ZLong n)" "\<not> plain_value (ZArr ht)" "\<not> plain_value ZOther"
  by (simp_all add: plain_value_def)

lemma name_key_simps [simp]:
  "\<not> name_key (KInt i)" "name_key (KStr s) \<longleftrightarrow> s \<noteq> [] \<and> plain_text (zcstr s)"
  by (simp_all add: name_key_def)

lemma check_headers_step:
  "check_headers ((k, v) # hs) = None \<longleftrightarrow> name_key k
     \<and> (plain_value v \<or> (\<exists>inner. v = ZArr inner \<and> (\<forall>(i, e) \<in> set inner. plain_value e)))
     \<and> check_headers hs = None"
proof (cases k)
  case (KStr key)
  show ?thesis
  proof (cases v)
    case (ZArr inner)
    then show ?thesis
      using check_header_values_iff [of "zcstr key" inner] KStr
      by (cases "check_header_values (zcstr key) inner") (auto simp: safe_string_iff)
  qed (auto simp: KStr safe_string_iff)
qed simp

lemma check_headers_iff: "check_headers ht = None \<longleftrightarrow> headers_value ht"
proof (induction ht)
  case (Cons e hs)
  obtain k v where "e = (k, v)" by (cases e)
  with Cons show ?case
    by (simp only: check_headers_step headers_value_def list.set ball_simps prod.case) blast
qed (simp add: headers_value_def)

lemma check_cookies_iff: "check_cookies ht = None \<longleftrightarrow> cookies_value ht"
proof (induction ht rule: check_cookies.induct)
  case (2 k hv hs)
  then show ?case
    by (cases k; cases hv)
       (auto simp: cookies_value_def name_key_def safe_string_iff safe_cookie_iff)
qed (simp add: cookies_value_def)

lemma nul_low: "\<not> 0x20 \<le> byte CHR 0x00"
  by simp

lemma hosts_check_iff:
  "CHR 0x00 \<notin> set raw \<and> \<not> (\<exists>c \<in> set raw. byte c < 0x20 \<or> byte c = 0x7f)
     \<and> \<not> (length raw > 0 \<and> \<not> mesi_allowed_hosts_has_token (zcstr raw)) \<longleftrightarrow> hosts_value raw"
proof (cases "\<forall>c \<in> set raw. 0x20 \<le> byte c \<and> byte c \<noteq> 0x7f")
  case True
  then have "no_controls raw" by (simp add: no_controls_def)
  moreover have "CHR 0x00 \<notin> set raw" using nul_low True by blast
  moreover have "\<not> (\<exists>c \<in> set raw. byte c < 0x20 \<or> byte c = 0x7f)" using True not_le by blast
  ultimately show ?thesis
    using True unfolding hosts_value_def by (simp add: zcstr_id php_has_token_eq) blast
next
  case False
  then have "\<exists>c \<in> set raw. byte c < 0x20 \<or> byte c = 0x7f" using not_le by blast
  with False show ?thesis unfolding hosts_value_def by blast
qed

lemma plain_text_no_nul: "plain_text s \<Longrightarrow> CHR 0x00 \<notin> set s"
  unfolding plain_text_def plain_byte_def using nul_low by (blast intro: less_imp_le)

lemma template_check_iff:
  "s = [] \<or> CHR 0x00 \<notin> set s \<and> mesi_is_safe_string (zcstr s) \<longleftrightarrow> plain_text s"
  using plain_text_no_nul [of s] by (auto simp: safe_string_iff zcstr_id plain_text_def)

subsection \<open>Valid options\<close>

definition php_opts_part :: "php_opts \<Rightarrow> bool" where
  "php_opts_part o1 \<longleftrightarrow>
     po_cache_backend o1 \<in> backend_names
     \<and> (po_cache_size o1 = 0 \<or> 1 \<le> po_cache_size o1 \<and> po_cache_size o1 \<le> 1000000)
     \<and> 0 \<le> po_cache_ttl o1 \<and> po_cache_ttl o1 \<le> 86400
     \<and> opt_ok endpoint (po_redis_addr o1) \<and> opt_ok plain_text (po_redis_password o1)
     \<and> 0 \<le> po_redis_db o1 \<and> po_redis_db o1 \<le> 15
     \<and> (po_redis_addr o1 \<noteq> None \<or> po_redis_password o1 \<noteq> None \<or> po_redis_db_set o1
          \<longrightarrow> po_cache_backend o1 = ''redis'')
     \<and> (\<forall>ht. po_memcached_servers o1 = Some ht \<longrightarrow> po_cache_backend o1 = ''memcached'' \<and> servers_value ht)
     \<and> hosts_value (po_allowed_hosts o1)
     \<and> opt_ok (\<lambda>t. t \<noteq> [] \<and> plain_text t) (po_key_template o1)
     \<and> (\<forall>ht. po_request_headers o1 = Some ht \<longrightarrow> headers_value ht)
     \<and> (\<forall>ht. po_request_cookies o1 = Some ht \<longrightarrow> cookies_value ht)
     \<and> 1 \<le> po_timeout o1 \<and> po_timeout o1 \<le> 86400
     \<and> 0 \<le> po_max_response_size o1 \<and> po_max_response_size o1 \<le> 9223372036854775806
     \<and> 0 \<le> po_max_concurrent o1 \<and> po_max_concurrent o1 \<le> 999999999
     \<and> 0 \<le> po_max_workers o1 \<and> po_max_workers o1 \<le> 999999999
     \<and> 0 \<le> po_max_body_size o1 \<and> po_on_oversize o1 \<in> {''pass'', ''error''}
     \<and> CHR 0x00 \<notin> set (po_marker o1)"

text \<open>And each backend has what it needs.\<close>

definition php_opts_valid :: "php_opts \<Rightarrow> bool" where
  "php_opts_valid o1 \<longleftrightarrow> php_opts_part o1
     \<and> (po_cache_backend o1 = ''redis'' \<longrightarrow> po_redis_addr o1 \<noteq> None)
     \<and> (po_cache_backend o1 = ''memcached'' \<longrightarrow> po_memcached_servers o1 \<noteq> None)"

text \<open>An option meets its rule: it stores exactly the values that the rule allows.\<close>

definition meets :: "(zval \<Rightarrow> php_step) \<Rightarrow> (string \<Rightarrow> zval \<Rightarrow> bool) \<Rightarrow> bool" where
  "meets f rule \<longleftrightarrow> (\<forall>v o1. php_opts_part o1 \<longrightarrow>
     (case f v o1 of
        Inl w \<Rightarrow> \<not> rule (po_cache_backend o1) v
      | Inr o2 \<Rightarrow> rule (po_cache_backend o1) v \<and> po_cache_backend o2 = po_cache_backend o1
                 \<and> php_opts_part o2))"

lemma meetsI:
  assumes "\<And>v o1 w. php_opts_part o1 \<Longrightarrow> f v o1 = Inl w \<Longrightarrow> \<not> rule (po_cache_backend o1) v"
    and "\<And>v o1 o2. php_opts_part o1 \<Longrightarrow> f v o1 = Inr o2 \<Longrightarrow>
      rule (po_cache_backend o1) v \<and> po_cache_backend o2 = po_cache_backend o1 \<and> php_opts_part o2"
  shows "meets f rule"
  unfolding meets_def using assms by (auto split: sum.split)

lemma part_default: "php_opts_part php_default_opts"
  unfolding php_opts_part_def php_default_opts_def
  by (simp add: backend_names_def opt_ok_def hosts_value_def php_limits)

text \<open>Storing a valid value keeps the options valid.\<close>

named_theorems part_intros \<open>stores that keep \<open>php_opts_part\<close>\<close>

lemma part_stores [part_intros]:
  "php_opts_part o1 \<Longrightarrow> 1 \<le> n \<Longrightarrow> n \<le> 1000000 \<Longrightarrow> php_opts_part (o1\<lparr>po_cache_size := n\<rparr>)"
  "php_opts_part o1 \<Longrightarrow> 0 \<le> n \<Longrightarrow> n \<le> 86400 \<Longrightarrow> php_opts_part (o1\<lparr>po_cache_ttl := n\<rparr>)"
  "php_opts_part o1 \<Longrightarrow> po_cache_backend o1 = ''redis'' \<Longrightarrow> endpoint a \<Longrightarrow>
     php_opts_part (o1\<lparr>po_redis_addr := Some a\<rparr>)"
  "php_opts_part o1 \<Longrightarrow> po_cache_backend o1 = ''redis'' \<Longrightarrow> plain_text a \<Longrightarrow>
     php_opts_part (o1\<lparr>po_redis_password := Some a\<rparr>)"
  "php_opts_part o1 \<Longrightarrow> po_cache_backend o1 = ''redis'' \<Longrightarrow> 0 \<le> n \<Longrightarrow> n \<le> 15 \<Longrightarrow>
     php_opts_part (o1\<lparr>po_redis_db := n, po_redis_db_set := True\<rparr>)"
  "php_opts_part o1 \<Longrightarrow> po_cache_backend o1 = ''memcached'' \<Longrightarrow> servers_value ht \<Longrightarrow>
     php_opts_part (o1\<lparr>po_memcached_servers := Some ht\<rparr>)"
  "php_opts_part o1 \<Longrightarrow> php_opts_part (o1\<lparr>po_block_private_ips := b\<rparr>)"
  "php_opts_part o1 \<Longrightarrow> php_opts_part (o1\<lparr>po_shared_http_client := b\<rparr>)"
  "php_opts_part o1 \<Longrightarrow> php_opts_part (o1\<lparr>po_allow_private := b\<rparr>)"
  "php_opts_part o1 \<Longrightarrow> hosts_value h \<Longrightarrow> php_opts_part (o1\<lparr>po_allowed_hosts := h\<rparr>)"
  "php_opts_part o1 \<Longrightarrow> php_opts_part (o1\<lparr>po_key_template := None\<rparr>)"
  "php_opts_part o1 \<Longrightarrow> t \<noteq> [] \<Longrightarrow> plain_text t \<Longrightarrow> php_opts_part (o1\<lparr>po_key_template := Some t\<rparr>)"
  by (simp_all add: php_opts_part_def opt_ok_def)

lemma part_stores2 [part_intros]:
  "php_opts_part o1 \<Longrightarrow> headers_value ht \<Longrightarrow> php_opts_part (o1\<lparr>po_request_headers := Some ht\<rparr>)"
  "php_opts_part o1 \<Longrightarrow> cookies_value ht \<Longrightarrow> php_opts_part (o1\<lparr>po_request_cookies := Some ht\<rparr>)"
  "php_opts_part o1 \<Longrightarrow> 1 \<le> n \<Longrightarrow> n \<le> 86400 \<Longrightarrow>
     php_opts_part (o1\<lparr>po_timeout := n, po_timeout_set := True\<rparr>)"
  "php_opts_part o1 \<Longrightarrow> 0 \<le> n \<Longrightarrow> n \<le> 9223372036854775806 \<Longrightarrow>
     php_opts_part (o1\<lparr>po_max_response_size := n, po_max_response_size_set := True\<rparr>)"
  "php_opts_part o1 \<Longrightarrow> 0 \<le> n \<Longrightarrow> n \<le> 999999999 \<Longrightarrow>
     php_opts_part (o1\<lparr>po_max_concurrent := n, po_max_concurrent_set := True\<rparr>)"
  "php_opts_part o1 \<Longrightarrow> 0 \<le> n \<Longrightarrow> n \<le> 999999999 \<Longrightarrow>
     php_opts_part (o1\<lparr>po_max_workers := n, po_max_workers_set := True\<rparr>)"
  "php_opts_part o1 \<Longrightarrow> 0 \<le> n \<Longrightarrow> php_opts_part (o1\<lparr>po_max_body_size := n\<rparr>)"
  "php_opts_part o1 \<Longrightarrow> m \<in> {''pass'', ''error''} \<Longrightarrow> php_opts_part (o1\<lparr>po_on_oversize := m\<rparr>)"
  "php_opts_part o1 \<Longrightarrow> php_opts_part (o1\<lparr>po_debug := b, po_debug_set := True\<rparr>)"
  "php_opts_part o1 \<Longrightarrow> CHR 0x00 \<notin> set m \<Longrightarrow>
     php_opts_part (o1\<lparr>po_marker := m, po_marker_set := True\<rparr>)"
  by (simp_all add: php_opts_part_def)

lemma meets_numbers:
  "meets opt_cache_size (\<lambda>b. long_in 1 1000000)"
  "meets opt_cache_ttl (\<lambda>b. long_in 0 86400)"
  "meets opt_timeout (\<lambda>b. long_in 1 86400)"
  "meets opt_max_response_size (\<lambda>b. long_in 0 9223372036854775806)"
  "meets opt_max_concurrent (\<lambda>b. long_in 0 999999999)"
  "meets opt_max_workers (\<lambda>b. long_in 0 999999999)"
  "meets opt_max_body_size (\<lambda>b v. \<exists>n. v = ZLong n \<and> 0 \<le> n)"
  by (rule meetsI;
      auto simp: opt_cache_size_def opt_cache_ttl_def opt_timeout_def opt_max_response_size_def
        opt_max_concurrent_def opt_max_workers_def opt_max_body_size_def long_in_def php_limits not_less
        split: zval.splits if_splits intro!: part_intros)+

lemma meets_flags:
  "meets opt_block_private_ips (\<lambda>b. flag_value)"
  "meets opt_shared_http_client (\<lambda>b. flag_value)"
  "meets opt_allow_private (\<lambda>b. flag_value)"
  "meets opt_debug (\<lambda>b v. \<exists>x. v = ZBool x)"
  by (rule meetsI;
      auto simp: opt_block_private_ips_def opt_shared_http_client_def opt_allow_private_def opt_debug_def
        flag_value_def split: zval.splits intro!: part_intros)+

lemma meets_backend_options:
  "meets opt_redis_addr (\<lambda>b v. b = ''redis'' \<and> endpoint_value v)"
  "meets opt_redis_password (\<lambda>b v. b = ''redis'' \<and> plain_value v)"
  "meets opt_redis_db (\<lambda>b v. b = ''redis'' \<and> long_in 0 15 v)"
  by (rule meetsI;
      auto simp: opt_redis_addr_def opt_redis_password_def opt_redis_db_def endpoint_value_def long_in_def
        host_port_iff safe_string_iff not_less split: zval.splits if_splits intro!: part_intros)+

lemma meets_servers:
  "meets opt_memcached_servers (\<lambda>b v. b = ''memcached'' \<and> (\<exists>ht. v = ZArr ht \<and> servers_value ht))"
proof (rule meetsI)
  fix v o1 w assume "opt_memcached_servers v o1 = Inl w"
  then show "\<not> (po_cache_backend o1 = ''memcached'' \<and> (\<exists>ht. v = ZArr ht \<and> servers_value ht))"
    by (auto simp: opt_memcached_servers_def servers_value_def check_servers_iff [symmetric]
        split: zval.splits if_splits option.splits)
next
  fix v o1 o2 assume "php_opts_part o1" "opt_memcached_servers v o1 = Inr o2"
  then show "(po_cache_backend o1 = ''memcached'' \<and> (\<exists>ht. v = ZArr ht \<and> servers_value ht))
      \<and> po_cache_backend o2 = po_cache_backend o1 \<and> php_opts_part o2"
    by (auto simp: opt_memcached_servers_def servers_value_def check_servers_iff [symmetric]
        split: zval.splits if_splits option.splits intro!: part_intros)
qed

lemma hosts_no_nul: "hosts_value s \<Longrightarrow> CHR 0x00 \<notin> set s"
  unfolding hosts_value_def using nul_low by blast

lemma meets_hosts: "meets opt_allowed_hosts (\<lambda>b v. \<exists>s. v = ZStr s \<and> hosts_value s)"
proof (rule meetsI)
  fix v o1 w assume f: "opt_allowed_hosts v o1 = Inl w"
  then show "\<not> (\<exists>s. v = ZStr s \<and> hosts_value s)"
    unfolding hosts_check_iff [symmetric] by (auto simp: opt_allowed_hosts_def split: zval.splits if_splits)
next
  fix v o1 o2 assume p: "php_opts_part o1" and f: "opt_allowed_hosts v o1 = Inr o2"
  then obtain s where v: "v = ZStr s" by (cases v) (auto simp: opt_allowed_hosts_def)
  have c: "CHR 0x00 \<notin> set s \<and> \<not> (\<exists>c \<in> set s. byte c < 0x20 \<or> byte c = 0x7f)
      \<and> \<not> (length s > 0 \<and> \<not> mesi_allowed_hosts_has_token (zcstr s))"
    and o2: "o2 = o1\<lparr>po_allowed_hosts := zcstr s\<rparr>"
    using f unfolding v opt_allowed_hosts_def zval.case by (auto split: if_splits)
  then have h: "hosts_value s" unfolding hosts_check_iff by simp
  then have "zcstr s = s" by (intro zcstr_id hosts_no_nul)
  with v h p o2 show "(\<exists>s. v = ZStr s \<and> hosts_value s)
      \<and> po_cache_backend o2 = po_cache_backend o1 \<and> php_opts_part o2"
    by (auto intro!: part_intros)
qed

lemma meets_template: "meets opt_key_template (\<lambda>b v. \<exists>s. v = ZStr s \<and> plain_text s)"
proof (rule meetsI)
  fix v o1 w assume "opt_key_template v o1 = Inl w"
  then show "\<not> (\<exists>s. v = ZStr s \<and> plain_text s)"
    unfolding template_check_iff [symmetric] by (auto simp: opt_key_template_def split: zval.splits if_splits)
next
  fix v o1 o2 assume p: "php_opts_part o1" and f: "opt_key_template v o1 = Inr o2"
  then obtain s where v: "v = ZStr s" by (cases v) (auto simp: opt_key_template_def)
  then have "plain_text s"
    unfolding template_check_iff [symmetric] using f by (auto simp: opt_key_template_def split: if_splits)
  moreover from this have "zcstr s = s" by (intro zcstr_id plain_text_no_nul)
  ultimately show "(\<exists>s. v = ZStr s \<and> plain_text s)
      \<and> po_cache_backend o2 = po_cache_backend o1 \<and> php_opts_part o2"
    using f v p by (auto simp: opt_key_template_def split: if_splits intro!: part_intros)
qed

lemma meets_context:
  "meets opt_request_headers (\<lambda>b v. \<exists>ht. v = ZArr ht \<and> headers_value ht)"
  "meets opt_request_cookies (\<lambda>b v. \<exists>ht. v = ZArr ht \<and> cookies_value ht)"
  by (rule meetsI;
      auto simp: opt_request_headers_def opt_request_cookies_def check_headers_iff [symmetric]
        check_cookies_iff [symmetric] split: zval.splits option.splits intro!: part_intros;
      simp add: check_headers_iff check_cookies_iff)+

lemma meets_mode: "meets opt_on_oversize (\<lambda>b v. \<exists>s. v = ZStr s \<and> zcstr s \<in> {''pass'', ''error''})"
proof (rule meetsI)
  fix v o1 w assume "opt_on_oversize v o1 = Inl w"
  then show "\<not> (\<exists>s. v = ZStr s \<and> zcstr s \<in> {''pass'', ''error''})"
    by (auto simp: opt_on_oversize_def split: zval.splits if_splits)
next
  fix v o1 o2 assume p: "php_opts_part o1" and f: "opt_on_oversize v o1 = Inr o2"
  then obtain s where v: "v = ZStr s" by (cases v) (auto simp: opt_on_oversize_def)
  with f have "zcstr s \<in> {''pass'', ''error''}" and "o2 = o1\<lparr>po_on_oversize := zcstr s\<rparr>"
    by (auto simp: opt_on_oversize_def split: if_splits)
  with v part_stores2(8) [OF p] show "(\<exists>s. v = ZStr s \<and> zcstr s \<in> {''pass'', ''error''})
      \<and> po_cache_backend o2 = po_cache_backend o1 \<and> php_opts_part o2"
    by simp
qed

lemma meets_marker: "meets opt_marker (\<lambda>b v. \<exists>s. v = ZStr s \<and> CHR 0x00 \<notin> set s)"
  by (rule meetsI) (auto simp: opt_marker_def zcstr_length zcstr_id split: zval.splits if_splits
      intro!: part_intros)

lemmas all_meet = meets_numbers meets_flags meets_backend_options meets_servers meets_hosts meets_template
  meets_context meets_mode meets_marker

subsection \<open>The whole array\<close>

lemma options_meet: "list_all2 (\<lambda>entry rule. meets (snd entry) rule) (tl php_options) (map snd php_rules)"
  unfolding php_options_def php_rules_def list.sel
  by (simp only: list.map list.rel_inject list.rel_intros all_meet snd_conv simp_thms)

lemma rule_keys: "zip (map fst (tl php_options)) (map snd php_rules) = php_rules"
  by (simp add: php_options_def php_rules_def)

lemma run_steps_append: "run_steps (fs @ gs) o1 = (case run_steps fs o1 of Inl w \<Rightarrow> Inl w | Inr o2 \<Rightarrow> run_steps gs o2)"
  by (induction fs arbitrary: o1) (auto split: sum.splits)

text \<open>Every key of the array that has a rule meets it.\<close>

definition keys_meet :: "hash_table \<Rightarrow> string \<Rightarrow> (string \<times> (string \<Rightarrow> zval \<Rightarrow> bool)) list \<Rightarrow> bool" where
  "keys_meet config backend rules \<longleftrightarrow>
     (\<forall>(key, rule) \<in> set rules. \<forall>v. zend_hash_str_find config key = Some v \<longrightarrow> rule backend v)"

lemma run_options:
  assumes "list_all2 (\<lambda>entry rule. meets (snd entry) rule) entries rules" and "php_opts_part o1"
  shows "case run_steps (map (with_key config) entries) o1 of
      Inl w \<Rightarrow> \<not> keys_meet config (po_cache_backend o1) (zip (map fst entries) rules)
    | Inr o2 \<Rightarrow> keys_meet config (po_cache_backend o1) (zip (map fst entries) rules)
        \<and> po_cache_backend o2 = po_cache_backend o1 \<and> php_opts_part o2"
  using assms
proof (induction entries rules arbitrary: o1 rule: list_all2_induct)
  case Nil
  then show ?case by (simp add: keys_meet_def)
next
  case (Cons e es r rs)
  obtain key f where e: "e = (key, f)" by (cases e)
  show ?case
  proof (cases "zend_hash_str_find config key")
    case None
    with Cons.IH [OF Cons.prems] show ?thesis
      by (auto simp: e with_key_def keys_meet_def split: sum.splits)
  next
    case (Some v)
    have m: "case f v o1 of Inl w \<Rightarrow> \<not> r (po_cache_backend o1) v
        | Inr o2 \<Rightarrow> r (po_cache_backend o1) v \<and> po_cache_backend o2 = po_cache_backend o1 \<and> php_opts_part o2"
      using Cons.hyps(1) Cons.prems by (simp add: meets_def e)
    show ?thesis
    proof (cases "f v o1")
      case (Inl w)
      with m Some show ?thesis by (auto simp: e with_key_def keys_meet_def)
    next
      case (Inr o2)
      with m have o2: "r (po_cache_backend o1) v" "po_cache_backend o2 = po_cache_backend o1" "php_opts_part o2"
        by simp_all
      from Cons.IH [OF o2(3)] Inr Some o2(1,2) show ?thesis
        by (auto simp: e with_key_def keys_meet_def split: sum.splits)
    qed
  qed
qed

text \<open>
  The keys with their rules: what a configuration array has to look like.  The backend is the
  value of \<open>cache_backend\<close>, empty when the key is absent.
\<close>

definition config_backend :: "hash_table \<Rightarrow> string" where
  "config_backend config =
    (case zend_hash_str_find config ''cache_backend'' of Some (ZStr s) \<Rightarrow> zcstr s | _ \<Rightarrow> [])"

definition config_accepted :: "hash_table \<Rightarrow> bool" where
  "config_accepted config \<longleftrightarrow>
     (\<forall>v. zend_hash_str_find config ''cache_backend'' = Some v \<longrightarrow> (\<exists>s. v = ZStr s \<and> zcstr s \<in> backend_names))
     \<and> keys_meet config (config_backend config) php_rules
     \<and> (config_backend config = ''redis'' \<longrightarrow> zend_hash_str_find config ''cache_redis_addr'' \<noteq> None)
     \<and> (config_backend config = ''memcached'' \<longrightarrow> zend_hash_str_find config ''cache_memcached_servers'' \<noteq> None)"

lemmas opt_defs = opt_cache_backend_def opt_cache_size_def opt_cache_ttl_def opt_redis_addr_def
  opt_redis_password_def opt_redis_db_def opt_memcached_servers_def opt_block_private_ips_def
  opt_shared_http_client_def opt_allowed_hosts_def opt_allow_private_def opt_key_template_def
  opt_request_headers_def opt_request_cookies_def opt_timeout_def opt_max_response_size_def
  opt_max_concurrent_def opt_max_workers_def opt_max_body_size_def opt_on_oversize_def opt_debug_def
  opt_marker_def

text \<open>Only its own key sets the address of the Redis server, or the memcached servers.\<close>

lemma redis_addr_frame:
  "e \<in> set php_options \<Longrightarrow> snd e v o1 = Inr o2 \<Longrightarrow>
     (po_redis_addr o2 \<noteq> None) = (fst e = ''cache_redis_addr'' \<or> po_redis_addr o1 \<noteq> None)"
  unfolding php_options_def set_simps insert_iff empty_iff
  by (elim disjE; simp add: opt_defs Let_def split: zval.splits if_splits option.splits; fastforce?)

lemma servers_frame:
  "e \<in> set php_options \<Longrightarrow> snd e v o1 = Inr o2 \<Longrightarrow>
     (po_memcached_servers o2 \<noteq> None) = (fst e = ''cache_memcached_servers'' \<or> po_memcached_servers o1 \<noteq> None)"
  unfolding php_options_def set_simps insert_iff empty_iff
  by (elim disjE; simp add: opt_defs Let_def split: zval.splits if_splits option.splits; fastforce?)

lemma run_redis_addr:
  "run_steps (map (with_key config) es) o1 = Inr o2 \<Longrightarrow> set es \<subseteq> set php_options \<Longrightarrow>
     (po_redis_addr o2 \<noteq> None) = ((''cache_redis_addr'' \<in> fst ` set es
        \<and> zend_hash_str_find config ''cache_redis_addr'' \<noteq> None) \<or> po_redis_addr o1 \<noteq> None)"
proof (induction es arbitrary: o1)
  case (Cons e es)
  from Cons.prems(1) obtain o3 where o3: "with_key config e o1 = Inr o3"
    "run_steps (map (with_key config) es) o3 = Inr o2" by (auto split: sum.splits)
  have "(po_redis_addr o3 \<noteq> None) = ((fst e = ''cache_redis_addr''
      \<and> zend_hash_str_find config ''cache_redis_addr'' \<noteq> None) \<or> po_redis_addr o1 \<noteq> None)"
    using o3(1) redis_addr_frame [of e _ o1 o3] Cons.prems(2)
    by (cases "zend_hash_str_find config (fst e)") (auto simp: with_key_def)
  with Cons.IH [OF o3(2)] Cons.prems(2) show ?case by auto
qed simp

lemma run_servers:
  "run_steps (map (with_key config) es) o1 = Inr o2 \<Longrightarrow> set es \<subseteq> set php_options \<Longrightarrow>
     (po_memcached_servers o2 \<noteq> None) = ((''cache_memcached_servers'' \<in> fst ` set es
        \<and> zend_hash_str_find config ''cache_memcached_servers'' \<noteq> None) \<or> po_memcached_servers o1 \<noteq> None)"
proof (induction es arbitrary: o1)
  case (Cons e es)
  from Cons.prems(1) obtain o3 where o3: "with_key config e o1 = Inr o3"
    "run_steps (map (with_key config) es) o3 = Inr o2" by (auto split: sum.splits)
  have "(po_memcached_servers o3 \<noteq> None) = ((fst e = ''cache_memcached_servers''
      \<and> zend_hash_str_find config ''cache_memcached_servers'' \<noteq> None) \<or> po_memcached_servers o1 \<noteq> None)"
    using o3(1) servers_frame [of e _ o1 o3] Cons.prems(2)
    by (cases "zend_hash_str_find config (fst e)") (auto simp: with_key_def)
  with Cons.IH [OF o3(2)] Cons.prems(2) show ?case by auto
qed simp

lemma part_backend: "php_opts_part php_default_opts \<Longrightarrow> b \<in> backend_names \<Longrightarrow>
    php_opts_part (php_default_opts\<lparr>po_cache_backend := b\<rparr>)"
  by (simp add: php_opts_part_def) (simp add: php_default_opts_def)

lemma first_option:
  "case with_key config (hd php_options) php_default_opts of
     Inl w \<Rightarrow> \<exists>v. zend_hash_str_find config ''cache_backend'' = Some v
                \<and> \<not> (\<exists>s. v = ZStr s \<and> zcstr s \<in> backend_names)
   | Inr o1 \<Rightarrow> (\<forall>v. zend_hash_str_find config ''cache_backend'' = Some v \<longrightarrow>
                  (\<exists>s. v = ZStr s \<and> zcstr s \<in> backend_names))
       \<and> po_cache_backend o1 = config_backend config \<and> php_opts_part o1
       \<and> po_redis_addr o1 = None \<and> po_memcached_servers o1 = None"
proof -
  have hd: "hd php_options = (''cache_backend'', opt_cache_backend)" by (simp add: php_options_def)
  show ?thesis
  proof (cases "zend_hash_str_find config ''cache_backend''")
    case None
    then show ?thesis
      using part_default by (simp add: hd with_key_def config_backend_def) (simp add: php_default_opts_def)
  next
    case (Some v)
    show ?thesis
    proof (cases "\<exists>s. v = ZStr s \<and> zcstr s \<in> backend_names")
      case True
      then obtain s where s: "v = ZStr s" "zcstr s \<in> backend_names" by blast
      then have "opt_cache_backend v php_default_opts = Inr (php_default_opts\<lparr>po_cache_backend := zcstr s\<rparr>)"
        by (auto simp: opt_cache_backend_def backend_names_def)
      with s Some part_backend [OF part_default s(2)] show ?thesis
        by (simp add: hd with_key_def config_backend_def) (simp add: php_default_opts_def)
    next
      case False
      then have "\<exists>w. opt_cache_backend v php_default_opts = Inl w"
        by (auto simp: opt_cache_backend_def backend_names_def split: zval.splits)
      with Some False show ?thesis by (auto simp: hd with_key_def)
    qed
  qed
qed

text \<open>What \<open>php_read_config\<close> returns, in terms of the rules.\<close>

lemma read_config_cases:
  "case php_read_config config of
     Inl w \<Rightarrow> \<not> config_accepted config
   | Inr o1 \<Rightarrow> config_accepted config \<and> php_opts_valid o1 \<and> po_cache_backend o1 = config_backend config"
proof -
  let ?es = "tl php_options"
  have split: "php_options = hd php_options # ?es" by (simp add: php_options_def)
  have sub: "set ?es \<subseteq> set php_options" by (subst (2) split) auto
  have keys: "''cache_redis_addr'' \<in> fst ` set ?es" "''cache_memcached_servers'' \<in> fst ` set ?es"
    by (simp_all add: php_options_def)
  show ?thesis
  proof (cases "with_key config (hd php_options) php_default_opts")
    case (Inl w)
    with first_option [of config] show ?thesis
      unfolding php_read_config_def by (subst split) (auto simp: config_accepted_def)
  next
    case (Inr o1)
    note first = first_option [of config, unfolded Inr sum.case]
    show ?thesis
    proof (cases "run_steps (map (with_key config) ?es) o1")
      case (Inl w)
      with Inr first run_options [OF options_meet, of o1 config, unfolded rule_keys] show ?thesis
        unfolding php_read_config_def by (subst split) (auto simp: run_steps_append config_accepted_def)
    next
      case (Inr o2)
      have r: "php_read_config config = run_steps [require_redis_addr, require_servers] o2"
        unfolding php_read_config_def
        by (subst split) (simp add: run_steps_append Inr \<open>with_key config (hd php_options) php_default_opts = Inr o1\<close>)
      have o2: "keys_meet config (config_backend config) php_rules"
        "po_cache_backend o2 = config_backend config" "php_opts_part o2"
        using first run_options [OF options_meet, of o1 config, unfolded rule_keys] Inr by simp_all
      have n: "po_redis_addr o1 = None" "po_memcached_servers o1 = None" using first by simp_all
      have a: "(po_redis_addr o2 = None) = (zend_hash_str_find config ''cache_redis_addr'' = None)"
        using run_redis_addr [OF Inr sub] keys(1) n(1) by argo
      have s: "(po_memcached_servers o2 = None) = (zend_hash_str_find config ''cache_memcached_servers'' = None)"
        using run_servers [OF Inr sub] keys(2) n(2) by argo
      show ?thesis
        unfolding r config_accepted_def php_opts_valid_def
        using first o2 a s by (simp add: require_redis_addr_def require_servers_def)
    qed
  qed
qed

subsection \<open>Properties\<close>

text \<open>\<open>parse_with_config\<close> accepts exactly the configuration arrays that satisfy the
  rules of its checks, stated independently of their order: every key that is present holds a value of the right type and range for the chosen backend
  (endpoints are a host and a port from 1 to 65535 without any byte that JSON would escape, a host
  list that is not empty names a host), and the backend has what it requires.  These are the rules of the code; the README treats a cache size
  of 0, integers for flags and strings with a NUL differently.\<close>

theorem php_config_exact: "(\<exists>o1. php_read_config config = Inr o1) \<longleftrightarrow> config_accepted config"
  using read_config_cases [of config] by (auto split: sum.splits)

text \<open>C36: the options that come out of an accepted array are valid: each is in its range, the
  settings of a backend are only there for that backend, and what it requires is there.\<close>

theorem php_accepted_valid:
  assumes "php_read_config config = Inr o1"
  shows "php_opts_valid o1"
  using read_config_cases [of config] assms by simp

definition php_sample_config :: hash_table where
  "php_sample_config =
    [(KStr ''timeout'', ZLong 5),
     (KStr ''cache_backend'', ZStr ''redis''),
     (KStr ''cache_redis_addr'', ZStr ''cache:6379''),
     (KStr ''allowed_hosts'', ZStr ''a.b c''),
     (KStr ''cache_key_template'', ZStr ''${header:X}''),
     (KStr ''request_headers'', ZArr [(KStr ''X'', ZArr [(KInt 0, ZStr ''1''), (KInt 1, ZStr ''2'')])])]"

definition php_sample_opts :: php_opts where
  "php_sample_opts = php_default_opts
     \<lparr>po_cache_backend := ''redis'', po_redis_addr := Some ''cache:6379'', po_allowed_hosts := ''a.b c'',
      po_key_template := Some ''${header:X}'',
      po_request_headers := Some [(KStr ''X'', ZArr [(KInt 0, ZStr ''1''), (KInt 1, ZStr ''2'')])],
      po_timeout := 5, po_timeout_set := True\<rparr>"

lemma sample_config_read: "php_read_config php_sample_config = Inr php_sample_opts"
  by code_simp

lemma sample_opts_valid: "php_opts_valid php_sample_opts"
  using read_config_cases [of php_sample_config] by (simp add: sample_config_read)

theorem php_accepted_valid_witness: "php_opts_valid php_sample_opts"
  using php_accepted_valid [OF sample_config_read] .

end
