(* ===== verification/Php_Json_Lemmas.thy ===== *)
theory Php_Json_Lemmas
  imports Php_Json Php_Options_Lemmas
begin

text \<open>
  Proofs about the writers of the PHP extension.  The locale \<open>byte_sink\<close> is the contract
  between the JSON routines and the routine that stores one byte; it is met by the bounded buffer
  and by the growing one.  From it: nothing is written outside, what is written is the rendering of
  the intended value, and when there is room the writer succeeds.
\<close>

subsection \<open>Escaping is storing the escaped text\<close>

lemma wr_all_append: "wr_all (fs @ gs) b = wr_bind (wr_all fs b) (wr_all gs)"
proof (induction fs arbitrary: b)
  case (Cons f fs)
  then show ?case by (cases "f b") simp_all
qed simp

lemma wr_bind_Done [simp]: "wr_bind m Done = m"
  by (cases m) simp_all

lemma wr_bind_assoc: "wr_bind (wr_bind m f) g = wr_bind m (\<lambda>b. wr_bind (f b) g)"
  by (cases m) simp_all

lemma wr_all_Nil_fun [simp]: "wr_all [] = Done"
  by (rule ext) simp

lemma wr_all_single: "wr_all [f] = f"
  by (rule ext) simp

lemma put_text_append: "put_text put (s @ t) b = wr_bind (put_text put s b) (put_text put t)"
  by (simp add: put_text_def wr_all_append [abs_def])

lemma escape_is_text: "escape_with put s b = put_text put (concat (map escape_byte s)) b"
proof (induction s arbitrary: b)
  case Nil
  then show ?case by (simp add: put_text_def)
next
  case (Cons p ps)
  have "escape_with put (p # ps) b = wr_bind (put_text put (escape_byte p) b) (escape_with put ps)"
    by (simp add: put_text_def escape_byte_def)
  also have "escape_with put ps = put_text put (concat (map escape_byte ps))" using Cons by (rule ext)
  finally show ?case by (simp only: list.map concat.simps put_text_append)
qed

lemma quote_is_text: "quote_with put s b = put_text put (quote_full s) b"
proof -
  have e: "escape_with put s = put_text put (concat (map escape_byte s))" by (rule ext) (rule escape_is_text)
  have q: "quote_full s = [CHR 0x22] @ concat (map escape_byte s) @ [CHR 0x22]"
    by (simp add: mesi_json_string_def)
  have c: "put c = put_text put [c]" for c by (simp add: put_text_def wr_all_single)
  have "quote_with put s b = wr_all [put_text put [CHR 0x22], put_text put (concat (map escape_byte s)),
      put_text put [CHR 0x22]] b"
    unfolding quote_with_def e c [symmetric] ..
  also have "\<dots> = wr_bind (put_text put [CHR 0x22] b)
      (\<lambda>b. wr_bind (put_text put (concat (map escape_byte s)) b) (put_text put [CHR 0x22]))"
    by (simp only: wr_all.simps(2) [abs_def] wr_all.simps(2) wr_all_Nil_fun wr_bind_Done)
  also have "\<dots> = put_text put (quote_full s) b"
    unfolding q put_text_append [abs_def] ..
  finally show ?thesis .
qed

subsection \<open>The interface: a sink for bytes\<close>

locale byte_sink =
  fixes content :: "'b \<Rightarrow> string"
    and good :: "'b \<Rightarrow> bool"
    and put :: "char \<Rightarrow> 'b \<Rightarrow> 'b wr"
    and fits :: "nat \<Rightarrow> 'b \<Rightarrow> bool"
  assumes put_ok: "good b \<Longrightarrow>
      put c b = Full \<or> (\<exists>b'. put c b = Done b' \<and> good b' \<and> content b' = content b @ [c])"
    and put_fits: "good b \<Longrightarrow> fits (Suc n) b \<Longrightarrow> \<exists>b'. put c b = Done b' \<and> fits n b'"
begin

definition writes :: "('b \<Rightarrow> 'b wr) \<Rightarrow> string \<Rightarrow> bool" where
  "writes f s \<longleftrightarrow> (\<forall>b. good b \<longrightarrow>
     (f b = Full \<or> (\<exists>b'. f b = Done b' \<and> good b' \<and> content b' = content b @ s))
     \<and> (\<forall>n. fits (length s + n) b \<longrightarrow> (\<exists>b'. f b = Done b' \<and> fits n b')))"

lemma writes_put: "writes (put c) [c]"
  unfolding writes_def using put_ok put_fits by simp

lemma writes_Nil: "writes (wr_all []) []"
  by (simp add: writes_def)

lemma writes_Cons:
  assumes "writes f s" and "writes (wr_all fs) t"
  shows "writes (wr_all (f # fs)) (s @ t)"
  unfolding writes_def
proof (intro allI impI conjI)
  fix b assume b: "good b"
  show "wr_all (f # fs) b = Full \<or>
      (\<exists>b'. wr_all (f # fs) b = Done b' \<and> good b' \<and> content b' = content b @ s @ t)"
  proof (cases "f b = Full")
    case False
    then obtain b1 where "f b = Done b1" "good b1" "content b1 = content b @ s"
      using assms(1) b unfolding writes_def by blast
    with assms(2) show ?thesis unfolding writes_def by fastforce
  qed simp
next
  fix b n assume b: "good b" and "fits (length (s @ t) + n) b"
  then have "fits (length s + (length t + n)) b" by (simp add: add.assoc)
  then obtain b1 where b1: "f b = Done b1" "fits (length t + n) b1"
    using assms(1) b unfolding writes_def by blast
  moreover have "good b1" using assms(1) b b1(1) unfolding writes_def by fastforce
  ultimately show "\<exists>b'. wr_all (f # fs) b = Done b' \<and> fits n b'"
    using assms(2) unfolding writes_def by simp
qed

lemma writes_append: "writes (wr_all fs) s \<Longrightarrow> writes (wr_all gs) t \<Longrightarrow> writes (wr_all (fs @ gs)) (s @ t)"
proof (induction fs arbitrary: s)
  case Nil
  have "s = []" if "good b" for b
    using Nil(1) that unfolding writes_def by fastforce
  with Nil show ?case unfolding writes_def by fastforce
next
  case (Cons f fs)
  show ?case
    unfolding writes_def
  proof (intro allI impI conjI)
    fix b assume b: "good b"
    have f: "wr_all ((f # fs) @ gs) b = wr_bind (wr_all (f # fs) b) (wr_all gs)"
      by (rule wr_all_append)
    show "wr_all ((f # fs) @ gs) b = Full \<or>
        (\<exists>b'. wr_all ((f # fs) @ gs) b = Done b' \<and> good b' \<and> content b' = content b @ s @ t)"
    proof (cases "wr_all (f # fs) b = Full")
      case True
      with f show ?thesis by simp
    next
      case False
      then obtain b1 where "wr_all (f # fs) b = Done b1" "good b1" "content b1 = content b @ s"
        using Cons.prems(1) b unfolding writes_def by blast
      with f Cons.prems(2) show ?thesis unfolding writes_def by fastforce
    qed
    fix n assume "fits (length (s @ t) + n) b"
    then have "fits (length s + (length t + n)) b" by (simp add: add.assoc)
    then obtain b1 where b1: "wr_all (f # fs) b = Done b1" "fits (length t + n) b1"
      using Cons.prems(1) b unfolding writes_def by blast
    moreover have "good b1" using Cons.prems(1) b b1(1) unfolding writes_def by fastforce
    ultimately show "\<exists>b'. wr_all ((f # fs) @ gs) b = Done b' \<and> fits n b'"
      using f Cons.prems(2) unfolding writes_def by simp
  qed
qed

lemma writes_text: "writes (put_text put s) s"
  unfolding put_text_def
proof (induction s)
  case (Cons c s)
  then show ?case using writes_Cons [OF writes_put, of "map put s" s c] by (simp del: wr_all.simps)
qed (use writes_Nil in simp)

lemma writes_quoted: "writes (quote_with put s) (quote_full s)"
proof -
  have "quote_with put s = put_text put (quote_full s)" by (rule ext) (rule quote_is_text)
  then show ?thesis using writes_text by simp
qed

lemma writes_result:
  assumes "writes f s" and "good b"
  shows "f b = Full \<or> (\<exists>b'. f b = Done b' \<and> good b' \<and> content b' = content b @ s)"
    and "fits (length s) b \<Longrightarrow> \<exists>b'. f b = Done b' \<and> good b' \<and> content b' = content b @ s"
proof -
  show r: "f b = Full \<or> (\<exists>b'. f b = Done b' \<and> good b' \<and> content b' = content b @ s)"
    using assms unfolding writes_def by blast
  assume "fits (length s) b"
  then have "fits (length s + 0) b" by simp
  then have "\<exists>b'. f b = Done b'" using assms unfolding writes_def by blast
  with r show "\<exists>b'. f b = Done b' \<and> good b' \<and> content b' = content b @ s" by auto
qed

end

subsection \<open>The bounded buffer\<close>

interpretation fixed: byte_sink "\<lambda>b. b" "\<lambda>_. True" "mesi_putc sz" "\<lambda>n b. length b + n < sz" for sz
  by unfold_locales (auto simp: mesi_putc_def)

lemma writes_appendf: "fixed.writes sz (mesi_appendf sz t) t"
  unfolding fixed.writes_def by (auto simp: mesi_appendf_def snprintf_at_def)

lemma writes_php_str: "fixed.writes sz (php_json_append_str sz s) (quote_full s)"
  unfolding php_json_append_str_def by (rule fixed.writes_quoted)

lemma writes_optional:
  "(c \<Longrightarrow> fixed.writes sz (wr_all fs) s) \<Longrightarrow>
     fixed.writes sz (wr_all (if c then fs else [])) (if c then s else [])"
  using fixed.writes_Nil [where sz = sz] by (cases c) simp_all

lemma writes_one: "fixed.writes sz f s \<Longrightarrow> fixed.writes sz (wr_all [f]) s"
  by (simp only: wr_all_single)

text \<open>What the blob says.\<close>

definition php_blob_members :: "int \<Rightarrow> string \<Rightarrow> php_opts \<Rightarrow> string \<Rightarrow> json option \<Rightarrow> (string \<times> json) list" where
  "php_blob_members depth default_url o1 tmpl ctx =
     [(''maxDepth'', JInt depth), (''defaultUrl'', JStr default_url),
      (''allowedHosts'', JStr (po_allowed_hosts o1)),
      (''blockPrivateIPs'', JBool (po_block_private_ips o1)),
      (''allowPrivateIPsForAllowedHosts'', JBool (po_allow_private o1))]
     @ opt_member (po_timeout_set o1) ''timeoutSeconds'' (JInt (po_timeout o1))
     @ opt_member (po_max_response_size_set o1) ''maxResponseSize'' (JInt (po_max_response_size o1))
     @ opt_member (po_max_concurrent_set o1) ''maxConcurrentRequests'' (JInt (po_max_concurrent o1))
     @ opt_member (po_max_workers_set o1) ''maxWorkers'' (JInt (po_max_workers o1))
     @ opt_member (po_debug_set o1) ''debug'' (JBool (po_debug o1))
     @ opt_member (po_marker_set o1) ''includeErrorMarker'' (JStr (po_marker o1))
     @ opt_member (tmpl \<noteq> []) ''cacheKeyTemplate'' (JStr tmpl)
     @ (case ctx of None \<Rightarrow> [] | Some j \<Rightarrow> opt_member (tmpl \<noteq> []) ''requestCtx'' j)"

text \<open>The bytes the statements of the blob write, one after the other.\<close>

definition php_blob_text :: "int \<Rightarrow> string \<Rightarrow> php_opts \<Rightarrow> string \<Rightarrow> string \<Rightarrow> string" where
  "php_blob_text depth default_url o1 tmpl ctx_json =
     ((''{\"maxDepth\":'' @ show_int depth @ '',\"defaultUrl\":'') @ quote_full default_url
      @ '',\"allowedHosts\":'' @ quote_full (po_allowed_hosts o1)
      @ ('',\"blockPrivateIPs\":'' @ true_false (po_block_private_ips o1)
         @ '',\"allowPrivateIPsForAllowedHosts\":'' @ true_false (po_allow_private o1)))
     @ (if po_timeout_set o1 then '',\"timeoutSeconds\":'' @ show_int (po_timeout o1) else [])
     @ (if po_max_response_size_set o1 then '',\"maxResponseSize\":'' @ show_int (po_max_response_size o1) else [])
     @ (if po_max_concurrent_set o1 then '',\"maxConcurrentRequests\":'' @ show_int (po_max_concurrent o1) else [])
     @ (if po_max_workers_set o1 then '',\"maxWorkers\":'' @ show_int (po_max_workers o1) else [])
     @ (if po_debug_set o1 then '',\"debug\":'' @ true_false (po_debug o1) else [])
     @ (if po_marker_set o1 then '',\"includeErrorMarker\":'' @ quote_full (po_marker o1) else [])
     @ (if tmpl \<noteq> []
        then ('',\"cacheKeyTemplate\":'' @ quote_full tmpl)
             @ (if tmpl \<noteq> [] \<and> ctx_json \<noteq> [] then '',\"requestCtx\":'' @ ctx_json else [])
        else [])
     @ ''}''"

lemma blob_steps_write:
  "fixed.writes sz (wr_all (php_blob_steps sz depth default_url o1 tmpl ctx_json))
     (php_blob_text depth default_url o1 tmpl ctx_json)"
  unfolding php_blob_steps_def php_blob_text_def Let_def
  by (intro fixed.writes_append writes_optional writes_one writes_appendf writes_php_str
      fixed.writes_Cons [OF writes_appendf] fixed.writes_Cons [OF writes_php_str])

lemma php_text_is_render:
  assumes "ctx_text (Some ctx_json) ctx"
  shows "php_blob_text depth default_url o1 tmpl ctx_json
    = render quote_full (JObj (php_blob_members depth default_url o1 tmpl ctx))"
proof (cases ctx)
  case None
  with assms have "ctx_json = []" by (simp add: ctx_text_def nonempty_def)
  with None show ?thesis
    by (simp add: php_blob_text_def php_blob_members_def commas_Cons opt_member_def key_quotes true_false_def)
next
  case (Some j)
  with assms have "ctx_json = render quote_full j" by (simp add: ctx_text_def)
  moreover have "render quote_full j \<noteq> []" using nonempty_render [of j] by (simp add: nonempty_def)
  ultimately show ?thesis using Some
    by (simp add: php_blob_text_def php_blob_members_def commas_Cons opt_member_def key_quotes true_false_def)
qed

text \<open>The capacity suffices for accepted options and an accepted depth.\<close>

lemma length_show_int: "0 \<le> v \<Longrightarrow> v < 10 ^ k \<Longrightarrow> 0 < k \<Longrightarrow> length (show_int v) \<le> k"
  unfolding show_int_def by (simp add: length_show_nat_le nat_less_iff)

lemma length_quote_full: "length (quote_full s) \<le> 2 + length s * 6"
  using length_escaped [of s] by (simp add: mesi_json_string_def)

lemma php_blob_fits:
  assumes "php_opts_part o1" and "0 \<le> depth" and "depth \<le> PHP_MAX_MAX_DEPTH"
  shows "length (php_blob_text depth default_url o1 tmpl ctx_json)
    < php_blob_cap default_url o1 tmpl ctx_json"
proof -
  have v: "0 \<le> po_timeout o1" "po_timeout o1 \<le> 86400"
    "0 \<le> po_max_response_size o1" "po_max_response_size o1 \<le> 9223372036854775806"
    "0 \<le> po_max_concurrent o1" "po_max_concurrent o1 \<le> 999999999"
    "0 \<le> po_max_workers o1" "po_max_workers o1 \<le> 999999999"
    using assms(1) unfolding php_opts_part_def by linarith+
  have n: "length (show_int depth) \<le> 5" "length (show_int (po_timeout o1)) \<le> 5"
    "length (show_int (po_max_response_size o1)) \<le> 19" "length (show_int (po_max_concurrent o1)) \<le> 9"
    "length (show_int (po_max_workers o1)) \<le> 9"
    by (rule length_show_int; use v assms(2,3) in \<open>simp add: php_limits\<close>)+
  have b: "length (true_false x) \<le> 5" for x by (simp add: true_false_def)
  have head: "length ((''{\"maxDepth\":'' @ show_int depth @ '',\"defaultUrl\":'') @ quote_full default_url
      @ '',\"allowedHosts\":'' @ quote_full (po_allowed_hosts o1)
      @ ('',\"blockPrivateIPs\":'' @ true_false (po_block_private_ips o1)
         @ '',\"allowPrivateIPsForAllowedHosts\":'' @ true_false (po_allow_private o1)))
    \<le> 114 + length default_url * 6 + length (po_allowed_hosts o1) * 6"
    using n(1) b [of "po_block_private_ips o1"] b [of "po_allow_private o1"]
      length_quote_full [of default_url] length_quote_full [of "po_allowed_hosts o1"] by simp
  have t: "length (if po_timeout_set o1 then '',\"timeoutSeconds\":'' @ show_int (po_timeout o1) else []) \<le> 23"
    using n(2) by simp
  have r: "length (if po_max_response_size_set o1
      then '',\"maxResponseSize\":'' @ show_int (po_max_response_size o1) else []) \<le> 38"
    using n(3) by simp
  have c: "length (if po_max_concurrent_set o1
      then '',\"maxConcurrentRequests\":'' @ show_int (po_max_concurrent o1) else []) \<le> 34"
    using n(4) by simp
  have w: "length (if po_max_workers_set o1 then '',\"maxWorkers\":'' @ show_int (po_max_workers o1) else []) \<le> 23"
    using n(5) by simp
  have d: "length (if po_debug_set o1 then '',\"debug\":'' @ true_false (po_debug o1) else []) \<le> 14"
    using b [of "po_debug o1"] by simp
  have m: "length (if po_marker_set o1 then '',\"includeErrorMarker\":'' @ quote_full (po_marker o1) else [])
      \<le> 24 + (if po_marker_set o1 then length (po_marker o1) * 6 else 0)"
    using length_quote_full [of "po_marker o1"] by simp
  have k: "length (if tmpl \<noteq> []
        then ('',\"cacheKeyTemplate\":'' @ quote_full tmpl)
             @ (if tmpl \<noteq> [] \<and> ctx_json \<noteq> [] then '',\"requestCtx\":'' @ ctx_json else [])
        else [])
      \<le> 36 + (if tmpl \<noteq> [] then length tmpl * 6 else 0)
           + (if tmpl \<noteq> [] \<and> ctx_json \<noteq> [] then length ctx_json else 0)"
    using length_quote_full [of tmpl] by simp
  have e: "length ''}'' = 1" by simp
  show ?thesis
    using head t r c w d m k e
    unfolding php_blob_text_def php_blob_cap_def Let_def length_append by linarith
qed

lemma php_blob_exact:
  assumes "php_opts_part o1" and "0 \<le> depth" and "depth \<le> PHP_MAX_MAX_DEPTH"
    and "ctx_text (Some ctx_json) ctx"
  shows "build_parse_json_blob heap depth default_url o1 tmpl ctx_json =
    (if heap (php_blob_cap default_url o1 tmpl ctx_json)
     then Done (render quote_full (JObj (php_blob_members depth default_url o1 tmpl ctx))) else Full)"
  using fixed.writes_result(2) [OF blob_steps_write [of _ depth default_url o1 tmpl ctx_json], where b = "[]" and sz = "php_blob_cap default_url o1 tmpl ctx_json"] php_blob_fits [OF assms(1-3), of default_url tmpl ctx_json]
  by (simp add: build_parse_json_blob_def php_text_is_render [OF assms(4)] del: render.simps)

text \<open>Without any condition on the values, nothing is written outside the allocation.\<close>

lemma php_blob_safe: "build_parse_json_blob heap depth default_url o1 tmpl ctx_json \<noteq> Stuck"
  using fixed.writes_result(1) [OF blob_steps_write [of _ depth default_url o1 tmpl ctx_json], where b = "[]" and sz = "php_blob_cap default_url o1 tmpl ctx_json"]
  by (auto simp: build_parse_json_blob_def Let_def)

subsection \<open>The cache configuration\<close>

lemma put_text_exact:
  "t \<noteq> [] \<Longrightarrow> put_text (mesi_putc sz) t b = (if length b + length t < sz then Done (b @ t) else Full)"
proof (induction t arbitrary: b)
  case (Cons c t)
  show ?case
  proof (cases "t = []")
    case True
    then show ?thesis by (simp add: put_text_def mesi_putc_def)
  next
    case False
    with Cons.IH [OF False, of "b @ [c]"] show ?thesis by (auto simp: put_text_def mesi_putc_def)
  qed
qed simp

lemma php_str_exact:
  "php_json_append_str sz s b =
     (if length b + length (quote_full s) < sz then Done (b @ quote_full s) else Full)"
  unfolding php_json_append_str_def quote_is_text by (rule put_text_exact) (simp add: mesi_json_string_def)

definition zstr :: "zval \<Rightarrow> string" where
  "zstr v = (case v of ZStr s \<Rightarrow> zcstr s | _ \<Rightarrow> [])"

text \<open>What the configuration of a backend says.\<close>

definition php_cache_value :: "php_opts \<Rightarrow> json" where
  "php_cache_value o1 =
    (if po_cache_backend o1 = ''redis''
     then JObj ([(''redisAddr'', JStr (str_of (po_redis_addr o1))),
                 (''redisPassword'', JStr (str_of (po_redis_password o1)))]
                @ opt_member (po_redis_db_set o1) ''redisDB'' (JInt (po_redis_db o1)))
     else if po_cache_backend o1 = ''memcached''
     then JObj [(''servers'', JArr (map (\<lambda>(k, v). JStr (zstr v)) (table_of (po_memcached_servers o1))))]
     else JObj [])"

lemma cache_keys [key_quotes]:
  "quote_full ''redisAddr'' = ''\"redisAddr\"''" "quote_full ''redisPassword'' = ''\"redisPassword\"''"
  "quote_full ''redisDB'' = ''\"redisDB\"''" "quote_full ''servers'' = ''\"servers\"''"
  by code_simp+

lemma plain_escape: "plain_text s \<Longrightarrow> concat (map escape_byte s) = s"
proof (induction s)
  case (Cons c s)
  then have "\<not> byte c < 32" "c \<noteq> CHR 0x22" "c \<noteq> CHR 0x5C"
    unfolding plain_text_Cons plain_byte_alt by blast+
  then have "escape_byte c = [c]" by (simp only: escape_byte_def if_False)
  with Cons show ?case by (simp add: plain_text_Cons)
qed simp

lemma plain_quote_length: "plain_text s \<Longrightarrow> length (quote_full s) = length s + 2"
  by (simp add: mesi_json_string_def plain_escape)

text \<open>
  The Redis blob: the copy of the second key into the buffer is not checked, so an address of 4065
  to 4080 bytes makes it write up to 16 bytes past the end.
\<close>

lemma php_redis_exact:
  assumes "php_opts_valid o1" and "po_cache_backend o1 = ''redis''"
  shows "php_build_cache_config_json MESI_CFG_MAX o1 =
    (let addr = str_of (po_redis_addr o1); txt = render quote_full (php_cache_value o1)
     in if 4065 \<le> length addr \<and> length addr \<le> 4080 then Stuck
        else if length txt + 1 < MESI_CFG_MAX then Done txt else Full)"
proof -
  obtain addr where addr: "po_redis_addr o1 = Some addr" "plain_text addr"
    using assms by (auto simp: php_opts_valid_def php_opts_part_def opt_ok_def endpoint_def)
  let ?pw = "str_of (po_redis_password o1)"
  have pw: "(case po_redis_password o1 of Some pw \<Rightarrow> pw | None \<Rightarrow> []) = ?pw"
    by (cases "po_redis_password o1") (simp_all add: str_of_def)
  let ?db = "if po_redis_db_set o1 then '',\"redisDB\":'' @ show_int (po_redis_db o1) else []"
  have r: "render quote_full (php_cache_value o1) =
      ''{\"redisAddr\":'' @ quote_full addr @ '',\"redisPassword\":'' @ quote_full ?pw @ ?db @ ''}''"
    using assms(2) addr(1) by (simp add: php_cache_value_def opt_member_def key_quotes str_of_def)
  have l: "length (quote_full addr) = length addr + 2" by (rule plain_quote_length [OF addr(2)])
  have a: "str_of (Some addr) = addr" by (simp add: str_of_def)
  show ?thesis
    unfolding php_build_cache_config_json_def Let_def r assms(2) addr(1) option.case pw a
    by (cases "po_redis_db_set o1")
       (simp_all add: MESI_CFG_MAX_def memcpy_at_def php_str_exact l snprintf_at_def guarded_put_def,
        linarith+)
qed

text \<open>The memcached blob.\<close>

lemma guarded_comma: "guarded_put sz (Suc 0) '','' b = (if length b + 1 < sz then Done (b @ '','') else Full)"
  by (simp add: guarded_put_def memcpy_at_def not_less)

lemma server_steps_exact:
  assumes "\<forall>(k, v) \<in> set ht. endpoint_value v" and "ht \<noteq> []"
  shows "wr_all (php_server_steps sz ht first) b =
    (let s = sep_text first (map (\<lambda>(k, v). quote_full (zstr v)) ht)
     in if length b + length s < sz then Done (b @ s) else Full)"
  using assms
proof (induction ht arbitrary: first b)
  case (Cons e ht)
  obtain k v where e: "e = (k, v)" by (cases e)
  with Cons.prems obtain s where v: "v = ZStr s" by (auto simp: endpoint_value_def)
  have q: "0 < length (quote_full s')" for s' by (simp add: mesi_json_string_def)
  show ?case
  proof (cases "ht = []")
    case True
    with q [of "zcstr s"] show ?thesis
      by (auto simp: e v zstr_def sep_text_Cons guarded_comma php_str_exact wr_all_single Let_def)
  next
    case False
    have all: "\<forall>(k, v) \<in> set ht. endpoint_value v" using Cons.prems(1) by simp
    have ne: "0 < length (sep_text False (map (\<lambda>(k, v). quote_full (zstr v)) ht))"
      using False by (cases ht) (auto simp: sep_text_Cons)
    show ?thesis
      unfolding e v
      using Cons.IH [OF all False, of False] q [of "zcstr s"] ne
      by (auto simp: zstr_def sep_text_Cons guarded_comma php_str_exact wr_all_single Let_def)
  qed
qed simp

lemma php_memcached_exact:
  assumes "php_opts_valid o1" and "po_cache_backend o1 = ''memcached''"
  shows "php_build_cache_config_json MESI_CFG_MAX o1 =
    (let s = render quote_full (php_cache_value o1) in if length s < MESI_CFG_MAX then Done s else Full)"
proof -
  obtain ht where ht: "po_memcached_servers o1 = Some ht" "servers_value ht"
    using assms unfolding php_opts_valid_def php_opts_part_def by blast
  then have h: "\<forall>(k, v) \<in> set ht. endpoint_value v" "ht \<noteq> []" by (simp_all add: servers_value_def)
  let ?s = "sep_text True (map (\<lambda>(k, v). quote_full (zstr v)) ht)"
  have r: "render quote_full (php_cache_value o1) = ''{\"servers\":['' @ ?s @ '']}''"
    using assms(2) ht(1)
    by (simp add: php_cache_value_def table_of_def key_quotes sep_text_def comp_def split_def)
  have w: "wr_all ([memcpy_at MESI_CFG_MAX ''{\"servers\":[''] @ php_server_steps MESI_CFG_MAX ht True
      @ [guarded_put MESI_CFG_MAX 2 '']}'']) []
    = (if length (''{\"servers\":['' @ ?s @ '']}'') < MESI_CFG_MAX
       then Done (''{\"servers\":['' @ ?s @ '']}'') else Full)"
    by (simp add: wr_all_append server_steps_exact [OF h] memcpy_at_def guarded_put_def Let_def MESI_CFG_MAX_def)
  show ?thesis
    unfolding php_build_cache_config_json_def Let_def r assms(2) ht(1) option.case w
    by (simp add: MESI_CFG_MAX_def)
qed

text \<open>For every accepted configuration: when the copy overruns, and what is written otherwise.\<close>

definition redis_overrun :: "php_opts \<Rightarrow> bool" where
  "redis_overrun o1 \<longleftrightarrow> po_cache_backend o1 = ''redis''
     \<and> 4065 \<le> length (str_of (po_redis_addr o1)) \<and> length (str_of (po_redis_addr o1)) \<le> 4080"

definition php_cache_room :: "php_opts \<Rightarrow> bool" where
  "php_cache_room o1 \<longleftrightarrow> length (render quote_full (php_cache_value o1))
     + (if po_cache_backend o1 = ''redis'' then 1 else 0) < MESI_CFG_MAX"

lemma php_cache_exact:
  assumes "php_opts_valid o1"
  shows "php_build_cache_config_json MESI_CFG_MAX o1 =
    (if redis_overrun o1 then Stuck
     else if php_cache_room o1 then Done (render quote_full (php_cache_value o1)) else Full)"
proof -
  have "po_cache_backend o1 \<in> backend_names" using assms by (simp add: php_opts_valid_def php_opts_part_def)
  then consider "po_cache_backend o1 = ''redis''" | "po_cache_backend o1 = ''memcached''"
    | "po_cache_backend o1 \<in> {[], ''memory''}" unfolding backend_names_def by blast
  then show ?thesis
  proof cases
    case 1
    with php_redis_exact [OF assms 1] show ?thesis
      by (simp add: redis_overrun_def php_cache_room_def Let_def)
  next
    case 2
    with php_memcached_exact [OF assms 2] show ?thesis
      by (simp add: redis_overrun_def php_cache_room_def Let_def)
  next
    case 3
    then show ?thesis
      by (auto simp: php_build_cache_config_json_def redis_overrun_def php_cache_room_def php_cache_value_def
          MESI_CFG_MAX_def)
  qed
qed

subsection \<open>The growing buffer\<close>

lemma dyn_ensure_ok:
  assumes "length (bytes b) \<le> cap b"
  shows "mesi_dyn_ensure heap n b = Full \<or>
    (\<exists>b'. mesi_dyn_ensure heap n b = Done b' \<and> bytes b' = bytes b \<and> length (bytes b') + n < cap b')"
    and "(\<forall>k. heap k) \<Longrightarrow> mesi_dyn_ensure heap n b \<noteq> Full"
proof -
  have pos: "0 < (if cap b \<noteq> 0 then cap b * 2 else 256)" by simp
  obtain r where r: "grow_loop (length (bytes b) + n) (if cap b \<noteq> 0 then cap b * 2 else 256) = Some r"
      "length (bytes b) + n < r"
    using grow_loop_result [OF pos] by blast
  then show "mesi_dyn_ensure heap n b = Full \<or>
      (\<exists>b'. mesi_dyn_ensure heap n b = Done b' \<and> bytes b' = bytes b \<and> length (bytes b') + n < cap b')"
    by (simp add: mesi_dyn_ensure_def)
  show "(\<forall>k. heap k) \<Longrightarrow> mesi_dyn_ensure heap n b \<noteq> Full"
    using r by (simp add: mesi_dyn_ensure_def)
qed

interpretation dyn: byte_sink bytes "\<lambda>b. length (bytes b) \<le> cap b" "mesi_dyn_putc heap" "\<lambda>n b. \<forall>k. heap k"
  for heap
proof
  fix b :: jbuf and c assume b: "length (bytes b) \<le> cap b"
  show "mesi_dyn_putc heap c b = Full \<or> (\<exists>b'. mesi_dyn_putc heap c b = Done b'
      \<and> length (bytes b') \<le> cap b' \<and> bytes b' = bytes b @ [c])"
    using dyn_ensure_ok(1) [OF b, of heap 2] by (auto simp: mesi_dyn_putc_def dyn_store_def)
next
  fix b :: jbuf and c and n :: nat assume b: "length (bytes b) \<le> cap b" and h: "\<forall>k. heap k"
  show "\<exists>b'. mesi_dyn_putc heap c b = Done b' \<and> (\<forall>k. heap k)"
    using dyn_ensure_ok [OF b, of heap 2] h by (auto simp: mesi_dyn_putc_def dyn_store_def)
qed

lemma dyn_writes_str: "dyn.writes heap (mesi_dyn_json_append_str heap s) (quote_full s)"
  unfolding mesi_dyn_json_append_str_def by (rule dyn.writes_quoted)

lemma dyn_writes_one: "dyn.writes heap f s \<Longrightarrow> dyn.writes heap (wr_all [f]) s"
  by (simp only: wr_all_single)

lemma dyn_writes_comma: "dyn.writes heap (wr_all (comma_step heap first)) (if first then [] else '','')"
  using dyn.writes_Nil [where heap = heap] dyn_writes_one [OF dyn.writes_put] by (simp add: comma_step_def)

subsection \<open>The request context\<close>

definition key_text :: "zkey \<Rightarrow> string" where
  "key_text k = (case k of KStr s \<Rightarrow> zcstr s | KInt i \<Rightarrow> [])"

definition php_header_json :: "zval \<Rightarrow> json" where
  "php_header_json hv =
    (case hv of ZArr inner \<Rightarrow> JArr (map (\<lambda>(k, e). JStr (zstr e)) inner) | _ \<Rightarrow> JStr (zstr hv))"

definition php_ctx_value :: "php_opts \<Rightarrow> json" where
  "php_ctx_value o1 =
    JObj [(''headers'', JObj (map (\<lambda>(k, v). (key_text k, php_header_json v)) (table_of (po_request_headers o1)))),
          (''cookies'', JArr (map (\<lambda>(k, v). cookie_json (key_text k, zstr v)) (table_of (po_request_cookies o1))))]"

lemma writes_key: "name_key k \<Longrightarrow> dyn.writes heap (key_step heap k) (quote_full (key_text k))"
  by (cases k) (simp_all add: key_step_def key_text_def dyn_writes_str)

lemma writes_str_step: "v = ZStr s \<Longrightarrow> dyn.writes heap (str_step heap v) (quote_full (zstr v))"
  by (simp add: str_step_def zstr_def dyn_writes_str)

lemma writes_inner:
  "\<forall>(k, e) \<in> set inner. plain_value e \<Longrightarrow>
     dyn.writes heap (wr_all (inner_steps heap inner first))
       (sep_text first (map (\<lambda>(k, e). quote_full (zstr e)) inner))"
proof (induction inner arbitrary: first)
  case (Cons x inner)
  obtain k e where x: "x = (k, e)" by (cases x)
  then obtain s where e: "e = ZStr s" using Cons.prems by (auto simp: plain_value_def)
  have "dyn.writes heap (wr_all (comma_step heap first @ [str_step heap e] @ inner_steps heap inner False))
     ((if first then [] else '','') @ quote_full (zstr e)
        @ sep_text False (map (\<lambda>(k, e). quote_full (zstr e)) inner))"
    using Cons by (intro dyn.writes_append dyn_writes_comma dyn_writes_one [OF writes_str_step [OF e]]) simp
  then show ?case by (simp add: x sep_text_Cons del: wr_all.simps)
qed (use dyn.writes_Nil in simp)

lemma writes_header_value:
  assumes "plain_value v \<or> (\<exists>inner. v = ZArr inner \<and> (\<forall>(i, e) \<in> set inner. plain_value e))"
  shows "dyn.writes heap (wr_all (header_value_steps heap v)) (render quote_full (php_header_json v))"
proof (cases v)
  case (ZStr s)
  then show ?thesis
    using dyn_writes_one [OF writes_str_step [OF ZStr]] by (simp add: header_value_steps_def php_header_json_def)
next
  case (ZArr inner)
  then have "\<forall>(i, e) \<in> set inner. plain_value e" using assms by simp
  from writes_inner [OF this, of heap True]
  have "dyn.writes heap (wr_all ([mesi_dyn_putc heap CHR ''[''] @ inner_steps heap inner True @ [mesi_dyn_putc heap CHR '']'']))
     (''['' @ sep_text True (map (\<lambda>(k, e). quote_full (zstr e)) inner) @ '']'')"
    by (intro dyn.writes_append dyn_writes_one dyn.writes_put)
  then show ?thesis
    by (simp add: ZArr header_value_steps_def php_header_json_def sep_text_def split_def comp_def del: wr_all.simps)
qed (use assms in simp_all)

lemma writes_headers:
  "headers_value hs \<Longrightarrow> dyn.writes heap (wr_all (php_header_steps heap hs first))
     (sep_text first (map (\<lambda>(k, v). quote_full (key_text k) @ '':'' @ render quote_full (php_header_json v)) hs))"
proof (induction hs arbitrary: first)
  case (Cons x hs)
  obtain k v where x: "x = (k, v)" by (cases x)
  have k: "name_key k" and v: "plain_value v \<or> (\<exists>inner. v = ZArr inner \<and> (\<forall>(i, e) \<in> set inner. plain_value e))"
    and hs: "headers_value hs"
    using Cons.prems by (auto simp: x headers_value_def)
  have "dyn.writes heap (wr_all (comma_step heap first @ [key_step heap k, mesi_dyn_putc heap CHR '':'']
      @ header_value_steps heap v @ php_header_steps heap hs False))
     ((if first then [] else '','') @ (quote_full (key_text k) @ '':'') @ render quote_full (php_header_json v)
        @ sep_text False (map (\<lambda>(k, v). quote_full (key_text k) @ '':'' @ render quote_full (php_header_json v)) hs))"
    by (intro dyn.writes_append dyn_writes_comma dyn.writes_Cons [OF writes_key [OF k]]
        dyn_writes_one [OF dyn.writes_put] writes_header_value [OF v] Cons.IH [OF hs])
  then show ?case by (simp add: x sep_text_Cons del: wr_all.simps)
qed (use dyn.writes_Nil in simp)

lemma writes_cookies:
  "cookies_value hs \<Longrightarrow> dyn.writes heap (wr_all (php_cookie_steps heap hs first))
     (sep_text first (map (\<lambda>(k, v). render quote_full (cookie_json (key_text k, zstr v))) hs))"
proof (induction hs arbitrary: first)
  case (Cons x hs)
  obtain k v where x: "x = (k, v)" by (cases x)
  have k: "name_key k" and hs: "cookies_value hs" using Cons.prems by (auto simp: x cookies_value_def)
  obtain s where v: "v = ZStr s" using Cons.prems by (auto simp: x cookies_value_def)
  have "dyn.writes heap (wr_all (comma_step heap first
      @ [put_text (mesi_dyn_putc heap) ''{\"name\":'', key_step heap k,
         put_text (mesi_dyn_putc heap) '',\"value\":'', str_step heap v, mesi_dyn_putc heap CHR ''}'']
      @ php_cookie_steps heap hs False))
     ((if first then [] else '','')
        @ (''{\"name\":'' @ quote_full (key_text k) @ '',\"value\":'' @ quote_full (zstr v) @ ''}'')
        @ sep_text False (map (\<lambda>(k, v). render quote_full (cookie_json (key_text k, zstr v))) hs))"
    by (intro dyn.writes_append dyn_writes_comma dyn.writes_Cons [OF dyn.writes_text]
        dyn.writes_Cons [OF writes_key [OF k]] dyn.writes_Cons [OF writes_str_step [OF v]]
        dyn_writes_one [OF dyn.writes_put] Cons.IH [OF hs])
  then show ?case by (simp add: x sep_text_Cons cookie_json_def key_quotes del: wr_all.simps)
qed (use dyn.writes_Nil in simp)

text \<open>The last step of the request context only makes room for the NUL.\<close>

lemma wr_all_last: "wr_all (fs @ [f, e]) b = wr_bind (wr_all (fs @ [f]) b) e"
  using wr_all_append [of "fs @ [f]" "[e]" b] by (simp only: append_assoc append_Cons append_Nil wr_all_single)

lemma ctx_end:
  fixes heap :: "nat \<Rightarrow> bool"
  assumes "length (bytes b) \<le> cap b"
  defines "r \<equiv> wr_bind (mesi_dyn_ensure heap 1 b) (\<lambda>b. wr_bind (dyn_store CHR 0x00 b) (\<lambda>b'. Done (bytes b)))"
  shows "r = Full \<and> \<not> (\<forall>k. heap k) \<or> r = Done (bytes b)"
  unfolding r_def using dyn_ensure_ok [OF assms(1), of heap 1] by (auto simp: dyn_store_def)

lemma php_ctx_exact:
  assumes "php_opts_part o1"
  shows "php_request_ctx heap o1 = Full \<or> php_request_ctx heap o1 = Done (render quote_full (php_ctx_value o1))"
    and "(\<forall>k. heap k) \<Longrightarrow> php_request_ctx heap o1 = Done (render quote_full (php_ctx_value o1))"
proof -
  let ?hs = "table_of (po_request_headers o1)" and ?cs = "table_of (po_request_cookies o1)"
  have "\<forall>ht. po_request_headers o1 = Some ht \<longrightarrow> headers_value ht"
    "\<forall>ht. po_request_cookies o1 = Some ht \<longrightarrow> cookies_value ht"
    using assms unfolding php_opts_part_def by blast+
  then have h: "headers_value ?hs" and c: "cookies_value ?cs"
    by (cases "po_request_headers o1"; cases "po_request_cookies o1";
        simp add: table_of_def headers_value_def cookies_value_def)+
  let ?steps = "[put_text (mesi_dyn_putc heap) ''{\"headers\":{''] @ php_header_steps heap ?hs True
      @ [put_text (mesi_dyn_putc heap) ''},\"cookies\":[''] @ php_cookie_steps heap ?cs True
      @ [put_text (mesi_dyn_putc heap) '']}'']"
  let ?text = "''{\"headers\":{''
      @ sep_text True (map (\<lambda>(k, v). quote_full (key_text k) @ '':'' @ render quote_full (php_header_json v)) ?hs)
      @ ''},\"cookies\":[''
      @ sep_text True (map (\<lambda>(k, v). render quote_full (cookie_json (key_text k, zstr v))) ?cs) @ '']}''"
  let ?b = "\<lparr>bytes = [], cap = 256\<rparr>"
  have w: "dyn.writes heap (wr_all ?steps) ?text"
    by (intro dyn.writes_append dyn_writes_one [OF dyn.writes_text] writes_headers [OF h] writes_cookies [OF c])
  have t: "?text = render quote_full (php_ctx_value o1)"
    by (simp add: php_ctx_value_def key_quotes sep_text_def split_def comp_def del: append_single)
  have good: "length (bytes ?b) \<le> cap ?b" by simp
  have ctx: "php_request_ctx heap o1 =
      wr_bind (wr_bind (wr_all ?steps ?b) (mesi_dyn_ensure heap 1))
        (\<lambda>b. wr_bind (dyn_store CHR 0x00 b) (\<lambda>b'. Done (bytes b)))"
  proof -
    have "wr_all (as @ hs @ bs @ cs @ [g, e]) b = wr_bind (wr_all (as @ hs @ bs @ cs @ [g]) b) e"
      for as hs bs cs g e and b :: jbuf
      using wr_all_last by (simp only: append_assoc [symmetric])
    then show ?thesis unfolding php_request_ctx_def by (simp only:)
  qed
  have r: "wr_all ?steps ?b = Full \<and> \<not> (\<forall>k. heap k)
      \<or> (\<exists>b'. wr_all ?steps ?b = Done b' \<and> length (bytes b') \<le> cap b' \<and> bytes b' = ?text)"
    using dyn.writes_result [OF w good] by auto
  then have "php_request_ctx heap o1 = Full \<and> \<not> (\<forall>k. heap k) \<or> php_request_ctx heap o1 = Done ?text"
  proof
    assume "\<exists>b'. wr_all ?steps ?b = Done b' \<and> length (bytes b') \<le> cap b' \<and> bytes b' = ?text"
    then obtain b' where b': "wr_all ?steps ?b = Done b'" "length (bytes b') \<le> cap b'" "bytes b' = ?text" by blast
    show ?thesis using ctx_end [OF b'(2), of heap] unfolding ctx b'(1) wr_bind.simps(1) b'(3) .
  next
    assume full: "wr_all ?steps ?b = Full \<and> \<not> (\<forall>k. heap k)"
    have "php_request_ctx heap o1 = Full" unfolding ctx full [THEN conjunct1] by simp
    with full show ?thesis by blast
  qed
  then show "php_request_ctx heap o1 = Full \<or> php_request_ctx heap o1 = Done (render quote_full (php_ctx_value o1))"
    and "(\<forall>k. heap k) \<Longrightarrow> php_request_ctx heap o1 = Done (render quote_full (php_ctx_value o1))"
    unfolding t by blast+
qed

subsection \<open>Properties\<close>

text \<open>C35: the blob that \<open>build_parse_json_blob\<close> renders for accepted options never fails for want of
  room (only when the allocation itself fails), and a JSON reader gets back the depth, the base URL,
  the host list, the address policy, exactly the optional keys that were set, and the template with
  its request context, whatever bytes the strings hold.\<close>

theorem php_parse_blob_reads_back:
  assumes "php_opts_valid o1" and "0 \<le> depth" and "depth \<le> PHP_MAX_MAX_DEPTH"
    and "ctx_text (Some ctx_json) ctx" and "heap (php_blob_cap default_url o1 tmpl ctx_json)"
  shows "\<exists>s. build_parse_json_blob heap depth default_url o1 tmpl ctx_json = Done s
    \<and> json_read s = Some (JObj (php_blob_members depth default_url o1 tmpl ctx))"
proof -
  have "php_opts_part o1" using assms(1) by (simp add: php_opts_valid_def)
  from php_blob_exact [OF this assms(2-4), of heap default_url tmpl] assms(5) show ?thesis
    by (simp add: apq.json_read_render del: render.simps)
qed

theorem php_parse_blob_reads_back_witness:
  "\<exists>s. build_parse_json_blob (\<lambda>_. True) 3 ''http://a/?q=\"x\"'' php_sample_opts ''${header:X}'' [] = Done s
    \<and> json_read s = Some (JObj (php_blob_members 3 ''http://a/?q=\"x\"'' php_sample_opts ''${header:X}'' None))"
  by (rule php_parse_blob_reads_back [OF sample_opts_valid])
     (simp_all add: ctx_text_def nonempty_def php_limits)

text \<open>The request context of the PHP extension never leaves its buffer and always ends; unless
  an allocation fails it is JSON that reads back to the headers, single or repeated, and the cookies
  of the call, in their order.\<close>

theorem php_ctx_reads_back:
  assumes "php_opts_valid o1"
  shows "php_request_ctx heap o1 = Full \<and> \<not> (\<forall>k. heap k)
    \<or> (\<exists>s. php_request_ctx heap o1 = Done s \<and> json_read s = Some (php_ctx_value o1))"
proof -
  have p: "php_opts_part o1" using assms by (simp add: php_opts_valid_def)
  have "json_read (render quote_full (php_ctx_value o1)) = Some (php_ctx_value o1)"
    by (rule apq.json_read_render) simp
  with php_ctx_exact [OF p, of heap] show ?thesis by auto
qed

theorem php_ctx_reads_back_witness:
  "\<exists>s. php_request_ctx (\<lambda>_. True) php_sample_opts = Done s \<and> json_read s = Some (php_ctx_value php_sample_opts)"
  using php_ctx_reads_back [of php_sample_opts "\<lambda>_. True"] sample_opts_valid by simp

text \<open>C23: the cache configuration of accepted options, with the capacity the code uses.  The copy of
  the second Redis key is not checked against the room left: exactly for a Redis address of 4065 to
  4080 bytes it writes past the end of the buffer on the stack.  In every other case the blob is
  written completely, and reads back to the server settings, or refused for want of room.\<close>

theorem php_cache_blob_bounds:
  assumes "php_opts_valid o1"
  shows "(php_build_cache_config_json MESI_CFG_MAX o1 = Stuck \<longleftrightarrow> redis_overrun o1)
    \<and> (\<forall>s. php_build_cache_config_json MESI_CFG_MAX o1 = Done s \<longrightarrow>
         length s < MESI_CFG_MAX \<and> json_read s = Some (php_cache_value o1))
    \<and> (\<not> redis_overrun o1 \<and> php_cache_room o1 \<longrightarrow> (\<exists>s. php_build_cache_config_json MESI_CFG_MAX o1 = Done s))"
proof -
  have r: "json_read (render quote_full (php_cache_value o1)) = Some (php_cache_value o1)"
    by (rule apq.json_read_render) simp
  have l: "php_cache_room o1 \<Longrightarrow> length (render quote_full (php_cache_value o1)) < MESI_CFG_MAX"
    by (simp add: php_cache_room_def split: if_splits)
  show ?thesis unfolding php_cache_exact [OF assms] using r l by auto
qed

text \<open>An address that is accepted and overruns the buffer.\<close>

definition php_long_addr_opts :: php_opts where
  "php_long_addr_opts = php_default_opts
     \<lparr>po_cache_backend := ''redis'', po_redis_addr := Some (replicate 4070 CHR ''a'' @ '':6379'')\<rparr>"

lemma long_addr_valid: "php_opts_valid php_long_addr_opts" and long_addr_overruns: "redis_overrun php_long_addr_opts"
proof -
  have p: "plain_text (replicate n CHR ''a'' @ '':6379'')" for n
    unfolding plain_text_def by (auto simp: plain_byte_def)
  have "replicate 4070 CHR ''a'' @ '':6379'' = replicate 4070 CHR ''a'' @ CHR '':'' # ''6379''" by simp
  moreover have "digits_val ''6379'' = 6379" by code_simp
  moreover have "\<forall>c \<in> set ''6379''. is_digit c" by (simp add: is_digit_def)
  moreover have "replicate 4070 CHR ''a'' \<noteq> []" by simp
  ultimately have "endpoint (replicate 4070 CHR ''a'' @ '':6379'')"
    unfolding endpoint_def using p [of 4070] by fastforce
  then have "php_opts_part (php_default_opts\<lparr>po_cache_backend := ''redis'',
      po_redis_addr := Some (replicate 4070 CHR ''a'' @ '':6379'')\<rparr>)"
    using part_backend [OF part_default, of "''redis''"]
    by (intro part_intros) (simp_all add: backend_names_def)
  then show "php_opts_valid php_long_addr_opts"
    by (simp add: php_opts_valid_def php_long_addr_opts_def)
  show "redis_overrun php_long_addr_opts"
    by (simp add: redis_overrun_def php_long_addr_opts_def str_of_def)
qed

theorem php_cache_blob_bounds_witness:
  "php_build_cache_config_json MESI_CFG_MAX php_long_addr_opts = Stuck
    \<and> php_build_cache_config_json MESI_CFG_MAX php_sample_opts \<noteq> Stuck"
  using php_cache_blob_bounds [OF long_addr_valid] php_cache_blob_bounds [OF sample_opts_valid] long_addr_overruns
  by (simp add: redis_overrun_def [of php_sample_opts]) (simp add: php_sample_opts_def str_of_def)

subsection \<open>The same bytes as in the servers\<close>

text \<open>The settings of a call, as the configuration the Apache module would hold.\<close>

definition php_as_apache :: "int \<Rightarrow> string \<Rightarrow> php_opts \<Rightarrow> string \<Rightarrow> string \<Rightarrow> parse_json_config" where
  "php_as_apache depth default_url o1 tmpl ctx_json =
    \<lparr> pj_depth = depth, pj_base_url = Some default_url, pj_allowed_hosts = Some (po_allowed_hosts o1),
      pj_block_private_ips = (if po_block_private_ips o1 then 1 else 0),
      pj_allow_private_for_allowed = (if po_allow_private o1 then 1 else 0),
      pj_request_ctx_json = Some ctx_json,
      pj_timeout_seconds = (if po_timeout_set o1 then po_timeout o1 else -1),
      pj_max_response_size = (if po_max_response_size_set o1 then po_max_response_size o1 else -1),
      pj_max_concurrent_requests = (if po_max_concurrent_set o1 then po_max_concurrent o1 else -1),
      pj_max_workers = (if po_max_workers_set o1 then po_max_workers o1 else -1),
      pj_debug = (if po_debug_set o1 then (if po_debug o1 then 1 else 0) else -1),
      pj_parse_on_header = -1,
      pj_include_error_marker = (if po_marker_set o1 then Some (po_marker o1) else None),
      pj_cache_key_template = Some tmpl \<rparr>"

lemma php_text_is_apache:
  assumes "php_opts_part o1" and "po_marker_set o1 \<longrightarrow> po_marker o1 \<noteq> []"
  shows "php_blob_text depth default_url o1 tmpl ctx_json
    = mesi_build_parse_json_config (php_as_apache depth default_url o1 tmpl ctx_json)"
proof -
  have v: "po_timeout o1 \<noteq> -1" "po_max_response_size o1 \<noteq> -1" "po_max_concurrent o1 \<noteq> -1" "po_max_workers o1 \<noteq> -1"
    using assms(1) unfolding php_opts_part_def by linarith+
  have c: "c_bool (if x then 1 else 0) = true_false x" for x by (simp add: c_bool_def true_false_def)
  show ?thesis
    unfolding php_blob_text_def mesi_build_parse_json_config_def php_as_apache_def Let_def
    using v assms(2) by (simp add: c nonempty_def)
qed

text \<open>For the same settings the PHP extension hands the library the very bytes that the Apache
  module would, so one reader in the core serves both.\<close>

theorem php_apache_same_blob:
  assumes "php_opts_valid o1" and "0 \<le> depth" and "depth \<le> PHP_MAX_MAX_DEPTH"
    and "po_marker_set o1 \<longrightarrow> po_marker o1 \<noteq> []" and "heap (php_blob_cap default_url o1 tmpl ctx_json)"
  shows "build_parse_json_blob heap depth default_url o1 tmpl ctx_json
    = Done (mesi_build_parse_json_config (php_as_apache depth default_url o1 tmpl ctx_json))"
proof -
  have p: "php_opts_part o1" using assms(1) by (simp add: php_opts_valid_def)
  show ?thesis
    using fixed.writes_result(2) [OF blob_steps_write [of _ depth default_url o1 tmpl ctx_json],
        where b = "[]" and sz = "php_blob_cap default_url o1 tmpl ctx_json"]
      php_blob_fits [OF p assms(2,3), of default_url tmpl ctx_json] assms(5)
    by (simp add: build_parse_json_blob_def php_text_is_apache [OF p assms(4)])
qed

theorem php_apache_same_blob_witness:
  "build_parse_json_blob (\<lambda>_. True) 3 ''/'' php_sample_opts [] []
    = Done (mesi_build_parse_json_config (php_as_apache 3 ''/'' php_sample_opts [] []))"
  by (rule php_apache_same_blob [OF sample_opts_valid])
     (simp_all add: php_limits php_sample_opts_def php_default_opts_def)

end
