(* ===== verification/Php_Parse_Lemmas.thy ===== *)
theory Php_Parse_Lemmas
  imports Php_Parse Php_Json_Lemmas
begin

text \<open>
  What the PHP extension promises over a whole process.  Two ghost functions read off the list of
  library calls what the library holds: its shared HTTP client and its shared cache
  (\<open>client_after\<close>, \<open>cache_after\<close>, after the documented effect of the calls).  The invariant
  \<open>php_inv\<close> relates the static variables to them; from it, every parse runs under the client and the
  cache that its own configuration asks for.
\<close>

subsection \<open>What the library holds\<close>

text \<open>The shared client, with the address policy of its transport.\<close>

fun client_step :: "int option \<Rightarrow> lib_call \<Rightarrow> int option" where
  "client_step s (CallInitHTTPClient b) = Some b"
| "client_step s CallFreeHTTPClient = None"
| "client_step s _ = s"

definition client_after :: "lib_call list \<Rightarrow> int option" where
  "client_after cs = foldl client_step None cs"

text \<open>\<open>InitCacheWithConfig\<close> detaches the old cache before it tries to make the new one.\<close>

type_synonym cache_key = "string \<times> int \<times> int \<times> string"

fun cache_step :: "golib \<Rightarrow> cache_key option \<Rightarrow> lib_call \<Rightarrow> cache_key option" where
  "cache_step lib s (CallInitCacheWithConfig b n t cfg) =
     (if init_cache_with_config_rc lib b n t cfg = 0 then Some (b, n, t, cfg) else None)"
| "cache_step lib s CallFreeCache = None"
| "cache_step lib s _ = s"

definition cache_after :: "golib \<Rightarrow> lib_call list \<Rightarrow> cache_key option" where
  "cache_after lib cs = foldl (cache_step lib) None cs"

fun is_parse_call :: "lib_call \<Rightarrow> bool" where
  "is_parse_call (CallParse _ _ _) = True"
| "is_parse_call (CallParseWithConfig _ _ _ _ _) = True"
| "is_parse_call (CallParseWithConfigEx _ _ _ _ _ _) = True"
| "is_parse_call (CallParseWithConfigCtx _ _ _ _ _ _ _ _) = True"
| "is_parse_call (CallParseJson _ _) = True"
| "is_parse_call _ = False"

lemma client_after_snoc: "client_after (cs @ [c]) = client_step (client_after cs) c"
  by (simp add: client_after_def)

lemma cache_after_snoc: "cache_after lib (cs @ [c]) = cache_step lib (cache_after lib cs) c"
  by (simp add: cache_after_def)

text \<open>A cache set-up that the library refused.\<close>

definition init_failed :: "golib \<Rightarrow> lib_call list \<Rightarrow> bool" where
  "init_failed lib cs \<longleftrightarrow>
     (\<exists>b n t cfg. CallInitCacheWithConfig b n t cfg \<in> set cs \<and> init_cache_with_config_rc lib b n t cfg \<noteq> 0)"

lemma init_failed_snoc: "init_failed lib (cs @ [c]) \<longleftrightarrow> init_failed lib cs \<or>
    (\<exists>b n t cfg. c = CallInitCacheWithConfig b n t cfg \<and> init_cache_with_config_rc lib b n t cfg \<noteq> 0)"
  by (auto simp: init_failed_def)

subsection \<open>The invariant\<close>

definition client_in_step :: "php_state \<Rightarrow> bool" where
  "client_in_step g \<longleftrightarrow> client_after (php_calls g) =
     (if g_http_shared_client g then Some (if g_http_block_private_ips g then 1 else 0) else None)"

definition cache_in_step :: "golib \<Rightarrow> php_state \<Rightarrow> bool" where
  "cache_in_step lib g \<longleftrightarrow> init_failed lib (php_calls g) \<or>
     cache_after lib (php_calls g) =
       (if g_size g = -1 then None else Some (g_backend g, g_size g, g_ttl g, g_cfg_json g))"

text \<open>The set-up without a configuration is not used here.\<close>

fun is_plain_init :: "lib_call \<Rightarrow> bool" where
  "is_plain_init (CallInitCache _ _ _) = True"
| "is_plain_init _ = False"

definition php_inv :: "php_env \<Rightarrow> php_state \<Rightarrow> bool" where
  "php_inv env g \<longleftrightarrow> client_in_step g \<and> cache_in_step (env_lib env) g
     \<and> filter is_plain_init (php_calls g) = [] \<and> g_parse_json_resolved g
     \<and> g_parse_json g = (env_dladdr env \<and> env_dlopen env \<and> env_exports env ParseJson)"

lemmas inv_defs = php_inv_def client_in_step_def cache_in_step_def

lemma resolve_fields [simp]:
  "php_calls (mesi_resolve_parse_json env g) = php_calls g"
  "g_http_shared_client (mesi_resolve_parse_json env g) = g_http_shared_client g"
  "g_http_block_private_ips (mesi_resolve_parse_json env g) = g_http_block_private_ips g"
  "g_backend (mesi_resolve_parse_json env g) = g_backend g"
  "g_size (mesi_resolve_parse_json env g) = g_size g"
  "g_ttl (mesi_resolve_parse_json env g) = g_ttl g"
  "g_cfg_json (mesi_resolve_parse_json env g) = g_cfg_json g"
  by (simp_all add: mesi_resolve_parse_json_def Let_def)

lemma php_call_fields [simp]:
  "php_calls (php_call c g) = php_calls g @ [c]"
  "g_http_shared_client (php_call c g) = g_http_shared_client g"
  "g_http_block_private_ips (php_call c g) = g_http_block_private_ips g"
  "g_backend (php_call c g) = g_backend g" "g_size (php_call c g) = g_size g"
  "g_ttl (php_call c g) = g_ttl g" "g_cfg_json (php_call c g) = g_cfg_json g"
  "g_parse_json (php_call c g) = g_parse_json g"
  "g_parse_json_resolved (php_call c g) = g_parse_json_resolved g"
  by (simp_all add: php_call_def)

text \<open>Calls that are neither set-up nor clean-up leave the library's client and cache alone.\<close>

lemma inv_plain_call:
  "php_inv env g \<Longrightarrow> is_parse_call c \<or> c = CallFreeString \<Longrightarrow> php_inv env (php_call c g)"
  by (cases c) (auto simp: inv_defs client_after_snoc cache_after_snoc init_failed_snoc)

lemma inv_resolved: "php_inv env g \<Longrightarrow> mesi_resolve_parse_json env' g = g"
  by (simp add: php_inv_def mesi_resolve_parse_json_def)

lemma inv_heap [simp]: "php_inv (env\<lparr>env_heap := h\<rparr>) g = php_inv env g"
  by (simp add: php_inv_def)

lemma inv_minit: "php_inv env (php_minit env php_initial)"
  by (simp add: inv_defs php_minit_def php_initial_def client_after_def cache_after_def init_failed_def)
     (simp add: mesi_resolve_parse_json_def Let_def)

subsection \<open>The set-up steps\<close>

lemma setup_client_inv: "php_inv env g \<Longrightarrow> php_inv env (php_setup_client o1 g)"
  by (auto simp: php_setup_client_def inv_defs client_after_snoc cache_after_snoc init_failed_snoc)

lemma setup_client_result:
  assumes "client_in_step g"
  shows "client_after (php_calls (php_setup_client o1 g)) =
    (if po_shared_http_client o1 then Some (if po_block_private_ips o1 then 1 else 0) else None)"
  using assms by (auto simp: php_setup_client_def client_in_step_def client_after_snoc)

text \<open>The cache a configuration asks for.\<close>

definition wanted_cache :: "php_opts \<Rightarrow> cache_key" where
  "wanted_cache o1 =
    (po_cache_backend o1, if po_cache_size o1 = 0 then 10000 else po_cache_size o1, po_cache_ttl o1,
     render quote_full (php_cache_value o1))"

lemma valid_numbers:
  assumes "php_opts_valid o1"
  shows "s32 (if po_cache_size o1 = 0 then 10000 else po_cache_size o1)
      = (if po_cache_size o1 = 0 then 10000 else po_cache_size o1)"
    and "s32 (po_cache_ttl o1) = po_cache_ttl o1"
    and "(if po_cache_size o1 = 0 then 10000 else po_cache_size o1) \<noteq> -1"
proof -
  have n: "po_cache_size o1 = 0 \<or> 1 \<le> po_cache_size o1 \<and> po_cache_size o1 \<le> 1000000"
    "0 \<le> po_cache_ttl o1" "po_cache_ttl o1 \<le> 86400"
    using assms unfolding php_opts_valid_def php_opts_part_def by blast+
  then show "s32 (if po_cache_size o1 = 0 then 10000 else po_cache_size o1)
      = (if po_cache_size o1 = 0 then 10000 else po_cache_size o1)"
    and "s32 (po_cache_ttl o1) = po_cache_ttl o1"
    and "(if po_cache_size o1 = 0 then 10000 else po_cache_size o1) \<noteq> -1"
    by auto
qed

lemma backend_short: "b \<in> backend_names \<Longrightarrow> take (MESI_BACKEND_MAX - 1) b = b"
  by (auto simp: backend_names_def MESI_BACKEND_MAX_def)

lemma record_exact:
  assumes "php_opts_valid o1" and "php_cache_room o1"
  shows "mesi_cache_state_record (po_cache_backend o1) n t (render quote_full (php_cache_value o1)) g =
    g\<lparr>g_backend := po_cache_backend o1, g_size := n, g_ttl := t,
      g_cfg_json := render quote_full (php_cache_value o1)\<rparr>"
proof -
  have "po_cache_backend o1 \<in> backend_names" using assms(1) by (simp add: php_opts_valid_def php_opts_part_def)
  moreover have "length (render quote_full (php_cache_value o1)) \<le> MESI_CFG_MAX - 1"
    using assms(2) by (auto simp: php_cache_room_def split: if_splits)
  ultimately show ?thesis
    unfolding mesi_cache_state_record_def by (simp only: backend_short take_all)
qed

lemma matches_iff:
  "mesi_cache_state_matches b n t cfg g \<longleftrightarrow> (g_backend g, g_size g, g_ttl g, g_cfg_json g) = (b, n, t, cfg)"
  by (auto simp: mesi_cache_state_matches_def)

text \<open>A set-up of the library; a cache is only set up as some accepted options ask.\<close>

definition asked_for :: "lib_call \<Rightarrow> bool" where
  "asked_for c \<longleftrightarrow> (\<forall>b n t cfg. c = CallInitCacheWithConfig b n t cfg
     \<longrightarrow> (\<exists>o1. php_opts_valid o1 \<and> wanted_cache o1 = (b, n, t, cfg)))"

lemma asked_for_other [simp]:
  "asked_for (CallInitHTTPClient bp)" "asked_for CallFreeHTTPClient" "asked_for CallFreeString"
  "is_parse_call c \<Longrightarrow> asked_for c"
  by (auto simp: asked_for_def)

lemma setup_cache_calls:
  assumes "php_opts_valid o1" and "php_setup_cache env o1 g = Some (w, g1)"
  shows "\<exists>c. (php_calls g1 = php_calls g \<or> php_calls g1 = php_calls g @ [c]) \<and> \<not> is_parse_call c \<and> asked_for c"
proof -
  let ?n = "if po_cache_size o1 = 0 then 10000 else po_cache_size o1"
  let ?c = "CallInitCacheWithConfig (po_cache_backend o1) ?n (po_cache_ttl o1) (render quote_full (php_cache_value o1))"
  have "asked_for ?c" using assms(1) by (auto simp: asked_for_def wanted_cache_def simp del: render.simps)
  moreover have "php_calls g1 = php_calls g \<or> php_calls g1 = php_calls g @ [?c]"
    using assms(2) valid_numbers [OF assms(1)]
    unfolding php_setup_cache_def Let_def php_cache_exact [OF assms(1)]
    by (auto simp: mesi_cache_state_record_def simp del: render.simps split: if_splits)
  ultimately show ?thesis by (intro exI [of _ ?c]) simp
qed

lemma record_inv:
  assumes "php_inv env g" and "n \<noteq> -1" and "init_cache_with_config_rc (env_lib env) b n t cfg = 0"
  shows "php_inv env ((php_call (CallInitCacheWithConfig b n t cfg) g)
    \<lparr>g_backend := b, g_size := n, g_ttl := t, g_cfg_json := cfg\<rparr>)"
  using assms by (simp add: inv_defs client_after_snoc cache_after_snoc init_failed_snoc)

text \<open>When the set-up succeeds the wanted cache is recorded, and no call is made if it was before.\<close>

lemma setup_cache_ok:
  assumes "php_opts_valid o1" and "php_inv env g" and "php_setup_cache env o1 g = Some (None, g1)"
  shows "(g_backend g1, g_size g1, g_ttl g1, g_cfg_json g1) = wanted_cache o1"
    and "php_inv env g1"
    and "(g_backend g, g_size g, g_ttl g, g_cfg_json g) = wanted_cache o1 \<Longrightarrow> g1 = g"
proof -
  let ?n = "if po_cache_size o1 = 0 then 10000 else po_cache_size o1"
  let ?cfg = "render quote_full (php_cache_value o1)"
  let ?g = "php_call (CallInitCacheWithConfig (po_cache_backend o1) ?n (po_cache_ttl o1) ?cfg) g"
  note num = valid_numbers [OF assms(1)]
  have room: "\<not> redis_overrun o1" "php_cache_room o1"
    using assms(3) unfolding php_setup_cache_def Let_def php_cache_exact [OF assms(1)]
    by (auto split: if_splits)
  then have blob: "php_build_cache_config_json MESI_CFG_MAX o1 = Done ?cfg"
    by (simp add: php_cache_exact [OF assms(1)])
  note st = assms(3) [unfolded php_setup_cache_def Let_def blob wr.case matches_iff num(1,2)]
  have "(g_backend g1, g_size g1, g_ttl g1, g_cfg_json g1) = wanted_cache o1 \<and> php_inv env g1
    \<and> ((g_backend g, g_size g, g_ttl g, g_cfg_json g) = wanted_cache o1 \<longrightarrow> g1 = g)"
  proof (cases "(g_backend g, g_size g, g_ttl g, g_cfg_json g) = wanted_cache o1")
    case True
    then have "g1 = g" using st by (simp only: wanted_cache_def if_True option.inject prod.inject simp_thms)
    with True assms(2) show ?thesis by simp
  next
    case False
    then have ok: "init_cache_with_config_rc (env_lib env) (po_cache_backend o1) ?n (po_cache_ttl o1) ?cfg = 0"
      and g1: "g1 = mesi_cache_state_record (po_cache_backend o1) ?n (po_cache_ttl o1) ?cfg ?g"
      using st by (simp_all only: wanted_cache_def if_False split: if_splits) simp_all
    have w: "(g_backend g1, g_size g1, g_ttl g1, g_cfg_json g1) = wanted_cache o1"
      unfolding g1 record_exact [OF assms(1) room(2)] by (simp add: wanted_cache_def del: render.simps)
    have "php_inv env g1"
      unfolding g1 record_exact [OF assms(1) room(2)]
      by (rule record_inv [OF assms(2) num(3) ok])
    with w False show ?thesis by simp
  qed
  then show "(g_backend g1, g_size g1, g_ttl g1, g_cfg_json g1) = wanted_cache o1"
    and "php_inv env g1"
    and "(g_backend g, g_size g, g_ttl g, g_cfg_json g) = wanted_cache o1 \<Longrightarrow> g1 = g"
    by blast+
qed

lemma setup_cache_failed:
  assumes "php_opts_valid o1" and "php_inv env g" and "php_setup_cache env o1 g = Some (Some w, g1)"
  shows "php_inv env g1"
proof -
  have "php_inv env (php_call (CallInitCacheWithConfig b n t cfg) g)"
    if "init_cache_with_config_rc (env_lib env) b n t cfg \<noteq> 0" for b n t cfg
    using assms(2) that by (auto simp: inv_defs client_after_snoc init_failed_snoc)
  then show ?thesis
    using assms(2,3) by (auto simp: php_setup_cache_def Let_def split: wr.splits if_splits)
qed

subsection \<open>What a parse call carries\<close>

text \<open>The template is dropped without a backend; with a template goes the request context.\<close>

definition php_tmpl :: "php_opts \<Rightarrow> string" where
  "php_tmpl o1 = (if po_cache_backend o1 \<noteq> [] then str_of (po_key_template o1) else [])"

definition php_ctx :: "php_opts \<Rightarrow> json option" where
  "php_ctx o1 = (if php_tmpl o1 \<noteq> [] then Some (php_ctx_value o1) else None)"

text \<open>
  A parse call made for the options: the page, the depth, the base URL, the host list and the
  address policy are in it, and whatever else was asked for is in the blob.
\<close>

fun php_carries :: "php_opts \<Rightarrow> string \<Rightarrow> int \<Rightarrow> string \<Rightarrow> lib_call \<Rightarrow> bool" where
  "php_carries o1 input depth default_url (CallParseJson i blob) \<longleftrightarrow>
     i = input
     \<and> blob = render quote_full (JObj (php_blob_members depth default_url o1 (php_tmpl o1) (php_ctx o1)))"
| "php_carries o1 input depth default_url (CallParseWithConfigCtx i d u hosts bp ap t cj) \<longleftrightarrow>
     i = input \<and> d = depth \<and> u = default_url \<and> hosts = po_allowed_hosts o1
     \<and> bp = (if po_block_private_ips o1 then 1 else 0) \<and> ap = (if po_allow_private o1 then 1 else 0)
     \<and> t = php_tmpl o1 \<and> ctx_text (Some cj) (php_ctx o1)"
| "php_carries o1 input depth default_url _ \<longleftrightarrow> False"

lemma carries_parse: "php_carries o1 input depth default_url pc \<Longrightarrow> is_parse_call pc"
  by (cases pc) simp_all

lemma context_result:
  assumes "php_opts_valid o1"
  shows "php_context env o1 \<noteq> None"
    and "php_context env o1 = Some (Inr (t, cj)) \<Longrightarrow> t = php_tmpl o1 \<and> ctx_text (Some cj) (php_ctx o1)"
proof -
  have p: "php_opts_part o1" using assms by (simp add: php_opts_valid_def)
  then have t: "po_key_template o1 = Some tm \<Longrightarrow> tm \<noteq> []" for tm
    by (simp add: php_opts_part_def opt_ok_def)
  note ctx = php_ctx_exact(1) [OF p, of "env_heap env"]
  show "php_context env o1 \<noteq> None"
    using ctx by (auto simp: php_context_def split: option.splits wr.splits)
  assume c: "php_context env o1 = Some (Inr (t, cj))"
  show "t = php_tmpl o1 \<and> ctx_text (Some cj) (php_ctx o1)"
  proof (cases "po_key_template o1 = None \<or> po_cache_backend o1 = []")
    case True
    with c show ?thesis
      by (auto simp: php_context_def php_tmpl_def php_ctx_def str_of_def ctx_text_def nonempty_def
          split: option.splits)
  next
    case False
    then obtain tm where tm: "po_key_template o1 = Some tm" "po_cache_backend o1 \<noteq> []" by auto
    have "t = tm" and "php_request_ctx (env_heap env) o1 = Done cj"
      using c tm by (auto simp: php_context_def split: if_splits wr.splits)
    moreover from this ctx have "cj = render quote_full (php_ctx_value o1)" by (simp del: render.simps)
    ultimately show ?thesis
      using tm t [OF tm(1)] by (simp add: php_tmpl_def php_ctx_def str_of_def ctx_text_def del: render.simps)
  qed
qed

lemma finish_shape:
  "php_finish used r ws g = (case r of None \<Rightarrow> PFalse | Some s \<Rightarrow> PStr s,
     case r of None \<Rightarrow> ws @ [if used then ConfigRejected else InvalidMaxDepth ''parse_with_config''] | Some s \<Rightarrow> ws,
     case r of None \<Rightarrow> g | Some s \<Rightarrow> php_call CallFreeString g)"
  by (cases r) (simp_all add: php_finish_def)

text \<open>
  Options that only the blob can carry go through \<open>ParseJson\<close> when the library has it.
\<close>

fun php_through_blob :: "lib_call \<Rightarrow> bool" where
  "php_through_blob (CallParseJson _ _) = True"
| "php_through_blob _ = False"

definition nothing_lost :: "php_opts \<Rightarrow> php_state \<Rightarrow> lib_call \<Rightarrow> bool" where
  "nothing_lost o1 g pc \<longleftrightarrow> php_configured o1 \<and> g_parse_json g \<longrightarrow> php_through_blob pc"

text \<open>One parse call that carries the options, and its answer.\<close>

definition parse_done ::
  "php_env \<Rightarrow> php_opts \<Rightarrow> string \<Rightarrow> int \<Rightarrow> string \<Rightarrow> php_state \<Rightarrow> php_outcome \<Rightarrow> bool" where
  "parse_done env o1 input depth default_url g out \<longleftrightarrow>
    (\<exists>pc. php_carries o1 input depth default_url pc \<and> nothing_lost o1 g pc \<and>
       (case lib_answer (env_lib env) pc of
          None \<Rightarrow> (\<exists>ws. ws \<noteq> [] \<and> out = (PFalse, ws, php_call pc g))
        | Some s \<Rightarrow> (\<exists>ws. out = (PStr s, ws, php_call CallFreeString (php_call pc g)))))"

lemma positional_done:
  assumes "0 \<le> depth" and "depth \<le> PHP_MAX_MAX_DEPTH" and "ctx_text (Some cj) (php_ctx o1)"
    and "\<not> (php_configured o1 \<and> g_parse_json g)"
  shows "parse_done env o1 input depth default_url g
    (php_positional env input depth default_url o1 (php_tmpl o1) cj ws g)"
proof -
  have d: "s32 depth = depth" using assms(1,2) by (simp add: php_limits)
  let ?pc = "CallParseWithConfigCtx input depth default_url (po_allowed_hosts o1)
      (if po_block_private_ips o1 then 1 else 0) (if po_allow_private o1 then 1 else 0) (php_tmpl o1) cj"
  have "php_carries o1 input depth default_url ?pc" and "nothing_lost o1 g ?pc"
    using assms(3,4) by (simp_all add: nothing_lost_def)
  then show ?thesis
    unfolding parse_done_def
    by (intro exI [of _ ?pc]) (auto simp: php_positional_def finish_shape d Let_def split: option.splits)
qed

lemma dispatch_shape:
  assumes "php_opts_valid o1" and "0 \<le> depth" and "depth \<le> PHP_MAX_MAX_DEPTH" and "php_inv env g"
    and "ctx_text (Some cj) (php_ctx o1)"
  obtains "php_dispatch env input depth default_url o1 (php_tmpl o1) cj g = Some (PFalse, [ParseBlobFailed], g)"
  | out where "php_dispatch env input depth default_url o1 (php_tmpl o1) cj g = Some out"
      "parse_done env o1 input depth default_url g out"
proof (cases "php_configured o1 \<and> g_parse_json g")
  case False
  then have "\<exists>ws. php_dispatch env input depth default_url o1 (php_tmpl o1) cj g
      = Some (php_positional env input depth default_url o1 (php_tmpl o1) cj ws g)"
    using inv_resolved [OF assms(4)] by (auto simp: php_dispatch_def Let_def)
  with that(2) positional_done [OF assms(2,3,5) False] show ?thesis by blast
next
  case True
  have p: "php_opts_part o1" using assms(1) by (simp add: php_opts_valid_def)
  let ?blob = "render quote_full (JObj (php_blob_members depth default_url o1 (php_tmpl o1) (php_ctx o1)))"
  note exact = php_blob_exact [OF p assms(2,3,5), of "env_heap env" default_url "php_tmpl o1"]
  show ?thesis
  proof (cases "env_heap env (php_blob_cap default_url o1 (php_tmpl o1) cj)")
    case False
    with exact True inv_resolved [OF assms(4)] that(1) show ?thesis
      by (simp add: php_dispatch_def Let_def)
  next
    case heap: True
    have d: "php_dispatch env input depth default_url o1 (php_tmpl o1) cj g =
        Some (php_finish True (parse_json (env_lib env) input ?blob) [] (php_call (CallParseJson input ?blob) g))"
      using exact heap True inv_resolved [OF assms(4)] by (simp add: php_dispatch_def Let_def del: render.simps)
    have "php_carries o1 input depth default_url (CallParseJson input ?blob)"
      and "nothing_lost o1 g (CallParseJson input ?blob)" by (simp_all add: nothing_lost_def)
    then have "parse_done env o1 input depth default_url g
        (php_finish True (parse_json (env_lib env) input ?blob) [] (php_call (CallParseJson input ?blob) g))"
      unfolding parse_done_def
      by (intro exI [of _ "CallParseJson input ?blob"]) (auto simp: finish_shape split: option.splits simp del: render.simps)
    with d that(2) show ?thesis by blast
  qed
qed

subsection \<open>The three ways a call ends\<close>

definition set_up_only :: "php_state \<Rightarrow> php_state \<Rightarrow> bool" where
  "set_up_only g g' \<longleftrightarrow> (\<exists>pre. php_calls g' = php_calls g @ pre \<and> list_all (\<lambda>c. \<not> is_parse_call c \<and> asked_for c) pre)"

lemma set_up_refl: "set_up_only g g"
  by (simp add: set_up_only_def)

lemma set_up_trans: "set_up_only g g1 \<Longrightarrow> set_up_only g1 g2 \<Longrightarrow> set_up_only g g2"
  by (auto simp: set_up_only_def)

lemma setup_client_frame:
  "g_backend (php_setup_client o1 g) = g_backend g" "g_size (php_setup_client o1 g) = g_size g"
  "g_ttl (php_setup_client o1 g) = g_ttl g" "g_cfg_json (php_setup_client o1 g) = g_cfg_json g"
  "set_up_only g (php_setup_client o1 g)"
  by (auto simp: php_setup_client_def set_up_only_def)

lemma setup_cache_only:
  assumes "php_opts_valid o1" and "php_setup_cache env o1 g = Some (w, g1)"
  shows "set_up_only g g1"
  using setup_cache_calls [OF assms] by (auto simp: set_up_only_def)

text \<open>The library is set up as the options ask, and nothing has been parsed yet.\<close>

definition ready :: "php_env \<Rightarrow> php_opts \<Rightarrow> php_state \<Rightarrow> php_state \<Rightarrow> bool" where
  "ready env o1 g g2 \<longleftrightarrow> php_inv env g2 \<and> set_up_only g g2
     \<and> client_after (php_calls g2) =
         (if po_shared_http_client o1 then Some (if po_block_private_ips o1 then 1 else 0) else None)
     \<and> (g_backend g2, g_size g2, g_ttl g2, g_cfg_json g2) = wanted_cache o1"

text \<open>A call that gets to the set-up of the cache.\<close>

definition php_accepted :: "int \<Rightarrow> hash_table \<Rightarrow> string \<Rightarrow> php_opts \<Rightarrow> bool" where
  "php_accepted depth config input o1 \<longleftrightarrow> 0 \<le> depth \<and> depth \<le> PHP_MAX_MAX_DEPTH
     \<and> php_read_config config = Inr o1 \<and> php_body_limit o1 input = None"

lemma accepted_valid: "php_accepted depth config input o1 \<Longrightarrow> php_opts_valid o1"
  using read_config_cases [of config] by (simp add: php_accepted_def)

text \<open>The other calls end before any state changes.\<close>

lemma refused_call:
  assumes "\<nexists>o1. php_accepted depth config input o1"
  shows "\<exists>v w. php_parse_with_config env input depth default_url config g = Some (v, [w], g)
    \<and> (v = PFalse \<or> v = PStr input \<and> (\<exists>o1. php_read_config config = Inr o1 \<and> 0 < po_max_body_size o1
          \<and> po_max_body_size o1 < int (length (zcstr input)) \<and> po_on_oversize o1 \<noteq> ''error''))"
proof (cases "mesi_reject_max_depth ''parse_with_config'' depth")
  case (Some w)
  then show ?thesis by (simp add: php_parse_with_config_def)
next
  case d: None
  show ?thesis
  proof (cases "php_read_config config")
    case (Inl w)
    with d show ?thesis by (simp add: php_parse_with_config_def)
  next
    case (Inr o1)
    have "0 \<le> depth" "depth \<le> PHP_MAX_MAX_DEPTH" using d by (auto simp: mesi_reject_max_depth_def split: if_splits)
    with assms Inr have "php_body_limit o1 input \<noteq> None" by (auto simp: php_accepted_def)
    then obtain v w where r: "php_body_limit o1 input = Some (v, w)" by auto
    with d Inr have "php_parse_with_config env input depth default_url config g = Some (v, [w], g)"
      by (simp add: php_parse_with_config_def)
    moreover have "v = PFalse \<or> v = PStr input \<and> 0 < po_max_body_size o1
        \<and> po_max_body_size o1 < int (length (zcstr input)) \<and> po_on_oversize o1 \<noteq> ''error''"
      using r by (auto simp: php_body_limit_def Let_def split: if_splits)
    ultimately show ?thesis using Inr by blast
  qed
qed

text \<open>After the set-up: the context and the parse call.\<close>

definition php_parse_page ::
  "php_env \<Rightarrow> string \<Rightarrow> int \<Rightarrow> string \<Rightarrow> php_opts \<Rightarrow> php_state \<Rightarrow> php_outcome option" where
  "php_parse_page env input depth default_url o1 g2 =
    (case php_context env o1 of
       None \<Rightarrow> None
     | Some (Inl w) \<Rightarrow> Some (PFalse, [w], g2)
     | Some (Inr (tmpl, ctx_json)) \<Rightarrow> php_dispatch env input depth default_url o1 tmpl ctx_json g2)"

lemma accepted_call:
  assumes "php_accepted depth config input o1"
  shows "php_parse_with_config env input depth default_url config g =
    (case php_setup_cache env o1 g of
       None \<Rightarrow> None
     | Some (Some w, g1) \<Rightarrow> Some (PFalse, [w], g1)
     | Some (None, g1) \<Rightarrow> php_parse_page env (zcstr input) depth (zcstr default_url) o1 (php_setup_client o1 g1))"
proof -
  have "mesi_reject_max_depth ''parse_with_config'' depth = None"
    using assms by (simp add: php_accepted_def mesi_reject_max_depth_def)
  moreover have "php_read_config config = Inr o1" "php_body_limit o1 input = None"
    using assms by (simp_all add: php_accepted_def)
  ultimately show ?thesis
    unfolding php_parse_with_config_def php_parse_page_def Let_def by simp
qed

lemma parse_page_result:
  assumes "php_opts_valid o1" and "0 \<le> depth" and "depth \<le> PHP_MAX_MAX_DEPTH" and "php_inv env g2"
  shows "\<exists>out. php_parse_page env input depth default_url o1 g2 = Some out
    \<and> ((\<exists>w. out = (PFalse, [w], g2)) \<or> parse_done env o1 input depth default_url g2 out)"
proof -
  from context_result(1) [OF assms(1), of env] obtain r where r: "php_context env o1 = Some r" by auto
  show ?thesis
  proof (cases r)
    case (Inl w)
    with r show ?thesis by (simp add: php_parse_page_def)
  next
    case (Inr tc)
    obtain t cj where tc: "tc = (t, cj)" by (cases tc)
    have t: "t = php_tmpl o1" and cj: "ctx_text (Some cj) (php_ctx o1)"
      using context_result(2) [OF assms(1), of env t cj] r Inr tc by simp_all
    have "php_parse_page env input depth default_url o1 g2
        = php_dispatch env input depth default_url o1 (php_tmpl o1) cj g2"
      using r by (simp add: php_parse_page_def Inr tc t)
    with dispatch_shape [OF assms cj, of input default_url] show ?thesis by metis
  qed
qed

lemma set_up_ready:
  assumes "php_opts_valid o1" and "php_inv env g" and "php_setup_cache env o1 g = Some (None, g1)"
  shows "ready env o1 g (php_setup_client o1 g1)"
proof -
  have "php_inv env g1" using setup_cache_ok(2) [OF assms] .
  moreover from this have "php_inv env (php_setup_client o1 g1)" by (rule setup_client_inv)
  moreover have "set_up_only g (php_setup_client o1 g1)"
    using set_up_trans [OF setup_cache_only [OF assms(1,3)] setup_client_frame(5)] .
  ultimately show ?thesis
    unfolding ready_def setup_client_frame(1-4)
    using setup_client_result setup_cache_ok(1) [OF assms] by (simp add: php_inv_def)
qed

text \<open>The set-up has no result only after the copy that overruns the buffer of the Redis blob.\<close>

lemma setup_cache_none: "php_opts_valid o1 \<Longrightarrow> php_setup_cache env o1 g = None \<longleftrightarrow> redis_overrun o1"
  by (simp add: php_setup_cache_def php_cache_exact Let_def del: render.simps)

lemma accepted_result:
  assumes "php_accepted depth config input o1" and "php_inv env g" and "\<not> redis_overrun o1"
  shows "\<exists>v ws g'. php_parse_with_config env input depth default_url config g = Some (v, ws, g')
    \<and> (v = PFalse \<and> ws \<noteq> [] \<and> set_up_only g g' \<and> php_inv env g'
       \<or> (\<exists>g2. ready env o1 g g2 \<and> parse_done env o1 (zcstr input) depth (zcstr default_url) g2 (v, ws, g')))"
proof -
  note ok = accepted_valid [OF assms(1)]
  from setup_cache_none [OF ok, of env g] assms(3)
  obtain w1 g1 where c: "php_setup_cache env o1 g = Some (w1, g1)" by auto
  show ?thesis
  proof (cases w1)
    case (Some w)
    have "php_inv env g1" using setup_cache_failed [OF ok assms(2)] c Some by simp
    with setup_cache_only [OF ok c] c Some show ?thesis by (simp add: accepted_call [OF assms(1)])
  next
    case None
    let ?g2 = "php_setup_client o1 g1"
    have r: "ready env o1 g ?g2" using set_up_ready [OF ok assms(2)] c None by simp
    then have i: "php_inv env ?g2" "set_up_only g ?g2" by (simp_all add: ready_def)
    have "php_parse_with_config env input depth default_url config g
        = php_parse_page env (zcstr input) depth (zcstr default_url) o1 ?g2"
      using c None by (simp add: accepted_call [OF assms(1)])
    with parse_page_result [OF ok _ _ i(1), of depth "zcstr input" "zcstr default_url"] assms(1) r i
    show ?thesis unfolding php_accepted_def by fastforce
  qed
qed

lemma call_none_iff:
  assumes "php_inv env g"
  shows "php_parse_with_config env input depth default_url config g = None \<longleftrightarrow>
    0 \<le> depth \<and> depth \<le> PHP_MAX_MAX_DEPTH
    \<and> (\<exists>o1. php_read_config config = Inr o1 \<and> php_body_limit o1 input = None \<and> redis_overrun o1)"
proof (cases "\<exists>o1. php_accepted depth config input o1")
  case False
  with refused_call [OF False, of env default_url g] show ?thesis by (auto simp: php_accepted_def)
next
  case True
  then obtain o1 where o1: "php_accepted depth config input o1" by blast
  have "php_parse_with_config env input depth default_url config g = None \<longleftrightarrow> redis_overrun o1"
  proof (cases "redis_overrun o1")
    case True
    with setup_cache_none [OF accepted_valid [OF o1], of env g] show ?thesis by (simp add: accepted_call [OF o1])
  next
    case False
    with accepted_result [OF o1 assms False, of default_url] show ?thesis by auto
  qed
  with o1 show ?thesis by (auto simp: php_accepted_def)
qed

lemma call_shape:
  assumes "php_inv env g" and "php_parse_with_config env input depth default_url config g = Some (v, ws, g')"
  obtains (rejected) "v = PFalse" "ws \<noteq> []" "set_up_only g g'" "php_inv env g'"
  | (oversize) o1 where "php_read_config config = Inr o1" "0 < po_max_body_size o1"
      "po_max_body_size o1 < int (length (zcstr input))" "po_on_oversize o1 \<noteq> ''error''"
      "v = PStr input" "ws \<noteq> []" "g' = g"
  | (parsed) o1 g2 where "php_read_config config = Inr o1" "php_opts_valid o1" "0 \<le> depth" "depth \<le> PHP_MAX_MAX_DEPTH"
      "php_body_limit o1 input = None" "ready env o1 g g2"
      "parse_done env o1 (zcstr input) depth (zcstr default_url) g2 (v, ws, g')"
proof (cases "\<exists>o1. php_accepted depth config input o1")
  case False
  from refused_call [OF False, of env default_url g] assms(2)
  have r: "v = PFalse \<or> v = PStr input \<and> (\<exists>o1. php_read_config config = Inr o1 \<and> 0 < po_max_body_size o1
          \<and> po_max_body_size o1 < int (length (zcstr input)) \<and> po_on_oversize o1 \<noteq> ''error'')"
    and ws: "ws \<noteq> []" and g': "g' = g" by auto
  from r show thesis
  proof
    assume "v = PFalse"
    with rejected ws g' assms(1) set_up_refl show thesis by simp
  next
    assume "v = PStr input \<and> (\<exists>o1. php_read_config config = Inr o1 \<and> 0 < po_max_body_size o1
          \<and> po_max_body_size o1 < int (length (zcstr input)) \<and> po_on_oversize o1 \<noteq> ''error'')"
    with oversize ws g' show thesis by blast
  qed
next
  case True
  then obtain o1 where o1: "php_accepted depth config input o1" by blast
  have "\<not> redis_overrun o1"
    using call_none_iff [OF assms(1), of input depth default_url config] assms(2) o1 by (auto simp: php_accepted_def)
  from accepted_result [OF o1 assms(1) this, of default_url] assms(2)
  have "v = PFalse \<and> ws \<noteq> [] \<and> set_up_only g g' \<and> php_inv env g'
       \<or> (\<exists>g2. ready env o1 g g2 \<and> parse_done env o1 (zcstr input) depth (zcstr default_url) g2 (v, ws, g'))" by auto
  with rejected parsed accepted_valid [OF o1] o1 show thesis unfolding php_accepted_def by blast
qed

subsection \<open>The whole life of the module\<close>

lemma parse_done_inv:
  assumes "parse_done env o1 input depth default_url g2 (v, ws, g')" and "php_inv env g2"
  shows "php_inv env g'"
proof -
  obtain pc where c: "php_carries o1 input depth default_url pc"
      and a: "case lib_answer (env_lib env) pc of
          None \<Rightarrow> (\<exists>ws'. ws' \<noteq> [] \<and> (v, ws, g') = (PFalse, ws', php_call pc g2))
        | Some s \<Rightarrow> (\<exists>ws'. (v, ws, g') = (PStr s, ws', php_call CallFreeString (php_call pc g2)))"
    using assms(1) unfolding parse_done_def by blast
  then have "g' = php_call pc g2 \<or> g' = php_call CallFreeString (php_call pc g2)"
    by (auto split: option.splits)
  moreover have "is_parse_call pc" using c by (rule carries_parse)
  ultimately show ?thesis using assms(2) inv_plain_call [of env g2 pc] inv_plain_call [of env "php_call pc g2" CallFreeString]
    by auto
qed

lemma parse_inv:
  assumes "php_inv env g" and "php_parse env' input depth default_url g = (v, ws, g')"
  shows "php_inv env g'"
proof -
  let ?pc = "CallParse (zcstr input) (s32 depth) (zcstr default_url)"
  have "g' = g \<or> g' = php_call ?pc g \<or> g' = php_call CallFreeString (php_call ?pc g)"
    using assms(2) by (auto simp: php_parse_def Let_def split: option.splits)
  with assms(1) inv_plain_call [of env g ?pc] inv_plain_call [of env "php_call ?pc g" CallFreeString]
  show ?thesis by auto
qed

lemma live_inv: "php_live env g \<Longrightarrow> php_inv env g"
proof (induction rule: php_live.induct)
  case started
  show ?case by (rule inv_minit)
next
  case (parsed g h input depth default_url v ws g')
  then show ?case using parse_inv by blast
next
  case (parsed_config g h input depth default_url config v ws g')
  then have inv: "php_inv (env\<lparr>env_heap := h\<rparr>) g" by simp
  have "php_inv (env\<lparr>env_heap := h\<rparr>) g'"
    by (rule call_shape [OF inv parsed_config(2)]; use inv in \<open>auto simp: ready_def dest: parse_done_inv\<close>)
  then show ?case by simp
qed

text \<open>Every cache that was set up was asked for.\<close>

lemma set_up_asked: "set_up_only g g' \<Longrightarrow> list_all asked_for (php_calls g) \<Longrightarrow> list_all asked_for (php_calls g')"
  by (auto simp: set_up_only_def list_all_iff)

lemma parse_done_asked:
  assumes "parse_done env o1 input depth default_url g2 (v, ws, g')" and "list_all asked_for (php_calls g2)"
  shows "list_all asked_for (php_calls g')"
proof -
  obtain pc where "php_carries o1 input depth default_url pc"
      and a: "case lib_answer (env_lib env) pc of
          None \<Rightarrow> (\<exists>ws'. ws' \<noteq> [] \<and> (v, ws, g') = (PFalse, ws', php_call pc g2))
        | Some s \<Rightarrow> (\<exists>ws'. (v, ws, g') = (PStr s, ws', php_call CallFreeString (php_call pc g2)))"
    using assms(1) unfolding parse_done_def by blast
  then have "is_parse_call pc" "g' = php_call pc g2 \<or> g' = php_call CallFreeString (php_call pc g2)"
    by (auto dest: carries_parse split: option.splits)
  with assms(2) show ?thesis by auto
qed

lemma live_asked: "php_live env g \<Longrightarrow> list_all asked_for (php_calls g)"
proof (induction rule: php_live.induct)
  case started
  show ?case by (simp add: php_minit_def php_initial_def)
next
  case (parsed g h input depth default_url v ws g')
  then show ?case by (auto simp: php_parse_def Let_def split: option.splits)
next
  case (parsed_config g h input depth default_url config v ws g')
  have inv: "php_inv (env\<lparr>env_heap := h\<rparr>) g" using live_inv [OF parsed_config(1)] by simp
  show ?case
    by (rule call_shape [OF inv parsed_config(2)];
        use parsed_config(3) in \<open>auto simp: ready_def intro: set_up_asked parse_done_asked\<close>)
qed

subsection \<open>Properties\<close>

text \<open>A refused call is never silent: whenever \<open>parse\<close> or \<open>parse_with_config\<close> returns false, it has
  raised a warning, at any point of a module's life.\<close>

theorem php_false_never_silent:
  assumes "php_live env g"
    and "php_parse env input depth default_url g = (PFalse, ws, g')
      \<or> php_parse_with_config (env\<lparr>env_heap := h\<rparr>) input depth default_url config g = Some (PFalse, ws, g')"
  shows "ws \<noteq> []"
  using assms(2)
proof
  assume "php_parse env input depth default_url g = (PFalse, ws, g')"
  then show ?thesis by (auto simp: php_parse_def Let_def split: option.splits)
next
  have "php_inv (env\<lparr>env_heap := h\<rparr>) g" using live_inv [OF assms(1)] by simp
  moreover assume "php_parse_with_config (env\<lparr>env_heap := h\<rparr>) input depth default_url config g
      = Some (PFalse, ws, g')"
  ultimately show ?thesis
    by (cases rule: call_shape) (auto simp: parse_done_def split: option.splits)
qed

definition php_sample_lib :: golib where
  "php_sample_lib =
    \<lparr> init_cache_rc = (\<lambda>_ _ _. 0), init_cache_with_config_rc = (\<lambda>_ _ _ _. 0),
      parse = (\<lambda>i d u. if d < 0 then None else Some i), parse_with_config = (\<lambda>i _ _ _ _. Some i),
      parse_with_config_ex = (\<lambda>i _ _ _ _ _. Some i), parse_with_config_ctx = (\<lambda>i _ _ _ _ _ _ _. Some i),
      parse_json = (\<lambda>i _. Some (i @ ''!'')) \<rparr>"

definition php_sample_env :: php_env where
  "php_sample_env =
    \<lparr> env_heap = (\<lambda>_. True), env_dladdr = True, env_dlopen = True, env_exports = (\<lambda>_. True),
      env_lib = php_sample_lib \<rparr>"

definition php_started :: php_state where
  "php_started = php_minit php_sample_env php_initial"

lemma started_live: "php_live php_sample_env php_started"
  unfolding php_started_def by (rule php_live.started)

lemma sample_env_heap: "php_sample_env\<lparr>env_heap := \<lambda>_. True\<rparr> = php_sample_env"
  by (simp add: php_sample_env_def)

text \<open>A refused call at the start of a module: the depth is out of range.\<close>

theorem php_false_never_silent_witness:
  "php_parse_with_config php_sample_env ''x'' (-1) ''/'' [] php_started
     = Some (PFalse, [MaxDepthRange ''parse_with_config'' (-1)], php_started)
   \<and> [MaxDepthRange ''parse_with_config'' (-1)] \<noteq> []"
proof -
  have r: "php_parse_with_config php_sample_env ''x'' (-1) ''/'' [] php_started
     = Some (PFalse, [MaxDepthRange ''parse_with_config'' (-1)], php_started)"
    by (simp add: php_parse_with_config_def mesi_reject_max_depth_def)
  show ?thesis
    using r php_false_never_silent [OF started_live, of "''x''" "-1" "''/''"
        "[MaxDepthRange ''parse_with_config'' (-1)]" php_started "\<lambda>_. True" "[]"]
    by (simp add: sample_env_heap)
qed

text \<open>The calls a step adds.\<close>

definition new_calls :: "php_state \<Rightarrow> php_state \<Rightarrow> lib_call list" where
  "new_calls g g' = drop (length (php_calls g)) (php_calls g')"

lemma set_up_new: "set_up_only g g' \<Longrightarrow> php_calls g' = php_calls g @ new_calls g g' \<and> filter is_parse_call (new_calls g g') = []"
  by (auto simp: set_up_only_def new_calls_def list_all_iff filter_empty_conv)

lemma lib_heap: "env_lib (env\<lparr>env_heap := h\<rparr>) = env_lib env"
  by simp

text \<open>\<open>parse_with_config\<close> hands a page to the library at most once, and only with an accepted
  configuration and a depth in range; that call carries the page, the depth, the base URL, the host
  list, the address policy and the cache key, and, with a library that has \<open>ParseJson\<close>, it is the call with
  the blob of all options whenever an option is set that only the blob can carry.  The string it returns is the answer of
  that call, or the very input when the body is over the limit.\<close>

theorem php_parse_contract:
  assumes "php_live env g"
    and "php_parse_with_config (env\<lparr>env_heap := h\<rparr>) input depth default_url config g = Some (v, ws, g')"
  shows "php_calls g' = php_calls g @ new_calls g g'
    \<and> (case filter is_parse_call (new_calls g g') of
         [] \<Rightarrow> v = PFalse \<or> v = PStr input
             \<and> (\<exists>o1. php_read_config config = Inr o1 \<and> 0 < po_max_body_size o1
                     \<and> po_max_body_size o1 < int (length (zcstr input)))
       | [pc] \<Rightarrow> (\<exists>o1. php_read_config config = Inr o1 \<and> 0 \<le> depth \<and> depth \<le> PHP_MAX_MAX_DEPTH
             \<and> php_carries o1 (zcstr input) depth (zcstr default_url) pc
             \<and> (php_configured o1 \<and> env_dladdr env \<and> env_dlopen env \<and> env_exports env ParseJson \<longrightarrow> php_through_blob pc))
             \<and> v = (case lib_answer (env_lib env) pc of None \<Rightarrow> PFalse | Some s \<Rightarrow> PStr s)
       | _ \<Rightarrow> False)"
proof -
  have inv: "php_inv (env\<lparr>env_heap := h\<rparr>) g" using live_inv [OF assms(1)] by simp
  show ?thesis
  proof (rule call_shape [OF inv assms(2)])
    assume "v = PFalse" "set_up_only g g'"
    with set_up_new show ?thesis by auto
  next
    fix o1 assume "php_read_config config = Inr o1" "0 < po_max_body_size o1"
      "po_max_body_size o1 < int (length (zcstr input))" "v = PStr input" "g' = g"
    then show ?thesis by (auto simp: new_calls_def)
  next
    fix o1 g2
    assume o1: "php_read_config config = Inr o1" "0 \<le> depth" "depth \<le> PHP_MAX_MAX_DEPTH"
      and r: "ready (env\<lparr>env_heap := h\<rparr>) o1 g g2"
      and fin: "parse_done (env\<lparr>env_heap := h\<rparr>) o1 (zcstr input) depth (zcstr default_url) g2 (v, ws, g')"
    obtain pre where g2: "php_calls g2 = php_calls g @ pre" "filter is_parse_call pre = []"
      using r set_up_new unfolding ready_def by blast
    obtain pc where pc: "php_carries o1 (zcstr input) depth (zcstr default_url) pc" and lost: "nothing_lost o1 g2 pc"
      and a: "case lib_answer (env_lib env) pc of
          None \<Rightarrow> (\<exists>ws'. ws' \<noteq> [] \<and> (v, ws, g') = (PFalse, ws', php_call pc g2))
        | Some s \<Rightarrow> (\<exists>ws'. (v, ws, g') = (PStr s, ws', php_call CallFreeString (php_call pc g2)))"
      using fin unfolding parse_done_def lib_heap by blast
    have v: "v = (case lib_answer (env_lib env) pc of None \<Rightarrow> PFalse | Some s \<Rightarrow> PStr s)"
      and g': "php_calls g' = php_calls g2 @ [pc] \<or> php_calls g' = php_calls g2 @ [pc, CallFreeString]"
      using a by (auto split: option.splits)
    have calls': "php_calls g' = php_calls g @ new_calls g g'"
      and one: "filter is_parse_call (new_calls g g') = [pc]"
      using g' g2 carries_parse [OF pc] by (auto simp: new_calls_def)
    have blob: "php_configured o1 \<and> env_dladdr env \<and> env_dlopen env \<and> env_exports env ParseJson \<longrightarrow> php_through_blob pc"
      using lost r by (simp add: nothing_lost_def ready_def php_inv_def)
    show ?thesis
      unfolding one list.case using calls' o1 pc v blob by blast
  qed
qed

text \<open>C22: \<open>parse_with_config\<close> always returns, and touches no memory outside its buffers, in any state
  and whatever allocations fail, with one exception: an accepted Redis address of 4065 to 4080 bytes.\<close>

theorem php_returns_unless_overrun:
  assumes "php_live env g"
  shows "php_parse_with_config (env\<lparr>env_heap := h\<rparr>) input depth default_url config g = None \<longleftrightarrow>
    0 \<le> depth \<and> depth \<le> PHP_MAX_MAX_DEPTH
    \<and> (\<exists>o1. php_read_config config = Inr o1 \<and> php_body_limit o1 input = None \<and> redis_overrun o1)"
proof (rule call_none_iff)
  show "php_inv (env\<lparr>env_heap := h\<rparr>) g" using live_inv [OF assms] by simp
qed

lemma sample_no_overrun: "\<not> redis_overrun php_sample_opts"
  by (simp add: redis_overrun_def php_sample_opts_def str_of_def)

theorem php_returns_unless_overrun_witness:
  "php_parse_with_config php_sample_env ''page'' 3 ''/'' php_sample_config php_started \<noteq> None"
  using php_returns_unless_overrun [OF started_live, of "\<lambda>_. True" "''page''" 3 "''/''" php_sample_config]
    sample_no_overrun by (simp add: sample_env_heap sample_config_read)

lemma sample_call_result:
  "\<exists>v ws g'. php_parse_with_config php_sample_env ''page'' 3 ''/'' php_sample_config php_started = Some (v, ws, g')"
  using call_none_iff [OF live_inv [OF started_live], of "''page''" 3 "''/''" php_sample_config] sample_no_overrun
  by (auto simp: sample_config_read)

theorem php_parse_contract_witness:
  "\<exists>v ws g'. php_parse_with_config php_sample_env ''page'' 3 ''/'' php_sample_config php_started = Some (v, ws, g')
    \<and> length (filter is_parse_call (new_calls php_started g')) \<le> 1"
proof -
  obtain v ws g' where r: "php_parse_with_config php_sample_env ''page'' 3 ''/'' php_sample_config php_started
      = Some (v, ws, g')" using sample_call_result by blast
  have "length (filter is_parse_call (new_calls php_started g')) \<le> 1"
    using php_parse_contract [OF started_live, of "\<lambda>_. True" "''page''" 3 "''/''" php_sample_config v ws g'] r
    by (auto simp: sample_env_heap split: list.splits)
  with r show ?thesis by blast
qed

text \<open>The state of the library at the moment of the parse call.\<close>

lemma parse_call_unique:
  assumes "pre @ pc # post = pre' @ pc' # rest" and "is_parse_call pc"
    and "filter is_parse_call pre' = []" and "filter is_parse_call rest = []"
  shows "pre = pre'"
  using assms by (auto simp: append_eq_append_conv2 append_eq_Cons_conv Cons_eq_append_conv filter_empty_conv)

lemma parse_moment:
  assumes "php_inv env g" and "php_parse_with_config env input depth default_url config g = Some (v, ws, g')"
    and "php_calls g' = php_calls g @ pre @ pc # post" and "is_parse_call pc"
  obtains o1 g2 where "php_read_config config = Inr o1" "ready env o1 g g2" "php_calls g2 = php_calls g @ pre"
    "php_opts_valid o1" "0 \<le> depth" "depth \<le> PHP_MAX_MAX_DEPTH"
    "php_carries o1 (zcstr input) depth (zcstr default_url) pc" "nothing_lost o1 g2 pc"
proof (rule call_shape [OF assms(1,2)])
  assume "set_up_only g g'"
  with assms(3,4) have False by (auto simp: set_up_only_def list_all_iff)
  then show thesis ..
next
  assume "g' = g"
  with assms(3) have False by simp
  then show thesis ..
next
  fix o1 g2
  assume o1: "php_read_config config = Inr o1" and r: "ready env o1 g g2"
    and ok: "php_opts_valid o1" "0 \<le> depth" "depth \<le> PHP_MAX_MAX_DEPTH"
    and fin: "parse_done env o1 (zcstr input) depth (zcstr default_url) g2 (v, ws, g')"
  obtain pre' where g2: "php_calls g2 = php_calls g @ pre'" "filter is_parse_call pre' = []"
    using r set_up_new unfolding ready_def by blast
  obtain pc' where c: "php_carries o1 (zcstr input) depth (zcstr default_url) pc'" "nothing_lost o1 g2 pc'"
    and a: "case lib_answer (env_lib env) pc' of
        None \<Rightarrow> (\<exists>ws'. ws' \<noteq> [] \<and> (v, ws, g') = (PFalse, ws', php_call pc' g2))
      | Some s \<Rightarrow> (\<exists>ws'. (v, ws, g') = (PStr s, ws', php_call CallFreeString (php_call pc' g2)))"
    using fin unfolding parse_done_def by blast
  then obtain rest where "php_calls g' = php_calls g @ pre' @ pc' # rest" "filter is_parse_call rest = []"
    using g2 by (auto split: option.splits)
  with assms(3,4) g2(2) parse_call_unique [of pre pc post pre' pc' rest] have "pre = pre'" by simp
  moreover from this have "pc = pc'" using assms(3) \<open>php_calls g' = php_calls g @ pre' @ pc' # rest\<close> by simp
  ultimately show thesis using that [OF o1 r] g2(1) ok c by simp
qed

text \<open>C20: every page is parsed under the HTTP client its own configuration asks for.  At the moment of
  the parse call the library holds the shared client exactly when \<open>shared_http_client\<close> is on, and then
  with the transport for the requested \<open>block_private_ips\<close>, whatever the earlier calls asked for.\<close>

theorem php_client_follows_request:
  assumes "php_live env g"
    and "php_parse_with_config (env\<lparr>env_heap := h\<rparr>) input depth default_url config g = Some (v, ws, g')"
    and "php_calls g' = php_calls g @ pre @ pc # post" and "is_parse_call pc"
  shows "\<exists>o1. php_read_config config = Inr o1 \<and> client_after (php_calls g @ pre) =
    (if po_shared_http_client o1 then Some (if po_block_private_ips o1 then 1 else 0) else None)"
proof -
  have "php_inv (env\<lparr>env_heap := h\<rparr>) g" using live_inv [OF assms(1)] by simp
  from parse_moment [OF this assms(2-4)]
  obtain o1 g2 where o1: "php_read_config config = Inr o1" "ready (env\<lparr>env_heap := h\<rparr>) o1 g g2"
    "php_calls g2 = php_calls g @ pre" .
  from o1(2) have "client_after (php_calls g2) =
      (if po_shared_http_client o1 then Some (if po_block_private_ips o1 then 1 else 0) else None)"
    unfolding ready_def by blast
  with o1(1) show ?thesis unfolding o1(3) by blast
qed

text \<open>C21: as long as the library has not refused a cache set-up, every page is parsed with the cache of
  its own configuration: the backend, its size (10000 when none is given), its time to live and its
  servers.\<close>

theorem php_cache_follows_request:
  assumes "php_live env g"
    and "php_parse_with_config (env\<lparr>env_heap := h\<rparr>) input depth default_url config g = Some (v, ws, g')"
    and "php_calls g' = php_calls g @ pre @ pc # post" and "is_parse_call pc"
    and "\<not> init_failed (env_lib env) (php_calls g @ pre)"
  shows "\<exists>o1. php_read_config config = Inr o1
    \<and> cache_after (env_lib env) (php_calls g @ pre) = Some (wanted_cache o1)"
proof -
  have "php_inv (env\<lparr>env_heap := h\<rparr>) g" using live_inv [OF assms(1)] by simp
  from parse_moment [OF this assms(2-4)]
  obtain o1 g2 where o1: "php_read_config config = Inr o1" "ready (env\<lparr>env_heap := h\<rparr>) o1 g g2"
    "php_calls g2 = php_calls g @ pre" .
  have ok: "php_opts_valid o1" using read_config_cases [of config] o1(1) by simp
  have w: "(g_backend g2, g_size g2, g_ttl g2, g_cfg_json g2) = wanted_cache o1"
    and c: "cache_in_step (env_lib env) g2"
    using o1(2) by (simp_all add: ready_def php_inv_def)
  have "g_size g2 \<noteq> -1" using w valid_numbers(3) [OF ok] by (simp add: wanted_cache_def)
  with c w assms(5) o1(3) have "cache_after (env_lib env) (php_calls g @ pre) = Some (wanted_cache o1)"
    by (simp add: cache_in_step_def)
  with o1(1) show ?thesis by blast
qed

text \<open>The first call of a module, with the default options.\<close>

definition sample_pre :: "lib_call list" where
  "sample_pre = [CallInitCacheWithConfig [] 10000 0 ''{}'', CallInitHTTPClient 1]"

definition sample_parse :: lib_call where
  "sample_parse = CallParseWithConfigCtx ''page'' 3 ''/'' [] 1 0 [] []"

lemma default_read: "php_read_config [] = Inr php_default_opts"
  by code_simp

lemma sample_default_call:
  "\<exists>g'. php_parse_with_config php_sample_env ''page'' 3 ''/'' [] php_started = Some (PStr ''page'', [], g')
    \<and> php_calls g' = php_calls php_started @ sample_pre @ sample_parse # [CallFreeString]"
proof -
  have "map_option (\<lambda>(v, ws, g'). (v, ws, php_calls g'))
      (php_parse_with_config php_sample_env ''page'' 3 ''/'' [] php_started)
    = Some (PStr ''page'', [], php_calls php_started @ sample_pre @ sample_parse # [CallFreeString])"
    by code_simp
  then show ?thesis by auto
qed

theorem php_client_follows_request_witness:
  "client_after (php_calls php_started @ sample_pre) = Some 1"
proof -
  obtain g' where "php_parse_with_config php_sample_env ''page'' 3 ''/'' [] php_started = Some (PStr ''page'', [], g')"
    and "php_calls g' = php_calls php_started @ sample_pre @ sample_parse # [CallFreeString]"
    using sample_default_call by blast
  then show ?thesis
    using php_client_follows_request [OF started_live, of "\<lambda>_. True" "''page''" 3 "''/''" "[]" "PStr ''page''" "[]" g'
        sample_pre sample_parse "[CallFreeString]"]
    by (simp add: sample_env_heap sample_parse_def default_read) (simp add: php_default_opts_def)
qed

theorem php_cache_follows_request_witness:
  "cache_after php_sample_lib (php_calls php_started @ sample_pre) = Some ([], 10000, 0, ''{}'')"
proof -
  obtain g' where "php_parse_with_config php_sample_env ''page'' 3 ''/'' [] php_started = Some (PStr ''page'', [], g')"
    and "php_calls g' = php_calls php_started @ sample_pre @ sample_parse # [CallFreeString]"
    using sample_default_call by blast
  moreover have "\<not> init_failed php_sample_lib cs" for cs by (simp add: init_failed_def php_sample_lib_def)
  moreover have "env_lib php_sample_env = php_sample_lib" by (simp add: php_sample_env_def)
  moreover have "wanted_cache php_default_opts = ([], 10000, 0, ''{}'')"
    by (simp add: wanted_cache_def php_cache_value_def php_default_opts_def)
  ultimately show ?thesis
    using php_cache_follows_request [OF started_live, of "\<lambda>_. True" "''page''" 3 "''/''" "[]" "PStr ''page''" "[]" g'
        sample_pre sample_parse "[CallFreeString]"]
    by (simp add: sample_env_heap sample_parse_def default_read)
qed

subsection \<open>The cache survives from call to call\<close>

definition is_init_call :: "lib_call \<Rightarrow> bool" where
  "is_init_call c \<longleftrightarrow> (\<exists>b n t cfg. c = CallInitCacheWithConfig b n t cfg)"

lemma is_init_simps [simp]:
  "\<not> is_init_call (CallInitHTTPClient b)" "\<not> is_init_call CallFreeHTTPClient" "\<not> is_init_call CallFreeString"
  "\<not> is_init_call (CallParseJson i blob)" "\<not> is_init_call (CallParseWithConfigCtx i d u hs bp ap t cj)"
  by (simp_all add: is_init_call_def)

definition inits :: "php_state \<Rightarrow> lib_call list" where
  "inits g = filter is_init_call (php_calls g)"

lemma client_keeps_inits: "inits (php_setup_client o1 g) = inits g"
  by (simp add: inits_def php_setup_client_def)

lemma dispatch_keeps_inits:
  "php_dispatch env input depth default_url o1 t cj g = Some (v, ws, g') \<Longrightarrow> inits g' = inits g"
  by (auto simp: inits_def php_dispatch_def php_positional_def finish_shape Let_def
      split: if_splits wr.splits option.splits)

lemma setup_cache_same:
  assumes "php_opts_valid o1" and "(g_backend g, g_size g, g_ttl g, g_cfg_json g) = wanted_cache o1"
    and "php_setup_cache env o1 g = Some (w, g1)"
  shows "g1 = g"
proof -
  have "mesi_cache_state_matches (po_cache_backend o1) (if po_cache_size o1 = 0 then 10000 else po_cache_size o1)
      (po_cache_ttl o1) (render quote_full (php_cache_value o1)) g"
    unfolding matches_iff using assms(2) by (simp only: wanted_cache_def)
  then show ?thesis
    using assms(3) unfolding php_setup_cache_def php_cache_exact [OF assms(1)] Let_def
    by (simp del: render.simps split: if_splits)
qed

lemma call_keeps_inits:
  assumes "php_read_config config = Inr o1"
    and "(g_backend g, g_size g, g_ttl g, g_cfg_json g) = wanted_cache o1"
    and "php_parse_with_config env input depth default_url config g = Some (v, ws, g')"
  shows "inits g' = inits g"
proof -
  have ok: "php_opts_valid o1" using read_config_cases [of config] assms(1) by simp
  have disp: "inits g' = inits g"
    if "php_dispatch env (zcstr input) depth (zcstr default_url) o1 t cj (php_setup_client o1 g) = Some (v, ws, g')"
    for t cj using dispatch_keeps_inits [OF that] client_keeps_inits by simp
  show ?thesis
    using assms(1,3) setup_cache_same [OF ok assms(2)] disp client_keeps_inits
    unfolding php_parse_with_config_def
    by (simp add: Let_def split: option.splits sum.splits prod.splits) blast+
qed

lemma parsed_records:
  assumes "php_inv env g" and "php_parse_with_config env input depth default_url config g = Some (v, ws, g')"
    and "filter is_parse_call (new_calls g g') \<noteq> []" and "php_read_config config = Inr o1"
  shows "(g_backend g', g_size g', g_ttl g', g_cfg_json g') = wanted_cache o1"
proof (rule call_shape [OF assms(1,2)])
  assume "set_up_only g g'"
  with set_up_new assms(3) show ?thesis by blast
next
  assume "g' = g"
  with assms(3) show ?thesis by (simp add: new_calls_def)
next
  fix o2 g2
  assume "php_read_config config = Inr o2" and r: "ready env o2 g g2"
    and fin: "parse_done env o2 (zcstr input) depth (zcstr default_url) g2 (v, ws, g')"
  then have o2: "o2 = o1" using assms(4) by simp
  obtain pc where "g' = php_call pc g2 \<or> g' = php_call CallFreeString (php_call pc g2)"
    using fin unfolding parse_done_def by (fastforce split: option.splits)
  with r o2 show ?thesis by (auto simp: ready_def)
qed

text \<open>Entries of the cache are not lost between calls: when a page has been parsed and the next call
  asks for the same cache, the library is not told to set the cache up again.\<close>

theorem php_cache_kept:
  assumes "php_live env g"
    and "php_parse_with_config (env\<lparr>env_heap := h1\<rparr>) input1 depth1 url1 config1 g = Some (v1, ws1, g1)"
    and "filter is_parse_call (new_calls g g1) \<noteq> []"
    and "php_parse_with_config (env\<lparr>env_heap := h2\<rparr>) input2 depth2 url2 config2 g1 = Some (v2, ws2, g2)"
    and "php_read_config config1 = Inr o1" and "php_read_config config2 = Inr o2"
    and "wanted_cache o2 = wanted_cache o1"
  shows "inits g2 = inits g1"
proof -
  have "php_inv (env\<lparr>env_heap := h1\<rparr>) g" using live_inv [OF assms(1)] by simp
  from parsed_records [OF this assms(2,3,5)] assms(7)
  have "(g_backend g1, g_size g1, g_ttl g1, g_cfg_json g1) = wanted_cache o2" by simp
  from call_keeps_inits [OF assms(6) this assms(4)] show ?thesis .
qed

lemma sample_second_call:
  "\<exists>g1 v ws g2. php_parse_with_config php_sample_env ''page'' 3 ''/'' [] php_started = Some (PStr ''page'', [], g1)
    \<and> filter is_parse_call (new_calls php_started g1) \<noteq> []
    \<and> php_parse_with_config php_sample_env ''next'' 3 ''/'' [(KStr ''timeout'', ZLong 5)] g1 = Some (v, ws, g2)"
proof -
  obtain g1 where g1: "php_parse_with_config php_sample_env ''page'' 3 ''/'' [] php_started = Some (PStr ''page'', [], g1)"
    "php_calls g1 = php_calls php_started @ sample_pre @ sample_parse # [CallFreeString]"
    using sample_default_call by blast
  have ne: "filter is_parse_call (new_calls php_started g1) \<noteq> []"
    by (simp add: new_calls_def g1(2) sample_pre_def sample_parse_def)
  have live: "php_live php_sample_env g1"
    using php_live.parsed_config [OF started_live, of "\<lambda>_. True"] g1(1) unfolding sample_env_heap .
  have r: "php_read_config [(KStr ''timeout'', ZLong 5)] = Inr (php_default_opts\<lparr>po_timeout := 5, po_timeout_set := True\<rparr>)"
    by code_simp
  have "php_parse_with_config php_sample_env ''next'' 3 ''/'' [(KStr ''timeout'', ZLong 5)] g1 \<noteq> None"
    using call_none_iff [OF live_inv [OF live], of "''next''" 3 "''/''"]
    by (simp add: r redis_overrun_def) (simp add: php_default_opts_def)
  then obtain v ws g2 where
    "php_parse_with_config php_sample_env ''next'' 3 ''/'' [(KStr ''timeout'', ZLong 5)] g1 = Some (v, ws, g2)" by auto
  with g1(1) ne show ?thesis by blast
qed

theorem php_cache_kept_witness:
  "\<exists>g1 v ws g2. php_parse_with_config php_sample_env ''page'' 3 ''/'' [] php_started = Some (PStr ''page'', [], g1)
    \<and> php_parse_with_config php_sample_env ''next'' 3 ''/'' [(KStr ''timeout'', ZLong 5)] g1 = Some (v, ws, g2)
    \<and> inits g2 = inits g1"
proof -
  obtain g1 v ws g2 where g: "php_parse_with_config php_sample_env ''page'' 3 ''/'' [] php_started = Some (PStr ''page'', [], g1)"
    "filter is_parse_call (new_calls php_started g1) \<noteq> []"
    "php_parse_with_config php_sample_env ''next'' 3 ''/'' [(KStr ''timeout'', ZLong 5)] g1 = Some (v, ws, g2)"
    using sample_second_call by blast
  have r: "php_read_config [(KStr ''timeout'', ZLong 5)] = Inr (php_default_opts\<lparr>po_timeout := 5, po_timeout_set := True\<rparr>)"
    by code_simp
  have c1: "php_parse_with_config (php_sample_env\<lparr>env_heap := \<lambda>_. True\<rparr>) ''page'' 3 ''/'' [] php_started
      = Some (PStr ''page'', [], g1)"
    and c2: "php_parse_with_config (php_sample_env\<lparr>env_heap := \<lambda>_. True\<rparr>) ''next'' 3 ''/''
      [(KStr ''timeout'', ZLong 5)] g1 = Some (v, ws, g2)"
    unfolding sample_env_heap using g(1,3) .
  have "wanted_cache (php_default_opts\<lparr>po_timeout := 5, po_timeout_set := True\<rparr>) = wanted_cache php_default_opts"
    by (simp add: wanted_cache_def php_cache_value_def php_default_opts_def)
  from php_cache_kept [OF started_live c1 g(2) c2 default_read r this] have "inits g2 = inits g1" .
  with g show ?thesis by blast
qed

text \<open>A body over a positive \<open>max_body_size\<close> never reaches the library: the input comes back
  byte for byte (with \<open>on_oversize\<close> at \<open>pass\<close>) or false does (with \<open>error\<close>), one warning is raised, and
  no state changes; a body within the limit is not held back by it.\<close>

theorem php_oversize_untouched:
  assumes "php_read_config config = Inr o1" and "0 \<le> depth" and "depth \<le> PHP_MAX_MAX_DEPTH"
    and "0 < po_max_body_size o1"
  shows "if po_max_body_size o1 < int (length (zcstr input))
    then php_parse_with_config env input depth default_url config g =
      Some (if po_on_oversize o1 = ''pass'' then PStr input else PFalse,
            [BodyOverLimit (length (zcstr input)) (po_max_body_size o1)], g)
    else php_body_limit o1 input = None"
proof -
  have "po_on_oversize o1 \<in> {''pass'', ''error''}"
    using read_config_cases [of config] assms(1) by (simp add: php_opts_valid_def php_opts_part_def)
  then show ?thesis
    using assms by (auto simp: php_parse_with_config_def mesi_reject_max_depth_def php_body_limit_def Let_def)
qed

theorem php_oversize_untouched_witness:
  "php_parse_with_config php_sample_env ''12345678'' 3 ''/'' [(KStr ''max_body_size'', ZLong 7)] php_started
    = Some (PStr ''12345678'', [BodyOverLimit 8 7], php_started)"
proof -
  have r: "php_read_config [(KStr ''max_body_size'', ZLong 7)] = Inr (php_default_opts\<lparr>po_max_body_size := 7\<rparr>)"
    by code_simp
  have z: "zcstr ''12345678'' = ''12345678''" by code_simp
  show ?thesis
    using php_oversize_untouched [OF r, of 3 "''12345678''" php_sample_env "''/''" php_started]
    by (simp add: php_limits z) (simp add: php_default_opts_def)
qed

subsection \<open>Where the static variables and the library part\<close>

text \<open>
  After the end of a module and a second start in the same process image the variables say that
  no shared client is attached, although the start has attached one without address checks.  A call
  that asks for per-request clients then leaves it attached.
\<close>

lemma restart_client:
  assumes "php_inv env g"
  shows "client_after (php_calls (php_minit env (php_mshutdown g))) = Some 0"
    and "\<not> g_http_shared_client (php_minit env (php_mshutdown g))"
  by (simp_all add: php_minit_def php_mshutdown_def Let_def client_after_snoc)

lemma restart_keeps_client:
  assumes "php_inv env g" and "\<not> po_shared_http_client o1"
  shows "client_after (php_calls (php_setup_client o1 (php_minit env (php_mshutdown g)))) = Some 0"
  using assms restart_client [OF assms(1)] by (simp add: php_setup_client_def)

text \<open>
  A cache set-up that the library refuses detaches the old cache, but the variables still describe
  it: the next call that asks for it makes no set-up and is parsed without a cache.
\<close>

lemma failed_init_loses_cache:
  assumes "php_opts_valid o1" and "php_opts_valid o2"
    and "(g_backend g, g_size g, g_ttl g, g_cfg_json g) = wanted_cache o1"
    and "php_setup_cache env o2 g = Some (Some (CacheInitFailed b n t cfg), g1)"
    and "php_setup_cache env o1 g1 = Some (w, g2)"
  shows "g2 = g1 \<and> cache_after (env_lib env) (php_calls g2) = None"
proof -
  have "g1 = php_call (CallInitCacheWithConfig b (s32 n) (s32 t) cfg) g
      \<and> init_cache_with_config_rc (env_lib env) b (s32 n) (s32 t) cfg \<noteq> 0"
    using assms(4) by (auto simp: php_setup_cache_def Let_def split: wr.splits if_splits)
  moreover from this have "g2 = g1"
    using setup_cache_same [OF assms(1) _ assms(5)] assms(3) by simp
  ultimately show ?thesis by (simp add: cache_after_snoc)
qed

end
