(* ===== verification/Go_Php.thy ===== *)
theory Go_Php
  imports Go_Cache Php_Parse_Lemmas
begin

text \<open>
  The PHP extension composed with the library.  The state of the library is what the calls made so
  far leave in it, so the theorem speaks of the page, the configuration, the client and the cache
  with which the core runs for one call of \<open>parse_with_config\<close>, whatever was asked for before.
\<close>

subsection \<open>The settings of a call\<close>

definition php_settings :: "int \<Rightarrow> string \<Rightarrow> php_opts \<Rightarrow> wire_settings" where
  "php_settings depth default_url o1 =
    \<lparr> ws_depth = depth, ws_url = default_url, ws_hosts = po_allowed_hosts o1,
      ws_block = po_block_private_ips o1, ws_allow = po_allow_private o1,
      ws_timeout = (if po_timeout_set o1 then Some (po_timeout o1) else None),
      ws_max_response_size = (if po_max_response_size_set o1 then Some (po_max_response_size o1) else None),
      ws_max_concurrent = (if po_max_concurrent_set o1 then Some (po_max_concurrent o1) else None),
      ws_max_workers = (if po_max_workers_set o1 then Some (po_max_workers o1) else None),
      ws_debug = (if po_debug_set o1 then Some (po_debug o1) else None), ws_parse_on_header = None,
      ws_marker = (if po_marker_set o1 then Some (po_marker o1) else None),
      ws_template = php_tmpl o1, ws_ctx = php_ctx o1 \<rparr>"

lemma set_member:
  "int_member k (if b then Some i else None) = opt_member b k (JInt i)"
  "bool_member k (if b then Some x else None) = opt_member b k (JBool x)"
  "str_member k (if b then Some s else None) = opt_member b k (JStr s)"
  by (simp_all add: int_member_def bool_member_def str_member_def opt_member_def)

lemma php_wire:
  "wire_members (php_settings depth default_url o1) = php_blob_members depth default_url o1 (php_tmpl o1) (php_ctx o1)"
  unfolding wire_members_def php_settings_def wire_settings.simps template_members set_member php_blob_members_def
  by (simp add: bool_member_def)

lemma php_carries_delivers:
  assumes "php_carries o1 page depth default_url pc"
  shows "delivers (php_settings depth default_url o1) page pc"
  using assms
  by (cases pc) (simp_all add: wire_blob_def php_wire del: render.simps, simp_all add: php_settings_def)

lemma php_numbers:
  assumes "php_opts_valid o1" and "0 \<le> depth" and "depth \<le> PHP_MAX_MAX_DEPTH"
  shows "wire_numbers_ok (php_settings depth default_url o1)"
proof -
  have "1 \<le> po_timeout o1" "po_timeout o1 \<le> 86400"
    "0 \<le> po_max_response_size o1" "po_max_response_size o1 \<le> 9223372036854775806"
    "0 \<le> po_max_concurrent o1" "po_max_concurrent o1 \<le> 999999999"
    "0 \<le> po_max_workers o1" "po_max_workers o1 \<le> 999999999"
    using assms(1) unfolding php_opts_valid_def php_opts_part_def by blast+
  with assms(2,3) show ?thesis
    by (simp add: wire_numbers_ok_def php_settings_def go_limits php_limits in_range_def)
qed

lemma shallow_header: "shallow 9997 (php_header_json v)"
  by (simp add: php_header_json_def case_prod_unfold split: zval.split)

lemma shallow_php_ctx: "shallow 9999 (php_ctx_value o1)"
  by (auto simp: php_ctx_value_def cookie_json_def shallow_header split: prod.splits)

text \<open>The texts that Go reads as PHP wrote them.\<close>

definition php_texts_ok :: "string \<Rightarrow> php_opts \<Rightarrow> bool" where
  "php_texts_ok default_url o1 \<longleftrightarrow> go_text default_url \<and> go_text (po_allowed_hosts o1)
     \<and> go_text (po_marker o1) \<and> go_text (str_of (po_key_template o1))
     \<and> utf8_valid (str_of (po_redis_addr o1)) \<and> utf8_valid (str_of (po_redis_password o1))
     \<and> (\<forall>(k, v) \<in> set (table_of (po_memcached_servers o1)). utf8_valid (zstr v))"

lemma php_texts: "php_texts_ok default_url o1 \<Longrightarrow> wire_texts_ok (php_settings depth default_url o1)"
  using shallow_php_ctx
  by (simp add: php_texts_ok_def wire_texts_ok_def php_settings_def php_tmpl_def php_ctx_def str_of_def)

text \<open>With \<open>ParseJson\<close> in the library nothing is lost.\<close>

lemma php_delivered:
  assumes "php_carries o1 page depth default_url pc" and "nothing_lost o1 g pc" and "g_parse_json g"
  shows "delivered pc (php_settings depth default_url o1) = php_settings depth default_url o1"
  using assms
  by (cases pc) (simp_all add: nothing_lost_def php_configured_def drop_optional_def php_settings_def)

subsection \<open>The cache\<close>

definition php_cache_size :: "php_opts \<Rightarrow> int" where
  "php_cache_size o1 = (if po_cache_size o1 = 0 then 10000 else po_cache_size o1)"

definition php_servers :: "php_opts \<Rightarrow> string list" where
  "php_servers o1 = map (\<lambda>(k, v). zstr v) (table_of (po_memcached_servers o1))"

text \<open>The cache that the options ask for.\<close>

definition php_go_cache :: "php_opts \<Rightarrow> go_cache option" where
  "php_go_cache o1 =
    (let ttl = po_cache_ttl o1 * 1000000000
     in if po_cache_backend o1 = ''memory'' then Some (MemoryCache (php_cache_size o1) ttl)
        else if po_cache_backend o1 = ''redis''
          then Some (RedisCache (str_of (po_redis_addr o1)) (str_of (po_redis_password o1))
                       (if po_redis_db_set o1 then po_redis_db o1 else 0) ttl)
        else if po_cache_backend o1 = ''memcached'' then Some (MemcachedCache (php_servers o1) ttl)
        else None)"

text \<open>Its texts as the decoder reads them.\<close>

fun cache_as_read :: "go_cache \<Rightarrow> go_cache" where
  "cache_as_read (MemoryCache n t) = MemoryCache n t"
| "cache_as_read (RedisCache a p d t) = RedisCache (go_utf8 a) (go_utf8 p) d t"
| "cache_as_read (MemcachedCache ss t) = MemcachedCache (map go_utf8 ss) t"

lemma php_cache_json:
  "po_cache_backend o1 = ''redis'' \<Longrightarrow> php_cache_value o1 =
     redis_json (str_of (po_redis_addr o1)) (str_of (po_redis_password o1))
       (if po_redis_db_set o1 then Some (po_redis_db o1) else None)"
  "po_cache_backend o1 = ''memcached'' \<Longrightarrow> php_cache_value o1 = servers_json (php_servers o1)"
  by (simp_all add: php_cache_value_def redis_json_def set_member servers_json_def php_servers_def case_prod_unfold comp_def)

lemma php_cache_read:
  assumes "php_opts_valid o1"
  shows "init_cache_from_config (po_cache_backend o1) (php_cache_size o1) (po_cache_ttl o1)
      (render quote_full (php_cache_value o1)) = Some (map_option cache_as_read (php_go_cache o1))"
proof -
  have n: "po_cache_size o1 = 0 \<or> 1 \<le> po_cache_size o1" "0 \<le> po_cache_ttl o1" "po_cache_ttl o1 \<le> 86400"
    "0 \<le> po_redis_db o1" "po_redis_db o1 \<le> 15"
    "opt_ok endpoint (po_redis_addr o1)" "po_cache_backend o1 \<in> backend_names"
    "\<forall>ht. po_memcached_servers o1 = Some ht \<longrightarrow> po_cache_backend o1 = ''memcached'' \<and> servers_value ht"
    using assms(1) unfolding php_opts_valid_def php_opts_part_def by blast+
  have ttl: "go_seconds (po_cache_ttl o1) = po_cache_ttl o1 * 1000000000" using n(2,3) by (rule go_seconds_small)
  consider "po_cache_backend o1 = ''memory''" | "po_cache_backend o1 = ''redis''"
    | "po_cache_backend o1 = ''memcached''" | "po_cache_backend o1 = []"
    using n(7) by (auto simp: backend_names_def)
  then show ?thesis
  proof cases
    case 1
    with n(1) ttl show ?thesis by (auto simp: init_cache_from_config_def php_go_cache_def php_cache_size_def)
  next
    case 2
    then obtain a where a: "po_redis_addr o1 = Some a" using assms(1) by (auto simp: php_opts_valid_def)
    then have "str_of (po_redis_addr o1) \<noteq> []" using n(6) by (auto simp: opt_ok_def endpoint_def str_of_def)
    with redis_decodes [of "str_of (po_redis_addr o1)" "if po_redis_db_set o1 then Some (po_redis_db o1) else None"
        "str_of (po_redis_password o1)"] n(4,5)
    have "parse_redis_config (render quote_full (php_cache_value o1)) = Some (go_utf8 (str_of (po_redis_addr o1)),
        go_utf8 (str_of (po_redis_password o1)), if po_redis_db_set o1 then po_redis_db o1 else 0)"
      unfolding php_cache_json(1) [OF 2] by (auto simp: in_range_def)
    with 2 ttl show ?thesis by (simp add: init_cache_from_config_def php_go_cache_def)
  next
    case 3
    then obtain ht where ht: "po_memcached_servers o1 = Some ht" using assms(1) by (auto simp: php_opts_valid_def)
    with n(8) have "php_servers o1 \<noteq> []" by (auto simp: servers_value_def php_servers_def table_of_def)
    then have "parse_memcached_config (render quote_full (php_cache_value o1)) = Some (map go_utf8 (php_servers o1))"
      unfolding php_cache_json(2) [OF 3] by (rule memcached_decodes)
    with 3 ttl show ?thesis by (simp add: init_cache_from_config_def php_go_cache_def)
  next
    case 4
    then show ?thesis by (simp add: init_cache_from_config_def php_go_cache_def)
  qed
qed

lemma wanted_never_refused:
  assumes "php_opts_valid o1" and "wanted_cache o1 = (b, n, t, cfg)"
  shows "\<not> init_refused b n t cfg"
  using php_cache_read [OF assms(1)] assms(2)
  by (auto simp: wanted_cache_def init_refused_def php_cache_size_def simp del: render.simps)

lemma cache_read_valid:
  "php_texts_ok default_url o1 \<Longrightarrow> map_option cache_as_read (php_go_cache o1) = php_go_cache o1"
  by (auto simp: php_texts_ok_def php_go_cache_def Let_def utf8_valid_def php_servers_def case_prod_unfold
      intro!: map_idI)

subsection \<open>What the calls leave in the library\<close>

text \<open>The return codes are those of the library.\<close>

definition go_cache_codes :: "golib \<Rightarrow> bool" where
  "go_cache_codes lib \<longleftrightarrow>
     (\<forall>b n t cfg. init_cache_with_config_rc lib b n t cfg = fst (go_init_cache_with_config b n t cfg go_initial))"

lemma codes_refused: "go_cache_codes lib \<Longrightarrow> init_cache_with_config_rc lib b n t cfg = 0 \<longleftrightarrow> \<not> init_refused b n t cfg"
  by (simp add: go_cache_codes_def init_with_config_rc)

lemma never_failed:
  assumes "list_all asked_for cs" and "go_cache_codes lib"
  shows "\<not> init_failed lib cs"
  using assms wanted_never_refused
  by (fastforce simp: init_failed_def codes_refused list_all_iff asked_for_def)

lemma client_of_run: "gs_client (go_run cs) = map_option (\<lambda>b. (b \<noteq> 0, 30000000000)) (client_after cs)"
proof (induction cs rule: rev_induct)
  case Nil
  then show ?case by (simp add: client_after_def go_initial_def)
next
  case (snoc c cs)
  then show ?case by (cases c) (simp_all add: client_after_snoc)
qed

text \<open>The cache of a key, without its instance, and the time to live that goes with it.\<close>

definition cache_of_key :: "cache_key \<Rightarrow> go_cache option" where
  "cache_of_key k = (case k of (b, n, t, cfg) \<Rightarrow> Option.bind (init_cache_from_config b n t cfg) id)"

lemma cache_of_run:
  assumes "go_cache_codes lib" and "filter is_plain_init cs = []"
  shows "map_option snd (gs_cache (go_run cs)) = Option.bind (cache_after lib cs) cache_of_key
    \<and> gs_cache_ttl (go_run cs) =
      (case cache_after lib cs of
         None \<Rightarrow> 0
       | Some k \<Rightarrow> if cache_of_key k = None then 0 else go_seconds (fst (snd (snd k))))"
  using assms(2)
proof (induction cs rule: rev_induct)
  case Nil
  then show ?case by (simp add: cache_after_def go_initial_def)
next
  case (snoc c cs)
  then have ih: "map_option snd (gs_cache (go_run cs)) = Option.bind (cache_after lib cs) cache_of_key
      \<and> gs_cache_ttl (go_run cs) = (case cache_after lib cs of None \<Rightarrow> 0
         | Some k \<Rightarrow> if cache_of_key k = None then 0 else go_seconds (fst (snd (snd k))))"
    and p: "\<not> is_plain_init c" by (auto split: if_splits)
  show ?case
  proof (cases c)
    case (CallInitCacheWithConfig b n t cfg)
    then show ?thesis
      using codes_refused [OF assms(1), of b n t cfg]
      by (auto simp: cache_after_snoc init_with_config_cache init_refused_def cache_of_key_def split: option.split)
  qed (use ih p in \<open>simp_all add: cache_after_snoc\<close>)
qed

text \<open>The library as one call's own options want it; \<open>k\<close> is the number of the cache.\<close>

definition php_library :: "nat \<Rightarrow> php_opts \<Rightarrow> go_state" where
  "php_library k o1 =
    go_initial
      \<lparr>gs_client := (if po_shared_http_client o1 then Some (po_block_private_ips o1, 30000000000) else None),
       gs_cache := map_option (Pair k) (php_go_cache o1),
       gs_cache_ttl := (if php_go_cache o1 = None then 0 else po_cache_ttl o1 * 1000000000)\<rparr>"

lemma php_library_reached:
  assumes inv: "ready env o1 g g2" and ok: "php_opts_valid o1" and txt_ok: "php_texts_ok default_url o1"
    and asked: "list_all asked_for (php_calls g2)" and codes: "go_cache_codes (env_lib env)"
  shows "\<exists>k. \<forall>w. core_config ord (go_run (php_calls g2)) w = core_config ord (php_library k o1) w"
proof -
  have i: "php_inv env g2" and key: "(g_backend g2, g_size g2, g_ttl g2, g_cfg_json g2) = wanted_cache o1"
    and cl: "client_after (php_calls g2)
      = (if po_shared_http_client o1 then Some (if po_block_private_ips o1 then 1 else 0) else None)"
    using inv by (simp_all add: ready_def)
  have "g_size g2 \<noteq> -1" using key valid_numbers(3) [OF ok] by (simp add: wanted_cache_def)
  with i never_failed [OF asked codes] key
  have after: "cache_after (env_lib env) (php_calls g2) = Some (wanted_cache o1)"
    by (simp add: php_inv_def cache_in_step_def)
  have c: "cache_of_key (wanted_cache o1) = php_go_cache o1"
    using php_cache_read [OF ok] cache_read_valid [OF txt_ok]
    by (simp add: cache_of_key_def wanted_cache_def php_cache_size_def del: render.simps)
  have t: "go_seconds (po_cache_ttl o1) = po_cache_ttl o1 * 1000000000"
    by (rule go_seconds_small; use ok in \<open>unfold php_opts_valid_def php_opts_part_def, blast\<close>)
  have run: "map_option snd (gs_cache (go_run (php_calls g2))) = php_go_cache o1"
    "gs_cache_ttl (go_run (php_calls g2)) = (if php_go_cache o1 = None then 0 else po_cache_ttl o1 * 1000000000)"
    using cache_of_run [OF codes, of "php_calls g2"] i after c t
    by (simp_all add: php_inv_def wanted_cache_def)
  define k where "k = fst (the (gs_cache (go_run (php_calls g2))))"
  have "gs_cache (go_run (php_calls g2)) = map_option (Pair k) (php_go_cache o1)"
    unfolding run(1) [symmetric] k_def by (cases "gs_cache (go_run (php_calls g2))") simp_all
  then have "core_config ord (go_run (php_calls g2)) w = core_config ord (php_library k o1) w" for w
    using run(2) cl by (intro core_config_cong) (simp_all add: php_library_def client_of_run)
  then show ?thesis by blast
qed

lemma php_core_config:
  assumes "php_live env g"
    and "php_parse_with_config (env\<lparr>env_heap := h\<rparr>) input depth default_url config g = Some (v, ws, g')"
    and "php_calls g' = php_calls g @ pre @ pc # post" and "is_parse_call pc"
    and "go_cache_codes (env_lib env)"
    and "env_dladdr env" and "env_dlopen env" and "env_exports env ParseJson"
    and "\<And>o1. php_read_config config = Inr o1 \<Longrightarrow> php_texts_ok (zcstr default_url) o1"
  shows "\<exists>o1 k. php_read_config config = Inr o1
    \<and> go_core_call ord (go_run (php_calls g @ pre)) pc
      = Some (zcstr input, core_config ord (php_library k o1) (php_settings depth (zcstr default_url) o1))
    \<and> 0 \<le> depth"
proof -
  have inv: "php_inv (env\<lparr>env_heap := h\<rparr>) g" using live_inv [OF assms(1)] by simp
  from parse_moment [OF this assms(2-4)]
  obtain o1 g2 where o1: "php_read_config config = Inr o1" and r: "ready (env\<lparr>env_heap := h\<rparr>) o1 g g2"
    and calls: "php_calls g2 = php_calls g @ pre"
    and ok: "php_opts_valid o1" "0 \<le> depth" "depth \<le> PHP_MAX_MAX_DEPTH"
    and c: "php_carries o1 (zcstr input) depth (zcstr default_url) pc" "nothing_lost o1 g2 pc" .
  have "list_all asked_for (php_calls g2)"
    using set_up_asked [OF _ live_asked [OF assms(1)]] r by (auto simp: ready_def)
  moreover have "go_cache_codes (env_lib (env\<lparr>env_heap := h\<rparr>))" using assms(5) by simp
  ultimately obtain k where k: "core_config ord (go_run (php_calls g2)) w = core_config ord (php_library k o1) w" for w
    using php_library_reached [OF r ok(1) assms(9) [OF o1]] by blast
  have "php_inv (env\<lparr>env_heap := h\<rparr>) g2" using r by (simp add: ready_def)
  then have "g_parse_json g2" using assms(6-8) by (simp add: php_inv_def)
  from php_delivered [OF c this]
    delivers_core [OF php_carries_delivers [OF c(1)] php_numbers [OF ok] php_texts [OF assms(9) [OF o1]]]
  have "go_core_call ord (go_run (php_calls g2)) pc
    = Some (zcstr input, core_config ord (php_library k o1) (php_settings depth (zcstr default_url) o1))"
    by (simp add: k)
  with o1 ok(2) show ?thesis unfolding calls by blast
qed

subsection \<open>Properties\<close>

text \<open>C6: end to end: with a library that has \<open>ParseJson\<close>, every page that \<open>parse_with_config\<close> hands over
  is run by the core under exactly the options of that very call, in any state the earlier calls left:
  the page, the depth, the base URL, each option that was set and the default of each that was not, the
  shared client with the call's own address policy and time limit, or none when the call turned it off
  or lets hosts through, and a cache of the call's own backend, addresses, size and time to live.  No
  accepted cache configuration is refused.\<close>

theorem php_config_reaches_core:
  assumes "php_live env g"
    and "php_parse_with_config (env\<lparr>env_heap := h\<rparr>) input depth default_url config g = Some (v, ws, g')"
    and "php_calls g' = php_calls g @ pre @ pc # post" and "is_parse_call pc"
    and "go_cache_codes (env_lib env)"
    and "env_dladdr env" and "env_dlopen env" and "env_exports env ParseJson"
    and "\<And>o1. php_read_config config = Inr o1 \<Longrightarrow> php_texts_ok (zcstr default_url) o1"
  shows "\<exists>o1 k. php_read_config config = Inr o1
    \<and> go_core_call ord (go_run (php_calls g @ pre)) pc
      = Some (zcstr input, core_config ord (php_library k o1) (php_settings depth (zcstr default_url) o1))"
  using php_core_config [OF assms] by blast

text \<open>A module on the library, with its answers replaced by the page.\<close>

definition php_go_env :: php_env where
  "php_go_env = php_sample_env\<lparr>env_lib := (go_library fst id go_initial)\<lparr>parse_json := (\<lambda>i b. Some i)\<rparr>\<rparr>"

lemma go_library_codes: "go_cache_codes ((go_library core ord st)\<lparr>parse_json := a\<rparr>)"
  by (simp add: go_cache_codes_def go_library_def init_with_config_rc)

lemma go_default_call:
  "\<exists>g'. php_parse_with_config php_go_env ''page'' 3 ''/'' [] (php_minit php_go_env php_initial) = Some (PStr ''page'', [], g')
    \<and> php_calls g' = php_calls (php_minit php_go_env php_initial) @ sample_pre @ sample_parse # [CallFreeString]"
proof -
  have "map_option (\<lambda>(v, ws, g'). (v, ws, php_calls g'))
      (php_parse_with_config php_go_env ''page'' 3 ''/'' [] (php_minit php_go_env php_initial))
    = Some (PStr ''page'', [], php_calls (php_minit php_go_env php_initial) @ sample_pre @ sample_parse # [CallFreeString])"
    by code_simp
  then show ?thesis by auto
qed

theorem php_config_reaches_core_witness:
  "\<exists>k. go_core_call id (go_run (php_calls (php_minit php_go_env php_initial) @ sample_pre)) sample_parse
    = Some (''page'', core_config id (php_library k php_default_opts) (php_settings 3 ''/'' php_default_opts))"
proof -
  have e: "php_go_env\<lparr>env_heap := \<lambda>_. True\<rparr> = php_go_env" by (simp add: php_go_env_def php_sample_env_def)
  have "php_texts_ok ''/'' php_default_opts" by code_simp
  moreover obtain g' where
    "php_parse_with_config php_go_env ''page'' 3 ''/'' [] (php_minit php_go_env php_initial) = Some (PStr ''page'', [], g')"
    and "php_calls g' = php_calls (php_minit php_go_env php_initial) @ sample_pre @ sample_parse # [CallFreeString]"
    using go_default_call by blast
  moreover have "zcstr ''/'' = ''/''" "zcstr ''page'' = ''page''" by code_simp+
  ultimately show ?thesis
    using php_config_reaches_core [OF php_live.started [of php_go_env], of "\<lambda>_. True" "''page''" 3 "''/''" "[]" "PStr ''page''" "[]" g'
        sample_pre sample_parse "[CallFreeString]" id]
    by (simp add: e sample_parse_def default_read) (simp add: php_go_env_def php_sample_env_def go_library_codes)
qed

end
