(* ===== verification/Go_Guard.thy ===== *)
theory Go_Guard
  imports Go_Page Go_Apache Go_Nginx Go_Php
begin

text \<open>
  From the directives of a server to the addresses that are dialled.  The modules promise that the
  settings of a location, a virtual host or a call reach the core; the fetcher promises that no
  include leaves the policy of its configuration.  Together: no page makes the server send a request
  that its own settings do not admit.
\<close>

subsection \<open>What settings admit\<close>

definition listed :: "go_net \<Rightarrow> string \<Rightarrow> string list \<Rightarrow> bool" where
  "listed net host hosts = list_ex (host_matches net host) hosts"

definition settings_admit :: "go_net \<Rightarrow> wire_settings \<Rightarrow> string \<Rightarrow> bool" where
  "settings_admit net w host \<longleftrightarrow> go_fields (ws_hosts w) = [] \<or> listed net host (go_fields (ws_hosts w))"

definition settings_private_ok :: "go_net \<Rightarrow> wire_settings \<Rightarrow> string \<Rightarrow> bool" where
  "settings_private_ok net w host \<longleftrightarrow> \<not> ws_block w \<or> ws_allow w \<and> listed net host (go_fields (ws_hosts w))"

text \<open>
  A request at the \<open>n\<close>th level of includes is within the settings; \<open>open_client\<close> tells of a client that
  dials any address.
\<close>

definition within_settings :: "go_net \<Rightarrow> wire_settings \<Rightarrow> bool \<Rightarrow> nat \<Rightarrow> hop \<Rightarrow> bool" where
  "within_settings net w open_client n = (\<lambda>(req, dialled).
     http_scheme (u_scheme req) \<and> settings_admit net w (u_host req) \<and> int n < ws_depth w
     \<and> (list_ex is_private_or_reserved_ip dialled \<longrightarrow> open_client \<or> settings_private_ok net w (u_host req)))"

subsection \<open>The configuration of the core\<close>

text \<open>The client that the core gets does not block, though the settings may.\<close>

definition open_shared :: "go_state \<Rightarrow> wire_settings \<Rightarrow> bool" where
  "open_shared st w \<longleftrightarrow> \<not> ws_allow w \<and> (\<exists>t. gs_client st = Some (False, t))"

lemma core_policy:
  "ec_allowed_hosts (core_config ord st w) = go_fields (ws_hosts w)"
  "ec_block_private_ips (core_config ord st w) = ws_block w" "ec_allow_private (core_config ord st w) = ws_allow w"
  "ec_max_depth (core_config ord st w) = ws_depth w"
  by (simp_all add: core_config_def Let_def)

lemma core_private:
  "private_dial_ok net (core_config ord st w) host \<Longrightarrow> open_shared st w \<or> settings_private_ok net w host"
  by (cases "gs_client st")
    (auto simp: private_dial_ok_def core_policy open_shared_def settings_private_ok_def listed_def
      host_in_allowed_hosts_def core_config_def shared_client_def Let_def split: if_splits)

lemma core_page_within:
  assumes "(n, h) \<in> page_hops net kf dur cpus (core_config ord st w)" and "0 \<le> ws_depth w"
  shows "within_settings net w (open_shared st w) n h"
proof (cases h)
  case (Pair req dialled)
  have "hop_within net (core_config ord st w) (req, dialled) \<and> int n < ws_depth w"
    using page_hops_within [OF assms(1)] assms(2) Pair by (simp add: core_policy)
  then show ?thesis
    using core_private [of net ord st w "u_host req"]
    by (auto simp: Pair within_settings_def hop_within_def core_policy settings_admit_def listed_def host_in_allowed_hosts_def)
qed

text \<open>The requests of a page that the core renders under the settings.\<close>

definition page_within :: "core_env \<Rightarrow> wire_settings \<Rightarrow> bool \<Rightarrow> string \<Rightarrow> esi_config \<Rightarrow> bool" where
  "page_within env w open_client page c0 \<longleftrightarrow>
     (\<forall>(n, h) \<in> set (ps_log (snd (mesi_run env page c0))). within_settings (ce_net env) w open_client n h)"

lemma core_run_within:
  assumes "clocks env" and "0 \<le> ws_depth w"
  shows "page_within env w (open_shared st w) page (core_config ord st w)"
  using core_page_within [OF _ assms(2)] page_log [OF assms(1)] by (fastforce simp: page_within_def env_hops_def)

lemma own_client_within:
  assumes "\<And>t. gs_client st = Some (False, t) \<Longrightarrow> \<not> ws_block w"
  shows "page_within env w (open_shared st w) page c0 = page_within env w False page c0"
  using assms by (auto simp: page_within_def within_settings_def open_shared_def settings_private_ok_def)

lemma own_client_run:
  assumes "clocks env" and "0 \<le> ws_depth w" and "\<And>t. gs_client st = Some (False, t) \<Longrightarrow> \<not> ws_block w"
  shows "page_within env w False page (core_config ord st w)"
proof -
  have "page_within env w (open_shared st w) page (core_config ord st w)" by (rule core_run_within [OF assms(1,2)])
  then show ?thesis using own_client_within [of st w] assms(3) by simp
qed

text \<open>The core as the bridge calls it.\<close>

definition esi_core :: "core_env \<Rightarrow> core_call \<Rightarrow> string" where
  "esi_core env = (\<lambda>(page, c). MESIParse env page c)"

subsection \<open>Properties\<close>

text \<open>C1: nginx, from the directives of a location to the dialled address: in any state of a worker, an
  HTML response within the limit leaves nginx as the page that the core renders, and of all requests
  that the rendering makes, at every level of includes and whatever the page, its fragments and the
  servers contain, each goes over http or https to a host that the location's list admits, dials a
  private or reserved address only if the location does not block them or lets this listed host
  through, and is made above the location's maximum depth.\<close>

theorem nginx_page_within_settings:
  fixes lcf r cls w1 ord
  defines "page \<equiv> ngx_str_to_cstr (bytes_of (concat cls))"
    and "c0 \<equiv> core_config ord (ngx_library w1) (ngx_settings lcf r)"
  assumes "ngx_life syms gl0 w" and "ngx_conf_ok lcf" and "0 < pagesize" and "ngx_processes lcf w r"
    and "complete_body cls" and "within lcf (length (bytes_of (concat cls)))"
    and "rq_host r \<noteq> None" and "ngx_texts_ok lcf r" and "ngx_full_library w"
    and "ngx_setup_cache lcf w = Some w1" and "clocks env"
  shows "(\<exists>w'. ngx_response pagesize (go_library (esi_core env) ord (ngx_library w1)) lcf r cls w
       = Some (rq_status r, c_string (MESIParse env page c0), True, w'))
    \<and> (\<forall>(n, req, dialled) \<in> set (ps_log (snd (mesi_run env page c0))).
         http_scheme (u_scheme req)
         \<and> settings_admit (ce_net env) (ngx_settings lcf r) (u_host req)
         \<and> int n < lc_max_depth lcf
         \<and> (list_ex is_private_or_reserved_ip dialled \<longrightarrow>
              settings_private_ok (ce_net env) (ngx_settings lcf r) (u_host req)))"
proof
  let ?s = "ngx_settings lcf r"
  have "nw_open w" using life_invariant [OF assms(3)] by blast
  note resp = response_processed [OF assms(4,5) this assms(6,7)]
  show "\<exists>w'. ngx_response pagesize (go_library (esi_core env) ord (ngx_library w1)) lcf r cls w
      = Some (rq_status r, c_string (MESIParse env page c0), True, w')"
    using parse_reaches_core [OF assms(4,9-12), of "esi_core env" ord "ngx_library w1" "bytes_of (concat cls)"] assms(8)
    unfolding resp page_outcome_def page_def c0_def by (auto simp: esi_core_def)
  have "page_within env ?s False page c0"
    unfolding c0_def using life_no_client [OF assms(3,12)] ngx_numbers [OF assms(4), of r]
    by (intro own_client_run [OF assms(13)]) (simp_all add: wire_numbers_ok_def)
  then show "\<forall>(n, req, dialled) \<in> set (ps_log (snd (mesi_run env page c0))).
      http_scheme (u_scheme req) \<and> settings_admit (ce_net env) ?s (u_host req) \<and> int n < lc_max_depth lcf
      \<and> (list_ex is_private_or_reserved_ip dialled \<longrightarrow> settings_private_ok (ce_net env) ?s (u_host req))"
    by (fastforce simp: page_within_def within_settings_def ngx_settings_def)
qed

text \<open>A page with an include, served by the sample location.\<close>

definition ngx_include_page :: "ngx_buf list list" where
  "ngx_include_page = [[\<lparr>nb_data = ''<p><esi:'', nb_last = False\<rparr>], [\<lparr>nb_data = ''include/></p>'', nb_last = True\<rparr>]]"

lemma ngx_include_body:
  "complete_body ngx_include_page" "bytes_of (concat ngx_include_page) = ''<p><esi:include/></p>''"
  "ngx_str_to_cstr ''<p><esi:include/></p>'' = ''<p><esi:include/></p>''"
  "within ngx_sample_conf (length (bytes_of (concat ngx_include_page)))"
  by (simp_all add: ngx_include_page_def ngx_str_to_cstr_def bytes_of_def complete_body_def within_def ngx_sample_conf_defs)

lemma ngx_include_fetched:
  "sample_fetched [93, 184, 216, 34]
     (core_config id (ngx_library ngx_sample_set_up) (ngx_settings ngx_sample_conf ngx_sample_request))"
  by code_simp

theorem nginx_page_within_settings_witness:
  "(\<exists>w'. ngx_response 4096 (go_library (esi_core (sample_core [93, 184, 216, 34])) id (ngx_library ngx_sample_set_up))
        ngx_sample_conf ngx_sample_request ngx_include_page ngx_sample_worker = Some (200, ''<p>ok</p>'', True, w'))
   \<and> settings_admit sample_net (ngx_settings ngx_sample_conf ngx_sample_request) ''b.com''"
proof -
  have c: "c_string ''<p>ok</p>'' = ''<p>ok</p>''" by code_simp
  from nginx_page_within_settings [OF ngx_sample_life ngx_sample_conf_ok _ ngx_sample_processes ngx_include_body(1,4)
      ngx_sample_page(7) ngx_sample_texts ngx_sample_page(5) ngx_sample_cache sample_clocks [of "[93, 184, 216, 34]"], of 4096 id]
  show ?thesis
    unfolding ngx_include_body(2,3) ngx_sample_page(6) MESIParse_def sample_page [OF ngx_include_fetched]
    by (simp add: c sample_logged_def b_url_def)
qed

text \<open>C3: the PHP extension, from the options of a call to the dialled address: every page that
  \<open>parse_with_config\<close> hands over is rendered under a configuration for which each request, at every level
  of includes, goes to a host that the call's \<open>allowed_hosts\<close> admits, dials a private or reserved address
  only if the call does not block them or lets this listed host through, and is made above the
  call's depth; a client that an earlier call left in the library changes none of it.\<close>

theorem php_page_within_settings:
  assumes "php_live env g"
    and "php_parse_with_config (env\<lparr>env_heap := h\<rparr>) input depth default_url config g = Some (v, ws, g')"
    and "php_calls g' = php_calls g @ pre @ pc # post" and "is_parse_call pc"
    and "go_cache_codes (env_lib env)"
    and "env_dladdr env" and "env_dlopen env" and "env_exports env ParseJson"
    and "\<And>o1. php_read_config config = Inr o1 \<Longrightarrow> php_texts_ok (zcstr default_url) o1"
    and "clocks core"
  shows "\<exists>o1 k c0. php_read_config config = Inr o1
    \<and> c0 = core_config ord (php_library k o1) (php_settings depth (zcstr default_url) o1)
    \<and> go_core_call ord (go_run (php_calls g @ pre)) pc = Some (zcstr input, c0)
    \<and> (\<forall>(n, req, dialled) \<in> set (ps_log (snd (mesi_run core (zcstr input) c0))).
         http_scheme (u_scheme req)
         \<and> settings_admit (ce_net core) (php_settings depth (zcstr default_url) o1) (u_host req)
         \<and> int n < depth
         \<and> (list_ex is_private_or_reserved_ip dialled \<longrightarrow>
              settings_private_ok (ce_net core) (php_settings depth (zcstr default_url) o1) (u_host req)))"
proof -
  from php_core_config [OF assms(1-9), of ord] obtain o1 k where o1: "php_read_config config = Inr o1" "0 \<le> depth"
    and call: "go_core_call ord (go_run (php_calls g @ pre)) pc
      = Some (zcstr input, core_config ord (php_library k o1) (php_settings depth (zcstr default_url) o1))" by blast
  let ?s = "php_settings depth (zcstr default_url) o1"
  let ?c0 = "core_config ord (php_library k o1) ?s"
  have "\<not> ws_block ?s" if "gs_client (php_library k o1) = Some (False, t)" for t
    using that by (simp add: php_library_def php_settings_def split: if_splits)
  then have "page_within core ?s False (zcstr input) ?c0"
    by (intro own_client_run [OF assms(10)]) (simp_all add: php_settings_def o1(2))
  then have "\<forall>(n, req, dialled) \<in> set (ps_log (snd (mesi_run core (zcstr input) ?c0))).
      http_scheme (u_scheme req) \<and> settings_admit (ce_net core) ?s (u_host req) \<and> int n < depth
      \<and> (list_ex is_private_or_reserved_ip dialled \<longrightarrow> settings_private_ok (ce_net core) ?s (u_host req))"
    by (fastforce simp: page_within_def within_settings_def php_settings_def)
  with o1(1) call show ?thesis by blast
qed

text \<open>The call of \<open>parse_with_config\<close> with the default options on a page with an include.\<close>

definition include_parse :: lib_call where
  "include_parse = CallParseWithConfigCtx ''<p><esi:include/></p>'' 3 ''/'' [] 1 0 [] []"

lemma php_include_call:
  "\<exists>g'. php_parse_with_config php_go_env ''<p><esi:include/></p>'' 3 ''/'' [] (php_minit php_go_env php_initial)
      = Some (PStr ''<p><esi:include/></p>'', [], g')
    \<and> php_calls g' = php_calls (php_minit php_go_env php_initial) @ sample_pre @ include_parse # [CallFreeString]"
proof -
  have "map_option (\<lambda>(v, ws, g'). (v, ws, php_calls g'))
      (php_parse_with_config php_go_env ''<p><esi:include/></p>'' 3 ''/'' [] (php_minit php_go_env php_initial))
    = Some (PStr ''<p><esi:include/></p>'', [],
        php_calls (php_minit php_go_env php_initial) @ sample_pre @ include_parse # [CallFreeString])"
    by code_simp
  then show ?thesis by auto
qed

theorem php_page_within_settings_witness:
  "\<exists>o1 k c0. php_read_config [] = Inr o1
    \<and> c0 = core_config id (php_library k o1) (php_settings 3 ''/'' o1)
    \<and> go_core_call id (go_run (php_calls (php_minit php_go_env php_initial) @ sample_pre)) include_parse
        = Some (''<p><esi:include/></p>'', c0)
    \<and> (\<forall>(n, req, dialled) \<in> set (ps_log (snd (mesi_run (sample_core [93, 184, 216, 34]) ''<p><esi:include/></p>'' c0))).
         settings_admit sample_net (php_settings 3 ''/'' o1) (u_host req) \<and> n < 3)"
proof -
  have e: "php_go_env\<lparr>env_heap := \<lambda>_. True\<rparr> = php_go_env" by (simp add: php_go_env_def php_sample_env_def)
  have "php_texts_ok ''/'' php_default_opts" by code_simp
  moreover obtain g' where
    "php_parse_with_config php_go_env ''<p><esi:include/></p>'' 3 ''/'' [] (php_minit php_go_env php_initial)
      = Some (PStr ''<p><esi:include/></p>'', [], g')"
    and "php_calls g' = php_calls (php_minit php_go_env php_initial) @ sample_pre @ include_parse # [CallFreeString]"
    using php_include_call by blast
  moreover have "zcstr ''/'' = ''/''" "zcstr ''<p><esi:include/></p>'' = ''<p><esi:include/></p>''" by code_simp+
  moreover have "go_cache_codes (env_lib php_go_env)" "env_dladdr php_go_env" "env_dlopen php_go_env"
    "env_exports php_go_env ParseJson"
    by (simp_all add: php_go_env_def php_sample_env_def go_library_codes)
  moreover have "is_parse_call include_parse" by (simp add: include_parse_def)
  ultimately show ?thesis
    using php_page_within_settings [OF php_live.started [of php_go_env], of "\<lambda>_. True" "''<p><esi:include/></p>''" 3 "''/''" "[]"
        "PStr ''<p><esi:include/></p>''" "[]" g' sample_pre include_parse "[CallFreeString]" "sample_core [93, 184, 216, 34]" id]
    by (fastforce simp: e default_read sample_clocks)
qed

text \<open>C2: Apache, from the directives of a virtual host to the dialled address: in any state of a
  worker, a processed body within the limit leaves Apache as the page that the core renders, and of all
  requests that the rendering makes, at every level of includes, each goes to a host that the virtual
  host's list admits and is made above its depth; a private or reserved address is dialled only if
  the virtual host allows it, or if it has no bypass for listed hosts and the worker's shared client
  was set up by an earlier virtual host that does not block private addresses.\<close>

theorem apache_page_within_settings:
  fixes dss ds w1 ord conf r
  defines "page \<equiv> c_str (concat (concat dss @ ds))"
    and "c0 \<equiv> core_config ord (apache_library w1) (apache_settings conf r)"
  assumes "worker_history env_force dlopen_ok exps gl steps w"
    and "config_ok conf" and "apache_texts_ok conf r" and "\<And>s. resolved w s"
    and "processed conf r" and "\<not> declared_oversize (strtoff env) conf r" and "\<not> force_flatten_error w"
    and "concat (concat dss @ ds) \<noteq> []"
    and "limited conf r \<Longrightarrow> size_of (concat dss @ ds) \<le> body_limit conf \<and> body_limit conf < 2 ^ 63"
    and "init_shared env conf w = w1" and "lib env = go_library (esi_core core) ord (apache_library w1)"
    and "clocks core"
  shows "(\<exists>w'. run_filter env conf None r w False (map (map Data) dss @ [map Data ds @ [Eos]]) []
      = Some (table_unset_out ''Content-Length'' r, w', [Data (c_string (MESIParse core page c0)), Eos]))
    \<and> (\<forall>(n, req, dialled) \<in> set (ps_log (snd (mesi_run core page c0))).
         http_scheme (u_scheme req)
         \<and> settings_admit (ce_net core) (apache_settings conf r) (u_host req)
         \<and> int n < eff_depth conf
         \<and> (list_ex is_private_or_reserved_ip dialled \<longrightarrow>
              settings_private_ok (ce_net core) (apache_settings conf r) (u_host req)
              \<or> eff_allow_private conf = 0
                \<and> (\<exists>first. client_host steps = Some first \<and> eff_block_private first = 0)))"
proof
  let ?s = "apache_settings conf r"
  show "\<exists>w'. run_filter env conf None r w False (map (map Data) dss @ [map Data ds @ [Eos]]) []
      = Some (table_unset_out ''Content-Length'' r, w', [Data (c_string (MESIParse core page c0)), Eos])"
    using response_is_core [OF assms(4-6,12,13)] body_run [OF assms(7-11)]
    by (simp add: page_def c0_def esi_core_def)
  have "page_within core ?s (open_shared (apache_library w1) ?s) page c0"
    using core_run_within [OF assms(14), of ?s] apache_numbers [OF assms(4)]
    by (simp add: wire_numbers_ok_def c0_def)
  moreover have "eff_allow_private conf = 0 \<and> (\<exists>first. client_host steps = Some first \<and> eff_block_private first = 0)
      \<or> eff_block_private conf = 0" if "open_shared (apache_library w1) ?s"
    using that history_client [OF assms(3)] step_shared [of w env conf] assms(12)
    by (auto simp: open_shared_def client_same_def client_made_def host_client_def apache_settings_def)
  ultimately show "\<forall>(n, req, dialled) \<in> set (ps_log (snd (mesi_run core page c0))).
      http_scheme (u_scheme req) \<and> settings_admit (ce_net core) ?s (u_host req) \<and> int n < eff_depth conf
      \<and> (list_ex is_private_or_reserved_ip dialled \<longrightarrow> settings_private_ok (ce_net core) ?s (u_host req)
           \<or> eff_allow_private conf = 0 \<and> (\<exists>first. client_host steps = Some first \<and> eff_block_private first = 0))"
    by (fastforce simp: page_within_def within_settings_def settings_private_ok_def apache_settings_def)
qed

text \<open>
  The last case happens: after a request of \<open>open_host\<close> the same worker dials a private address for a page
  of \<open>strict_host\<close>, which blocks private addresses.
\<close>

definition strict_config :: esi_config where
  "strict_config = core_config id (apache_library after_open_host) (apache_settings strict_host sample_request)"

lemma strict_fetched: "sample_fetched [10, 0, 0, 1] strict_config"
  by code_simp

lemma open_client_dials_private:
  "(0, b_url, [[10, 0, 0, 1]]) \<in> set (ps_log (snd (mesi_run (sample_core [10, 0, 0, 1]) ''<p><esi:include/></p>'' strict_config)))
   \<and> list_ex is_private_or_reserved_ip [[10, 0, 0, 1]]
   \<and> \<not> settings_private_ok sample_net (apache_settings strict_host sample_request) (u_host b_url)"
proof -
  have "list_ex is_private_or_reserved_ip [[10, 0, 0, 1]]"
    "\<not> settings_private_ok sample_net (apache_settings strict_host sample_request) (u_host b_url)"
    by code_simp+
  then show ?thesis unfolding sample_page [OF strict_fetched] by (simp add: sample_logged_def)
qed

lemma strict_facts:
  "processed strict_host sample_request" "\<not> declared_oversize f strict_host sample_request" "config_ok strict_host"
  "apache_texts_ok strict_host sample_request" "\<not> limited strict_host sample_request"
proof -
  have "is_html_content (Some ''text/html'')" by code_simp
  then show "processed strict_host sample_request"
    by (simp add: processed_def strict_host_def sample_request_def create_server_config_def)
  show "config_ok strict_host"
    by (simp add: strict_host_def create_server_config_def ok_defs hosts_ok_def backend_names_def)
  show "\<not> declared_oversize f strict_host sample_request" "\<not> limited strict_host sample_request"
    by (simp_all add: declared_oversize_def limited_def body_limit_def strict_host_def create_server_config_def)
  have "go_text (request_base_url sample_request)" by code_simp
  then show "apache_texts_ok strict_host sample_request"
    by (simp add: apache_texts_ok_def strict_host_def create_server_config_def allowed_hosts_str_def str_of_def)
qed

lemma after_open_host_worker: "resolved after_open_host s" "\<not> force_flatten_error after_open_host"
proof -
  have "\<not> force_flatten_error after_open_host" "list_all (resolved after_open_host)
    [Parse, ParseWithConfig, ParseWithConfigEx, ParseWithConfigCtx, ParseJson, FreeString, InitCache, InitCacheWithConfig,
     FreeCache, InitHTTPClient, FreeHTTPClient]" by code_simp+
  then show "resolved after_open_host s" "\<not> force_flatten_error after_open_host" by (cases s; simp)+
qed

theorem apache_page_within_settings_witness:
  "let env = sample_env\<lparr>lib := go_library (esi_core (sample_core [10, 0, 0, 1])) id (apache_library after_open_host)\<rparr>
   in (\<exists>w'. run_filter env strict_host None sample_request after_open_host False [map Data [''<p><esi:'', ''include/></p>''] @ [Eos]] []
         = Some (table_unset_out ''Content-Length'' sample_request, w', [Data ''<p>ok</p>'', Eos]))
      \<and> (\<exists>first. client_host open_host_steps = Some first \<and> eff_block_private first = 0)"
proof -
  let ?env = "sample_env\<lparr>lib := go_library (esi_core (sample_core [10, 0, 0, 1])) id (apache_library after_open_host)\<rparr>"
  have s: "init_shared ?env strict_host after_open_host = after_open_host"
    using after_open_host_client
    by (simp add: init_shared_def strict_host_def create_server_config_def nonempty_def mesi_init_http_client_def)
  have p: "c_str (concat (concat [] @ [''<p><esi:'', ''include/></p>''])) = ''<p><esi:include/></p>''"
    "c_string ''<p>ok</p>'' = ''<p>ok</p>''" by code_simp+
  have l: "lib ?env = go_library (esi_core (sample_core [10, 0, 0, 1])) id (apache_library after_open_host)" by simp
  have b: "concat (concat [] @ [''<p><esi:'', ''include/></p>'']) \<noteq> []" by simp
  from apache_page_within_settings [OF open_host_history strict_facts(3,4) after_open_host_worker(1) strict_facts(1,2)
      after_open_host_worker(2) b _ s l sample_clocks] strict_facts(5) open_client_dials_private
  show ?thesis
    unfolding p strict_config_def [symmetric] MESIParse_def sample_page [OF strict_fetched]
    by (auto simp: Let_def sample_logged_def p)
qed

end
