(* ===== verification/Go_Hosts.thy ===== *)
theory Go_Hosts
  imports Go_Config
begin

text \<open>
  The host list on both sides: the C modules accept a list when \<open>mesi_has_hostname_token\<close> finds a
  token in it, and the core splits it with \<open>strings.Fields\<close>, where an empty result allows every host.
\<close>

lemma find_length:
  assumes "\<And>v. v \<in> set us \<Longrightarrow> prefix v s \<Longrightarrow> length v = n" and "u \<in> set us" and "prefix u s"
  shows "\<exists>v. find (\<lambda>u. prefix u s) us = Some v \<and> length v = n"
  using assms by (induction us) auto

lemma ascii_space_byte: "ascii_space c \<longleftrightarrow> byte c = 32 \<or> 9 \<le> byte c \<and> byte c \<le> 13"
proof -
  have eq: "c = d \<longleftrightarrow> byte c = byte d" for d by simp
  have "ascii_space c \<longleftrightarrow> byte c = 32 \<or> byte c = 9 \<or> byte c = 13 \<or> byte c = 10 \<or> byte c = 11 \<or> byte c = 12"
    unfolding ascii_space_def insert_iff empty_iff
      eq [of "CHR '' ''"] eq [of "CHR 0x09"] eq [of "CHR 0x0D"] eq [of "CHR 0x0A"] eq [of "CHR 0x0B"] eq [of "CHR 0x0C"]
    by simp
  then show ?thesis by presburger
qed

lemma space_len_eq: "space_len (c # cs) = (if ascii_space c then 1 else mesi_unicode_space (c # cs))"
proof (cases "\<exists>u \<in> set go_space_bytes. prefix u (c # cs)")
  case True
  then obtain u where u: "u \<in> set go_space_bytes" "prefix u (c # cs)" by blast
  have len: "length v = mesi_unicode_space (c # cs)" if "v \<in> set go_space_bytes" "prefix v (c # cs)" for v
    using that unicode_space_iff [of "c # cs" "length v"] by metis
  from find_length [OF len u] obtain v where
    "find (\<lambda>u. prefix u (c # cs)) go_space_bytes = Some v" "length v = mesi_unicode_space (c # cs)" by blast
  then show ?thesis unfolding space_len_def ascii_space_byte by (simp only: list.case option.case)
next
  case False
  then have "find (\<lambda>u. prefix u (c # cs)) go_space_bytes = None" by (simp add: find_None_iff)
  with False unicode_space_zero [of "c # cs"] show ?thesis unfolding space_len_def ascii_space_byte by simp
qed

lemma fields_skip: "fields_from k tok cs = fields_from 0 tok (drop k cs)"
  by (induction cs arbitrary: k) (case_tac [!] k, simp_all)

lemma fields_open: "tok \<noteq> [] \<Longrightarrow> fields_from k tok cs \<noteq> []"
proof (induction k tok cs rule: fields_from.induct)
  case (3 tok c cs)
  then show ?case by (cases "space_len (c # cs)") (auto simp: end_field_def)
qed (simp_all add: end_field_def)

lemma fields_token: "fields_from 0 [] s \<noteq> [] \<longleftrightarrow> mesi_has_hostname_token s"
proof (induction s rule: mesi_has_hostname_token.induct)
  case 1
  then show ?case by (simp add: end_field_def)
next
  case (2 c cs)
  consider "ascii_space c" | "\<not> ascii_space c" "mesi_unicode_space (c # cs) = 0"
    | k where "\<not> ascii_space c" "mesi_unicode_space (c # cs) = Suc k"
    by (cases "mesi_unicode_space (c # cs)") auto
  then show ?case
  proof cases
    case 1
    with 2 show ?thesis by (simp add: mesi_has_hostname_token.simps(2) space_len_eq end_field_def)
  next
    case 2
    then show ?thesis
      by (simp add: mesi_has_hostname_token.simps(2) space_len_eq fields_open Let_def)
  next
    case 3
    with 2 show ?thesis
      by (simp add: mesi_has_hostname_token.simps(2) space_len_eq end_field_def fields_skip [of k] Let_def)
  qed
qed

subsection \<open>Properties\<close>

text \<open>C33: the two sides agree on when a host list is empty: the check that every module makes before it
  accepts a list succeeds exactly when the core finds a host in it, so an accepted list never turns
  into the empty one, which would allow every host.\<close>

theorem host_check_is_fields: "mesi_has_hostname_token s \<longleftrightarrow> go_allowed_hosts s \<noteq> []"
  using fields_token [of s] by (simp add: go_allowed_hosts_def go_fields_def)

end
