(* ===== verification/Go_Tests.thy ===== *)
theory Go_Tests
  imports Go_Cache
begin

text \<open>
  \<open>libgomesi/test-libgomesi.c\<close>, the test program of the library, run on the model of the bridge:
  \<open>main\<close> as a list of steps that thread the state of the library and the number of failures.  The
  core is a parameter, a function of the port on which a fragment server answers, if one does; so
  are the outcomes of \<open>frag_server_start\<close>.  Printing and \<open>FreeString\<close> leave no trace.
\<close>

subsection \<open>Steps\<close>

type_synonym test_core = "nat option \<Rightarrow> core_call \<Rightarrow> string"

type_synonym test_state = "go_state \<times> nat"

definition reply :: "test_core \<Rightarrow> nat option \<Rightarrow> core_call option \<Rightarrow> string option" where
  "reply core port cc = map_option (\<lambda>c. c_string (core port c)) cc"

text \<open>A check: \<open>failed++\<close> when it does not hold.\<close>

definition check :: "bool \<Rightarrow> test_state \<Rightarrow> test_state" where
  "check ok s = (fst s, if ok then snd s else Suc (snd s))"

text \<open>A call made for its effect, and one whose return code is checked.\<close>

definition api :: "lib_call \<Rightarrow> test_state \<Rightarrow> test_state" where
  "api c s = (go_step (fst s) c, snd s)"

definition check_init_cache :: "string \<Rightarrow> int \<Rightarrow> int \<Rightarrow> int \<Rightarrow> test_state \<Rightarrow> test_state" where
  "check_init_cache b n t expected s =
    (let (rc, st) = go_init_cache b n t (fst s) in check (rc = expected) (st, snd s))"

definition check_init_config :: "string \<Rightarrow> int \<Rightarrow> int \<Rightarrow> string \<Rightarrow> int \<Rightarrow> test_state \<Rightarrow> test_state" where
  "check_init_config b n t cfg expected s =
    (let (rc, st) = go_init_cache_with_config b n t cfg (fst s) in check (rc = expected) (st, snd s))"

definition check_default :: "test_core \<Rightarrow> string \<Rightarrow> test_state \<Rightarrow> test_state" where
  "check_default core page s = check (reply core None (go_parse_default (fst s) page) = Some page) s"

text \<open>What a parse call must answer.\<close>

definition check_call :: "test_core \<Rightarrow> nat option \<Rightarrow> lib_call \<Rightarrow> (string option \<Rightarrow> bool) \<Rightarrow> test_state \<Rightarrow> test_state" where
  "check_call core port c ok s = check (ok (reply core port (go_core_call id (fst s) c))) s"

definition check_json :: "test_core \<Rightarrow> string option \<Rightarrow> (string option \<Rightarrow> bool) \<Rightarrow> test_state \<Rightarrow> test_state" where
  "check_json core cfg ok s = check (ok (reply core None (go_parse_json id (fst s) ''plain-ok'' cfg))) s"

definition not_null :: "string option \<Rightarrow> bool" where "not_null r \<longleftrightarrow> r \<noteq> None"
definition is_null :: "string option \<Rightarrow> bool" where "is_null r \<longleftrightarrow> r = None"
definition is_text :: "string \<Rightarrow> string option \<Rightarrow> bool" where "is_text t r \<longleftrightarrow> r = Some t"
definition has_text :: "string \<Rightarrow> string option \<Rightarrow> bool" where
  "has_text t r \<longleftrightarrow> (case r of None \<Rightarrow> False | Some s \<Rightarrow> contains s t)"
definition lacks_text :: "string \<Rightarrow> string option \<Rightarrow> bool" where
  "lacks_text t r \<longleftrightarrow> (case r of None \<Rightarrow> False | Some s \<Rightarrow> \<not> contains s t)"

definition localhost :: string where "localhost = ''http://127.0.0.1/''"

subsection \<open>The tests\<close>

definition client_tests :: "test_core \<Rightarrow> (test_state \<Rightarrow> test_state) list" where
  "client_tests core =
    [api (CallInitHTTPClient 1),
     check_default core ''hello world'',
     check_call core None (CallParseWithConfig ''test input'' 5 ''http://localhost/'' [] 0) not_null,
     api CallFreeHTTPClient, api CallFreeHTTPClient,
     check_default core ''after free'',
     api (CallInitHTTPClient 0), check_default core ''reinit test'', api CallFreeHTTPClient]"

definition cache_tests :: "test_core \<Rightarrow> (test_state \<Rightarrow> test_state) list" where
  "cache_tests core =
    [check_init_cache ''invalid'' 100 30 (-1),
     check_init_cache ''memory'' 5000 30 0,
     check_default core ''with cache'',
     api CallFreeCache, api CallFreeCache,
     check_init_cache [] 100 30 0]"

definition cache_config_tests :: "test_core \<Rightarrow> (test_state \<Rightarrow> test_state) list" where
  "cache_config_tests core =
    [check_init_config ''memory'' 5000 30 ''{}'' 0,
     check_init_config [] 100 30 [] 0,
     check_init_config ''redis'' 100 30 ''not json'' (-1),
     check_init_config ''memcached'' 100 30 ''{}'' (-1),
     check_init_config ''redis'' 100 30 ''{\"redisAddr\":\"127.0.0.1:1\",\"redisDB\":2}'' 0,
     check_init_config ''memcached'' 100 30 ''{\"servers\":[\"127.0.0.1:11211\"]}'' 0,
     check_init_config ''file'' 100 30 [] (-1),
     api (CallInitCacheWithConfig ''memory'' 5000 30 ''{}''), check_default core ''post cache config'',
     api CallFreeCache, api CallFreeCache]"

definition depth_tests :: "test_core \<Rightarrow> (test_state \<Rightarrow> test_state) list" where
  "depth_tests core =
    [check_call core None (CallParse ''plain-ok'' 0 localhost) (is_text ''plain-ok''),
     check_call core None (CallParse ''plain-ok'' 10000 localhost) (is_text ''plain-ok''),
     check_call core None (CallParse ''plain-ok'' 10001 localhost) is_null,
     check_call core None (CallParse ''plain-ok'' (-1) localhost) is_null,
     check_call core None (CallParseWithConfig ''plain-ok'' (-1) localhost [] 0) is_null,
     check_call core None (CallParseWithConfigEx ''plain-ok'' 10001 localhost [] 0 0) is_null,
     check_call core None (CallParseWithConfigCtx ''plain-ok'' (-1) localhost [] 0 0 [] []) is_null,
     check_call core None (CallParseWithConfig ''plain-ok'' 0 localhost [] 0) (is_text ''plain-ok'')]"

definition json_tests :: "test_core \<Rightarrow> (test_state \<Rightarrow> test_state) list" where
  "json_tests core =
    [check_json core None (is_text ''plain-ok''),
     check_json core (Some []) (is_text ''plain-ok''),
     check_json core (Some ''{\"timeoutSeconds\":10}'') not_null,
     check_json core (Some ''{\"timeoutSeconds\":0}'') is_null,
     check_json core (Some ''{\"timeoutSeconds\":-1}'') is_null,
     check_json core (Some ''{\"timeoutSeconds\":86400}'') not_null,
     check_json core (Some ''{\"timeoutSeconds\":86401}'') is_null,
     check_json core (Some ''{\"timeoutSeconds\":\"10\"}'') is_null,
     check_json core (Some ''{\"maxDepth\":'') is_null,
     check_json core (Some ''{\"maxDepth\":0}'') (is_text ''plain-ok''),
     check_json core (Some ''{\"maxDepth\":10001}'') is_null,
     check_json core (Some ''{\"futureOption\":true,\"timeoutSeconds\":5}'') not_null]"

text \<open>The include of a fragment; \<open>snprintf\<close> has room for every port.\<close>

definition include_page :: "nat \<Rightarrow> string" where
  "include_page port = ''<esi:include src=\"http://127.0.0.1:'' @ show_nat port @ ''/frag\" />''"

definition failed_page :: "nat \<Rightarrow> string" where
  "failed_page port = ''before'' @ include_page port @ ''after''"

text \<open>With a server, a port; when it does not start the test has failed.\<close>

definition with_server :: "nat option \<Rightarrow> (nat \<Rightarrow> test_state \<Rightarrow> test_state) \<Rightarrow> test_state \<Rightarrow> test_state" where
  "with_server start body s = (case start of None \<Rightarrow> check False s | Some port \<Rightarrow> body port s)"

definition include_tests :: "test_core \<Rightarrow> nat option \<Rightarrow> nat option \<Rightarrow> nat option \<Rightarrow> (test_state \<Rightarrow> test_state) list" where
  "include_tests core start1 start2 start3 =
    [with_server start1 (\<lambda>port. check_call core (Some port)
       (CallParseJson (include_page port)
          ''{\"maxDepth\":5,\"defaultUrl\":\"http://127.0.0.1/\",\"blockPrivateIPs\":false,\"timeoutSeconds\":10}'')
       (has_text ''FRAGMENT-OK'')),
     with_server start2 (\<lambda>port. check_call core None
       (CallParseJson (failed_page port)
          ''{\"maxDepth\":5,\"blockPrivateIPs\":false,\"includeErrorMarker\":\"<!-- ESI_MARKER -->\"}'')
       (has_text ''<!-- ESI_MARKER -->'')),
     with_server start3 (\<lambda>port. check_call core None
       (CallParseJson (failed_page port) ''{\"maxDepth\":5,\"blockPrivateIPs\":false}'')
       (is_text ''beforeafter''))]"

definition bypass_tests :: "test_core \<Rightarrow> nat option \<Rightarrow> (test_state \<Rightarrow> test_state) list" where
  "bypass_tests core start =
    [api (CallInitHTTPClient 1),
     with_server start (\<lambda>port s.
       foldl (\<lambda>s t. t s) s
         [check_call core (Some port) (CallParseWithConfigEx (include_page port) 5 localhost ''127.0.0.1'' 1 1)
            (has_text ''FRAGMENT-OK''),
          check_call core (Some port) (CallParseWithConfigEx (include_page port) 5 localhost ''127.0.0.1'' 1 0)
            (lacks_text ''FRAGMENT-OK''),
          check_call core (Some port) (CallParseWithConfigEx (include_page port) 5 localhost ''example.com'' 1 1)
            (lacks_text ''FRAGMENT-OK''),
          check_call core (Some port) (CallParseWithConfigEx (include_page port) 5 localhost [] 1 1)
            (lacks_text ''FRAGMENT-OK''),
          check_call core (Some port) (CallParseWithConfig ''shared client intact'' 5 localhost [] 1)
            (is_text ''shared client intact'')]),
     api CallFreeHTTPClient]"

text \<open>\<open>main\<close>: the number of failures.\<close>

definition test_main :: "test_core \<Rightarrow> nat option \<times> nat option \<times> nat option \<times> nat option \<Rightarrow> nat" where
  "test_main core starts =
    (case starts of (start1, start2, start3, start4) \<Rightarrow>
       snd (foldl (\<lambda>s t. t s) (go_initial, 0)
         (client_tests core @ cache_tests core @ cache_config_tests core @ depth_tests core @ json_tests core
          @ include_tests core start1 start2 start3 @ bypass_tests core start4)))"

subsection \<open>What the core is documented to do\<close>

text \<open>The dial to the loopback address: its host must be allowed, and the address policy is that of
  the shared client's transport or, without one, that of the configuration with its exception.\<close>

definition loopback_dial :: "esi_config \<Rightarrow> bool" where
  "loopback_dial cfg \<longleftrightarrow>
     (ec_allowed_hosts cfg = [] \<or> ''127.0.0.1'' \<in> set (ec_allowed_hosts cfg))
     \<and> (case ec_http_client cfg of
          Some (bp, t) \<Rightarrow> \<not> bp
        | None \<Rightarrow> \<not> ec_block_private_ips cfg \<or> ec_allow_private cfg \<and> ''127.0.0.1'' \<in> set (ec_allowed_hosts cfg))"

definition plain_page :: "string \<Rightarrow> bool" where
  "plain_page p \<longleftrightarrow> CHR ''<'' \<notin> set p \<and> CHR ''$'' \<notin> set p \<and> CHR 0x00 \<notin> set p"

text \<open>
  The configurations under which the fragment, and the marker in its place, arrive as they are: at least
  a second and one level of includes, a host list of the tests, no limit on the size of a response, no
  cache that may hold another answer, and a marker that is itself no ESI.
\<close>

definition plain_include :: "esi_config \<Rightarrow> bool" where
  "plain_include cfg \<longleftrightarrow> 0 < ec_max_depth cfg \<and> 1000000000 \<le> ec_timeout cfg \<and> ec_timeout cfg < 2 ^ 63
     \<and> ec_max_response_size cfg = 0 \<and> ec_allowed_hosts cfg \<in> {[], [''127.0.0.1''], [''example.com'']}
     \<and> ec_cache cfg = None \<and> \<not> ec_parse_on_header cfg
     \<and> \<not> contains (ec_include_error_marker cfg) ''<esi:'' \<and> \<not> contains (ec_include_error_marker cfg) ''<!--esi''
     \<and> \<not> contains (ec_include_error_marker cfg) ''$(''"

definition documented_core :: "test_core \<Rightarrow> bool" where
  "documented_core core \<longleftrightarrow>
     (\<forall>port page cfg. plain_page page \<longrightarrow> core port (page, cfg) = page)
     \<and> (\<forall>port cfg. plain_include cfg \<longrightarrow>
          core (Some port) (include_page port, cfg)
            = (if loopback_dial cfg then ''FRAGMENT-OK'' else ec_include_error_marker cfg)
          \<and> core None (failed_page port, cfg) = ''before'' @ ec_include_error_marker cfg @ ''after'')"

lemma reply_plain: "documented_core core \<Longrightarrow> plain_page page \<Longrightarrow> reply core port (Some (page, cfg)) = Some page"
  by (simp add: documented_core_def reply_def plain_page_def c_string_id)

lemma reply_None [simp]: "reply core port None = None" "reply core port (Some c) \<noteq> None"
  by (simp_all add: reply_def)

lemma default_plain: "documented_core core \<Longrightarrow> plain_page page \<Longrightarrow> check_default core page s = s"
  by (simp add: check_default_def go_parse_default_def reply_plain check_def)

lemma check_True [simp]: "check True s = s"
  by (simp add: check_def)

lemma init_codes:
  "check_init_cache b n t rc (st, k) = check (fst (go_init_cache b n t st) = rc) (snd (go_init_cache b n t st), k)"
  "check_init_config b n t cfg rc (st, k)
     = check (fst (go_init_cache_with_config b n t cfg st) = rc) (snd (go_init_cache_with_config b n t cfg st), k)"
  by (simp_all add: check_init_cache_def check_init_config_def case_prod_unfold Let_def)

text \<open>Between the groups the library holds neither a client nor a cache.\<close>

definition idle :: "nat \<Rightarrow> go_state" where
  "idle k = go_initial\<lparr>gs_made := k\<rparr>"

lemma idle_fields [simp]: "gs_client (idle k) = None" "gs_cache (idle k) = None" "gs_cache_ttl (idle k) = 0"
  by (simp_all add: idle_def go_initial_def)

lemma plain_pages:
  "plain_page ''hello world''" "plain_page ''test input''" "plain_page ''after free''" "plain_page ''reinit test''"
  "plain_page ''with cache''" "plain_page ''post cache config''" "plain_page ''plain-ok''"
  "plain_page ''shared client intact''"
  by code_simp+

lemma client_tests_pass:
  assumes "documented_core core"
  shows "foldl (\<lambda>s t. t s) (go_initial, n) (client_tests core) = (idle 0, n)"
proof -
  have r: "not_null (reply core None (go_core_call id st (CallParseWithConfig page 5 u h b)))" for st page u h b
    by (simp add: not_null_def go_parse_with_config_def go_parse_with_config_ex_def parse_with_config_internal_def
        resolve_max_depth_def validate_max_depth_def go_limits Let_def)
  show ?thesis
    using r by (simp add: client_tests_def default_plain [OF assms] plain_pages check_call_def api_def
        go_init_http_client_def go_free_http_client_def go_initial_def idle_def)
qed

lemma cache_tests_pass:
  assumes "documented_core core"
  shows "foldl (\<lambda>s t. t s) (idle k, n) (cache_tests core) = (idle (Suc k), n)"
  by (simp add: cache_tests_def default_plain [OF assms] plain_pages init_codes api_def go_init_cache_def
      new_cache_def go_free_cache_def idle_def go_initial_def Let_def)

lemma depth_tests_pass:
  assumes "documented_core core"
  shows "foldl (\<lambda>s t. t s) s (depth_tests core) = s"
  by (simp add: depth_tests_def check_call_def go_parse_def go_parse_with_config_def go_parse_with_config_ex_def
      go_parse_with_config_ctx_def parse_with_config_internal_def resolve_max_depth_def validate_max_depth_def
      go_limits Let_def is_text_def is_null_def reply_plain [OF assms] plain_pages)

subsection \<open>Configuration texts\<close>

lemma members_read:
  assumes "shallow 10000 (JObj ms)"
  shows "go_read (render quote_full (JObj ms)) = Some (GObj (lifted ms))"
  using assms by (simp only: go_read_render lift.simps lifted_def)

lemma test_texts:
  "''{}'' = render quote_full (JObj [])"
  "''{\"redisAddr\":\"127.0.0.1:1\",\"redisDB\":2}''
     = render quote_full (JObj [(''redisAddr'', JStr ''127.0.0.1:1''), (''redisDB'', JInt 2)])"
  "''{\"servers\":[\"127.0.0.1:11211\"]}'' = render quote_full (servers_json [''127.0.0.1:11211''])"
  by code_simp+

lemma test_malformed: "go_read ''not json'' = None" "go_read ''{\"maxDepth\":'' = None"
  by code_simp+

lemma test_memcached:
  "parse_memcached_config ''{}'' = None"
  "parse_memcached_config ''{\"servers\":[\"127.0.0.1:11211\"]}'' = Some [go_utf8 ''127.0.0.1:11211'']"
proof -
  show "parse_memcached_config ''{}'' = None"
    using members_read [of "[]"] by (simp add: parse_memcached_config_def test_texts(1) lifted_simps del: render.simps)
  show "parse_memcached_config ''{\"servers\":[\"127.0.0.1:11211\"]}'' = Some [go_utf8 ''127.0.0.1:11211'']"
    unfolding test_texts(3) by (subst memcached_decodes) simp_all
qed

lemma test_redis:
  "parse_redis_config ''not json'' = None"
  "parse_redis_config ''{\"redisAddr\":\"127.0.0.1:1\",\"redisDB\":2}'' = Some (''127.0.0.1:1'', [], 2)"
proof -
  let ?ms = "[(''redisAddr'', JStr ''127.0.0.1:1''), (''redisDB'', JInt 2)]"
  let ?t = "render quote_full (JObj ?ms)"
  show "parse_redis_config ''not json'' = None"
    by (simp add: parse_redis_config_def test_malformed)
  have v: "utf8_valid ''127.0.0.1:1''" by (rule ascii_valid) code_simp
  have r: "go_read ?t = Some (GObj (lifted ?ms))" by (rule members_read) simp
  have i: "into_redis (lifted ?ms) \<lparr> rd_addr = [], rd_password = [], rd_db = None \<rparr>
      = Some \<lparr> rd_addr = ''127.0.0.1:1'', rd_password = [], rd_db = Some 2 \<rparr>"
    using v small_Some [of 2] by (simp add: lifted_simps key_quotes into_string_def go_utf8_valid small_def in_range_def del: render.simps)
  have n: "?t \<noteq> []" by simp
  show "parse_redis_config ''{\"redisAddr\":\"127.0.0.1:1\",\"redisDB\":2}'' = Some (''127.0.0.1:1'', [], 2)"
    unfolding test_texts(2) parse_redis_config_def r using i n by (simp del: render.simps)
qed

lemma cache_config_tests_pass:
  assumes "documented_core core"
  shows "foldl (\<lambda>s t. t s) (idle k, n) (cache_config_tests core) = (idle (k + 4), n)"
  by (simp add: cache_config_tests_def default_plain [OF assms] plain_pages init_codes api_def
      go_init_cache_with_config_def init_cache_from_config_def test_redis test_memcached
      new_cache_def go_free_cache_def idle_def go_initial_def Let_def)

lemma blob_config:
  assumes "shallow 10000 (JObj ms)"
  shows "parse_config_from_json (render quote_full (JObj ms)) = into_members (lifted ms) zero_config"
  using members_read [OF assms] by (simp add: parse_config_from_json_def del: render.simps)

lemma digit_texts:
  "digit_char 0 = CHR ''0''" "digit_char 1 = CHR ''1''" "digit_char 4 = CHR ''4''" "digit_char 6 = CHR ''6''"
  "digit_char 8 = CHR ''8''"
  by code_simp+

lemma number_texts:
  "show_int 0 = ''0''" "show_int 10 = ''10''" "show_int (-1) = ''-1''" "show_int 86400 = ''86400''"
  "show_int 86401 = ''86401''" "show_int 10001 = ''10001''"
  by (simp_all add: show_int_def show_nat.simps digit_texts digit_texts(2) [simplified])

lemma test_keys: "quote_full ''timeoutSeconds'' = ''\"timeoutSeconds\"''" "quote_full ''maxDepth'' = ''\"maxDepth\"''"
  by code_simp+

lemma one_number_texts:
  "''{\"timeoutSeconds\":10}'' = render quote_full (JObj [(''timeoutSeconds'', JInt 10)])"
  "''{\"timeoutSeconds\":0}'' = render quote_full (JObj [(''timeoutSeconds'', JInt 0)])"
  "''{\"timeoutSeconds\":-1}'' = render quote_full (JObj [(''timeoutSeconds'', JInt (-1))])"
  "''{\"timeoutSeconds\":86400}'' = render quote_full (JObj [(''timeoutSeconds'', JInt 86400)])"
  "''{\"timeoutSeconds\":86401}'' = render quote_full (JObj [(''timeoutSeconds'', JInt 86401)])"
  "''{\"maxDepth\":0}'' = render quote_full (JObj [(''maxDepth'', JInt 0)])"
  "''{\"maxDepth\":10001}'' = render quote_full (JObj [(''maxDepth'', JInt 10001)])"
  by (simp_all add: test_keys number_texts)

lemma other_texts:
  "''{\"timeoutSeconds\":\"10\"}'' = render quote_full (JObj [(''timeoutSeconds'', JStr ''10'')])"
  "''{\"futureOption\":true,\"timeoutSeconds\":5}''
     = render quote_full (JObj [(''futureOption'', JBool True), (''timeoutSeconds'', JInt 5)])"
  "''{\"maxDepth\":5,\"defaultUrl\":\"http://127.0.0.1/\",\"blockPrivateIPs\":false,\"timeoutSeconds\":10}''
     = render quote_full (JObj [(''maxDepth'', JInt 5), (''defaultUrl'', JStr ''http://127.0.0.1/''),
         (''blockPrivateIPs'', JBool False), (''timeoutSeconds'', JInt 10)])"
  "''{\"maxDepth\":5,\"blockPrivateIPs\":false,\"includeErrorMarker\":\"<!-- ESI_MARKER -->\"}''
     = render quote_full (JObj [(''maxDepth'', JInt 5), (''blockPrivateIPs'', JBool False),
         (''includeErrorMarker'', JStr ''<!-- ESI_MARKER -->'')])"
  "''{\"maxDepth\":5,\"blockPrivateIPs\":false}''
     = render quote_full (JObj [(''maxDepth'', JInt 5), (''blockPrivateIPs'', JBool False)])"
  by code_simp+

lemma future_key [key_quotes]: "fold_key (go_utf8 ''futureOption'') = ''futureoption''"
  by (subst fold_key_literal; code_simp)

lemma one_number:
  assumes "- (2 ^ 63) \<le> i" and "i < 2 ^ 63"
  shows "parse_config_from_json (render quote_full (JObj [(''timeoutSeconds'', JInt i)]))
      = Some (zero_config\<lparr>pc_timeout_seconds := Some i\<rparr>)"
    and "parse_config_from_json (render quote_full (JObj [(''maxDepth'', JInt i)]))
      = Some (zero_config\<lparr>pc_max_depth := Some i\<rparr>)"
proof -
  have s: "into_int_ptr (GNum (show_int i)) = Some (Some i)"
    using assms by (intro small_Some) (simp add: small_def in_range_def)
  show "parse_config_from_json (render quote_full (JObj [(''timeoutSeconds'', JInt i)]))
      = Some (zero_config\<lparr>pc_timeout_seconds := Some i\<rparr>)"
    by (subst blob_config) (simp_all add: lifted_simps key_quotes into_config_def s del: render.simps)
  show "parse_config_from_json (render quote_full (JObj [(''maxDepth'', JInt i)]))
      = Some (zero_config\<lparr>pc_max_depth := Some i\<rparr>)"
    by (subst blob_config) (simp_all add: lifted_simps key_quotes into_config_def s del: render.simps)
qed

lemma small_fits: "into_int_ptr (GNum (show_int 5)) = Some (Some 5)" "into_int_ptr (GNum (show_int 10)) = Some (Some 10)"
  by (simp_all add: small_Some small_def in_range_def)

lemma string_is_no_int: "into_int_ptr (GStr s) = None"
  by (simp add: into_int_ptr_def)

lemma no_configs:
  "parse_config_from_json ''{\"timeoutSeconds\":\"10\"}'' = None"
  "parse_config_from_json ''{\"maxDepth\":'' = None"
proof -
  show "parse_config_from_json ''{\"timeoutSeconds\":\"10\"}'' = None"
    unfolding other_texts
    by (subst blob_config) (simp_all add: lifted_simps key_quotes into_config_def string_is_no_int del: render.simps)
  show "parse_config_from_json ''{\"maxDepth\":'' = None"
    by (simp add: parse_config_from_json_def test_malformed)
qed

lemma some_configs:
  "parse_config_from_json ''{}'' = Some zero_config"
  "parse_config_from_json ''{\"futureOption\":true,\"timeoutSeconds\":5}''
     = Some (zero_config\<lparr>pc_timeout_seconds := Some 5\<rparr>)"
  "parse_config_from_json
     ''{\"maxDepth\":5,\"defaultUrl\":\"http://127.0.0.1/\",\"blockPrivateIPs\":false,\"timeoutSeconds\":10}''
     = Some (zero_config\<lparr>pc_max_depth := Some 5, pc_default_url := go_utf8 ''http://127.0.0.1/'',
               pc_block_private_ips := Some False, pc_timeout_seconds := Some 10\<rparr>)"
  "parse_config_from_json ''{\"maxDepth\":5,\"blockPrivateIPs\":false,\"includeErrorMarker\":\"<!-- ESI_MARKER -->\"}''
     = Some (zero_config\<lparr>pc_max_depth := Some 5, pc_block_private_ips := Some False,
               pc_include_error_marker := go_utf8 ''<!-- ESI_MARKER -->''\<rparr>)"
  "parse_config_from_json ''{\"maxDepth\":5,\"blockPrivateIPs\":false}''
     = Some (zero_config\<lparr>pc_max_depth := Some 5, pc_block_private_ips := Some False\<rparr>)"
  unfolding other_texts test_texts(1)
  by (subst blob_config; simp add: lifted_simps key_quotes into_config_def into_string_def into_bool_ptr_def
      small_fits del: render.simps)+

subsection \<open>The tests of \<open>ParseJson\<close>\<close>

lemma internal_plain:
  assumes "documented_core core" and "plain_page page"
  shows "reply core port (parse_with_config_internal ord st page d u hs bp ap tm cx xo)
    = (if validate_max_depth d then Some page else None)"
  using assms by (simp add: parse_with_config_internal_def resolve_max_depth_def reply_plain Let_def)

definition bounds_ok :: "parse_config \<Rightarrow> bool" where
  "bounds_ok c \<longleftrightarrow> resolved_max_depth c \<noteq> None \<and> resolved_timeout c \<noteq> None \<and> resolved_max_response_size c \<noteq> None
     \<and> resolved_max_concurrent c \<noteq> None \<and> resolved_max_workers c \<noteq> None"

lemma json_plain:
  assumes "documented_core core" and "plain_page page"
  shows "reply core port (go_parse_json ord st page cfg)
    = (case parse_config_from_json (if str_of cfg = [] then ''{}'' else str_of cfg) of
         None \<Rightarrow> None | Some c \<Rightarrow> if bounds_ok c then Some page else None)"
proof -
  have "validate_max_depth d" if "resolved_max_depth c = Some d" for c d
    using that by (auto simp: resolved_max_depth_def Let_def split: if_splits)
  then have v: "resolved_max_depth c \<noteq> None \<Longrightarrow> validate_max_depth (the (resolved_max_depth c))" for c by auto
  show ?thesis
  proof (cases "parse_config_from_json (if str_of cfg = [] then ''{}'' else str_of cfg)")
    case None
    then show ?thesis by (simp add: go_parse_json_def Let_def)
  next
    case (Some c)
    show ?thesis
    proof (cases "bounds_ok c")
      case True
      then show ?thesis using Some v [of c]
        by (auto simp: go_parse_json_def Let_def bounds_ok_def internal_plain [OF assms])
    next
      case False
      then consider "resolved_max_depth c = None" | "resolved_timeout c = None" | "resolved_max_response_size c = None"
        | "resolved_max_concurrent c = None" | "resolved_max_workers c = None"
        by (auto simp: bounds_ok_def)
      then have "go_parse_json ord st page cfg = None"
        using Some by cases (simp_all add: go_parse_json_def Let_def split: option.split)
      then show ?thesis using Some False by simp
    qed
  qed
qed

lemma test_bounds:
  "bounds_ok zero_config"
  "bounds_ok (zero_config\<lparr>pc_timeout_seconds := Some t\<rparr>) \<longleftrightarrow> 1 \<le> t \<and> t \<le> 86400"
  "bounds_ok (zero_config\<lparr>pc_max_depth := Some d\<rparr>) \<longleftrightarrow> 0 \<le> d \<and> d \<le> 10000"
  by (auto simp: bounds_ok_def zero_config_def resolved_max_depth_def resolved_timeout_def resolve_timeout_def
      resolved_max_response_size_def resolved_max_concurrent_def resolved_max_workers_def
      validate_max_depth_def validate_timeout_def go_limits Let_def)

lemma number_configs:
  "parse_config_from_json ''{\"timeoutSeconds\":10}'' = Some (zero_config\<lparr>pc_timeout_seconds := Some 10\<rparr>)"
  "parse_config_from_json ''{\"timeoutSeconds\":0}'' = Some (zero_config\<lparr>pc_timeout_seconds := Some 0\<rparr>)"
  "parse_config_from_json ''{\"timeoutSeconds\":-1}'' = Some (zero_config\<lparr>pc_timeout_seconds := Some (-1)\<rparr>)"
  "parse_config_from_json ''{\"timeoutSeconds\":86400}'' = Some (zero_config\<lparr>pc_timeout_seconds := Some 86400\<rparr>)"
  "parse_config_from_json ''{\"timeoutSeconds\":86401}'' = Some (zero_config\<lparr>pc_timeout_seconds := Some 86401\<rparr>)"
  "parse_config_from_json ''{\"maxDepth\":0}'' = Some (zero_config\<lparr>pc_max_depth := Some 0\<rparr>)"
  "parse_config_from_json ''{\"maxDepth\":10001}'' = Some (zero_config\<lparr>pc_max_depth := Some 10001\<rparr>)"
  unfolding one_number_texts by (rule one_number; simp)+

lemma str_of_test [simp]: "str_of None = []" "str_of (Some s) = s"
  by (simp_all add: str_of_def)

lemma json_tests_pass:
  assumes "documented_core core"
  shows "foldl (\<lambda>s t. t s) s (json_tests core) = s"
  by (simp add: json_tests_def check_json_def json_plain [OF assms] plain_pages number_configs some_configs no_configs
      test_bounds is_text_def is_null_def not_null_def)

subsection \<open>The tests with a fragment server\<close>

lemma ascii_texts: "go_utf8 ''http://127.0.0.1/'' = ''http://127.0.0.1/''"
  "go_utf8 ''<!-- ESI_MARKER -->'' = ''<!-- ESI_MARKER -->''"
  by (rule go_utf8_valid, rule ascii_valid, code_simp)+

lemma space_starts_high:
  assumes "u \<in> set go_space_bytes"
  shows "\<exists>x r. u = x # r \<and> 128 \<le> byte x"
proof -
  have "map byte u \<in> set (map (map byte) go_space_bytes)" using assms by simp
  then have "128 \<le> hd (map byte u) \<and> map byte u \<noteq> []"
    unfolding go_space_bytes_values by (auto simp: e280_thirds_def)
  then show ?thesis by (cases u) auto
qed

definition solid :: "char \<Rightarrow> bool" where
  "solid c \<longleftrightarrow> 32 < byte c \<and> byte c < 128"

lemma solid_len: "solid c \<Longrightarrow> space_len (c # cs) = 0"
proof -
  assume c: "solid c"
  have "find (\<lambda>u. prefix u (c # cs)) go_space_bytes = None"
    using c space_starts_high by (fastforce simp: find_None_iff solid_def)
  then show ?thesis using c by (simp add: space_len_def solid_def)
qed

lemma solid_fields: "list_all solid s \<Longrightarrow> fields_from 0 tok s = end_field (tok @ s)"
  by (induction s arbitrary: tok) (simp_all add: solid_len)

lemma go_fields_texts:
  "go_fields [] = []" "go_fields ''127.0.0.1'' = [''127.0.0.1'']" "go_fields ''example.com'' = [''example.com'']"
proof -
  have a: "list_all solid ''127.0.0.1''" and b: "list_all solid ''example.com''" by code_simp+
  show "go_fields [] = []" by (simp add: go_fields_def end_field_def)
  show "go_fields ''127.0.0.1'' = [''127.0.0.1'']" using solid_fields [OF a] by (simp add: go_fields_def end_field_def)
  show "go_fields ''example.com'' = [''example.com'']" using solid_fields [OF b] by (simp add: go_fields_def end_field_def)
qed

lemma contains_text: "contains s s" "contains (a @ s @ b) s"
  unfolding contains_iff by (rule exI [of _ "[]"], rule exI [of _ "[]"], simp) (rule exI [of _ a], rule exI [of _ b], simp)

lemma plain_texts: "c_string ''FRAGMENT-OK'' = ''FRAGMENT-OK''" "c_string [] = []" "c_string ''beforeafter'' = ''beforeafter''"
  "c_string ''before<!-- ESI_MARKER -->after'' = ''before<!-- ESI_MARKER -->after''"
  by code_simp+

lemma include_answers:
  assumes "documented_core core" and "plain_include cfg"
  shows "core (Some port) (include_page port, cfg) = (if loopback_dial cfg then ''FRAGMENT-OK'' else ec_include_error_marker cfg)"
    and "core None (failed_page port, cfg) = ''before'' @ ec_include_error_marker cfg @ ''after''"
  using assms by (auto simp: documented_core_def)

text \<open>The call of the core that an accepted blob of the tests makes when the library is idle.\<close>

lemma blob_call:
  assumes "parse_config_from_json raw = Some c" and "raw \<noteq> []"
    and "c = zero_config\<lparr>pc_max_depth := Some 5, pc_block_private_ips := Some False, pc_default_url := u,
               pc_include_error_marker := m, pc_timeout_seconds := t\<rparr>"
    and "t = None \<or> t = Some 10"
    and "\<not> contains m ''<esi:''" and "\<not> contains m ''<!--esi''" and "\<not> contains m ''$(''"
  shows "\<exists>cfg. go_parse_json ord (idle k) page (Some raw) = Some (page, cfg) \<and> plain_include cfg
     \<and> ec_include_error_marker cfg = m \<and> ec_allowed_hosts cfg = []
     \<and> ec_http_client cfg = None \<and> \<not> ec_block_private_ips cfg"
  using assms
  by (auto simp: go_parse_json_def zero_config_def resolved_max_depth_def resolved_timeout_def resolve_timeout_def
      resolved_max_response_size_def resolved_max_concurrent_def resolved_max_workers_def resolved_block_private_ips_def
      validate_max_depth_def validate_timeout_def go_limits Let_def parse_with_config_internal_def resolve_max_depth_def
      apply_shared_config_def zero_esi_config_def c_string_def go_allowed_hosts_def go_fields_texts go_seconds_small
      plain_include_def simp del: contains.simps)

definition not_started :: "nat option \<Rightarrow> nat" where
  "not_started start = (case start of None \<Rightarrow> 1 | Some port \<Rightarrow> 0)"

lemma with_server_passes:
  assumes "\<And>port. body port (st, n) = (st, n)"
  shows "with_server start body (st, n) = (st, n + not_started start)"
  using assms by (cases start) (simp_all add: with_server_def not_started_def check_def)

lemma loopback_open:
  "ec_allowed_hosts cfg = [] \<Longrightarrow> ec_http_client cfg = None \<Longrightarrow> \<not> ec_block_private_ips cfg \<Longrightarrow> loopback_dial cfg"
  by (simp add: loopback_dial_def)

lemma include_tests_pass:
  assumes d: "documented_core core"
  shows "foldl (\<lambda>s t. t s) (idle k, n) (include_tests core s1 s2 s3)
    = (idle k, n + not_started s1 + not_started s2 + not_started s3)"
proof -
  let ?b1 = "''{\"maxDepth\":5,\"defaultUrl\":\"http://127.0.0.1/\",\"blockPrivateIPs\":false,\"timeoutSeconds\":10}''"
  let ?b2 = "''{\"maxDepth\":5,\"blockPrivateIPs\":false,\"includeErrorMarker\":\"<!-- ESI_MARKER -->\"}''"
  let ?b3 = "''{\"maxDepth\":5,\"blockPrivateIPs\":false}''"
  have 1: "check_call core (Some port) (CallParseJson (include_page port) ?b1) (has_text ''FRAGMENT-OK'') (idle k, m)
      = (idle k, m)" for port m
  proof -
    obtain cfg where c: "go_parse_json id (idle k) (include_page port) (Some ?b1) = Some (include_page port, cfg)"
      and o: "plain_include cfg" "ec_allowed_hosts cfg = []" "ec_http_client cfg = None"
        "\<not> ec_block_private_ips cfg"
      using blob_call [OF some_configs(3), where u = "go_utf8 ''http://127.0.0.1/''" and m = "[]" and t = "Some 10" and ord = id and k = k
        and page = "include_page port"]
      by (auto simp: zero_config_def)
    show ?thesis
      using c o include_answers(1) [OF d, of cfg port] loopback_open [of cfg]
      by (simp add: check_call_def reply_def has_text_def plain_texts contains_text(1))
  qed
  have 2: "check_call core None (CallParseJson (failed_page port) ?b2) (has_text ''<!-- ESI_MARKER -->'') (idle k, m)
      = (idle k, m)" for port m
  proof -
    obtain cfg where c: "go_parse_json id (idle k) (failed_page port) (Some ?b2) = Some (failed_page port, cfg)"
      and o: "plain_include cfg" "ec_include_error_marker cfg = ''<!-- ESI_MARKER -->''"
      using blob_call [OF some_configs(4), where u = "[]" and m = "''<!-- ESI_MARKER -->''" and t = "None" and ord = id and k = k
        and page = "failed_page port"]
      by (auto simp: zero_config_def ascii_texts)
    show ?thesis
      using c o include_answers(2) [OF d, of cfg port] contains_text(2) [of "''before''" "''<!-- ESI_MARKER -->''" "''after''"]
      by (simp add: check_call_def reply_def has_text_def plain_texts del: contains.simps)
  qed
  have 3: "check_call core None (CallParseJson (failed_page port) ?b3) (is_text ''beforeafter'') (idle k, m)
      = (idle k, m)" for port m
  proof -
    obtain cfg where c: "go_parse_json id (idle k) (failed_page port) (Some ?b3) = Some (failed_page port, cfg)"
      and o: "plain_include cfg" "ec_include_error_marker cfg = []"
      using blob_call [OF some_configs(5), where u = "[]" and m = "[]" and t = "None" and ord = id and k = k
        and page = "failed_page port"]
      by (auto simp: zero_config_def)
    show ?thesis
      using c o include_answers(2) [OF d, of cfg port]
      by (simp add: check_call_def reply_def is_text_def plain_texts)
  qed
  show ?thesis
    by (simp add: include_tests_def with_server_passes 1 2 3)
qed

lemma bypass_call:
  assumes "gs_client st = Some (True, t)" and "gs_cache st = None"
  shows "go_parse_with_config_ex ord st page 5 localhost hosts 1 ap
    = Some (page, zero_esi_config\<lparr>ec_default_url := localhost, ec_max_depth := 5, ec_timeout := 30000000000,
        ec_allowed_hosts := go_fields hosts, ec_block_private_ips := True, ec_allow_private := (ap \<noteq> 0),
        ec_http_client := (if ap \<noteq> 0 then None else Some (True, 30000000000))\<rparr>)"
  using assms
  by (simp add: go_parse_with_config_ex_def parse_with_config_internal_def resolve_max_depth_def validate_max_depth_def
      go_limits positional_options_def default_parse_timeout_def go_seconds_small go_allowed_hosts_def str_of_def
      apply_shared_config_def zero_esi_config_def Let_def)

lemma bypass_reply:
  assumes "documented_core core" and "gs_client st = Some (True, t)" and "gs_cache st = None"
    and "go_fields hosts \<in> {[], [''127.0.0.1''], [''example.com'']}"
  shows "reply core (Some port) (go_parse_with_config_ex ord st (include_page port) 5 localhost hosts 1 ap)
    = Some (if ap \<noteq> 0 \<and> ''127.0.0.1'' \<in> set (go_fields hosts) then ''FRAGMENT-OK'' else [])"
  using assms by (simp add: bypass_call [OF assms(2,3)] reply_def include_answers(1) plain_include_def loopback_dial_def plain_texts
      zero_esi_config_def)

lemma no_fragment: "\<not> contains [] ''FRAGMENT-OK''"
  by simp

lemma bypass_tests_pass:
  assumes "documented_core core"
  shows "foldl (\<lambda>s t. t s) (idle k, n) (bypass_tests core start) = (idle k, n + not_started start)"
proof -
  let ?st = "go_init_http_client 1 (idle k)"
  have st: "gs_client ?st = Some (True, 30000000000)" "gs_cache ?st = None" by simp_all
  have intact: "reply core port (go_parse_with_config ord s ''shared client intact'' 5 u h b) = Some ''shared client intact''"
    for port ord s u h b
    by (simp add: go_parse_with_config_def go_parse_with_config_ex_def internal_plain [OF assms] plain_pages
        validate_max_depth_def go_limits)
  have "go_free_http_client ?st = idle k"
    by (simp add: go_free_http_client_def go_init_http_client_def idle_def go_initial_def Let_def)
  then show ?thesis
    by (simp add: bypass_tests_def api_def with_server_passes check_call_def bypass_reply [OF assms st] intact
        go_fields_texts has_text_def lacks_text_def is_text_def contains_text(1) del: contains.simps(2))
qed

subsection \<open>The program\<close>

text \<open>The library passes its own test program: over any core that copies plain text and answers
  an include by whether the dial to the loopback address is allowed, \<open>main\<close> counts no failure apart
  from the fragment servers that did not start.\<close>

theorem documented_tests_pass:
  assumes "documented_core core"
  shows "test_main core (s1, s2, s3, s4) = not_started s1 + not_started s2 + not_started s3 + not_started s4"
  unfolding test_main_def
  by (simp add: client_tests_pass [OF assms] cache_tests_pass [OF assms] cache_config_tests_pass [OF assms]
      depth_tests_pass [OF assms] json_tests_pass [OF assms] include_tests_pass [OF assms] bypass_tests_pass [OF assms])

end
