(* ===== verification/Go_Suite.thy ===== *)
theory Go_Suite
  imports Go_Tests Go_Page
begin

text \<open>
  The test program of the library on the library with its own core: the core of \<open>Go_Page\<close> does what
  \<open>Go_Tests\<close> asks of a core, in a network where a name server, an HTTP server on the
  loopback address, \<open>net/url\<close> and \<open>encoding/xml\<close> behave as the tests expect.
\<close>

subsection \<open>Searching in a text with one bracket\<close>

lemma index_absent: "c \<notin> set s \<Longrightarrow> str_index (c # t) s = None"
  by (induction s) auto

lemma index_single: "c \<notin> set a \<Longrightarrow> str_index [c] (a @ c # r) = Some (length a)"
  by (induction a) auto

lemma index_one:
  "c \<notin> set a \<Longrightarrow> c \<notin> set r \<Longrightarrow> str_index (c # t) (a @ c # r) = (if prefix t r then Some (length a) else None)"
  by (induction a) (auto simp: index_absent)

lemma contains_one:
  "c \<notin> set a \<Longrightarrow> c \<notin> set r \<Longrightarrow> contains (a @ c # r) (c # t) \<longleftrightarrow> prefix t r"
  using index_one [of c a r t] str_index_None [of "c # t" "a @ c # r"] by (auto split: if_splits)

lemma contains_absent: "c \<notin> set s \<Longrightarrow> \<not> contains s (c # t)"
  using index_absent str_index_None by blast

subsection \<open>The pages of the tests\<close>

definition frag_url :: "nat \<Rightarrow> string" where
  "frag_url port = ''http://127.0.0.1:'' @ show_nat port @ ''/frag''"

text \<open>What follows the opening bracket of the include, up to the closing one.\<close>

definition include_rest :: "nat \<Rightarrow> string" where
  "include_rest port = ''esi:include src=\"http://127.0.0.1:'' @ show_nat port @ ''/frag\" /''"

lemma include_page_split: "include_page port = ''<'' @ include_rest port @ ''>''"
  by (simp add: include_page_def include_rest_def)

lemma digits_plain: "is_digit c \<Longrightarrow> c \<noteq> CHR ''<'' \<and> c \<noteq> CHR ''>'' \<and> c \<noteq> CHR ''$''"
  by (auto simp: is_digit_def)

lemma no_brackets:
  "CHR ''<'' \<notin> set (include_rest port)" "CHR ''>'' \<notin> set (include_rest port)" "CHR ''$'' \<notin> set (frag_url port)"
  using show_nat_digits [of port] digits_plain by (auto simp: include_rest_def frag_url_def)

lemma rest_prefix: "prefix t (include_rest port @ x) = prefix t (''esi:include src=\"http://127.0.0.1:'' @ show_nat port @ ''/frag\" /'' @ x)"
  by (simp add: include_rest_def)

lemma include_tokens:
  assumes "CHR ''<'' \<notin> set a" "CHR ''<'' \<notin> set b"
  shows "esi_tokenizer (unescape (a @ include_page port @ b))
    = (if a = [] then [] else [static_token a]) @ [tag_token ''include'' (include_page port), static_token b]"
proof -
  let ?r = "include_rest port @ ''>'' @ b"
  have s: "a @ include_page port @ b = a @ CHR ''<'' # ?r" by (simp add: include_page_split)
  have b': "CHR ''<'' \<notin> set ?r" using assms(2) no_brackets(1) by simp
  have i: "str_index (CHR ''<'' # t) (a @ include_page port @ b) = (if prefix t ?r then Some (length a) else None)" for t
    unfolding s by (rule index_one [OF assms(1) b'])
  have "\<not> prefix ''!--esi'' ?r" unfolding rest_prefix by simp
  then have "\<not> contains (a @ include_page port @ b) ''<!--esi''"
    unfolding str_index_None [symmetric] i by simp
  then have u: "unescape (a @ include_page port @ b) = a @ include_page port @ b" by (rule unescape_plain)
  have f: "first_tag tag_names (a @ include_page port @ b) None = Some (length a, ''include'')"
    by (simp add: tag_names_def open_tag_def i rest_prefix)
  have d: "drop (length a) (a @ include_page port @ b) = include_page port @ b" by simp
  have g: "str_index ''>'' (include_page port @ b) = Some (length (include_page port) - 1)"
    using index_single [of "CHR ''>''" "''<'' @ include_rest port" b] no_brackets(2) by (simp add: include_page_split)
  have "(include_page port @ b) ! (length (include_page port) - 1 - 1) = CHR ''/''"
    by (simp add: include_page_def nth_append)
  then have e: "tag_end ''include'' (include_page port @ b) = Some (length (include_page port))"
    by (simp add: tag_end_def g) (simp add: include_page_def)
  have n: "first_tag ts b None = None" for ts
    using index_absent [OF assms(2)] by (induction ts) (simp_all add: open_tag_def)
  have "esi_tokenizer b = [static_token b]" by (subst esi_tokenizer.simps) (simp add: n)
  then show ?thesis
    unfolding u by (subst esi_tokenizer.simps) (simp add: f e)
qed

lemma plain_no_esi: "plain_page page \<Longrightarrow> no_esi page"
  using contains_absent by (auto simp: plain_page_def no_esi_def)

subsection \<open>The network of the tests\<close>

definition frag_req :: "nat \<Rightarrow> url" where
  "frag_req port = \<lparr> u_scheme = ''http'', u_host = ''127.0.0.1'', u_text = frag_url port \<rparr>"

text \<open>A network with a fragment server on a port, or with none.\<close>

definition test_network :: "nat option \<Rightarrow> core_env \<Rightarrow> bool" where
  "test_network server env \<longleftrightarrow>
     equal_fold (ce_net env) ''127.0.0.1'' ''127.0.0.1'' \<and> \<not> equal_fold (ce_net env) ''127.0.0.1'' ''example.com''
     \<and> (\<forall>port. url_parse (ce_net env) (frag_url port) = Some (frag_req port))
     \<and> (\<forall>port. ce_xml env (include_page port) = Some (src_token (frag_url port)))
     \<and> (\<forall>path k. 0 \<le> ce_time env path k \<and> ce_time env path k < 1000000000)
     \<and> (\<forall>path. fw_slot (iw_src (ce_world env path)) \<and> (\<forall>n host. fw_dns (iw_src (ce_world env path)) n host = [[127, 0, 0, 1]])
          \<and> (\<forall>n port. fw_answer (iw_src (ce_world env path)) n (frag_req port) [[127, 0, 0, 1]] =
               (if server = Some port
                then Some \<lparr> rs_status = 200, rs_location = [], rs_edge_control = [], rs_body = ''FRAGMENT-OK'', rs_breaks = False \<rparr>
                else None)))"

lemma loopback_hosts:
  assumes "test_network server env" and "ec_allowed_hosts cfg \<in> {[], [''127.0.0.1''], [''example.com'']}"
  shows "list_ex (host_matches (ce_net env) ''127.0.0.1'') (ec_allowed_hosts cfg) \<longleftrightarrow> ''127.0.0.1'' \<in> set (ec_allowed_hosts cfg)"
  using assms by (auto simp: test_network_def host_matches_def trim_dot_def Let_def)

lemma loopback_private: "is_private_or_reserved_ip [127, 0, 0, 1]"
  by code_simp

text \<open>The include runs with what its page has left of the time.\<close>

definition test_config :: "core_env \<Rightarrow> nat list \<Rightarrow> nat \<Rightarrow> esi_config \<Rightarrow> esi_config" where
  "test_config env path port cfg =
    include_config (ce_dur env) (ce_time env path 0) (src_token (frag_url port)) (enter_parse (ce_cpus env) cfg)"

lemma test_config_fields:
  assumes "test_network server env" and "plain_include cfg"
  shows "0 < ec_timeout (test_config env path port cfg)"
    "ec_max_response_size (test_config env path port cfg) = 0" "ec_cache (test_config env path port cfg) = None"
    "ec_allowed_hosts (test_config env path port cfg) = ec_allowed_hosts cfg"
    "ec_http_client (test_config env path port cfg) = ec_http_client cfg"
    "ec_block_private_ips (test_config env path port cfg) = ec_block_private_ips cfg"
    "ec_allow_private (test_config env path port cfg) = ec_allow_private cfg"
    "ec_max_depth (test_config env path port cfg) = ec_max_depth cfg"
    "ec_parse_on_header (test_config env path port cfg) = False"
    "ec_include_error_marker (test_config env path port cfg) = ec_include_error_marker cfg"
proof -
  let ?t = "ce_time env path 0"
  have t: "0 \<le> ?t" "?t < 1000000000" using assms(1) by (simp_all add: test_network_def)
  have c: "1000000000 \<le> ec_timeout cfg" "ec_timeout cfg < 2 ^ 63" using assms(2) by (simp_all add: plain_include_def)
  then have s: "s64 (ec_timeout cfg - ?t) = ec_timeout cfg - ?t" using t by (intro s64_id) simp_all
  have "test_config env path port cfg = (enter_parse (ce_cpus env) cfg)\<lparr>ec_timeout := ec_timeout cfg - ?t\<rparr>"
    using s t c by (simp add: test_config_def include_config_def override_config_def override_timeout_def override_depth_def
        src_token_def with_elapsed_time_def enter_parse_def)
  then show "0 < ec_timeout (test_config env path port cfg)"
    "ec_max_response_size (test_config env path port cfg) = 0" "ec_cache (test_config env path port cfg) = None"
    "ec_allowed_hosts (test_config env path port cfg) = ec_allowed_hosts cfg"
    "ec_http_client (test_config env path port cfg) = ec_http_client cfg"
    "ec_block_private_ips (test_config env path port cfg) = ec_block_private_ips cfg"
    "ec_allow_private (test_config env path port cfg) = ec_allow_private cfg"
    "ec_max_depth (test_config env path port cfg) = ec_max_depth cfg"
    "ec_parse_on_header (test_config env path port cfg) = False"
    "ec_include_error_marker (test_config env path port cfg) = ec_include_error_marker cfg"
    using t c assms(2) by (simp_all add: enter_parse_def plain_include_def)
qed

subsection \<open>The include of the tests\<close>

lemma test_safe:
  assumes "test_network server env" and "plain_include cfg"
  shows "is_url_safe (ce_net env) (frag_url port) (test_config env path port cfg)
    = (if ec_allowed_hosts cfg = [] \<or> ''127.0.0.1'' \<in> set (ec_allowed_hosts cfg) then None else Some SsrfBlocked)"
proof -
  have h: "ec_allowed_hosts cfg \<in> {[], [''127.0.0.1''], [''example.com'']}"
    using assms(2) by (simp add: plain_include_def)
  have "url_parse (ce_net env) (frag_url port) = Some (frag_req port)" using assms(1) by (simp add: test_network_def)
  then show ?thesis
    using test_config_fields(4) [OF assms] loopback_hosts [OF assms(1) h]
    by (simp add: is_url_safe_def frag_req_def Let_def)
qed

lemma test_dial:
  assumes "test_network server env" and "plain_include cfg"
  shows "client_dials (fetch_client_for_url (ce_net env) (frag_url port) (test_config env path port cfg)) [127, 0, 0, 1]
    \<longleftrightarrow> (case ec_http_client cfg of
          Some (bp, t) \<Rightarrow> \<not> bp
        | None \<Rightarrow> \<not> ec_block_private_ips cfg \<or> ec_allow_private cfg \<and> ''127.0.0.1'' \<in> set (ec_allowed_hosts cfg))"
proof -
  have h: "ec_allowed_hosts cfg \<in> {[], [''127.0.0.1''], [''example.com'']}"
    using assms(2) by (simp add: plain_include_def)
  have "url_parse (ce_net env) (frag_url port) = Some (frag_req port)" using assms(1) by (simp add: test_network_def)
  then show ?thesis
    using test_config_fields(4-7) [OF assms] loopback_hosts [OF assms(1) h] loopback_private
    by (auto simp: fetch_client_for_url_def host_in_allowed_hosts_def frag_req_def safe_dialer_def Let_def split: option.split)
qed

lemma plain_edge: "\<not> is_esi_response []"
  by code_simp

lemma test_fetch:
  fixes env path port cfg
  defines "f \<equiv> single_fetch_url (ce_net env) (ce_key env) (test_config env path port cfg) (iw_src (ce_world env path)) (frag_url port)"
  assumes "test_network server env" and "plain_include cfg"
  shows "if loopback_dial cfg \<and> server = Some port then fd_result f = Inr (''FRAGMENT-OK'', False) else isl (fd_result f)"
proof -
  let ?c = "test_config env path port cfg"
  let ?w = "iw_src (ce_world env path)"
  note c = test_config_fields [OF assms(2,3), of path port]
  have p: "url_parse (ce_net env) (frag_url port) = Some (frag_req port)"
    and w: "fw_slot ?w" "fw_dns ?w n host = [[127, 0, 0, 1]]"
    and a: "fw_answer ?w n (frag_req port) [[127, 0, 0, 1]] = (if server = Some port
       then Some \<lparr> rs_status = 200, rs_location = [], rs_edge_control = [], rs_body = ''FRAGMENT-OK'', rs_breaks = False \<rparr>
       else None)" for n host
    using assms(2) by (simp_all add: test_network_def)
  have v: "validate_max_size (ec_max_response_size ?c)" by (simp add: c(2) validate_max_size_def)
  have q: "u_scheme (frag_req port) = ''http''" by (simp add: frag_req_def)
  have "f = (if is_url_safe (ce_net env) (frag_url port) ?c = None
      then fetch_upstream (ce_net env) ?c ?w [] (frag_url port) else fetch_fails SsrfBlocked)"
    using c(1,3) v w(1)
    by (simp add: f_def single_fetch_url_def p q fetch_checked_def validate_fetch_url_def fetch_cached_def fetch_key_def
        test_safe [OF assms(2,3)] Let_def)
  moreover have "fd_result (fetch_upstream (ce_net env) ?c ?w [] (frag_url port))
      = (if client_dials (fetch_client_for_url (ce_net env) (frag_url port) ?c) [127, 0, 0, 1] \<and> server = Some port
         then Inr (''FRAGMENT-OK'', False) else Inl UpstreamStatus)"
    by (simp add: fetch_upstream_def fetch_hops.simps p client_do_def w(2) a Let_def is_redirect_status_def read_body_def c(2)
        plain_edge)
  ultimately show ?thesis
    unfolding test_safe [OF assms(2,3)] test_dial [OF assms(2,3)]
    by (simp add: loopback_dial_def fetch_fails_def)
qed

lemma test_answer:
  fixes env path port cfg
  defines "token \<equiv> src_token (frag_url port)"
  assumes "test_network server env" and "plain_include cfg"
  shows "\<exists>e. to_string (ce_net env) (ce_key env) (ce_world env path) token (test_config env path port cfg)
    = (if loopback_dial cfg \<and> server = Some port then ''FRAGMENT-OK'' else ec_include_error_marker cfg, False, e)"
proof -
  let ?c = "test_config env path port cfg"
  let ?f = "single_fetch_url (ce_net env) (ce_key env) ?c (iw_src (ce_world env path)) (frag_url port)"
  have "\<not> parse_only ?c"
    using test_config_fields(8) [OF assms(2,3)] assms(3) by (simp add: parse_only_def plain_include_def)
  then have r: "in_result (include_fetch (ce_net env) (ce_key env) (ce_world env path) token ?c) = lift_error (fd_result ?f)"
    by (simp add: include_fetch_def token_def src_token_def fetch_fallback_def one_fetch_def Let_def)
  have "it_on_error token = []" "it_content token = []" by (simp_all add: token_def src_token_def)
  then show ?thesis
    using test_fetch [OF assms(2,3), of port path] test_config_fields(10) [OF assms(2,3), of path port]
    by (cases "fd_result ?f") (auto simp: to_string_def r lift_error_def split: if_splits)
qed

subsection \<open>The core does what the tests ask for\<close>

lemma test_include:
  assumes "test_network server env" and "plain_include cfg"
    and "\<And>c st s. no_esi s \<Longrightarrow> sub (Suc 0) path c st s = (s, st)"
  shows "\<exists>err st. run_include env sub False 0 path (enter_parse (ce_cpus env) cfg) start_state (include_page port)
    = (err, if loopback_dial cfg \<and> server = Some port then ''FRAGMENT-OK'' else ec_include_error_marker cfg, st)"
proof -
  let ?c = "enter_parse (ce_cpus env) cfg"
  let ?t = "src_token (frag_url port)"
  let ?x = "if loopback_dial cfg \<and> server = Some port then ''FRAGMENT-OK'' else ec_include_error_marker cfg"
  have "\<not> contains (frag_url port) ''$(''" by (rule contains_absent) (rule no_brackets)
  then have "evaluate start_state (frag_url port) = frag_url port" "evaluate start_state [] = []"
    by (simp_all add: evaluate_def evaluate_plain)
  then have t: "?t\<lparr>it_src := evaluate start_state (it_src ?t), it_alt := evaluate start_state (it_alt ?t)\<rparr> = ?t"
    by (simp add: src_token_def)
  have "no_esi ''FRAGMENT-OK''" by code_simp
  then have x: "no_esi ?x" using assms(2) by (simp add: plain_include_def no_esi_def del: contains.simps)
  have xml: "ce_xml env (include_page port) = Some ?t" using assms(1) by (simp add: test_network_def)
  obtain e where ts: "to_string (ce_net env) (ce_key env) (ce_world env path) ?t (test_config env path port cfg) = (?x, False, e)"
    using test_answer [OF assms(1,2)] by blast
  obtain st1 where r: "run_include env sub False 0 path ?c start_state (include_page port)
      = (if can_go_deeper (ce_time env path 1) ?c \<and> (False \<or> \<not> ec_parse_on_header (test_config env path port cfg))
         then (case sub (Suc 0) path
                 (with_elapsed_time (ce_time env path 2) (decrease_max_depth (test_config env path port cfg))) st1 ?x of
                 (text, st2) \<Rightarrow> (e \<noteq> None, text, after_nested st1 st2))
         else (e \<noteq> None, ?x, st1))"
    unfolding run_include_def xml option.case t Let_def test_config_def [symmetric] ts prod.case by simp
  show ?thesis unfolding r assms(3) [OF x] prod.case by simp
qed

lemma test_run:
  assumes "test_network server env" and "plain_include cfg" and "no_esi a" and "no_esi b"
    and "CHR ''<'' \<notin> set a" and "CHR ''<'' \<notin> set b"
  shows "MESIParse env (a @ include_page port @ b) cfg
    = a @ (if loopback_dial cfg \<and> server = Some port then ''FRAGMENT-OK'' else ec_include_error_marker cfg) @ b"
proof -
  define x where "x = (if loopback_dial cfg \<and> server = Some port then ''FRAGMENT-OK'' else ec_include_error_marker cfg)"
  define page where "page = a @ include_page port @ b"
  have t: "esi_tokenizer (unescape page)
      = (if a = [] then [] else [static_token a]) @ [tag_token ''include'' (include_page port), static_token b]"
    unfolding page_def by (rule include_tokens [OF assms(5,6)])
  obtain k where k: "nat (ec_max_depth cfg) = Suc k"
    using assms(2) by (cases "nat (ec_max_depth cfg)") (auto simp: plain_include_def)
  define sub where "sub = mesi_level (Suc k) env"
  have sub: "sub (Suc 0) path c st s = (s, st)" if "no_esi s" for path c st s
    unfolding sub_def by (rule level_plain [OF that])
  have e: "evaluate start_state a = a" "evaluate start_state b = b"
    using assms(3,4) by (simp_all add: evaluate_def evaluate_plain no_esi_def)
  obtain err st where i: "run_include env sub False 0 [length (if a = [] then [] else [a])]
      (enter_parse (ce_cpus env) cfg) start_state (include_page port) = (err, x, st)"
    using test_include [OF assms(1,2), of sub, OF sub] unfolding x_def by blast
  have n: "include_page port \<noteq> []" by (simp add: include_page_def)
  have s: "assemble_results [(a, 0), (b, Suc (Suc 0)), (x, Suc 0)] = a @ x @ b"
    "assemble_results [(b, Suc 0), (x, 0)] = x @ b"
    by (simp_all add: assemble_results_def)
  have "result_text (run env sub 0 [] cfg start_state (Page page)) = a @ x @ b"
    using i n s
    by (cases "a = []")
      (simp_all add: run.simps t e static_token_def tag_token_def is_esi_def done_with_def
        add_result_def add_job_def Let_def result_text_one)
  then show ?thesis
    unfolding page_def [symmetric] x_def [symmetric] MESIParse_def mesi_run_def k mesi_level.simps(2) [of "Suc k"] sub_def [symmetric]
    by (simp add: Let_def)
qed

definition suite_core :: "(nat option \<Rightarrow> core_env) \<Rightarrow> test_core" where
  "suite_core envs server = (\<lambda>(page, cfg). MESIParse (envs server) page cfg)"

lemma suite_core_documented:
  assumes "\<And>server. test_network server (envs server)"
  shows "documented_core (suite_core envs)"
proof -
  have n: "no_esi []" "no_esi ''before''" "no_esi ''after''" "CHR ''<'' \<notin> set ''before''" "CHR ''<'' \<notin> set ''after''"
    by code_simp+
  have "suite_core envs server (page, cfg) = page" if "plain_page page" for server page cfg
    using mesi_plain [OF plain_no_esi [OF that]] by (simp add: suite_core_def MESIParse_def)
  moreover have "suite_core envs (Some port) (include_page port, cfg)
      = (if loopback_dial cfg then ''FRAGMENT-OK'' else ec_include_error_marker cfg)" if "plain_include cfg" for port cfg
    using test_run [OF assms that n(1) n(1), of "Some port" port] by (simp add: suite_core_def)
  moreover have "suite_core envs None (failed_page port, cfg) = ''before'' @ ec_include_error_marker cfg @ ''after''"
    if "plain_include cfg" for port cfg
    using test_run [OF assms that n(2-5), of None port] by (simp only: suite_core_def failed_page_def prod.case) simp
  ultimately show ?thesis unfolding documented_core_def by blast
qed

subsection \<open>Properties\<close>

text \<open>C27: the library passes its own test program with its own core: in a network with the fragment
  servers of the tests, \<open>main\<close> of \<open>test-libgomesi.c\<close>, run over the exported functions, the core and its
  fetcher, counts no failure apart from the fragment servers that did not start.\<close>

theorem libgomesi_tests_pass:
  assumes "\<And>server. test_network server (envs server)"
  shows "test_main (suite_core envs) (s1, s2, s3, s4)
    = not_started s1 + not_started s2 + not_started s3 + not_started s4"
  by (rule documented_tests_pass [OF suite_core_documented [OF assms]])

text \<open>A network for the tests.\<close>

definition suite_world :: "nat option \<Rightarrow> fetch_world" where
  "suite_world server =
    \<lparr> fw_slot = True, fw_lock = True, fw_get = (\<lambda>k. None), fw_get_again = (\<lambda>k. None), fw_dns = (\<lambda>n host. [[127, 0, 0, 1]]),
      fw_answer = (\<lambda>n req ips. case server of
         None \<Rightarrow> None
       | Some port \<Rightarrow>
           if u_text req = frag_url port
           then Some \<lparr> rs_status = 200, rs_location = [], rs_edge_control = [], rs_body = ''FRAGMENT-OK'', rs_breaks = False \<rparr>
           else None) \<rparr>"

definition suite_env :: "nat option \<Rightarrow> core_env" where
  "suite_env server =
    \<lparr> ce_net = sample_net, ce_key = id, ce_dur = (\<lambda>s. None),
      ce_xml = (\<lambda>tag. Some (src_token (takeWhile (\<lambda>c. c \<noteq> CHR 0x22) (drop 18 tag)))), ce_cpus = 1,
      ce_world = (\<lambda>path. plain_world\<lparr>iw_src := suite_world server\<rparr>), ce_time = (\<lambda>path k. 1000) \<rparr>"

lemma frag_url_inj: "frag_url p = frag_url q \<longleftrightarrow> p = q"
proof
  assume "frag_url p = frag_url q"
  then have "show_nat p = show_nat q" by (simp add: frag_url_def)
  then have "digits_val (show_nat p) = digits_val (show_nat q)" by simp
  then show "p = q" by simp
qed simp

lemma suite_network: "test_network server (suite_env server)"
proof -
  have q: "\<forall>c \<in> set (show_nat port). c \<noteq> CHR 0x22" for port
    using show_nat_digits [of port] by (auto simp: is_digit_def)
  have "takeWhile (\<lambda>c. c \<noteq> CHR 0x22) (show_nat port @ x) = show_nat port @ takeWhile (\<lambda>c. c \<noteq> CHR 0x22) x" for port x
    using q [of port] by (simp add: takeWhile_append2)
  then have "takeWhile (\<lambda>c. c \<noteq> CHR 0x22) (drop 18 (include_page port)) = frag_url port" for port
    by (simp add: include_page_def frag_url_def)
  moreover have "url_parse sample_net (frag_url port) = Some (frag_req port)" for port
    by (simp add: sample_net_def frag_req_def frag_url_def)
  moreover have "equal_fold sample_net ''127.0.0.1'' ''127.0.0.1''" "\<not> equal_fold sample_net ''127.0.0.1'' ''example.com''"
    by code_simp+
  ultimately show ?thesis
    by (auto simp: test_network_def suite_env_def suite_world_def plain_world_def frag_req_def frag_url_inj split: option.split)
qed

theorem libgomesi_tests_pass_witness:
  "test_main (suite_core suite_env) (Some 40001, Some 40002, None, Some 40003) = 1"
  using libgomesi_tests_pass [of suite_env "Some 40001" "Some 40002" None "Some 40003", OF suite_network]
  by (simp add: not_started_def)

end
