(* ===== verification/Spec2Isabelle.thy ===== *)
theory Spec2Isabelle
  imports Go_Guard Go_Hosts Go_Suite
begin

text \<open>
  A verification library for the C modules of go-mesi, for the library behind them and for its core.

  go-mesi is an Edge Side Includes processor.  Its core is written in Go and is exported by
  \<open>libgomesi\<close> as a C library; the C modules of this repository put that library behind a
  web server or a scripting language.  A module reads its configuration, collects the body of a
  response, hands it with the configuration to one of the entry points of the library, and sends
  what comes back.  What can go wrong in it is what is proved about it here: a configuration that
  loads although it is not valid, a value that breaks out of a JSON string, a buffer that
  overflows, bytes of a page that are lost or sent twice, a security setting that is dropped on the
  way to the library, a call into a library that is not mapped, an include that is fetched from an
  address that the configuration forbids.

  The parts and their theories.

  Shared: \<open>Mesi_Prelude\<close> (bytes, C strings, decimal numerals, 32 and 64 bit integers, UTF-8, and
  the interface \<open>decimal_parser\<close>), \<open>Mesi_Json\<close> (a JSON reader and renderer, the
  interface \<open>json_quoter\<close>: what is rendered through a routine that meets it reads back),
  \<open>Mesi_Scopes\<close> (nested configuration scopes, the interface \<open>config_scopes\<close>),
  \<open>Mesi_Buffer\<close> (output buffers, the interface \<open>growable_buffer\<close>).

  Apache, \<open>src/servers/apache/mod_mesi.c\<close> and \<open>parse_json_config.h\<close>:
  \<open>Apache_Config\<close> (\<open>mesi_config\<close>, limits, defaults, merge, simple setters),
  \<open>Apache_Num\<close> (the three decimal parsers), \<open>Apache_Hosts\<close> and \<open>Apache_Template\<close> (the host
  list and the cache key template), \<open>Apache_Directives\<close> (the other setters and the directive
  table), \<open>Apache_Blob\<close> (\<open>mesi_build_parse_json_config\<close>), \<open>Apache_Ctx\<close>
  (\<open>build_request_ctx_json\<close> with its growing buffer), \<open>Apache_Worker\<close> (the symbols of the library,
  \<open>mesi_child_init\<close>, \<open>mesi_child_cleanup\<close>, the shared cache and HTTP client),
  \<open>Apache_Header\<close> (the checks on the response and the base URL), \<open>Apache_Filter\<close>
  (\<open>mesi_response_filter\<close>), with proofs in \<open>Apache_Filter_Lemmas\<close>, \<open>Apache_Calls\<close> (what
  a parse call carries), \<open>Apache_Response\<close> (a whole response), \<open>Apache_Life\<close> (the life of a
  worker).

  nginx, \<open>src/servers/nginx/ngx_http_mesi_module.c\<close>: \<open>Ngx_Config\<close> (the location
  configuration, the setters, \<open>create\<close> and \<open>merge\<close>), \<open>Ngx_Json\<close> (the JSON writers, which measure
  first and write into an exact allocation), \<open>Ngx_Parse\<close> (the process state, the guards, the cache
  set-up and the choice of the entry point in \<open>parse\<close>), \<open>Ngx_Filter\<close> (the header and body filters
  and the checks they use), with proofs in \<open>Ngx_Config_Lemmas\<close>, \<open>Ngx_Json_Lemmas\<close>,
  \<open>Ngx_Parse_Lemmas\<close>, \<open>Ngx_Filter_Lemmas\<close> and \<open>Ngx_Response\<close>.

  PHP, \<open>src/php-ext/mesi.c\<close>: \<open>Php_Options\<close> (PHP values, the checks on each key of the
  configuration array in the order of \<open>parse_with_config\<close>), \<open>Php_Json\<close> (the bounded and the growing
  buffer, the ParseJson blob, the cache configuration, the request context), \<open>Php_Parse\<close> (the
  static variables, \<open>parse\<close>, the rest of \<open>parse_with_config\<close>, \<open>MINIT\<close> and \<open>MSHUTDOWN\<close>), with
  proofs in \<open>Php_Options_Lemmas\<close>, \<open>Php_Json_Lemmas\<close> (the interface \<open>byte_sink\<close>, met by both
  buffers) and \<open>Php_Parse_Lemmas\<close>.

  The library, \<open>src/libgomesi\<close>, which is written in Go: \<open>Go_Json\<close> (\<open>encoding/json\<close> as far as
  the library uses it: strings with their repair of invalid UTF-8, numbers, nesting), \<open>Go_Config\<close>
  (\<open>internal/config\<close>: limits, \<open>ParseConfig\<close>, the resolution of absent keys, the host list),
  \<open>Go_Bridge\<close> (\<open>libgomesi.go\<close> and \<open>cache_config.go\<close>: the globals and the exported functions),
  \<open>Go_Wire\<close> (what a blob and each entry point deliver to the core), \<open>Go_Cache\<close> (calls in order,
  the cache configurations read back), \<open>Go_Hosts\<close> (the host list on both sides),
  \<open>Go_Tests\<close> (\<open>test-libgomesi.c\<close>, the C program that tests the exported functions).  \<open>Go_Apache\<close>,
  \<open>Go_Nginx\<close> and \<open>Go_Php\<close> put the modules and the library together.

  The core, \<open>src/mesi\<close>, in Go: \<open>Go_Ssrf\<close> (the address test of \<open>ssrf.go\<close>), \<open>Go_Policy\<close> (the URL check,
  the host list, the dialers of \<open>ssrf_dialer.go\<close>, the fingerprint of the policy in cache keys), \<open>Go_Fetch\<close>
  (\<open>fetch.go\<close>: one fetch with its redirects, cache look-ups and size limit), \<open>Go_Shared\<close> (a cache that
  many configurations use), \<open>Go_Include\<close> (\<open>include.go\<close>, \<open>config.go\<close>, \<open>max_depth.go\<close>, \<open>ab_ratio.go\<close>,
  \<open>fetch_mode.go\<close>: what an include inherits and overrides, and how it is fetched), \<open>Go_Tokens\<close>
  (\<open>tokenizer.go\<close>, \<open>unescape.go\<close>), \<open>Go_Blocks\<close> (the try, choose and inline blocks of \<open>parser.go\<close> and
  \<open>inline.go\<close>), \<open>Go_Vars\<close> (\<open>vars.go\<close>), \<open>Go_Page\<close> (\<open>MESIParse\<close>: the page, its jobs and the fragments that
  are parsed in turn).  \<open>Go_Guard\<close> puts everything together, from a directive to a dialled address, and
  \<open>Go_Suite\<close> runs the C test program over the library with this core.

  How state and operations correspond.  A C string is the list of its bytes before the NUL, a
  pointer that may be NULL an option, an \<open>ngx_str_t\<close> its bytes; a struct is a record with the same
  fields; integers are \<open>int\<close> with the two's complement reduction \<open>s32\<close>, \<open>s64\<close> where an expression
  could leave its type.  A setter returns the error text or the new record.  The process globals
  are the records \<open>worker\<close>, \<open>ngx_worker\<close> and \<open>php_state\<close>; in the servers a library call is appended to a list together with
  whether the library was mapped at that moment.  Writes into a buffer are checked against its
  capacity, so a result of type option that is \<open>Some\<close> says that no write left the allocation; a
  doubling loop is a \<open>partial_function\<close>, so the same result says that it ended.  A bucket
  brigade or a buffer chain is a list.  The writers of the PHP extension have three results: \<open>Done\<close>,
  \<open>Full\<close> for their failure return, \<open>Stuck\<close> for an access outside the buffer or a value of the
  wrong type; an allocation may fail, by a parameter that says which sizes succeed.  A PHP array is
  the list of its entries in order, a PHP string all its bytes, and \<open>zcstr\<close> the part of it that C string
  functions see.  A warning of the extension is a value.  What client and cache the library holds
  after a list of calls is computed from that list (\<open>client_after\<close>, \<open>cache_after\<close>), to compare it
  with what the static variables say.

  In the theories of the modules the library is a parameter: which symbols it exports, and what its
  functions return (\<open>golib\<close>); \<open>go_library\<close> is the library of \<open>Go_Bridge\<close> in that place.
  The globals of the library are the record \<open>go_state\<close>, computed from the calls so far
  (\<open>go_run\<close>).  A parse function is the call of \<open>MESIParse\<close> that it makes, the page and the
  \<open>EsiParserConfig\<close>, or none when it answers NULL.  For the modules and the library the core is a parameter, an arbitrary
  function of the two; so is the order in which Go ranges over a map.  In \<open>Go_Guard\<close> the parameter is
  the core of \<open>Go_Page\<close> (\<open>esi_core\<close>).  The core's own parameters are what lies outside the
  repository: \<open>go_net\<close> (\<open>net/url\<close> and \<open>strings.EqualFold\<close>; \<open>ascii_fold\<close> states what is used of the latter), the answers of name servers, of
  HTTP servers and of the cache for each fetch (\<open>fetch_world\<close>), the clock, the random numbers, the order in which concurrent fetches end
  (\<open>include_world\<close>), the tokens of \<open>encoding/xml\<close> and the reading of durations (\<open>core_env\<close>), the key
  function of the cache.  \<open>clocks\<close> says that a measured duration is not negative and fits 63 bits.
  Parameters are also what httpd and nginx compute (the server name and port, how a
  directive line is split, the page size) and the outcomes of \<open>dlopen\<close> and \<open>dladdr\<close>.  The setters that belong to
  nginx itself are modelled by their documented effect: store once, reject a repetition.

  What the groups of lemmas show.  Configuration: whatever directives are nested in whatever way,
  a configuration that loads is in range (\<open>config_ok\<close>, \<open>ngx_conf_ok\<close>), and merging is
  inheritance from the innermost scope; \<open>parse_with_config\<close> accepts exactly the arrays that satisfy
  the rules of its checks (\<open>config_accepted\<close>).  Parsers: they accept exactly the numerals in range, without
  overflow.  Writers: every blob fits what is allocated for it and reads back to the values
  written; where one does not fit (the Redis database number in nginx, a Redis address of 4065 to 4080 bytes
  in the PHP extension) the exact condition is given.  Host lists: a list is accepted exactly when it names a host for the library.  Calls: every parse
  call carries the page, the depth, the base URL, the host list and the address policy
  (\<open>carries\<close>, \<open>ngx_carries\<close>, \<open>php_carries\<close>); the entry point without protection is only used when nothing is to
  be enforced.  Filters: the outcome depends on the bytes of the page and not on how they are cut,
  no more than the limit is held, an unprocessed page is untouched, a NULL answer fails closed.
  Workers: the library is called only while it is mapped, shared set-up happens once.  PHP
  process: in every state reachable by calls (\<open>php_live\<close>) a page is parsed under the client and the
  cache that its own call asks for, the cache is not set up again for the same settings, and false
  is never returned without a warning; where the static variables and the library part (a second
  start in one process, a refused cache set-up) is stated at the end of \<open>Php_Parse_Lemmas\<close>.  Across the
  modules: they write the same texts for the same settings, and the servers take the same decision on
  \<open>Edge-control\<close>, the one of the Go core.

  Modules and library: whatever entry point a server takes, the core runs with the whole page and \<open>core_config\<close>, the configuration
  that the settings of the host, location or call ask for (\<open>Go_Apache\<close>,
  \<open>Go_Nginx\<close>, \<open>Go_Php\<close>), under the hypothesis that the
  configured texts are UTF-8 without NUL (\<open>go_text\<close>), since \<open>encoding/json\<close> changes any other text;
  the cache that a server configures is the one the library builds; the client that Apache shares keeps
  the policy of the host whose request set it up (\<open>client_host\<close>, a function of the requests served so far), which is a finding.  The test program of the library passes over every
  core that copies plain text and answers an include by its dial policy (\<open>documented_core\<close>), and the
  core of \<open>Go_Page\<close> is such a core in the network that the tests set up (\<open>test_network\<close>).

  The core: the address test is the membership in the listed blocks; every hop of a fetch,
  redirects included, is one that the policy of its configuration allows (\<open>hop_within\<close>); equal cache keys
  mean equal policies, so a shared cache gives nothing away to a configuration that could not have
  fetched it, unless the configurations have clients of their own (\<open>client_policy_not_in_key\<close>).  An
  include inherits the policy and can only tighten budget and depth.  The tokenizer loses no byte, a page without ESI is
  left alone, rendering ends at the maximum depth.  The requests of a whole page, with all its
  fragments, are collected in \<open>ps_log\<close>, a field of the state that the code does not have and that nothing reads; by
  \<open>page_log\<close> they are among \<open>page_hops\<close>, the hops of the inductive relation \<open>renders\<close>.  \<open>Go_Guard\<close> states what the settings
  of a location, a call or a virtual host admit (\<open>settings_admit\<close>, \<open>settings_private_ok\<close>) and
  concludes that the rendering of its pages stays within them; for Apache with the exception of the shared client.

  Fuel and bounds.  The JSON reader takes the length of the text as its fuel; \<open>need_le_length\<close>
  shows that it is enough for every rendered value.  The reader of \<open>Go_Json\<close> takes twice the length
  plus two, which \<open>go_read_fuel\<close> shows to be as good as any larger amount, and refuses a nesting above 10000 as \<open>encoding/json\<close> does.  \<open>mesi_level\<close> takes the number of levels
  of fragments, and one more than the maximum depth is shown to be as good as any larger number.  No other definition
  takes fuel.

  Not modelled: log lines; failing allocations in the servers (httpd aborts on them, the nginx module
  fails the request closed); the registration of hooks, filters and modules, which only passes function pointers;
  the threads of a worker under Apache's worker and event MPMs, where two requests may both find the
  shared cache or client not yet set up (the model serves the requests of a worker one after the other); the interleaving of the
  core's goroutines (workers of one page run in order; they share only the map of variables, see the
  findings); ETag and file position bookkeeping of nginx; the function table and
  module entry of the PHP extension, and its threads (the static variables are one state); the sockets
  of the fragment server in the library's test program, and the test program of the Apache
  directives, which runs against stubs of httpd; of the core the cache backends and \<open>BuildCacheKey\<close>, the
  proxies taken from the environment, the cancellation of a context, the headers that a request sends
  and, of \<open>IsEsiResponse\<close>, what concerns bytes that are not ASCII; the Go servers.
\<close>

end
